(* ===== verification/Prelude.thy ===== *)
theory Prelude
  imports Main "HOL-Library.Word" "HOL-Library.Monad_Syntax" "HOL-Library.Code_Target_Nat"
begin

text \<open>
  What every component of the development shares: the types that stand for Rust's
  \<open>char\<close>, \<open>String\<close>, \<open>usize\<close> and fixed width integers, the reading of a panic as
  \<^term>\<open>None\<close>, the collections of rules the component proofs draw on, and the
  lemmas on lists, options and association lists that more than one component uses.
\<close>

section \<open>Characters and text\<close>

text \<open>
  A Rust \<open>char\<close> is a Unicode scalar value and a \<open>String\<close>, once collected into a
  \<open>Vec<char>\<close>, a list of them. Isabelle's \<open>char\<close> holds eight bits only, so a
  character is its code point here and \<open>cp CHR ''x''\<close> writes an ASCII one.
\<close>

type_synonym uchar = nat
type_synonym ustring = "uchar list"

abbreviation cp :: "char \<Rightarrow> uchar" where
  "cp c \<equiv> of_char c"

abbreviation str :: "string \<Rightarrow> ustring" where
  "str s \<equiv> map of_char s"

text \<open>\<open>char::from_u32\<close>: a surrogate and anything past the last plane is no character.\<close>

definition char_from_u32 :: "nat \<Rightarrow> uchar option" where
  "char_from_u32 n =
     (if n < 0xD800 \<or> (0xDFFF < n \<and> n \<le> 0x10FFFF) then Some n else None)"

section \<open>Panics\<close>

text \<open>
  An index out of range, a failed \<open>expect\<close> or an \<open>assert!\<close> ends the Rust program.
  A definition whose code can do that returns an \<open>option\<close>, with \<^term>\<open>None\<close> for
  the panic, so that "does not panic" is a theorem and never an assumption.
\<close>

type_synonym 'a panics = "'a option"

definition expect :: "'a option \<Rightarrow> 'a panics" where
  [simp]: "expect x = x"

definition assert_that :: "bool \<Rightarrow> unit panics" where
  "assert_that b = (if b then Some () else None)"

lemma assert_that_Some [simp]: "assert_that b = Some u \<longleftrightarrow> b"
  by (simp add: assert_that_def)

lemma assert_that_True [simp]: "assert_that True = Some ()"
  by (simp add: assert_that_def)

lemma assert_that_False [simp]: "assert_that False = None"
  by (simp add: assert_that_def)

text \<open>\<open>vec[i]\<close>, which panics out of range, and the slice \<open>vec[from..to]\<close>.\<close>

definition index :: "'a list \<Rightarrow> nat \<Rightarrow> 'a panics" where
  "index xs i = (if i < length xs then Some (xs ! i) else None)"

definition slice :: "'a list \<Rightarrow> nat \<Rightarrow> nat \<Rightarrow> 'a list panics" where
  "slice xs lo hi =
     (if lo \<le> hi \<and> hi \<le> length xs then Some (take (hi - lo) (drop lo xs)) else None)"

text \<open>\<open>a - b\<close> on \<open>usize\<close>, which panics (or, unchecked, wraps) below zero.\<close>

definition usub :: "nat \<Rightarrow> nat \<Rightarrow> nat panics" where
  "usub a b = (if b \<le> a then Some (a - b) else None)"

lemma index_Some [simp]: "index xs i = Some x \<longleftrightarrow> i < length xs \<and> xs ! i = x"
  by (auto simp: index_def)

lemma index_in [simp]: "i < length xs \<Longrightarrow> index xs i = Some (xs ! i)"
  by (simp add: index_def)

lemma slice_in [simp]:
  "lo \<le> hi \<Longrightarrow> hi \<le> length xs \<Longrightarrow>
     slice xs lo hi = Some (take (hi - lo) (drop lo xs))"
  by (simp add: slice_def)

lemma slice_Some:
  "slice xs lo hi = Some ys \<longleftrightarrow>
     lo \<le> hi \<and> hi \<le> length xs \<and> ys = take (hi - lo) (drop lo xs)"
  by (auto simp: slice_def)

lemma usub_in [simp]: "b \<le> a \<Longrightarrow> usub a b = Some (a - b)"
  by (simp add: usub_def)

lemma usub_Some: "usub a b = Some c \<longleftrightarrow> b \<le> a \<and> c = a - b"
  by (auto simp: usub_def)

section \<open>Integers\<close>

text \<open>
  \<open>x as u32\<close> and \<open>x as i16\<close> keep the low bits of a wider integer and read them
  unsigned or as two's complement.
\<close>

definition as_u16 :: "nat \<Rightarrow> nat" where
  "as_u16 n = n mod 2 ^ 16"

definition as_u32 :: "nat \<Rightarrow> nat" where
  "as_u32 n = n mod 2 ^ 32"

definition as_i16 :: "nat \<Rightarrow> int" where
  "as_i16 n = (let m = int (n mod 2 ^ 16) in if m < 2 ^ 15 then m else m - 2 ^ 16)"

definition in_i64 :: "int \<Rightarrow> bool" where
  "in_i64 n \<longleftrightarrow> - (2 ^ 63) \<le> n \<and> n < 2 ^ 63"

lemma as_u16_id [simp]: "n < 2 ^ 16 \<Longrightarrow> as_u16 n = n"
  by (simp add: as_u16_def)

lemma as_u32_id [simp]: "n < 2 ^ 32 \<Longrightarrow> as_u32 n = n"
  by (simp add: as_u32_def)

lemma as_i16_id [simp]: "n < 2 ^ 15 \<Longrightarrow> as_i16 n = int n"
  by (simp add: as_i16_def Let_def)

section \<open>Lists\<close>

text \<open>\<open>iter().position(p)\<close>.\<close>

primrec position :: "('a \<Rightarrow> bool) \<Rightarrow> 'a list \<Rightarrow> nat option" where
  "position p [] = None"
| "position p (x # xs) = (if p x then Some 0 else map_option Suc (position p xs))"

lemma position_None: "position p xs = None \<longleftrightarrow> (\<forall>x \<in> set xs. \<not> p x)"
  by (induction xs) auto

lemma position_Some:
  "position p xs = Some i \<Longrightarrow> i < length xs \<and> p (xs ! i) \<and> (\<forall>j < i. \<not> p (xs ! j))"
proof (induction xs arbitrary: i)
  case Nil
  then show ?case by simp
next
  case (Cons x xs)
  show ?case
  proof (cases "p x")
    case True
    with Cons.prems show ?thesis by simp
  next
    case False
    with Cons.prems obtain k where k: "position p xs = Some k" "i = Suc k" by auto
    with Cons.IH have "k < length xs" "p (xs ! k)" "\<forall>j < k. \<not> p (xs ! j)" by blast+
    with False k(2) show ?thesis by (auto simp: nth_Cons split: nat.splits)
  qed
qed

lemma position_append:
  "position p (xs @ ys) =
     (case position p xs of Some i \<Rightarrow> Some i
      | None \<Rightarrow> map_option (\<lambda>i. i + length xs) (position p ys))"
  by (induction xs) (auto split: option.splits simp: option.map_comp o_def option.map_ident)

lemma position_cong:
  "length xs = length ys \<Longrightarrow> (\<And>i. i < length xs \<Longrightarrow> p (xs ! i) = q (ys ! i)) \<Longrightarrow>
     position p xs = position q ys"
proof (induction xs ys rule: list_induct2)
  case Nil
  then show ?case by simp
next
  case (Cons x xs y ys)
  have "p x = q y" using Cons.prems[of 0] by simp
  moreover have "position p xs = position q ys"
    by (rule Cons.IH) (use Cons.prems in \<open>force\<close>)
  ultimately show ?case by simp
qed

text \<open>\<open>iter().rposition(p)\<close>, which searches from the back.\<close>

definition rposition :: "('a \<Rightarrow> bool) \<Rightarrow> 'a list \<Rightarrow> nat option" where
  "rposition p xs = map_option (\<lambda>i. length xs - 1 - i) (position p (rev xs))"

section \<open>Calls that may panic, inside a list or an option\<close>

text \<open>\<open>into_iter().map(f).collect()\<close> and \<open>Option::map(f)\<close> for an \<open>f\<close> that may panic.\<close>

primrec all_some :: "'a option list \<Rightarrow> 'a list option" where
  "all_some [] = Some []"
| "all_some (x # xs) = do { y \<leftarrow> x; ys \<leftarrow> all_some xs; Some (y # ys) }"

definition opt_some :: "'a option option \<Rightarrow> 'a option option" where
  "opt_some x = (case x of None \<Rightarrow> Some None | Some y \<Rightarrow> map_option Some y)"

lemma opt_some_simps [simp]:
  "opt_some None = Some None" "opt_some (Some x) = map_option Some x"
  by (simp_all add: opt_some_def)

lemma all_some_map_Some:
  "all_some (map f xs) = Some ys \<longleftrightarrow>
     length ys = length xs \<and> (\<forall>i < length xs. f (xs ! i) = Some (ys ! i))"
proof (induction xs arbitrary: ys)
  case Nil
  then show ?case by auto
next
  case (Cons x xs)
  then show ?case
    by (cases ys) (auto simp: Option.bind_eq_Some_conv nth_Cons less_Suc_eq_0_disj split: nat.split)
qed

lemma all_some_ex: "(\<And>x. x \<in> set xs \<Longrightarrow> \<exists>y. f x = Some y) \<Longrightarrow> \<exists>ys. all_some (map f xs) = Some ys"
proof (induction xs)
  case Nil
  then show ?case by simp
next
  case (Cons x xs)
  then obtain y ys where "f x = Some y" "all_some (map f xs) = Some ys" by fastforce
  then show ?case by simp
qed

text \<open>A property of the elements carries over to the results.\<close>

lemma all_some_set:
  "all_some (map f xs) = Some ys \<Longrightarrow> (\<And>x y. x \<in> set xs \<Longrightarrow> f x = Some y \<Longrightarrow> P y) \<Longrightarrow>
     y \<in> set ys \<Longrightarrow> P y"
proof (induction xs arbitrary: ys)
  case Nil
  then show ?case by simp
next
  case (Cons x xs)
  then obtain z zs where z: "f x = Some z" "all_some (map f xs) = Some zs" "ys = z # zs"
    by (auto simp: Option.bind_eq_Some_conv)
  then have "P z" "y \<in> set zs \<Longrightarrow> P y" using Cons.prems(2) Cons.IH [OF z(2)] by auto
  then show ?case using z(3) Cons.prems(3) by auto
qed

lemma all_some_sum:
  "all_some (map f xs) = Some ys \<Longrightarrow> (\<And>x y. x \<in> set xs \<Longrightarrow> f x = Some y \<Longrightarrow> g y = (h x :: nat)) \<Longrightarrow>
     sum_list (map g ys) = sum_list (map h xs)"
  by (induction xs arbitrary: ys) (auto simp: Option.bind_eq_Some_conv)

lemma all_some_id:
  "(\<And>x. x \<in> set xs \<Longrightarrow> f x = Some x) \<Longrightarrow> all_some (map f xs) = Some xs"
  by (induction xs) auto

end
