(* ===== verification/F64.thy ===== *)
theory F64
  imports Prelude
begin

text \<open>
  Rust's \<open>f64\<close>: the IEEE 754 double as its 64 bits, with the operations of the
  language and of its standard library that the modelled code uses. A finite double is
  a mantissa times a power of two; the power is kept as a natural number by counting in
  units of \<open>2^(-1074)\<close>, the least positive double, so every finite double has a
  natural magnitude \<open>f64_mag\<close> in that unit and every operation is exact arithmetic
  on those followed by one rounding to nearest, ties to even.
\<close>

type_synonym f64 = "64 word"

section \<open>The fields of a double\<close>

definition f64_sign :: "f64 \<Rightarrow> bool" where
  "f64_sign x \<longleftrightarrow> 2 ^ 63 \<le> unat x"

text \<open>The low 63 bits, which order the magnitudes.\<close>

definition f64_abs_bits :: "f64 \<Rightarrow> nat" where
  "f64_abs_bits x = unat x mod 2 ^ 63"

definition f64_make :: "bool \<Rightarrow> nat \<Rightarrow> f64" where
  "f64_make s b = word_of_nat ((if s then 2 ^ 63 else 0) + b)"

definition f64_inf_bits :: nat where
  "f64_inf_bits = 0x7FF0000000000000"

definition f64_is_nan :: "f64 \<Rightarrow> bool" where
  "f64_is_nan x \<longleftrightarrow> f64_inf_bits < f64_abs_bits x"

definition f64_is_finite :: "f64 \<Rightarrow> bool" where
  "f64_is_finite x \<longleftrightarrow> f64_abs_bits x < f64_inf_bits"

text \<open>Mantissa and exponent (in units of \<open>2^(-1074)\<close>) of a bit pattern without sign.\<close>

definition bits_mant :: "nat \<Rightarrow> nat" where
  "bits_mant b = (if b div 2 ^ 52 = 0 then b else 2 ^ 52 + b mod 2 ^ 52)"

definition bits_exp :: "nat \<Rightarrow> nat" where
  "bits_exp b = b div 2 ^ 52 - 1"

definition bits_mag :: "nat \<Rightarrow> nat" where
  "bits_mag b = bits_mant b * 2 ^ bits_exp b"

definition f64_mag :: "f64 \<Rightarrow> nat" where
  "f64_mag x = bits_mag (f64_abs_bits x)"

text \<open>The value of a finite double, in units of \<open>2^(-1074)\<close>.\<close>

definition f64_scaled :: "f64 \<Rightarrow> int" where
  "f64_scaled x = (if f64_sign x then - int (f64_mag x) else int (f64_mag x))"

section \<open>Rounding\<close>

fun bitlen :: "nat \<Rightarrow> nat" where
  "bitlen n = (if n = 0 then 0 else Suc (bitlen (n div 2)))"

declare bitlen.simps [simp del]

text \<open>
  The bits of the double nearest to \<open>m * 2^x\<close> units, ties to the even mantissa. Past
  the largest finite double the result is the infinity.
\<close>

definition f64_round :: "nat \<Rightarrow> int \<Rightarrow> nat" where
  "f64_round m x =
     (if m = 0 then 0 else
      let k = nat (int (bitlen m) + x - 53);
          up = nat (x - int k);
          u = 2 ^ nat (int k - x);
          q = m * 2 ^ up div u;
          r = m * 2 ^ up mod u;
          q' = (if u < 2 * r \<or> (2 * r = u \<and> odd q) then q + 1 else q)
      in min (k * 2 ^ 52 + q') f64_inf_bits)"

definition f64_of_scaled :: "bool \<Rightarrow> nat \<Rightarrow> int \<Rightarrow> f64" where
  "f64_of_scaled s m x = f64_make s (f64_round m x)"

section \<open>Comparison\<close>

text \<open>Zeros of either sign compare equal and a NaN compares with nothing.\<close>

definition f64_key :: "f64 \<Rightarrow> int" where
  "f64_key x = (if f64_sign x then - int (f64_abs_bits x) else int (f64_abs_bits x))"

definition f64_eq :: "f64 \<Rightarrow> f64 \<Rightarrow> bool" where
  "f64_eq x y \<longleftrightarrow> \<not> f64_is_nan x \<and> \<not> f64_is_nan y \<and> f64_key x = f64_key y"

definition f64_lt :: "f64 \<Rightarrow> f64 \<Rightarrow> bool" where
  "f64_lt x y \<longleftrightarrow> \<not> f64_is_nan x \<and> \<not> f64_is_nan y \<and> f64_key x < f64_key y"

definition f64_le :: "f64 \<Rightarrow> f64 \<Rightarrow> bool" where
  "f64_le x y \<longleftrightarrow> \<not> f64_is_nan x \<and> \<not> f64_is_nan y \<and> f64_key x \<le> f64_key y"

section \<open>Conversions\<close>

definition f64_nan :: f64 where
  "f64_nan = 0x7FF8000000000000"

text \<open>The integer part of a finite double's magnitude.\<close>

definition bits_whole :: "nat \<Rightarrow> nat" where
  "bits_whole b =
     (if 1074 \<le> bits_exp b then bits_mant b * 2 ^ (bits_exp b - 1074)
      else bits_mant b div 2 ^ (1074 - bits_exp b))"

definition f64_whole :: "f64 \<Rightarrow> int" where
  "f64_whole x = (let n = int (bits_whole (f64_abs_bits x)) in if f64_sign x then - n else n)"

definition f64_of_int :: "int \<Rightarrow> f64" where
  "f64_of_int n = f64_of_scaled (n < 0) (nat \<bar>n\<bar>) 1074"

text \<open>\<open>f64::trunc\<close>: towards zero, keeping the sign of a zero result.\<close>

definition f64_trunc :: "f64 \<Rightarrow> f64" where
  "f64_trunc x =
     (if f64_is_finite x
      then f64_of_scaled (f64_sign x) (bits_whole (f64_abs_bits x)) 1074 else x)"

text \<open>\<open>x as i64\<close>: truncates, saturates at both ends and sends a NaN to zero.\<close>

definition f64_as_i64 :: "f64 \<Rightarrow> int" where
  "f64_as_i64 x =
     (if f64_is_nan x then 0
      else if \<not> f64_is_finite x then (if f64_sign x then - (2 ^ 63) else 2 ^ 63 - 1)
      else max (- (2 ^ 63)) (min (2 ^ 63 - 1) (f64_whole x)))"

section \<open>Arithmetic\<close>

definition f64_abs :: "f64 \<Rightarrow> f64" where
  "f64_abs x = f64_make False (f64_abs_bits x)"

definition f64_copysign :: "f64 \<Rightarrow> f64 \<Rightarrow> f64" where
  "f64_copysign x y = f64_make (f64_sign y) (f64_abs_bits x)"

text \<open>
  The sum of two finite doubles, exactly over their common exponent and then rounded. An
  exact zero is positive unless both operands are negative zeros.
\<close>

definition f64_add :: "f64 \<Rightarrow> f64 \<Rightarrow> f64" where
  "f64_add x y =
     (if f64_is_nan x \<or> f64_is_nan y then f64_nan
      else if \<not> f64_is_finite x \<and> \<not> f64_is_finite y then
        (if f64_sign x = f64_sign y then x else f64_nan)
      else if \<not> f64_is_finite x then x
      else if \<not> f64_is_finite y then y
      else
        (let ex = bits_exp (f64_abs_bits x); ey = bits_exp (f64_abs_bits y);
             e = min ex ey;
             ax = int (bits_mant (f64_abs_bits x)) * 2 ^ (ex - e);
             ay = int (bits_mant (f64_abs_bits y)) * 2 ^ (ey - e);
             s = (if f64_sign x then - ax else ax) + (if f64_sign y then - ay else ay)
         in f64_of_scaled
              (if s = 0 then f64_sign x \<and> f64_sign y else s < 0) (nat \<bar>s\<bar>) (int e)))"

definition f64_neg :: "f64 \<Rightarrow> f64" where
  "f64_neg x = f64_make (\<not> f64_sign x) (f64_abs_bits x)"

definition f64_sub :: "f64 \<Rightarrow> f64 \<Rightarrow> f64" where
  "f64_sub x y = f64_add x (f64_neg y)"

text \<open>
  \<open>x % y\<close>: the remainder of the exact quotient truncated to an integer, with the sign of
  the dividend; a NaN where the quotient has no integer part.
\<close>

definition f64_rem :: "f64 \<Rightarrow> f64 \<Rightarrow> f64" where
  "f64_rem x y =
     (if f64_is_nan x \<or> f64_is_nan y \<or> \<not> f64_is_finite x \<or> f64_abs_bits y = 0 then f64_nan
      else if \<not> f64_is_finite y then x
      else
        (let ex = bits_exp (f64_abs_bits x); ey = bits_exp (f64_abs_bits y);
             e = min ex ey;
             r = bits_mant (f64_abs_bits x) * 2 ^ (ex - e) mod
                 (bits_mant (f64_abs_bits y) * 2 ^ (ey - e))
         in f64_of_scaled (f64_sign x) r (int e)))"

text \<open>\<open>f64::rem_euclid\<close>, as the standard library writes it.\<close>

definition f64_rem_euclid :: "f64 \<Rightarrow> f64 \<Rightarrow> f64" where
  "f64_rem_euclid x y =
     (let r = f64_rem x y in if f64_lt r 0 then f64_add r (f64_abs y) else r)"

text \<open>
  The double nearest to \<open>n / d\<close>, which is what \<open>f64::from_str\<close> gives for a decimal
  literal: the quotient to at least 55 bits, with a last bit that says whether anything
  is left below them, then one rounding.
\<close>

definition f64_of_ratio :: "nat \<Rightarrow> nat \<Rightarrow> f64" where
  "f64_of_ratio n d =
     (if n = 0 then 0
      else (let j = bitlen d + 56 - bitlen n;
                q = n * 2 ^ j div d;
                m = 2 * q + (if n * 2 ^ j mod d = 0 then 0 else 1)
            in f64_of_scaled False m (1073 - int j)))"

section \<open>Bit lengths\<close>

lemma bitlen_0 [simp]: "bitlen 0 = 0" by (simp add: bitlen.simps)
lemma bitlen_eq_0 [simp]: "bitlen n = 0 \<longleftrightarrow> n = 0" by (subst bitlen.simps) simp

lemma bitlen_pos: "0 < n \<Longrightarrow> bitlen n = Suc (bitlen (n div 2))" by (subst bitlen.simps) simp

lemma bitlen_bounds: "n < 2 ^ bitlen n \<and> (0 < n \<longrightarrow> 2 ^ (bitlen n - 1) \<le> n)"
proof (induction n rule: bitlen.induct)
  case (1 n)
  show ?case
  proof (cases "n = 0")
    case False
    then have IH: "n div 2 < 2 ^ bitlen (n div 2)" "0 < n div 2 \<longrightarrow> 2 ^ (bitlen (n div 2) - 1) \<le> n div 2"
      using 1 by auto
    have up: "n < 2 ^ bitlen n" using False IH(1) by (simp add: bitlen_pos)
    have "2 ^ (bitlen n - 1) \<le> n"
    proof (cases "n div 2 = 0")
      case True
      with False have "n = 1" by simp
      then show ?thesis by (simp add: bitlen.simps[of "Suc 0"])
    next
      case nz: False
      then obtain k where k: "bitlen (n div 2) = Suc k" by (cases "bitlen (n div 2)") auto
      with IH(2) nz have "2 ^ k \<le> n div 2" by simp
      then show ?thesis using False k by (simp add: bitlen_pos)
    qed
    with up show ?thesis by simp
  qed simp
qed

lemmas bitlen_upper = bitlen_bounds [THEN conjunct1]
lemma bitlen_lower: "0 < n \<Longrightarrow> 2 ^ (bitlen n - 1) \<le> n" using bitlen_bounds by blast

lemma bitlen_unique: 
  assumes "2 ^ k \<le> n" "n < 2 ^ Suc k" shows "bitlen n = Suc k"
proof -
  have n: "0 < n" using assms(1) by (metis gr0I power_not_zero le_zero_eq zero_neq_numeral)
  have "2 ^ (bitlen n - 1) < (2::nat) ^ Suc k" using bitlen_lower[OF n] assms(2) by linarith
  then have "bitlen n - 1 < Suc k" by (rule power_less_imp_less_exp[rotated]) simp
  moreover have "(2::nat) ^ k < 2 ^ bitlen n" using bitlen_upper[of n] assms(1) by linarith
  then have "k < bitlen n" by (rule power_less_imp_less_exp[rotated]) simp
  ultimately show ?thesis by linarith
qed

lemma bitlen_shift: "0 < m \<Longrightarrow> bitlen (m * 2 ^ x) = bitlen m + x"
proof -
  assume m: "0 < m"
  then obtain k where k: "bitlen m = Suc k" by (cases "bitlen m") auto
  have "2 ^ k \<le> m" "m < 2 ^ Suc k" using bitlen_lower[OF m] bitlen_upper[of m] k by auto
  then have "2 ^ (k + x) \<le> m * 2 ^ x" "m * 2 ^ x < 2 ^ Suc (k + x)" by (simp_all add: power_add)
  then have "bitlen (m * 2 ^ x) = Suc (k + x)" by (rule bitlen_unique)
  then show ?thesis using k by simp
qed

lemma bitlen_le: "n < 2 ^ k \<Longrightarrow> bitlen n \<le> k"
proof (cases "n = 0")
  case False
  assume "n < 2 ^ k"
  then have "2 ^ (bitlen n - 1) < (2::nat) ^ k" using bitlen_lower[of n] False by linarith
  then have "bitlen n - 1 < k" by (rule power_less_imp_less_exp[rotated]) simp
  then show ?thesis by simp
qed simp

section \<open>Exact magnitudes\<close>

text \<open>An exactly representable magnitude: at most 53 significant bits.\<close>
definition f64_exact :: "nat \<Rightarrow> bool" where
  "f64_exact M \<longleftrightarrow> M < 2 ^ 2098 \<and> 2 ^ (bitlen M - 53) dvd M"

lemma f64_exactI: 
  assumes "M = q * 2 ^ j" "q < 2 ^ 53" "M < 2 ^ 2098"
  shows "f64_exact M"
proof -
  have "bitlen M \<le> j + 53 \<or> M = 0"
  proof (cases "q = 0")
    case False
    then have "bitlen M = bitlen q + j" using assms(1) bitlen_shift by simp
    moreover have "bitlen q \<le> 53" using assms(2) by (rule bitlen_le)
    ultimately show ?thesis by simp
  qed (use assms in simp)
  then have "bitlen M - 53 \<le> j \<or> M = 0" by auto
  then have "2 ^ (bitlen M - 53) dvd M" using assms(1) by (auto simp: le_imp_power_dvd)
  with assms(3) show ?thesis by (simp add: f64_exact_def)
qed

lemma f64_exact_round:
  assumes "f64_exact (m * 2 ^ x)"
  shows "f64_round m (int x) < f64_inf_bits \<and> bits_mag (f64_round m (int x)) = m * 2 ^ x"
proof (cases "m = 0")
  case True
  then show ?thesis by (simp add: f64_round_def f64_inf_bits_def bits_mag_def bits_mant_def)
next
  case False
  then have that: "0 < m" by simp
  let ?M = "m * 2 ^ x"
  define k where "k = nat (int (bitlen m) + int x - 53)"
  have k: "k = bitlen ?M - 53" using that by (simp add: k_def bitlen_shift nat_diff_distrib' nat_add_distrib)
  have dvd: "2 ^ k dvd ?M" using assms k by (simp add: f64_exact_def)
  have "?M < 2 ^ 2098" using assms by (simp add: f64_exact_def)
  then have kle: "k \<le> 2045" using k bitlen_le[of ?M 2098] by simp
  have up: "m * 2 ^ nat (int x - int k) = ?M div 2 ^ k * 2 ^ nat (int k - int x)"
  proof (cases "k \<le> x")
    case True
    then have "?M = m * 2 ^ (x - k) * 2 ^ k" by (simp flip: power_add)
    then have "?M div 2 ^ k = m * 2 ^ (x - k)" by (metis nonzero_mult_div_cancel_right power_not_zero zero_neq_numeral)
    then show ?thesis using True by (simp add: nat_diff_distrib)
  next
    case False
    then have "(2::nat) ^ k = 2 ^ (k - x) * 2 ^ x" by (simp flip: power_add)
    with dvd have "2 ^ (k - x) dvd m" by simp
    then show ?thesis using False \<open>(2::nat) ^ k = _\<close> by (simp add: nat_diff_distrib)
  qed
  let ?q = "?M div 2 ^ k"
  have r: "f64_round m (int x) = min (k * 2 ^ 52 + ?q) f64_inf_bits"
    using False unfolding f64_round_def Let_def k_def[symmetric] up by simp
  have M: "?M = ?q * 2 ^ k" using dvd by simp
  have q_up: "?q < 2 ^ 53"
  proof -
    have "?M < 2 ^ bitlen ?M" by (rule bitlen_upper)
    also have "\<dots> \<le> 2 ^ (53 + k)" using k by (intro power_increasing) simp_all
    finally show ?thesis by (simp add: power_add less_mult_imp_div_less)
  qed
  have q_lo: "2 ^ 52 \<le> ?q" if "0 < k"
  proof -
    have pos: "0 < ?M" using that k by (metis bitlen_0 diff_0_eq_0 gr0I less_irrefl)
    have "(2::nat) ^ (52 + k) = 2 ^ (bitlen ?M - 1)" using that k by (simp)
    also have "\<dots> \<le> ?M" using bitlen_lower[OF pos] .
    finally show ?thesis using M by (simp add: power_add div_nat_eqI less_eq_div_iff_mult_less_eq)
  qed
  have lt: "k * 2 ^ 52 + ?q < f64_inf_bits"
  proof (cases "k = 2045")
    case True
    have "?q * 2 ^ 2045 < 2 ^ 53 * 2 ^ 2045" using M True \<open>?M < 2 ^ 2098\<close> by (simp flip: power_add)
    with True q_up show ?thesis by (simp add: f64_inf_bits_def)
  next
    case False
    with kle have "k \<le> 2044" by simp
    then have "k * 2 ^ 52 \<le> 2044 * 2 ^ 52" by simp
    with q_up show ?thesis by (simp add: f64_inf_bits_def)
  qed
  then have eq: "f64_round m (int x) = k * 2 ^ 52 + ?q" using r by simp
  have fin: "f64_round m (int x) < f64_inf_bits" using eq lt by simp
  have "bits_mag (k * 2 ^ 52 + ?q) = ?q * 2 ^ k"
  proof (cases "k = 0")
    case True
    then show ?thesis using q_up by (cases "?q < 2 ^ 52") (auto simp: bits_mag_def bits_mant_def bits_exp_def div_nat_eqI le_mod_geq mod_if)
  next
    case False
    then have "2 ^ 52 \<le> ?q" using q_lo by simp
    then obtain f where f: "?q = 2 ^ 52 + f" by (metis le_Suc_ex)
    with q_up have "f < 2 ^ 52" by simp
    moreover have "k * 2 ^ 52 + ?q = f + Suc k * 2 ^ 52" using f by simp
    ultimately have "(k * 2 ^ 52 + ?q) div 2 ^ 52 = Suc k" "(k * 2 ^ 52 + ?q) mod 2 ^ 52 = f" 
      by simp_all
    then show ?thesis using f by (simp add: bits_mag_def bits_mant_def bits_exp_def)
  qed
  then show ?thesis using eq M fin by simp
qed

section \<open>Sign and bits\<close>

lemma unat_lt_64: "unat (x :: 64 word) < 2 ^ 64" using unsigned_less[of x] by simp

lemma f64_abs_bits_less: "f64_abs_bits x < 2 ^ 63" by (simp add: f64_abs_bits_def)

lemma unat_of_nat_64: "n < 2 ^ 64 \<Longrightarrow> unat (word_of_nat n :: 64 word) = n"
  by (simp add: unsigned_of_nat take_bit_nat_eq_self)

lemma f64_make_simps [simp]:
  assumes "b < 2 ^ 63"
  shows "f64_abs_bits (f64_make s b) = b" "f64_sign (f64_make s b) = s"
proof -
  have "unat (f64_make s b) = (if s then 2 ^ 63 else 0) + b"
    unfolding f64_make_def using assms by (intro unat_of_nat_64) auto
  then show "f64_abs_bits (f64_make s b) = b" "f64_sign (f64_make s b) = s"
    using assms by (auto simp: f64_abs_bits_def f64_sign_def)
qed

lemma f64_make_fields: "f64_make (f64_sign x) (f64_abs_bits x) = x"
proof -
  have "unat x = (if f64_sign x then 2 ^ 63 else 0) + f64_abs_bits x"
    using unat_lt_64[of x] by (auto simp: f64_sign_def f64_abs_bits_def mod_if)
  then have "f64_make (f64_sign x) (f64_abs_bits x) = word_of_nat (unat x)" by (simp only: f64_make_def)
  then show ?thesis by simp
qed

lemma f64_eqI:
  assumes "f64_sign x = f64_sign y" "f64_abs_bits x = f64_abs_bits y"
  shows "x = y"
proof -
  have "x = f64_make (f64_sign x) (f64_abs_bits x)" by (rule f64_make_fields [symmetric])
  also have "\<dots> = f64_make (f64_sign y) (f64_abs_bits y)" by (simp only: assms)
  also have "\<dots> = y" by (rule f64_make_fields)
  finally show ?thesis .
qed

lemma f64_inf_bits_less: "f64_inf_bits < 2 ^ 63" by (simp add: f64_inf_bits_def)

lemma f64_round_le: "f64_round m x \<le> f64_inf_bits"
proof (cases "m = 0")
  case True
  then show ?thesis by (simp add: f64_round_def)
next
  case False
  then show ?thesis unfolding f64_round_def Let_def by (simp only: if_False min.cobounded2)
qed

lemma f64_round_less: "f64_round m x < 2 ^ 63"
  using f64_round_le f64_inf_bits_less by (rule le_less_trans)

lemma f64_of_scaled_fields [simp]:
  "f64_abs_bits (f64_of_scaled s m x) = f64_round m x" "f64_sign (f64_of_scaled s m x) = s"
  using f64_make_simps[OF f64_round_less] by (simp_all only: f64_of_scaled_def)

lemma f64_not_nan_of_scaled [simp]: "\<not> f64_is_nan (f64_of_scaled s m x)"
  by (simp add: f64_is_nan_def f64_round_le not_less)

section \<open>Magnitudes order as bits do\<close>

lemma bits_fields:
  assumes "b < f64_inf_bits" 
  shows "bits_mant b < 2 ^ 53" "bits_exp b \<le> 2045"
proof -
  have "b mod 2 ^ 52 < 2 ^ 52" by simp
  then show "bits_mant b < 2 ^ 53" by (auto simp: bits_mant_def div_eq_0_iff)
  have "b div 2 ^ 52 < 0x7FF" using assms by (simp add: f64_inf_bits_def)
  then show "bits_exp b \<le> 2045" by (simp add: bits_exp_def)
qed

lemma bits_mag_less:
  assumes "b < f64_inf_bits" shows "bits_mag b < 2 ^ 2098"
proof -
  have "bits_mag b < 2 ^ 53 * 2 ^ bits_exp b"
    using bits_fields(1)[OF assms] by (simp add: bits_mag_def)
  also have "\<dots> \<le> 2 ^ 53 * 2 ^ 2045"
    using bits_fields(2)[OF assms] by (intro mult_le_mono power_increasing) simp_all
  finally show ?thesis by (simp flip: power_add)
qed

lemma bits_mag_exact: "b < f64_inf_bits \<Longrightarrow> f64_exact (bits_mag b)"
  using bits_fields bits_mag_less by (intro f64_exactI[where q = "bits_mant b" and j = "bits_exp b"]) (auto simp: bits_mag_def)

lemma bits_mag_mono:
  assumes "b < c" "c < 2 ^ 63" shows "bits_mag b < bits_mag c"
proof -
  let ?e = "b div 2 ^ 52" let ?d = "c div 2 ^ 52"
  have bc: "b = ?e * 2 ^ 52 + b mod 2 ^ 52" "c = ?d * 2 ^ 52 + c mod 2 ^ 52" by simp_all
  have le: "?e \<le> ?d" using assms(1) by (simp add: div_le_mono)
  show ?thesis
  proof (cases "?e = ?d")
    case True
    then have "b mod 2 ^ 52 < c mod 2 ^ 52" 
      using bc assms(1) by (metis True add_less_cancel_left)
    moreover have "bits_exp b = bits_exp c" using True by (simp add: bits_exp_def)
    moreover have "bits_mant b < bits_mant c" using True assms(1) calculation(1) by (simp add: bits_mant_def)
    ultimately show ?thesis by (simp add: bits_mag_def)
  next
    case False
    with le have lt: "?e < ?d" by simp
    then obtain d where d: "?d = Suc d" by (cases ?d) auto
    have ge: "2 ^ 52 * 2 ^ d \<le> bits_mag c" using d by (simp add: bits_mag_def bits_mant_def bits_exp_def)
    have "bits_mag b < 2 ^ 52 * 2 ^ ?e"
    proof (cases "?e = 0")
      case True
      then show ?thesis by (simp add: bits_mag_def bits_mant_def bits_exp_def div_eq_0_iff)
    next
      case nz: False
      then obtain e where e: "?e = Suc e" by (cases ?e) auto
      have "b mod 2 ^ 52 < 2 ^ 52" by simp
      then show ?thesis using e by (simp add: bits_mag_def bits_mant_def bits_exp_def)
    qed
    also have "\<dots> \<le> 2 ^ 52 * 2 ^ d" using lt d by (intro mult_le_mono power_increasing) simp_all
    finally show ?thesis using ge by simp
  qed
qed

lemma bits_mag_less_iff: "b < 2 ^ 63 \<Longrightarrow> c < 2 ^ 63 \<Longrightarrow> bits_mag b < bits_mag c \<longleftrightarrow> b < c"
  using bits_mag_mono[of b c] bits_mag_mono[of c b] by (cases b c rule: linorder_cases) auto

lemma bits_mag_eq_iff: "b < 2 ^ 63 \<Longrightarrow> c < 2 ^ 63 \<Longrightarrow> bits_mag b = bits_mag c \<longleftrightarrow> b = c"
  using bits_mag_mono[of b c] bits_mag_mono[of c b] by (cases b c rule: linorder_cases) auto

lemma bits_mag_0 [simp]: "bits_mag 0 = 0" by (simp add: bits_mag_def bits_mant_def)

lemma f64_mag_zero: "f64_mag x = 0 \<longleftrightarrow> f64_abs_bits x = 0"
  using bits_mag_eq_iff[OF f64_abs_bits_less, of 0] by (simp add: f64_mag_def)

lemma f64_eq_scaled:
  assumes "f64_is_finite x" "f64_is_finite y"
  shows "f64_eq x y \<longleftrightarrow> f64_scaled x = f64_scaled y"
    "f64_lt x y \<longleftrightarrow> f64_scaled x < f64_scaled y"
    "f64_le x y \<longleftrightarrow> f64_scaled x \<le> f64_scaled y"
proof -
  let ?a = "f64_abs_bits x" let ?b = "f64_abs_bits y"
  have lt: "?a < 2 ^ 63" "?b < 2 ^ 63" by (rule f64_abs_bits_less)+
  note cmp = bits_mag_less_iff[OF lt] bits_mag_less_iff[OF lt(2) lt(1)] bits_mag_eq_iff[OF lt]
  have z: "bits_mag ?a = 0 \<longleftrightarrow> ?a = 0" "bits_mag ?b = 0 \<longleftrightarrow> ?b = 0"
    using f64_mag_zero by (auto simp: f64_mag_def)
  have le: "bits_mag ?a \<le> bits_mag ?b \<longleftrightarrow> ?a \<le> ?b" "bits_mag ?b \<le> bits_mag ?a \<longleftrightarrow> ?b \<le> ?a" 
    using cmp by (auto simp: not_less[symmetric])
  have nn: "\<not> f64_is_nan x" "\<not> f64_is_nan y" using assms by (auto simp: f64_is_nan_def f64_is_finite_def)
  have neg: "- int m < int n \<longleftrightarrow> m \<noteq> 0 \<or> n \<noteq> 0" "int m < - int n \<longleftrightarrow> False"
     "- int m \<le> int n" "int m \<le> - int n \<longleftrightarrow> m = 0 \<and> n = 0" 
     "- int m = int n \<longleftrightarrow> m = 0 \<and> n = 0" "int m = - int n \<longleftrightarrow> m = 0 \<and> n = 0" for m n
    by auto
  show "f64_eq x y \<longleftrightarrow> f64_scaled x = f64_scaled y"
    using nn cmp(3) z by (auto simp: f64_eq_def f64_key_def f64_scaled_def f64_mag_def neg)
  show "f64_lt x y \<longleftrightarrow> f64_scaled x < f64_scaled y"
    using nn cmp z by (auto simp: f64_lt_def f64_key_def f64_scaled_def f64_mag_def neg)
  show "f64_le x y \<longleftrightarrow> f64_scaled x \<le> f64_scaled y"
    using nn le z by (auto simp: f64_le_def f64_key_def f64_scaled_def f64_mag_def neg)
qed

lemma f64_of_scaled_exact:
  assumes "f64_exact (m * 2 ^ x)"
  shows "f64_is_finite (f64_of_scaled s m (int x))" "f64_mag (f64_of_scaled s m (int x)) = m * 2 ^ x"
  using f64_exact_round[OF assms] by (simp_all add: f64_is_finite_def f64_mag_def)

lemma f64_finite_eqI:
  assumes "f64_is_finite x" "f64_is_finite y" "f64_sign x = f64_sign y" "f64_mag x = f64_mag y"
  shows "x = y"
  using assms bits_mag_eq_iff[OF f64_abs_bits_less f64_abs_bits_less] by (intro f64_eqI) (auto simp: f64_mag_def)

lemma bits_whole_mag: "bits_whole b = bits_mag b div 2 ^ 1074"
proof (cases "1074 \<le> bits_exp b")
  case True
  then have "(2::nat) ^ bits_exp b = 2 ^ (bits_exp b - 1074) * 2 ^ 1074"
    by (metis le_add_diff_inverse2 power_add)
  then have "bits_mag b = bits_mant b * 2 ^ (bits_exp b - 1074) * 2 ^ 1074"
    by (simp only: bits_mag_def mult.assoc)
  then have "bits_mag b div 2 ^ 1074 = bits_mant b * 2 ^ (bits_exp b - 1074)"
    by (metis nonzero_mult_div_cancel_right power_not_zero zero_neq_numeral)
  then show ?thesis using True by (simp only: bits_whole_def if_True)
next
  case False
  then have "(2::nat) ^ 1074 = 2 ^ (1074 - bits_exp b) * 2 ^ bits_exp b" by (simp flip: power_add)
  then have "bits_mag b div 2 ^ 1074 = bits_mant b div 2 ^ (1074 - bits_exp b)"
    by (metis bits_mag_def div_mult_mult2 power_not_zero zero_neq_numeral)
  then show ?thesis using False by (simp only: bits_whole_def if_False)
qed

lemma f64_exact_whole:
  assumes "b < f64_inf_bits" shows "f64_exact (bits_whole b * 2 ^ 1074)"
proof (cases "1074 \<le> bits_exp b")
  case True
  then have "(2::nat) ^ bits_exp b = 2 ^ (bits_exp b - 1074) * 2 ^ 1074"
    by (metis le_add_diff_inverse2 power_add)
  then have "bits_whole b * 2 ^ 1074 = bits_mag b"
    using True by (simp only: bits_whole_def bits_mag_def mult.assoc if_True)
  then show ?thesis using bits_mag_exact[OF assms] by simp
next
  case False
  have "bits_whole b \<le> bits_mant b" using False by (simp add: bits_whole_def)
  moreover have "bits_whole b * 2 ^ 1074 \<le> bits_mag b" by (simp add: bits_whole_mag)
  ultimately show ?thesis using bits_fields(1)[OF assms] bits_mag_less[OF assms]
    by (intro f64_exactI[where q = "bits_whole b" and j = 1074]) auto
qed

section \<open>Conversions and arithmetic without rounding\<close>

text \<open>The number one, in units; kept folded, for the simplifier would write it out.\<close>

definition f64_unit :: nat where
  "f64_unit = 2 ^ 1074"

lemma f64_unit_pos [simp]: "0 < f64_unit" "f64_unit \<noteq> 0"
  by (simp_all add: f64_unit_def)

lemma f64_exact_units:
  assumes "n = q * 2 ^ j" "q < 2 ^ 53" "n < 2 ^ 1024"
  shows "f64_exact (n * f64_unit)"
proof (rule f64_exactI)
  show "n * f64_unit = q * 2 ^ (j + 1074)" by (simp only: assms(1) f64_unit_def power_add mult.assoc)
  show "q < 2 ^ 53" by fact
  have "n * f64_unit < 2 ^ 1024 * f64_unit" using assms(3) by (simp only: mult_less_cancel2 f64_unit_pos)
  then show "n * f64_unit < 2 ^ 2098" by (simp only: f64_unit_def power_add [symmetric]) simp
qed

lemma f64_exact_units_dvd:
  assumes "f64_exact (n * f64_unit)" "2 ^ k \<le> n"
  shows "2 ^ (k - 52) dvd n"
proof -
  have n: "0 < n" using assms(2) by (metis gr0I not_le power_not_zero le_zero_eq zero_neq_numeral)
  have "(2::nat) ^ k < 2 ^ bitlen n" using assms(2) bitlen_upper [of n] by linarith
  then have "k < bitlen n" by (rule power_less_imp_less_exp [rotated]) simp
  moreover have "bitlen (n * f64_unit) = bitlen n + 1074" using n by (simp only: f64_unit_def bitlen_shift)
  ultimately have le: "(k - 52) + 1074 \<le> bitlen (n * f64_unit) - 53 \<or> k < 52" by linarith
  show ?thesis
  proof (cases "k < 52")
    case False
    with le have "2 ^ ((k - 52) + 1074) dvd n * f64_unit"
      using assms(1) by (meson f64_exact_def le_imp_power_dvd dvd_trans)
    then have "2 ^ (k - 52) * f64_unit dvd n * f64_unit" by (simp only: f64_unit_def power_add)
    then show ?thesis by (simp only: dvd_times_right_cancel_iff [OF f64_unit_pos(2)])
  qed simp
qed

lemma f64_abs_bits_zero: "f64_abs_bits 0 = 0" "f64_sign 0 = False"
  by (simp_all add: f64_abs_bits_def f64_sign_def)

lemma f64_of_int_exact:
  assumes "f64_exact (nat \<bar>n\<bar> * f64_unit)"
  shows "f64_is_finite (f64_of_int n)" "f64_mag (f64_of_int n) = nat \<bar>n\<bar> * f64_unit"
    "f64_sign (f64_of_int n) \<longleftrightarrow> n < 0" "f64_scaled (f64_of_int n) = n * int f64_unit"
proof -
  have x: "f64_of_int n = f64_of_scaled (n < 0) (nat \<bar>n\<bar>) (int 1074)" by (simp add: f64_of_int_def)
  have e: "f64_exact (nat \<bar>n\<bar> * 2 ^ 1074)" using assms by (simp only: f64_unit_def)
  show fin: "f64_is_finite (f64_of_int n)" unfolding x by (rule f64_of_scaled_exact(1) [OF e])
  show mag: "f64_mag (f64_of_int n) = nat \<bar>n\<bar> * f64_unit"
    unfolding x f64_unit_def by (rule f64_of_scaled_exact(2) [OF e])
  show sgn: "f64_sign (f64_of_int n) \<longleftrightarrow> n < 0" by (simp only: x f64_of_scaled_fields)
  show "f64_scaled (f64_of_int n) = n * int f64_unit" by (simp add: f64_scaled_def mag sgn)
qed

lemma f64_trunc_exact:
  assumes "f64_is_finite x"
  shows "f64_is_finite (f64_trunc x)" "f64_mag (f64_trunc x) = bits_whole (f64_abs_bits x) * f64_unit"
    "f64_sign (f64_trunc x) = f64_sign x" "f64_scaled (f64_trunc x) = f64_whole x * int f64_unit"
    "f64_exact (bits_whole (f64_abs_bits x) * f64_unit)"
proof -
  let ?w = "bits_whole (f64_abs_bits x)"
  have b: "f64_abs_bits x < f64_inf_bits" using assms by (simp add: f64_is_finite_def)
  have e: "f64_exact (?w * 2 ^ 1074)" by (rule f64_exact_whole [OF b])
  then show "f64_exact (?w * f64_unit)" by (simp only: f64_unit_def)
  have x: "f64_trunc x = f64_of_scaled (f64_sign x) ?w (int 1074)" using assms by (simp add: f64_trunc_def)
  show fin: "f64_is_finite (f64_trunc x)" unfolding x by (rule f64_of_scaled_exact(1) [OF e])
  show mag: "f64_mag (f64_trunc x) = ?w * f64_unit"
    unfolding x f64_unit_def by (rule f64_of_scaled_exact(2) [OF e])
  show sgn: "f64_sign (f64_trunc x) = f64_sign x" by (simp only: x f64_of_scaled_fields)
  show "f64_scaled (f64_trunc x) = f64_whole x * int f64_unit"
    by (simp add: f64_scaled_def mag sgn f64_whole_def Let_def)
qed

lemma f64_whole_scaled:
  "f64_whole x = (if f64_sign x then - int (f64_mag x div f64_unit) else int (f64_mag x div f64_unit))"
  by (simp only: f64_whole_def bits_whole_mag f64_mag_def f64_unit_def Let_def)

lemma f64_whole_of_scaled:
  assumes "f64_scaled x = n * int f64_unit" 
  shows "f64_whole x = n"
proof (cases "f64_sign x")
  case True
  then have "int (f64_mag x) = (- n) * int f64_unit" using assms by (simp add: f64_scaled_def)
  then have "int (f64_mag x) div int f64_unit = - n"
    by (simp only: nonzero_mult_div_cancel_right f64_unit_pos of_nat_eq_0_iff simp_thms)
  then show ?thesis using True by (simp add: f64_whole_scaled zdiv_int)
next
  case False
  then have "int (f64_mag x) div int f64_unit = n" using assms by (simp add: f64_scaled_def)
  then show ?thesis using False by (simp add: f64_whole_scaled zdiv_int)
qed

lemma f64_as_i64_whole:
  assumes "f64_is_finite x" "in_i64 (f64_whole x)"
  shows "f64_as_i64 x = f64_whole x"
  using assms by (auto simp: f64_as_i64_def f64_is_finite_def f64_is_nan_def in_i64_def)

lemma f64_rem_mag:
  assumes "f64_is_finite x" "f64_is_finite y" "f64_mag y \<noteq> 0"
  shows "f64_is_finite (f64_rem x y)" "f64_sign (f64_rem x y) = f64_sign x"
    "f64_mag (f64_rem x y) = f64_mag x mod f64_mag y"
proof -
  let ?ex = "bits_exp (f64_abs_bits x)" let ?ey = "bits_exp (f64_abs_bits y)"
  let ?mx = "bits_mant (f64_abs_bits x)" let ?my = "bits_mant (f64_abs_bits y)"
  define e where "e = min ?ex ?ey"
  define r where "r = ?mx * 2 ^ (?ex - e) mod (?my * 2 ^ (?ey - e))"
  have b: "f64_abs_bits x < f64_inf_bits" "f64_abs_bits y < f64_inf_bits"
    using assms by (simp_all add: f64_is_finite_def)
  have "f64_abs_bits y \<noteq> 0" using assms(3) f64_mag_zero by simp
  then have rem: "f64_rem x y = f64_of_scaled (f64_sign x) r (int e)"
    using assms(1,2) b by (simp add: f64_rem_def f64_is_nan_def r_def e_def Let_def)
  have "f64_mag x = ?mx * 2 ^ (?ex - e) * 2 ^ e" "f64_mag y = ?my * 2 ^ (?ey - e) * 2 ^ e"
    by (simp_all add: f64_mag_def bits_mag_def e_def flip: power_add)
  then have r: "r * 2 ^ e = f64_mag x mod f64_mag y" by (simp only: r_def mult_mod_right mod_mult_mult2)
  have "r < 2 ^ 53"
  proof (cases "?ex \<le> ?ey")
    case True
    then have "r \<le> ?mx" by (simp add: r_def e_def)
    then show ?thesis using bits_fields(1) [OF b(1)] by simp
  next
    case False
    then have "r < ?my" using assms(3) by (auto simp: r_def e_def f64_mag_def bits_mag_def)
    then show ?thesis using bits_fields(1) [OF b(2)] by simp
  qed
  moreover have "r * 2 ^ e < 2 ^ 2098"
    using r bits_mag_less [OF b(1)] mod_less_eq_dividend [of "f64_mag x" "f64_mag y"]
    by (simp only: f64_mag_def)
  ultimately have ex: "f64_exact (r * 2 ^ e)" by (intro f64_exactI) (rule refl)
  show "f64_is_finite (f64_rem x y)" unfolding rem by (rule f64_of_scaled_exact(1) [OF ex])
  show "f64_mag (f64_rem x y) = f64_mag x mod f64_mag y"
    unfolding rem r [symmetric] by (rule f64_of_scaled_exact(2) [OF ex])
  show "f64_sign (f64_rem x y) = f64_sign x" by (simp only: rem f64_of_scaled_fields)
qed

lemma f64_add_exact:
  assumes "f64_is_finite x" "f64_is_finite y" "f64_exact (nat \<bar>f64_scaled x + f64_scaled y\<bar>)"
  shows "f64_is_finite (f64_add x y)" "f64_scaled (f64_add x y) = f64_scaled x + f64_scaled y"
proof -
  let ?ex = "bits_exp (f64_abs_bits x)" let ?ey = "bits_exp (f64_abs_bits y)"
  let ?mx = "int (bits_mant (f64_abs_bits x))" let ?my = "int (bits_mant (f64_abs_bits y))"
  define e where "e = min ?ex ?ey"
  define ax where "ax = ?mx * 2 ^ (?ex - e)"
  define ay where "ay = ?my * 2 ^ (?ey - e)"
  define s where "s = (if f64_sign x then - ax else ax) + (if f64_sign y then - ay else ay)"
  define g where "g = (if s = 0 then f64_sign x \<and> f64_sign y else s < 0)"
  have b: "\<not> f64_is_nan x" "\<not> f64_is_nan y"
    using assms by (simp_all add: f64_is_finite_def f64_is_nan_def)
  have add: "f64_add x y = f64_of_scaled g (nat \<bar>s\<bar>) (int e)"
    using assms(1,2) b by (simp only: f64_add_def e_def ax_def ay_def s_def g_def Let_def) simp
  have "int (f64_mag x) = ax * 2 ^ e" "int (f64_mag y) = ay * 2 ^ e"
    by (simp_all add: f64_mag_def bits_mag_def ax_def ay_def e_def flip: power_add)
  then have sum: "f64_scaled x + f64_scaled y = s * 2 ^ e"
    by (auto simp: f64_scaled_def s_def algebra_simps)
  then have m: "nat \<bar>f64_scaled x + f64_scaled y\<bar> = nat \<bar>s\<bar> * 2 ^ e"
    by (simp add: abs_mult nat_mult_distrib nat_power_eq)
  have ex: "f64_exact (nat \<bar>s\<bar> * 2 ^ e)" using assms(3) by (simp only: m)
  show "f64_is_finite (f64_add x y)" unfolding add by (rule f64_of_scaled_exact(1) [OF ex])
  have "f64_mag (f64_add x y) = nat \<bar>s\<bar> * 2 ^ e" unfolding add by (rule f64_of_scaled_exact(2) [OF ex])
  moreover have "f64_sign (f64_add x y) = g" by (simp only: add f64_of_scaled_fields)
  ultimately have "f64_scaled (f64_add x y) = s * 2 ^ e"
    by (auto simp: f64_scaled_def g_def split: if_splits)
  then show "f64_scaled (f64_add x y) = f64_scaled x + f64_scaled y" by (simp only: sum)
qed

lemma f64_neg_fields:
  "f64_abs_bits (f64_neg x) = f64_abs_bits x" "f64_sign (f64_neg x) \<longleftrightarrow> \<not> f64_sign x"
  using f64_make_simps [OF f64_abs_bits_less] by (simp_all only: f64_neg_def)

lemma f64_neg_scaled: "f64_scaled (f64_neg x) = - f64_scaled x" "f64_is_finite (f64_neg x) = f64_is_finite x"
  by (auto simp: f64_scaled_def f64_mag_def f64_is_finite_def f64_neg_fields)

lemma f64_sub_exact:
  assumes "f64_is_finite x" "f64_is_finite y" "f64_exact (nat \<bar>f64_scaled x - f64_scaled y\<bar>)"
  shows "f64_is_finite (f64_sub x y)" "f64_scaled (f64_sub x y) = f64_scaled x - f64_scaled y"
  using f64_add_exact [of x "f64_neg y"] assms by (simp_all add: f64_sub_def f64_neg_scaled)

end
