(* ===== verification/Tokens.thy ===== *)
theory Tokens
  imports F64
begin

text \<open>
  The tokens of \<open>src/compiler/token.rs\<close> and their names in \<open>src/modules/zuri_lex.rs\<close>. A
  constructor carries the prefix \<open>Tk\<close>; an \<open>i64\<close> payload is an integer in that range
  (\<open>in_i64\<close>), a \<open>BigInt\<close> any integer. Two things of Rust's own library that only error
  messages use are parameters: how a double is printed and Unicode lower case.
\<close>

section \<open>Printing integers\<close>

definition digit_char :: "nat \<Rightarrow> uchar" where
  "digit_char d = (if d < 10 then cp CHR ''0'' + d else cp CHR ''a'' + (d - 10))"

function show_radix :: "nat \<Rightarrow> nat \<Rightarrow> ustring" where
  "show_radix r n =
     (if n < r \<or> r < 2 then [digit_char n] else show_radix r (n div r) @ [digit_char (n mod r)])"
  by pat_completeness auto
termination
  by (relation "measure snd") auto

declare show_radix.simps [simp del]

definition show_nat :: "nat \<Rightarrow> ustring" where
  "show_nat n = show_radix 10 n"

definition show_int :: "int \<Rightarrow> ustring" where
  "show_int n = (if n < 0 then cp CHR ''-'' # show_nat (nat (- n)) else show_nat (nat n))"

text \<open>\<open>{:b}\<close>, \<open>{:o}\<close> and \<open>{:x}\<close> of an \<open>i64\<close> print its 64 bits.\<close>

definition show_bits :: "nat \<Rightarrow> int \<Rightarrow> ustring" where
  "show_bits r n = show_radix r (nat (n mod 2 ^ 64))"

section \<open>Token kinds\<close>

text \<open>
  The source keeps one flat enumeration; its three sections (symbols, keywords, tokens with
  a payload) are three types here.
\<close>

datatype (plugins only: code size) symbol =
    SyNewline | SyLparen | SyRparen | SyLbracket | SyRbracket | SyLbrace
  | SyRbrace | SySemicolon | SyComma | SyBackslash | SyBang | SyBangEq
  | SyColon | SyAt | SyDot | SyRange | SyTriDot | SyPlus
  | SyPlusEq | SyIncrement | SyMinus | SyMinusEq | SyDecrement | SyMultiply
  | SyMultiplyEq | SyPow | SyPowEq | SyDivide | SyDivideEq | SyFloor
  | SyFloorEq | SyEqual | SyEqualEq | SyLess | SyLessEq | SyLshift
  | SyLshiftEq | SyGreater | SyGreaterEq | SyRshift | SyRshiftEq | SyUrshift
  | SyUrshiftEq | SyPercent | SyPercentEq | SyAmp | SyAmpEq | SyBar
  | SyBarEq | SyTilde | SyTildeEq | SyXor | SyXorEq | SyQuestion
  | SyArrow

datatype (plugins only: code size) keyword =
    KwAnd | KwAs | KwAssert | KwBreak | KwCatch | KwClass
  | KwConst | KwContinue | KwDef | KwDefault | KwDo | KwEcho
  | KwElse | KwFalse | KwFor | KwIf | KwImport | KwIn
  | KwIter | KwNil | KwOr | KwParent | KwRaise | KwReturn
  | KwSelf | KwStatic | KwTrue | KwUsing | KwVar | KwWhen
  | KwWhile

datatype (plugins only: code size) token_kind =
    TkNone | TkSym symbol | TkKw keyword
  | TkLiteral ustring | TkBigNumber int | TkInteger int | TkDouble f64
  | TkBinNumber int | TkOctNumber int | TkHexNumber int | TkIdentifier ustring
  | TkDecorator ustring | TkInterpolation ustring | TkComment ustring | TkDocBlock ustring
  | TkEof | TkError ustring nat nat

text \<open>\<open>impl Display for TokenKind\<close>; printing a double is a parameter.\<close>

primrec symbol_display :: "symbol \<Rightarrow> ustring" where
  "symbol_display SyNewline = str ''Newline''"
| "symbol_display SyLparen = str ''(''"
| "symbol_display SyRparen = str '')''"
| "symbol_display SyLbracket = str ''[''"
| "symbol_display SyRbracket = str '']''"
| "symbol_display SyLbrace = str ''{''"
| "symbol_display SyRbrace = str ''}''"
| "symbol_display SySemicolon = str '';''"
| "symbol_display SyComma = str '',''"
| "symbol_display SyBackslash = [cp (CHR 0x5C)]"
| "symbol_display SyBang = str ''!''"
| "symbol_display SyBangEq = str ''!=''"
| "symbol_display SyColon = str '':''"
| "symbol_display SyAt = str ''@''"
| "symbol_display SyDot = str ''.''"
| "symbol_display SyRange = str ''..''"
| "symbol_display SyTriDot = str ''...''"
| "symbol_display SyPlus = str ''+''"
| "symbol_display SyPlusEq = str ''+=''"
| "symbol_display SyIncrement = str ''++''"
| "symbol_display SyMinus = str ''-''"
| "symbol_display SyMinusEq = str ''-=''"
| "symbol_display SyDecrement = str ''--''"
| "symbol_display SyMultiply = str ''*''"
| "symbol_display SyMultiplyEq = str ''*=''"
| "symbol_display SyPow = str ''**''"
| "symbol_display SyPowEq = str ''**=''"
| "symbol_display SyDivide = str ''/''"
| "symbol_display SyDivideEq = str ''/=''"
| "symbol_display SyFloor = str ''//''"
| "symbol_display SyFloorEq = str ''//=''"
| "symbol_display SyEqual = str ''=''"
| "symbol_display SyEqualEq = str ''==''"
| "symbol_display SyLess = str ''<''"
| "symbol_display SyLessEq = str ''<=''"
| "symbol_display SyLshift = str ''<<''"
| "symbol_display SyLshiftEq = str ''<<=''"
| "symbol_display SyGreater = str ''>''"
| "symbol_display SyGreaterEq = str ''>=''"
| "symbol_display SyRshift = str ''>>''"
| "symbol_display SyRshiftEq = str ''>>=''"
| "symbol_display SyUrshift = str ''>>>''"
| "symbol_display SyUrshiftEq = str ''>>>=''"
| "symbol_display SyPercent = str ''%''"
| "symbol_display SyPercentEq = str ''%=''"
| "symbol_display SyAmp = str ''&''"
| "symbol_display SyAmpEq = str ''&=''"
| "symbol_display SyBar = str ''|''"
| "symbol_display SyBarEq = str ''|=''"
| "symbol_display SyTilde = str ''~''"
| "symbol_display SyTildeEq = str ''~=''"
| "symbol_display SyXor = str ''^''"
| "symbol_display SyXorEq = str ''^=''"
| "symbol_display SyQuestion = str ''?''"
| "symbol_display SyArrow = str ''->''"

primrec keyword_display :: "keyword \<Rightarrow> ustring" where
  "keyword_display KwAnd = str ''and''"
| "keyword_display KwAs = str ''as''"
| "keyword_display KwAssert = str ''assert''"
| "keyword_display KwBreak = str ''break''"
| "keyword_display KwCatch = str ''catch''"
| "keyword_display KwClass = str ''class''"
| "keyword_display KwConst = str ''const''"
| "keyword_display KwContinue = str ''continue''"
| "keyword_display KwDef = str ''def''"
| "keyword_display KwDefault = str ''default''"
| "keyword_display KwDo = str ''do''"
| "keyword_display KwEcho = str ''echo''"
| "keyword_display KwElse = str ''else''"
| "keyword_display KwFalse = str ''false''"
| "keyword_display KwFor = str ''for''"
| "keyword_display KwIf = str ''if''"
| "keyword_display KwImport = str ''import''"
| "keyword_display KwIn = str ''in''"
| "keyword_display KwIter = str ''iter''"
| "keyword_display KwNil = str ''nil''"
| "keyword_display KwOr = str ''or''"
| "keyword_display KwParent = str ''parent''"
| "keyword_display KwRaise = str ''raise''"
| "keyword_display KwReturn = str ''return''"
| "keyword_display KwSelf = str ''self''"
| "keyword_display KwStatic = str ''static''"
| "keyword_display KwTrue = str ''true''"
| "keyword_display KwUsing = str ''using''"
| "keyword_display KwVar = str ''var''"
| "keyword_display KwWhen = str ''when''"
| "keyword_display KwWhile = str ''while''"

primrec token_display :: "(f64 \<Rightarrow> ustring) \<Rightarrow> token_kind \<Rightarrow> ustring" where
  "token_display show_f64 (TkSym y) = symbol_display y"
| "token_display show_f64 (TkKw w) = keyword_display w"
| "token_display show_f64 TkNone = []"
| "token_display show_f64 (TkLiteral s) = str ''Literal{v={}}'' @ s"
| "token_display show_f64 (TkBigNumber n) = str ''BigNumber{v={}}'' @ show_int n"
| "token_display show_f64 (TkInteger n) = str ''Integer{v={}}'' @ show_int n"
| "token_display show_f64 (TkDouble x) = str ''Double{v={}}'' @ show_f64 x"
| "token_display show_f64 (TkBinNumber n) = str ''BinNumber{v={}}'' @ show_int n"
| "token_display show_f64 (TkOctNumber n) = str ''OctNumber{v={}}'' @ show_int n"
| "token_display show_f64 (TkHexNumber n) = str ''HexNumber{v={}}'' @ show_int n"
| "token_display show_f64 (TkIdentifier s) = str ''Identifier{v={}}'' @ s"
| "token_display show_f64 (TkDecorator s) = str ''Decorator{v={}}'' @ s"
| "token_display show_f64 (TkInterpolation s) = str ''Interpolation{v={}}'' @ s"
| "token_display show_f64 (TkComment s) = str ''Comment{v={}}'' @ s"
| "token_display show_f64 (TkDocBlock s) = str ''DocBlock{v={}}'' @ s"
| "token_display show_f64 TkEof = str ''<EOF>''"
| "token_display show_f64 (TkError s l c) = str ''Error{v='' @ s @ str '', line='' @ show_nat l @ str '', column={}}'' @ show_nat c"

text \<open>The variant name \<open>zuri.tokenize()\<close> reports.\<close>

primrec symbol_name :: "symbol \<Rightarrow> string" where
  "symbol_name SyNewline = ''Newline''"
| "symbol_name SyLparen = ''Lparen''"
| "symbol_name SyRparen = ''Rparen''"
| "symbol_name SyLbracket = ''Lbracket''"
| "symbol_name SyRbracket = ''Rbracket''"
| "symbol_name SyLbrace = ''Lbrace''"
| "symbol_name SyRbrace = ''Rbrace''"
| "symbol_name SySemicolon = ''Semicolon''"
| "symbol_name SyComma = ''Comma''"
| "symbol_name SyBackslash = ''Backslash''"
| "symbol_name SyBang = ''Bang''"
| "symbol_name SyBangEq = ''BangEq''"
| "symbol_name SyColon = ''Colon''"
| "symbol_name SyAt = ''At''"
| "symbol_name SyDot = ''Dot''"
| "symbol_name SyRange = ''Range''"
| "symbol_name SyTriDot = ''TriDot''"
| "symbol_name SyPlus = ''Plus''"
| "symbol_name SyPlusEq = ''PlusEq''"
| "symbol_name SyIncrement = ''Increment''"
| "symbol_name SyMinus = ''Minus''"
| "symbol_name SyMinusEq = ''MinusEq''"
| "symbol_name SyDecrement = ''Decrement''"
| "symbol_name SyMultiply = ''Multiply''"
| "symbol_name SyMultiplyEq = ''MultiplyEq''"
| "symbol_name SyPow = ''Pow''"
| "symbol_name SyPowEq = ''PowEq''"
| "symbol_name SyDivide = ''Divide''"
| "symbol_name SyDivideEq = ''DivideEq''"
| "symbol_name SyFloor = ''Floor''"
| "symbol_name SyFloorEq = ''FloorEq''"
| "symbol_name SyEqual = ''Equal''"
| "symbol_name SyEqualEq = ''EqualEq''"
| "symbol_name SyLess = ''Less''"
| "symbol_name SyLessEq = ''LessEq''"
| "symbol_name SyLshift = ''Lshift''"
| "symbol_name SyLshiftEq = ''LshiftEq''"
| "symbol_name SyGreater = ''Greater''"
| "symbol_name SyGreaterEq = ''GreaterEq''"
| "symbol_name SyRshift = ''Rshift''"
| "symbol_name SyRshiftEq = ''RshiftEq''"
| "symbol_name SyUrshift = ''Urshift''"
| "symbol_name SyUrshiftEq = ''UrshiftEq''"
| "symbol_name SyPercent = ''Percent''"
| "symbol_name SyPercentEq = ''PercentEq''"
| "symbol_name SyAmp = ''Amp''"
| "symbol_name SyAmpEq = ''AmpEq''"
| "symbol_name SyBar = ''Bar''"
| "symbol_name SyBarEq = ''BarEq''"
| "symbol_name SyTilde = ''Tilde''"
| "symbol_name SyTildeEq = ''TildeEq''"
| "symbol_name SyXor = ''Xor''"
| "symbol_name SyXorEq = ''XorEq''"
| "symbol_name SyQuestion = ''Question''"
| "symbol_name SyArrow = ''Arrow''"

primrec keyword_name :: "keyword \<Rightarrow> string" where
  "keyword_name KwAnd = ''And''"
| "keyword_name KwAs = ''As''"
| "keyword_name KwAssert = ''Assert''"
| "keyword_name KwBreak = ''Break''"
| "keyword_name KwCatch = ''Catch''"
| "keyword_name KwClass = ''Class''"
| "keyword_name KwConst = ''Const''"
| "keyword_name KwContinue = ''Continue''"
| "keyword_name KwDef = ''Def''"
| "keyword_name KwDefault = ''Default''"
| "keyword_name KwDo = ''Do''"
| "keyword_name KwEcho = ''Echo''"
| "keyword_name KwElse = ''Else''"
| "keyword_name KwFalse = ''False''"
| "keyword_name KwFor = ''For''"
| "keyword_name KwIf = ''If''"
| "keyword_name KwImport = ''Import''"
| "keyword_name KwIn = ''In''"
| "keyword_name KwIter = ''Iter''"
| "keyword_name KwNil = ''Nil''"
| "keyword_name KwOr = ''Or''"
| "keyword_name KwParent = ''Parent''"
| "keyword_name KwRaise = ''Raise''"
| "keyword_name KwReturn = ''Return''"
| "keyword_name KwSelf = ''Self_''"
| "keyword_name KwStatic = ''Static''"
| "keyword_name KwTrue = ''True''"
| "keyword_name KwUsing = ''Using''"
| "keyword_name KwVar = ''Var''"
| "keyword_name KwWhen = ''When''"
| "keyword_name KwWhile = ''While''"

primrec token_kind_name :: "token_kind \<Rightarrow> string" where
  "token_kind_name (TkSym y) = symbol_name y"
| "token_kind_name (TkKw w) = keyword_name w"
| "token_kind_name TkNone = ''None''"
| "token_kind_name (TkLiteral _) = ''Literal''"
| "token_kind_name (TkBigNumber _) = ''BigNumber''"
| "token_kind_name (TkInteger _) = ''Integer''"
| "token_kind_name (TkDouble _) = ''Double''"
| "token_kind_name (TkBinNumber _) = ''BinNumber''"
| "token_kind_name (TkOctNumber _) = ''OctNumber''"
| "token_kind_name (TkHexNumber _) = ''HexNumber''"
| "token_kind_name (TkIdentifier _) = ''Identifier''"
| "token_kind_name (TkDecorator _) = ''Decorator''"
| "token_kind_name (TkInterpolation _) = ''Interpolation''"
| "token_kind_name (TkComment _) = ''Comment''"
| "token_kind_name (TkDocBlock _) = ''DocBlock''"
| "token_kind_name TkEof = ''Eof''"
| "token_kind_name (TkError _ _ _) = ''Error''"

section \<open>Operators and keywords\<close>

definition assignment_operators :: "token_kind list" where
  "assignment_operators =
     [(TkSym SyEqual), (TkSym SyPlusEq), (TkSym SyMinusEq), (TkSym SyMultiplyEq), (TkSym SyDivideEq), (TkSym SyFloorEq), (TkSym SyPowEq), (TkSym SyPercentEq),
      (TkSym SyAmpEq), (TkSym SyBarEq), (TkSym SyTildeEq), (TkSym SyXorEq), (TkSym SyLshiftEq), (TkSym SyRshiftEq), (TkSym SyUrshiftEq)]"

definition factor_operators :: "token_kind list" where
  "factor_operators =
     [(TkSym SyMultiply), (TkSym SyDivide), (TkSym SyFloor), (TkSym SyPercent)]"

definition term_operators :: "token_kind list" where
  "term_operators =
     [(TkSym SyPlus), (TkSym SyMinus)]"

definition equality_operators :: "token_kind list" where
  "equality_operators =
     [(TkSym SyEqualEq), (TkSym SyBangEq)]"

definition shift_operators :: "token_kind list" where
  "shift_operators =
     [(TkSym SyLshift), (TkSym SyRshift), (TkSym SyUrshift)]"

definition comparison_operators :: "token_kind list" where
  "comparison_operators =
     [(TkSym SyEqualEq), (TkSym SyBangEq), (TkSym SyLess), (TkSym SyLessEq), (TkSym SyGreater), (TkSym SyGreaterEq)]"

definition unary_operators :: "token_kind list" where
  "unary_operators =
     [(TkSym SyBang), (TkSym SyMinus), (TkSym SyTilde)]"

fun get_assignment_alt :: "token_kind \<Rightarrow> token_kind" where
  "get_assignment_alt (TkSym SyPlusEq) = (TkSym SyPlus)"
| "get_assignment_alt (TkSym SyMinusEq) = (TkSym SyMinus)"
| "get_assignment_alt (TkSym SyMultiplyEq) = (TkSym SyMultiply)"
| "get_assignment_alt (TkSym SyDivideEq) = (TkSym SyDivide)"
| "get_assignment_alt (TkSym SyFloorEq) = (TkSym SyFloor)"
| "get_assignment_alt (TkSym SyPowEq) = (TkSym SyPow)"
| "get_assignment_alt (TkSym SyPercentEq) = (TkSym SyPercent)"
| "get_assignment_alt (TkSym SyAmpEq) = (TkSym SyAmp)"
| "get_assignment_alt (TkSym SyBarEq) = (TkSym SyBar)"
| "get_assignment_alt (TkSym SyTildeEq) = (TkSym SyTilde)"
| "get_assignment_alt (TkSym SyXorEq) = (TkSym SyXor)"
| "get_assignment_alt (TkSym SyLshiftEq) = (TkSym SyLshift)"
| "get_assignment_alt (TkSym SyRshiftEq) = (TkSym SyRshift)"
| "get_assignment_alt (TkSym SyUrshiftEq) = (TkSym SyUrshift)"
| "get_assignment_alt k = k"

definition KEYWORD_TOKENS :: "token_kind list" where
  "KEYWORD_TOKENS =
     [(TkKw KwAnd), (TkKw KwAs), (TkKw KwAssert), (TkKw KwBreak), (TkKw KwCatch), (TkKw KwClass), (TkKw KwConst), (TkKw KwContinue),
      (TkKw KwDef), (TkKw KwDefault), (TkKw KwDo), (TkKw KwEcho), (TkKw KwElse), (TkKw KwFalse), (TkKw KwFor), (TkKw KwIf),
      (TkKw KwImport), (TkKw KwIn), (TkKw KwIter), (TkKw KwNil), (TkKw KwOr), (TkKw KwParent), (TkKw KwRaise), (TkKw KwReturn),
      (TkKw KwSelf), (TkKw KwStatic), (TkKw KwTrue), (TkKw KwUsing), (TkKw KwVar), (TkKw KwWhen), (TkKw KwWhile)]"

section \<open>Tokens\<close>

record token =
  kind :: token_kind
  line :: nat
  column :: nat
  tstart :: nat
  tend :: nat

definition token_new :: "token_kind \<Rightarrow> nat \<Rightarrow> nat \<Rightarrow> nat \<Rightarrow> nat \<Rightarrow> token" where
  "token_new k l c s e = \<lparr>kind = k, line = l, column = c, tstart = s, tend = e\<rparr>"

definition copy_to :: "token \<Rightarrow> token_kind \<Rightarrow> token" where
  "copy_to t k = token_new k (line t) (column t) (tstart t) (tend t)"

text \<open>The label of a token in a syntax error.\<close>

definition describe :: "(f64 \<Rightarrow> ustring) \<Rightarrow> (ustring \<Rightarrow> ustring) \<Rightarrow> token \<Rightarrow> ustring" where
  "describe show_f64 to_lowercase t =
     (case kind t of
        TkLiteral s \<Rightarrow> s
      | TkIdentifier s \<Rightarrow> s
      | TkInterpolation s \<Rightarrow> s
      | TkComment s \<Rightarrow> s
      | TkDocBlock s \<Rightarrow> s
      | TkDecorator s \<Rightarrow> str ''@'' @ s
      | TkBigNumber n \<Rightarrow> show_int n @ str ''n''
      | TkInteger n \<Rightarrow> show_int n
      | TkDouble x \<Rightarrow> show_f64 x
      | TkBinNumber n \<Rightarrow> str ''0b'' @ show_bits 2 n
      | TkOctNumber n \<Rightarrow> str ''0c'' @ show_bits 8 n
      | TkHexNumber n \<Rightarrow> str ''0x'' @ show_bits 16 n
      | TkEof \<Rightarrow> str ''<eof>''
      | TkSym SyNewline \<Rightarrow> str ''<newline>''
      | other \<Rightarrow> to_lowercase (token_display show_f64 other))"

text \<open>\<open>impl Display for Token\<close>.\<close>

definition token_to_string :: "(f64 \<Rightarrow> ustring) \<Rightarrow> token \<Rightarrow> ustring" where
  "token_to_string show_f64 t =
     (case kind t of
        TkLiteral s \<Rightarrow> s
      | TkInterpolation s \<Rightarrow> s
      | TkComment s \<Rightarrow> s
      | TkDocBlock s \<Rightarrow> s
      | TkDecorator s \<Rightarrow> s
      | k \<Rightarrow> str ''Token{kind='' @ token_display show_f64 k @ str '' at line='' @ show_nat (line t) @
             str '', column='' @ show_nat (column t) @ str ''}'')"

lemma token_new_simps [simp]:
  "kind (token_new k l c s e) = k" "line (token_new k l c s e) = l"
  "column (token_new k l c s e) = c" "tstart (token_new k l c s e) = s"
  "tend (token_new k l c s e) = e"
  by (simp_all add: token_new_def)

lemma copy_to_simps [simp]:
  "kind (copy_to t k) = k" "line (copy_to t k) = line t" "column (copy_to t k) = column t"
  "tstart (copy_to t k) = tstart t" "tend (copy_to t k) = tend t"
  by (simp_all add: copy_to_def)

end
