(* ===== verification/Scanning.thy ===== *)
theory Scanning
  imports Prelude
begin

text \<open>
  Loops that call a step until it reports the last output, and the interface under which such
  a loop ends: a step that never panics in a good state, keeps the state good and, unless its
  output is the last one, uses up some of a finite supply.
\<close>

text \<open>The fuel bounds the rounds; \<open>None\<close> is a panic of the step, or no fuel left.\<close>

fun drive :: "('s \<Rightarrow> ('t \<times> 's) option) \<Rightarrow> ('t \<Rightarrow> bool) \<Rightarrow> nat \<Rightarrow> 's \<Rightarrow> 't list option" where
  "drive step is_last 0 s = None"
| "drive step is_last (Suc fuel) s =
     do {
       (t, s') \<leftarrow> step s;
       if is_last t then Some [t]
       else do {
         ts \<leftarrow> drive step is_last fuel s';
         Some (t # ts)
       }
     }"

locale driver =
  fixes step :: "'s \<Rightarrow> ('t \<times> 's) option"
    and is_last :: "'t \<Rightarrow> bool"
    and inv :: "'s \<Rightarrow> bool"
    and left :: "'s \<Rightarrow> nat"
  assumes step_total: "inv s \<Longrightarrow> \<exists>t s'. step s = Some (t, s')"
    and step_inv: "inv s \<Longrightarrow> step s = Some (t, s') \<Longrightarrow> inv s'"
    and step_left: "inv s \<Longrightarrow> step s = Some (t, s') \<Longrightarrow> \<not> is_last t \<Longrightarrow> left s' < left s"
begin

lemma drive_total:
  "inv s \<Longrightarrow> left s < fuel \<Longrightarrow>
     \<exists>ts t. drive step is_last fuel s = Some (ts @ [t]) \<and> is_last t \<and> (\<forall>u \<in> set ts. \<not> is_last u)"
proof (induction fuel arbitrary: s)
  case 0
  then show ?case by simp
next
  case (Suc fuel)
  from step_total [OF Suc.prems(1)] obtain t s' where st: "step s = Some (t, s')" by blast
  show ?case
  proof (cases "is_last t")
    case True
    then show ?thesis by (intro exI [of _ "[]"] exI [of _ t]) (simp add: st)
  next
    case False
    have "inv s'" "left s' < fuel"
      using step_inv [OF Suc.prems(1) st] step_left [OF Suc.prems(1) st False] Suc.prems(2) by auto
    then obtain ts u where "drive step is_last fuel s' = Some (ts @ [u])" "is_last u"
      "\<forall>v \<in> set ts. \<not> is_last v"
      using Suc.IH by blast
    then show ?thesis using False by (intro exI [of _ "t # ts"] exI [of _ u]) (simp add: st)
  qed
qed

lemma drive_outputs:
  assumes "\<And>s t s'. inv s \<Longrightarrow> step s = Some (t, s') \<Longrightarrow> P t"
  shows "inv s \<Longrightarrow> drive step is_last fuel s = Some ts \<Longrightarrow> u \<in> set ts \<Longrightarrow> P u"
proof (induction fuel arbitrary: s ts)
  case 0
  then show ?case by simp
next
  case (Suc fuel)
  obtain t s' where st: "step s = Some (t, s')" using step_total [OF Suc.prems(1)] by blast
  have t: "P t" using assms Suc.prems(1) st by blast
  show ?case
  proof (cases "is_last t")
    case True
    then show ?thesis using Suc.prems st t by auto
  next
    case False
    then obtain us where "drive step is_last fuel s' = Some us" "ts = t # us"
      using Suc.prems(2) st by (auto split: option.splits Option.bind_splits)
    then show ?thesis using Suc.IH [OF step_inv [OF Suc.prems(1) st]] Suc.prems(3) t by auto
  qed
qed

lemma drive_more_fuel:
  "drive step is_last fuel s = Some ts \<Longrightarrow> fuel \<le> fuel' \<Longrightarrow> drive step is_last fuel' s = Some ts"
proof (induction fuel arbitrary: fuel' s ts)
  case 0
  then show ?case by simp
next
  case (Suc fuel)
  obtain f where f: "fuel' = Suc f" "fuel \<le> f" using Suc.prems(2) by (cases fuel') auto
  show ?case using Suc.prems(1) Suc.IH [OF _ f(2)]
    by (auto simp: f(1) split: Option.bind_splits if_splits)
qed

end

text \<open>
  When every output covers a stretch that starts at or after the position of the state before
  it and ends at or before the position after it, the stretches come in order.
\<close>

locale spanned_driver = driver step is_last inv left
  for step :: "'s \<Rightarrow> ('t \<times> 's) option"
    and is_last :: "'t \<Rightarrow> bool"
    and inv :: "'s \<Rightarrow> bool"
    and left :: "'s \<Rightarrow> nat" +
  fixes pos :: "'s \<Rightarrow> nat"
    and lo :: "'t \<Rightarrow> nat"
    and hi :: "'t \<Rightarrow> nat"
  assumes step_span: "inv s \<Longrightarrow> step s = Some (t, s') \<Longrightarrow> pos s \<le> lo t \<and> lo t \<le> hi t \<and> hi t \<le> pos s'"
begin

lemma drive_spans:
  "inv s \<Longrightarrow> drive step is_last fuel s = Some ts \<Longrightarrow>
     sorted_wrt (\<lambda>t u. hi t \<le> lo u) ts \<and> (\<forall>t \<in> set ts. pos s \<le> lo t \<and> lo t \<le> hi t)"
proof (induction fuel arbitrary: s ts)
  case 0
  then show ?case by simp
next
  case (Suc fuel)
  obtain t s' where st: "step s = Some (t, s')" using step_total [OF Suc.prems(1)] by blast
  note sp = step_span [OF Suc.prems(1) st]
  show ?case
  proof (cases "is_last t")
    case True
    then show ?thesis using Suc.prems st sp by auto
  next
    case False
    then obtain us where us: "drive step is_last fuel s' = Some us" "ts = t # us"
      using Suc.prems(2) st by (auto split: Option.bind_splits)
    have "sorted_wrt (\<lambda>t u. hi t \<le> lo u) us \<and> (\<forall>t \<in> set us. pos s' \<le> lo t \<and> lo t \<le> hi t)"
      using Suc.IH [OF step_inv [OF Suc.prems(1) st] us(1)] .
    then show ?thesis using sp us(2) by fastforce
  qed
qed

text \<open>What no output covers are the gaps the step itself leaves.\<close>

lemma drive_covers:
  assumes gap: "\<And>s t s' i. inv s \<Longrightarrow> step s = Some (t, s') \<Longrightarrow> pos s \<le> i \<Longrightarrow> i < pos s' \<Longrightarrow>
      G i \<or> (lo t \<le> i \<and> i < hi t)"
    and last: "\<And>s t s'. inv s \<Longrightarrow> step s = Some (t, s') \<Longrightarrow> is_last t \<Longrightarrow> N \<le> pos s'"
  shows "inv s \<Longrightarrow> drive step is_last fuel s = Some ts \<Longrightarrow> pos s \<le> i \<Longrightarrow> i < N \<Longrightarrow> \<not> G i \<Longrightarrow>
      \<exists>t \<in> set ts. lo t \<le> i \<and> i < hi t"
proof (induction fuel arbitrary: s ts)
  case 0
  then show ?case by simp
next
  case (Suc fuel)
  obtain t s' where st: "step s = Some (t, s')" using step_total [OF Suc.prems(1)] by blast
  have t: "t \<in> set ts" using Suc.prems(2) st by (auto split: Option.bind_splits if_splits)
  show ?case
  proof (cases "i < pos s'")
    case True
    then show ?thesis using gap [OF Suc.prems(1) st Suc.prems(3) True] Suc.prems(5) t by blast
  next
    case False
    then have "\<not> is_last t" using last [OF Suc.prems(1) st] Suc.prems(4) by auto
    then obtain us where us: "drive step is_last fuel s' = Some us" "ts = t # us"
      using Suc.prems(2) st by (auto split: Option.bind_splits)
    then show ?thesis
      using Suc.IH [OF step_inv [OF Suc.prems(1) st] us(1)] Suc.prems(4,5) False by auto
  qed
qed

end

end
