(* ===== verification/Lexer.thy ===== *)
theory Lexer
  imports Tokens Scanning
begin

text \<open>
  The scanner of \<open>src/compiler/lexer.rs\<close>, method by method. A method that can panic (a slice,
  an index, a subtraction below zero) returns \<open>None\<close> for the panic. The parser of \<open>BigInt\<close>
  literals is a parameter \<open>big\<close>; integers and doubles are parsed as Rust's own library does.
  The loops are recursive functions that end because every round moves \<open>current\<close> on.
\<close>

section \<open>Character classes\<close>

definition LF :: uchar where "LF = 10"
definition BACKSLASH :: uchar where "BACKSLASH = 0x5C"

definition is_digit :: "uchar \<Rightarrow> bool" where
  "is_digit c \<longleftrightarrow> cp CHR ''0'' \<le> c \<and> c \<le> cp CHR ''9''"

definition is_alpha :: "uchar \<Rightarrow> bool" where
  "is_alpha c \<longleftrightarrow>
     (cp CHR ''a'' \<le> c \<and> c \<le> cp CHR ''z'') \<or> (cp CHR ''A'' \<le> c \<and> c \<le> cp CHR ''Z'') \<or> c = cp CHR ''_''"

definition is_alphanumeric :: "uchar \<Rightarrow> bool" where
  "is_alphanumeric c \<longleftrightarrow> is_alpha c \<or> is_digit c"

definition is_binary :: "uchar \<Rightarrow> bool" where
  "is_binary c \<longleftrightarrow> c = cp CHR ''0'' \<or> c = cp CHR ''1''"

definition is_octal :: "uchar \<Rightarrow> bool" where
  "is_octal c \<longleftrightarrow> cp CHR ''0'' \<le> c \<and> c \<le> cp CHR ''7''"

definition is_hex :: "uchar \<Rightarrow> bool" where
  "is_hex c \<longleftrightarrow> is_digit c \<or> (cp CHR ''a'' \<le> c \<and> c \<le> cp CHR ''f'') \<or>
     (cp CHR ''A'' \<le> c \<and> c \<le> cp CHR ''F'')"

section \<open>Parsing of numbers, as the standard library does it\<close>

text \<open>\<open>char::to_digit\<close>.\<close>

definition to_digit :: "nat \<Rightarrow> uchar \<Rightarrow> nat option" where
  "to_digit r c =
     (let d = (if is_digit c then c - cp CHR ''0''
               else if cp CHR ''a'' \<le> c \<and> c \<le> cp CHR ''z'' then c - cp CHR ''a'' + 10
               else if cp CHR ''A'' \<le> c \<and> c \<le> cp CHR ''Z'' then c - cp CHR ''A'' + 10
               else r)
      in if d < r then Some d else None)"

fun digits_value :: "nat \<Rightarrow> nat \<Rightarrow> ustring \<Rightarrow> nat option" where
  "digits_value r acc [] = Some acc"
| "digits_value r acc (c # cs) =
     (case to_digit r c of None \<Rightarrow> None | Some d \<Rightarrow> digits_value r (acc * r + d) cs)"

text \<open>
  \<open>u32::from_str_radix\<close> and \<open>i64::from_str_radix\<close>: a leading \<open>+\<close> (and, signed, \<open>-\<close>) is
  taken when something follows it, an empty text and an overflow are errors.
\<close>

definition unsigned_digits :: "nat \<Rightarrow> ustring \<Rightarrow> nat option" where
  "unsigned_digits r s = (if s = [] then None else digits_value r 0 s)"

definition u32_from_str_radix :: "nat \<Rightarrow> ustring \<Rightarrow> nat option" where
  "u32_from_str_radix r s =
     (let t = (if s \<noteq> [] \<and> hd s = cp CHR ''+'' then tl s else s)
      in case unsigned_digits r t of
           Some n \<Rightarrow> if n < 2 ^ 32 then Some n else None
         | None \<Rightarrow> None)"

definition i64_from_str_radix :: "nat \<Rightarrow> ustring \<Rightarrow> int option" where
  "i64_from_str_radix r s =
     (let neg = (s \<noteq> [] \<and> hd s = cp CHR ''-'');
          t = (if s \<noteq> [] \<and> (hd s = cp CHR ''+'' \<or> neg) then tl s else s)
      in case unsigned_digits r t of
           Some n \<Rightarrow>
             let v = (if neg then - int n else int n) in if in_i64 v then Some v else None
         | None \<Rightarrow> None)"

text \<open>\<open>f64::from_str\<close> on a decimal literal: digits, a fraction, an exponent.\<close>

definition f64_exponent :: "ustring \<Rightarrow> int option" where
  "f64_exponent s =
     (let neg = (s \<noteq> [] \<and> hd s = cp CHR ''-'');
          t = (if s \<noteq> [] \<and> (hd s = cp CHR ''+'' \<or> neg) then tl s else s)
      in map_option (\<lambda>n. if neg then - int n else int n) (unsigned_digits 10 t))"

definition f64_of_decimal :: "nat \<Rightarrow> int \<Rightarrow> f64" where
  "f64_of_decimal n e =
     (if 0 \<le> e then f64_of_ratio (n * 10 ^ nat e) 1 else f64_of_ratio n (10 ^ nat (- e)))"

definition f64_from_str :: "ustring \<Rightarrow> f64 option" where
  "f64_from_str s =
     (let whole = takeWhile is_digit s;
          r = dropWhile is_digit s;
          dot = (r \<noteq> [] \<and> hd r = cp CHR ''.'');
          frac = (if dot then takeWhile is_digit (tl r) else []);
          r' = (if dot then dropWhile is_digit (tl r) else r);
          e = (if r' = [] then Some 0
               else if hd r' = cp CHR ''e'' \<or> hd r' = cp CHR ''E'' then f64_exponent (tl r')
               else None)
      in case (unsigned_digits 10 (whole @ frac), e) of
           (Some n, Some k) \<Rightarrow> Some (f64_of_decimal n (k - int (length frac)))
         | _ \<Rightarrow> None)"

section \<open>The state\<close>

text \<open>
  The field \<open>total_count\<close> is the length of \<open>source\<close>, set once by \<open>new\<close>, so it is a
  definition. \<open>lines\<close> maps a line to the offset of its first character; a hash map there, it
  is an association list in insertion order here (its order shows only in the fallback of
  \<open>make_token\<close>, which \<open>make_token_wf\<close> shows to be dead).
\<close>

record lexer =
  source :: ustring
  lline :: nat
  current :: nat
  lexing_type :: nat
  start :: nat
  start_line :: nat
  interpolating :: "uchar list"
  lines :: "(nat \<times> nat) list"

definition total_count :: "lexer \<Rightarrow> nat" where
  "total_count l = length (source l)"

definition lexer_new :: "ustring \<Rightarrow> lexer" where
  "lexer_new s =
     \<lparr>source = s, lline = 1, current = 0, lexing_type = 0, start = 0, start_line = 1,
      interpolating = [], lines = []\<rparr>"

fun lines_insert :: "nat \<Rightarrow> nat \<Rightarrow> (nat \<times> nat) list \<Rightarrow> (nat \<times> nat) list" where
  "lines_insert k v [] = [(k, v)]"
| "lines_insert k v ((k', v') # m) =
     (if k' = k then (k, v) # m else (k', v') # lines_insert k v m)"

section \<open>Reading characters\<close>

definition is_at_end :: "lexer \<Rightarrow> bool" where
  "is_at_end l \<longleftrightarrow> total_count l \<le> current l"

text \<open>The bookkeeping \<open>advance\<close> and \<open>match_char\<close> do past a newline.\<close>

definition note_newline :: "uchar \<Rightarrow> lexer \<Rightarrow> lexer" where
  "note_newline c l =
     (if c = LF
      then l\<lparr>lline := lline l + 1, lines := lines_insert (lline l + 1) (current l) (lines l)\<rparr>
      else l)"

definition advance :: "lexer \<Rightarrow> uchar \<times> lexer" where
  "advance l =
     (if is_at_end l then (0, l)
      else let c = source l ! current l in (c, note_newline c (l\<lparr>current := current l + 1\<rparr>)))"

abbreviation adv :: "lexer \<Rightarrow> lexer" where
  "adv l \<equiv> snd (advance l)"

definition match_char :: "uchar \<Rightarrow> lexer \<Rightarrow> bool \<times> lexer" where
  "match_char c l =
     (if is_at_end l \<or> c \<noteq> source l ! current l then (False, l)
      else (True, note_newline c (l\<lparr>current := current l + 1\<rparr>)))"

definition next_char :: "lexer \<Rightarrow> uchar" where
  "next_char l = (if total_count l \<le> current l + 1 then 0 else source l ! (current l + 1))"

definition previous :: "lexer \<Rightarrow> uchar" where
  "previous l = (if current l = 0 then 0 else source l ! (current l - 1))"

definition peek :: "lexer \<Rightarrow> uchar" where
  "peek l = (if is_at_end l then 0 else source l ! current l)"

definition peek_n :: "nat \<Rightarrow> lexer \<Rightarrow> uchar" where
  "peek_n k l =
     (let n = k - 1
      in if is_at_end l \<or> total_count l \<le> current l + n then 0 else source l ! (current l + n))"

definition get_string :: "nat \<Rightarrow> nat \<Rightarrow> lexer \<Rightarrow> ustring panics" where
  "get_string b e l = slice (source l) b e"

section \<open>Making tokens\<close>

text \<open>
  A token starts where the scan of it did. Its column counts from the offset the line table
  has for its line; should that lie past the start, the line is looked for in the source.
\<close>

definition make_token :: "token_kind \<Rightarrow> lexer \<Rightarrow> (token \<times> lexer) panics" where
  "make_token k l =
     (let line_start =
            (if lines l = [] \<or> start_line l = 1 then 0
             else case map_of (lines l) (start_line l) of None \<Rightarrow> 0 | Some v \<Rightarrow> v)
      in if start l < line_start then
           do {
             s \<leftarrow> slice (source l) 0 (start l + 1);
             let ls = (case rposition (\<lambda>c. c = LF) s of None \<Rightarrow> 0 | Some i \<Rightarrow> i);
             let ks = filter (\<lambda>k. the (map_of (lines l) k) \<le> ls) (map fst (lines l));
             col \<leftarrow> usub (start l) ls;
             Some (token_new k (start_line l) (col + 1) (start l) (current l),
                   l\<lparr>lline := (if ks = [] then 1 else last ks)\<rparr>)
           }
         else Some (token_new k (start_line l) (start l - line_start + 1) (start l) (current l), l))"

definition make_error :: "ustring \<Rightarrow> lexer \<Rightarrow> (token \<times> lexer) panics" where
  "make_error msg l = make_token (TkError msg (lline l) (start l)) l"

definition UNTERMINATED_STRING :: ustring where
  "UNTERMINATED_STRING = str ''unterminated string''"

definition UNBALANCED_COMMENT :: ustring where
  "UNBALANCED_COMMENT = str ''unbalanced block comment''"

section \<open>Loops that only advance\<close>

lemma adv_current: "\<not> is_at_end l \<Longrightarrow> current (adv l) = Suc (current l)"
  by (simp add: advance_def Let_def note_newline_def)

lemma adv_source [simp]: "source (adv l) = source l"
  by (simp add: advance_def Let_def note_newline_def)

lemma adv_left: "\<not> is_at_end l \<Longrightarrow> total_count (adv l) - current (adv l) < total_count l - current l"
  by (simp add: adv_current total_count_def is_at_end_def)

lemma adv_le: "current l \<le> current (adv l)"
  by (cases "is_at_end l") (auto simp: adv_current, simp add: advance_def)

lemma adv_left_le: "total_count (adv l) - current (adv l) \<le> total_count l - current l"
  using adv_le [of l] by (simp add: total_count_def)

text \<open>
  \<open>while p { self.advance(); }\<close>. Where the code does not ask for the end itself, \<open>p\<close> is
  false of the zero character that \<open>peek\<close> gives there (\<open>advance_while_unfold\<close>).
\<close>

function advance_while :: "(lexer \<Rightarrow> bool) \<Rightarrow> lexer \<Rightarrow> lexer" where
  "advance_while p l = (if p l \<and> \<not> is_at_end l then advance_while p (adv l) else l)"
  by pat_completeness auto
termination
  by (relation "measure (\<lambda>(p, l). total_count l - current l)") (auto simp: adv_left)

declare advance_while.simps [simp del]

lemma advance_while_unfold:
  "(is_at_end l \<Longrightarrow> \<not> p l) \<Longrightarrow>
     advance_while p l = (if p l then advance_while p (adv l) else l)"
  by (subst advance_while.simps) auto

definition skip_whitespace :: "lexer \<Rightarrow> lexer" where
  "skip_whitespace l =
     advance_while (\<lambda>l. peek l = cp CHR '' '' \<or> peek l = 9 \<or> peek l = 13) l"

definition comment :: "lexer \<Rightarrow> (token \<times> lexer) panics" where
  "comment l =
     (let l1 = advance_while (\<lambda>l. peek l \<noteq> LF) l in
      do {
        s \<leftarrow> get_string (start l1 + 1) (current l1) l1;
        make_token (TkComment s) l1
      })"

definition decorator :: "lexer \<Rightarrow> (token \<times> lexer) panics" where
  "decorator l =
     (let l1 = advance_while (\<lambda>l. is_alphanumeric (peek l)) l in
      do {
        s \<leftarrow> get_string (start l1) (current l1) l1;
        make_token (TkDecorator s) l1
      })"

text \<open>Block comments nest; the result says whether the outermost one was closed.\<close>

function doc_block_loop :: "int \<Rightarrow> lexer \<Rightarrow> bool \<times> lexer" where
  "doc_block_loop nesting l =
     (if nesting \<le> 0 then (True, l)
      else if is_at_end l then (False, l)
      else if peek l = cp CHR ''/'' \<and> next_char l = cp CHR ''*''
        then doc_block_loop (nesting + 1) (adv (adv l))
      else if peek l = cp CHR ''*'' \<and> next_char l = cp CHR ''/''
        then doc_block_loop (nesting - 1) (adv (adv l))
      else doc_block_loop nesting (adv l))"
  by pat_completeness auto
termination
  by (relation "measure (\<lambda>(n, l). total_count l - current l)")
    (auto simp: adv_left intro: le_less_trans [OF adv_left_le adv_left])

declare doc_block_loop.simps [simp del]

definition doc_block :: "lexer \<Rightarrow> (token \<times> lexer) panics" where
  "doc_block l =
     (case doc_block_loop 1 l of
        (False, l1) \<Rightarrow> make_error UNBALANCED_COMMENT l1
      | (True, l1) \<Rightarrow>
          do {
            e \<leftarrow> usub (current l1) 2;
            s \<leftarrow> get_string (start l1 + 2) e l1;
            make_token (TkDocBlock s) l1
          })"

section \<open>Escapes\<close>

text \<open>
  \<open>char::from_u32\<close> of a hexadecimal escape. Its digits are parsed by
  \<open>u32::from_str_radix\<close>, which also takes a leading \<open>+\<close>.
\<close>

definition char_of_hex :: "ustring \<Rightarrow> uchar option" where
  "char_of_hex s = Option.bind (u32_from_str_radix 16 s) char_from_u32"

definition bad_unicode :: ustring where
  "bad_unicode = str ''invalid unicode escape sequence''"

definition bad_hex :: ustring where
  "bad_hex = str ''invalid hex escape sequence''"

text \<open>What a backslash and the character \<open>n\<close> after it stand for, at \<open>i\<close>.\<close>

definition unescape_simple :: "ustring \<Rightarrow> uchar \<Rightarrow> nat \<Rightarrow> nat \<Rightarrow> uchar \<Rightarrow> ustring" where
  "unescape_simple src quote end_at i n =
     (if n = cp CHR ''0'' then [0]
      else if n = cp CHR ''a'' then [7]
      else if n = cp CHR ''b'' then [8]
      else if n = cp CHR ''f'' then [12]
      else if n = cp CHR ''n'' then [10]
      else if n = cp CHR ''t'' then [9]
      else if n = cp CHR ''r'' then [13]
      else if n = cp CHR ''v'' then [11]
      else if n = 0x27 then (if quote \<noteq> 0x27 \<and> quote \<noteq> 0x125 then [BACKSLASH, n] else [n])
      else if n = 0x22 then (if quote \<noteq> 0x22 \<and> quote \<noteq> 0x125 then [BACKSLASH, n] else [n])
      else if n = BACKSLASH then [BACKSLASH]
      else if n = cp CHR ''$'' then
        (if end_at \<le> i + 2 \<or> src ! (i + 2) \<noteq> cp CHR ''{'' then [BACKSLASH, n] else [n])
      else [BACKSLASH, n])"

text \<open>
  The loop of \<open>unescape_string\<close> from offset \<open>i\<close>: \<open>Inr\<close> the text, \<open>Inl\<close> the message of a
  malformed escape, \<open>None\<close> an index out of range.
\<close>

function unescape_loop ::
  "ustring \<Rightarrow> uchar \<Rightarrow> nat \<Rightarrow> nat \<Rightarrow> ustring \<Rightarrow> (ustring + ustring) panics" where
  "unescape_loop src quote end_at i acc =
     (if \<not> i < end_at then Some (Inr acc)
      else do {
        c \<leftarrow> index src i;
        if c = BACKSLASH \<and> i + 9 < end_at \<and> src ! (i + 1) = cp CHR ''U'' then do {
          h \<leftarrow> slice src (i + 2) (i + 10);
          case char_of_hex h of
            Some ch \<Rightarrow> unescape_loop src quote end_at (i + 10) (acc @ [ch])
          | None \<Rightarrow> Some (Inl bad_unicode)
        }
        else if c = BACKSLASH \<and> i + 5 < end_at \<and> src ! (i + 1) = cp CHR ''u'' then do {
          h \<leftarrow> slice src (i + 2) (i + 6);
          case char_of_hex h of
            Some ch \<Rightarrow> unescape_loop src quote end_at (i + 6) (acc @ [ch])
          | None \<Rightarrow> Some (Inl bad_unicode)
        }
        else if c = BACKSLASH \<and> i + 3 < end_at \<and> src ! (i + 1) = cp CHR ''x'' then do {
          h \<leftarrow> slice src (i + 2) (i + 4);
          case char_of_hex h of
            Some ch \<Rightarrow> unescape_loop src quote end_at (i + 4) (acc @ [ch])
          | None \<Rightarrow> Some (Inl bad_hex)
        }
        else if c = BACKSLASH \<and> i + 1 < end_at then do {
          n \<leftarrow> index src (i + 1);
          unescape_loop src quote end_at (i + 2) (acc @ unescape_simple src quote end_at i n)
        }
        else unescape_loop src quote end_at (i + 1) (acc @ [c])
      })"
  by pat_completeness auto
termination
  by (relation "measure (\<lambda>(src, quote, end_at, i, acc). end_at - i)") auto

declare unescape_loop.simps [simp del]

definition unescape_string :: "uchar \<Rightarrow> lexer \<Rightarrow> ((token \<times> lexer) + ustring) panics" where
  "unescape_string quote l =
     do {
       end_at \<leftarrow> usub (current l) 1;
       r \<leftarrow> unescape_loop (source l) quote end_at (start l + 1) [];
       case r of
         Inr s \<Rightarrow> Some (Inr s)
       | Inl msg \<Rightarrow> map_option Inl (make_error msg l)
     }"

section \<open>Strings\<close>

text \<open>Where the scan of a string stops: before a \<open>${\<close>, or at its quote or the end.\<close>

datatype string_stop = AtInterpolation lexer | AtQuoteOrEnd lexer

function string_loop :: "uchar \<Rightarrow> lexer \<Rightarrow> string_stop" where
  "string_loop c l =
     (if peek l \<noteq> c \<and> \<not> is_at_end l then
        (if peek l = cp CHR ''$'' \<and> next_char l = cp CHR ''{'' then AtInterpolation l
         else
           let l1 = (if peek l = BACKSLASH \<and>
                        (next_char l = c \<or> next_char l = BACKSLASH \<or> next_char l = cp CHR ''$'')
                     then adv l else l)
           in string_loop c (adv l1))
      else AtQuoteOrEnd l)"
  by pat_completeness auto
termination
  by (relation "measure (\<lambda>(c, l). total_count l - current l)")
    (auto simp: adv_left intro: le_less_trans [OF adv_left_le adv_left])

declare string_loop.simps [simp del]

definition lex_string :: "uchar \<Rightarrow> lexer \<Rightarrow> (token \<times> lexer) panics" where
  "lex_string c l =
     (case string_loop c l of
        AtInterpolation l1 \<Rightarrow>
          (let l2 = l1\<lparr>interpolating := interpolating l1 @ [c], current := current l1 + 1\<rparr> in
           do {
             r \<leftarrow> unescape_string c l2;
             tl2 \<leftarrow> (case r of
                       Inr s \<Rightarrow> make_token (TkInterpolation s) l2
                     | Inl err \<Rightarrow> Some err);
             Some (fst tl2, (snd tl2)\<lparr>current := current (snd tl2) + 1\<rparr>)
           })
      | AtQuoteOrEnd l1 \<Rightarrow>
          if is_at_end l1 then make_error UNTERMINATED_STRING l1
          else
            let l2 = snd (match_char c l1) in
            do {
              r \<leftarrow> unescape_string c l2;
              (case r of
                 Inr s \<Rightarrow> make_token (TkLiteral s) l2
               | Inl err \<Rightarrow> Some err)
            })"

section \<open>Numbers\<close>

definition digit_or_separator :: "lexer \<Rightarrow> bool" where
  "digit_or_separator l \<longleftrightarrow>
     is_digit (peek l) \<or> (peek l = cp CHR ''_'' \<and> is_digit (peek_n 2 l))"

text \<open>The digits of a \<open>0b\<close>, \<open>0c\<close> or \<open>0x\<close> literal, whose prefix has been read.\<close>

definition radix_literal ::
  "(uchar \<Rightarrow> bool) \<Rightarrow> nat \<Rightarrow> (int \<Rightarrow> token_kind) \<Rightarrow> ustring \<Rightarrow> lexer \<Rightarrow> (token \<times> lexer) panics" where
  "radix_literal p r mk msg l =
     (let l1 = advance_while (\<lambda>l. p (peek l)) l in
      do {
        s \<leftarrow> get_string (start l1 + 2) (current l1) l1;
        (case i64_from_str_radix r s of
           Some n \<Rightarrow> make_token (mk n) l1
         | None \<Rightarrow> make_error msg l1)
      })"

definition has_exponent :: "lexer \<Rightarrow> bool" where
  "has_exponent l \<longleftrightarrow>
     (peek l = cp CHR ''e'' \<or> peek l = cp CHR ''E'') \<and>
     (is_digit (next_char l) \<or>
      ((next_char l = cp CHR ''+'' \<or> next_char l = cp CHR ''-'') \<and> is_digit (peek_n 3 l)))"

text \<open>The rest of a decimal literal, from its first digit on.\<close>

definition decimal_literal :: "(ustring \<Rightarrow> int option) \<Rightarrow> lexer \<Rightarrow> (token \<times> lexer) panics" where
  "decimal_literal big l =
     (let l1 = advance_while digit_or_separator l in
      if peek l1 = cp CHR ''n'' then
        let l2 = adv l1 in
        do {
          e \<leftarrow> usub (current l2) 1;
          s \<leftarrow> get_string (start l2) e l2;
          make_token (TkBigNumber (case big s of Some n \<Rightarrow> n | None \<Rightarrow> 0)) l2
        }
      else
        let l2 = (if peek l1 = cp CHR ''.'' \<and> is_digit (next_char l1) then adv (adv l1) else l1);
            l3 = advance_while digit_or_separator l2;
            ex = has_exponent l3;
            l4 = (if ex then
                    let a = adv l3;
                        b = (if peek a = cp CHR ''+'' \<or> peek a = cp CHR ''-'' then adv a else a)
                    in advance_while (\<lambda>l. is_digit (peek l)) b
                  else l3)
        in do {
          s \<leftarrow> get_string (start l4) (current l4) l4;
          let number = filter (\<lambda>c. c \<noteq> cp CHR ''_'') s;
          if cp CHR ''.'' \<in> set number \<or> ex
          then make_token (TkDouble (case f64_from_str number of Some x \<Rightarrow> x | None \<Rightarrow> 0)) l4
          else (case i64_from_str_radix 10 number of
                  Some n \<Rightarrow> make_token (TkInteger n) l4
                | None \<Rightarrow>
                    (case big number of
                       Some n \<Rightarrow> make_token (TkBigNumber n) l4
                     | None \<Rightarrow> make_error (str ''invalid integer literal'') l4))
        })"

definition lex_number :: "(ustring \<Rightarrow> int option) \<Rightarrow> lexer \<Rightarrow> (token \<times> lexer) panics" where
  "lex_number big l =
     (if previous l = cp CHR ''0'' then
        (case match_char (cp CHR ''b'') l of
           (True, l1) \<Rightarrow>
             radix_literal is_binary 2 TkBinNumber (str ''invalid binary literal'') l1
         | (False, _) \<Rightarrow>
             (case match_char (cp CHR ''c'') l of
                (True, l1) \<Rightarrow>
                  radix_literal is_octal 8 TkOctNumber (str ''invalid octal literal'') l1
              | (False, _) \<Rightarrow>
                  (case match_char (cp CHR ''x'') l of
                     (True, l1) \<Rightarrow>
                       radix_literal is_hex 16 TkHexNumber (str ''invalid hex literal'') l1
                   | (False, _) \<Rightarrow> decimal_literal big l)))
      else decimal_literal big l)"

section \<open>Names\<close>

definition keyword_table :: "(ustring \<times> keyword) list" where
  "keyword_table =
     [(str ''and'', KwAnd), (str ''as'', KwAs), (str ''assert'', KwAssert),
      (str ''break'', KwBreak), (str ''catch'', KwCatch), (str ''class'', KwClass),
      (str ''const'', KwConst), (str ''continue'', KwContinue), (str ''def'', KwDef),
      (str ''default'', KwDefault), (str ''do'', KwDo), (str ''echo'', KwEcho),
      (str ''else'', KwElse), (str ''false'', KwFalse), (str ''for'', KwFor), (str ''if'', KwIf),
      (str ''import'', KwImport), (str ''in'', KwIn), (str ''iter'', KwIter), (str ''nil'', KwNil),
      (str ''or'', KwOr), (str ''parent'', KwParent), (str ''raise'', KwRaise),
      (str ''return'', KwReturn), (str ''self'', KwSelf), (str ''static'', KwStatic),
      (str ''true'', KwTrue), (str ''using'', KwUsing), (str ''var'', KwVar), (str ''when'', KwWhen),
      (str ''while'', KwWhile)]"

definition word_kind :: "ustring \<Rightarrow> token_kind" where
  "word_kind s = (case map_of keyword_table s of Some w \<Rightarrow> TkKw w | None \<Rightarrow> TkIdentifier s)"

definition lex_identifier :: "lexer \<Rightarrow> (token \<times> lexer) panics" where
  "lex_identifier l =
     (let l1 = advance_while (\<lambda>l. is_alphanumeric (peek l)) l in
      do {
        s \<leftarrow> get_string (start l1) (current l1) l1;
        make_token (word_kind s) l1
      })"

section \<open>One token\<close>

abbreviation sym :: "symbol \<Rightarrow> lexer \<Rightarrow> (token \<times> lexer) panics" where
  "sym y l \<equiv> make_token (TkSym y) l"

text \<open>\<open>if self.match_char(c) { f } else { g }\<close>.\<close>

definition if_match ::
  "uchar \<Rightarrow> (lexer \<Rightarrow> (token \<times> lexer) panics) \<Rightarrow> (lexer \<Rightarrow> (token \<times> lexer) panics) \<Rightarrow>
     lexer \<Rightarrow> (token \<times> lexer) panics" where
  "if_match c f g l = (case match_char c l of (True, l1) \<Rightarrow> f l1 | (False, l1) \<Rightarrow> g l1)"

abbreviation eq_or :: "symbol \<Rightarrow> symbol \<Rightarrow> lexer \<Rightarrow> (token \<times> lexer) panics" where
  "eq_or y z \<equiv> if_match (cp CHR ''='') (sym y) (sym z)"

definition scan_close_brace :: "lexer \<Rightarrow> (token \<times> lexer) panics" where
  "scan_close_brace l =
     (if interpolating l \<noteq> []
      then lex_string (last (interpolating l)) (l\<lparr>interpolating := butlast (interpolating l)\<rparr>)
      else sym SyRbrace l)"

definition scan_dot :: "lexer \<Rightarrow> (token \<times> lexer) panics" where
  "scan_dot = if_match (cp CHR ''.'') (if_match (cp CHR ''.'') (sym SyTriDot) (sym SyRange)) (sym SyDot)"

definition scan_star :: "lexer \<Rightarrow> (token \<times> lexer) panics" where
  "scan_star = if_match (cp CHR ''*'') (eq_or SyPowEq SyPow) (eq_or SyMultiplyEq SyMultiply)"

definition scan_slash :: "lexer \<Rightarrow> (token \<times> lexer) panics" where
  "scan_slash =
     if_match (cp CHR ''*'') doc_block
       (if_match (cp CHR ''/'') (eq_or SyFloorEq SyFloor) (eq_or SyDivideEq SyDivide))"

definition scan_less :: "lexer \<Rightarrow> (token \<times> lexer) panics" where
  "scan_less = if_match (cp CHR ''<'') (eq_or SyLshiftEq SyLshift) (eq_or SyLessEq SyLess)"

definition scan_greater :: "lexer \<Rightarrow> (token \<times> lexer) panics" where
  "scan_greater l =
     (if lexing_type l = 0
      then if_match (cp CHR ''>'')
             (if_match (cp CHR ''>'') (eq_or SyUrshiftEq SyUrshift) (eq_or SyRshiftEq SyRshift))
             (eq_or SyGreaterEq SyGreater) l
      else eq_or SyGreaterEq SyGreater l)"

definition scan_equal :: "lexer \<Rightarrow> (token \<times> lexer) panics" where
  "scan_equal = if_match (cp CHR ''='') (sym SyEqualEq) (if_match (cp CHR ''>'') (sym SyArrow) (sym SyEqual))"

text \<open>The \<open>match\<close> of \<open>scan\<close> on the first character.\<close>

definition scan_from :: "(ustring \<Rightarrow> int option) \<Rightarrow> uchar \<Rightarrow> lexer \<Rightarrow> (token \<times> lexer) panics" where
  "scan_from big c l =
     (if c = cp CHR ''('' then sym SyLparen l
      else if c = cp CHR '')'' then sym SyRparen l
      else if c = cp CHR ''['' then sym SyLbracket l
      else if c = cp CHR '']'' then sym SyRbracket l
      else if c = cp CHR ''{'' then sym SyLbrace l
      else if c = cp CHR ''}'' then scan_close_brace l
      else if c = cp CHR '','' then sym SyComma l
      else if c = cp CHR '';'' then sym SySemicolon l
      else if c = cp CHR ''@'' then (if \<not> is_alpha (peek l) then sym SyAt l else decorator l)
      else if c = cp CHR ''.'' then scan_dot l
      else if c = cp CHR ''-'' then if_match (cp CHR ''-'') (sym SyDecrement) (eq_or SyMinusEq SyMinus) l
      else if c = cp CHR ''+'' then if_match (cp CHR ''+'') (sym SyIncrement) (eq_or SyPlusEq SyPlus) l
      else if c = cp CHR ''*'' then scan_star l
      else if c = cp CHR ''/'' then scan_slash l
      else if c = cp CHR ''#'' then comment l
      else if c = BACKSLASH then sym SyBackslash l
      else if c = cp CHR '':'' then sym SyColon l
      else if c = cp CHR ''<'' then scan_less l
      else if c = cp CHR ''>'' then scan_greater l
      else if c = cp CHR ''!'' then eq_or SyBangEq SyBang l
      else if c = cp CHR ''='' then scan_equal l
      else if c = cp CHR ''%'' then eq_or SyPercentEq SyPercent l
      else if c = cp CHR ''&'' then eq_or SyAmpEq SyAmp l
      else if c = cp CHR ''|'' then eq_or SyBarEq SyBar l
      else if c = cp CHR ''^'' then eq_or SyXorEq SyXor l
      else if c = cp CHR ''~'' then eq_or SyTildeEq SyTilde l
      else if c = cp CHR ''?'' then sym SyQuestion l
      else if c = LF then sym SyNewline l
      else if c = 0x27 \<or> c = 0x22 then lex_string c l
      else if is_digit c then lex_number big l
      else if is_alpha c then lex_identifier l
      else make_error (str ''Unexpected character '' @ [c]) l)"

definition scan :: "(ustring \<Rightarrow> int option) \<Rightarrow> lexer \<Rightarrow> (token \<times> lexer) panics" where
  "scan big l =
     (let l0 = skip_whitespace l;
          l1 = l0\<lparr>start := current l0, start_line := lline l0\<rparr>
      in if is_at_end l1 then make_token TkEof l1
         else let (c, l2) = advance l1 in scan_from big c l2)"

definition is_interpolating :: "lexer \<Rightarrow> bool" where
  "is_interpolating l \<longleftrightarrow> interpolating l \<noteq> []"

definition start_lexing_type :: "lexer \<Rightarrow> lexer" where
  "start_lexing_type l = l\<lparr>lexing_type := lexing_type l + 1\<rparr>"

definition stop_lexing_type :: "lexer \<Rightarrow> lexer" where
  "stop_lexing_type l =
     (if 0 < lexing_type l then l\<lparr>lexing_type := lexing_type l - 1\<rparr> else l)"

section \<open>All the tokens of a source\<close>

text \<open>
  The loop of \<open>tokenize_fn\<close> in \<open>src/modules/zuri_lex.rs\<close>, which pairs each token with its
  text and ends after \<open>Eof\<close>. The fuel bounds the rounds; \<open>None\<close> is a panic or no fuel left.
\<close>

definition tokenize_step ::
  "(ustring \<Rightarrow> int option) \<Rightarrow> ustring \<Rightarrow> lexer \<Rightarrow> ((token \<times> ustring) \<times> lexer) option" where
  "tokenize_step big chars l =
     do {
       (t, l') \<leftarrow> scan big l;
       txt \<leftarrow> slice chars (tstart t) (tend t);
       Some ((t, txt), l')
     }"

definition is_eof :: "token \<times> ustring \<Rightarrow> bool" where
  "is_eof t \<longleftrightarrow> kind (fst t) = TkEof"

definition tokenize_loop ::
  "(ustring \<Rightarrow> int option) \<Rightarrow> nat \<Rightarrow> ustring \<Rightarrow> lexer \<Rightarrow> (token \<times> ustring) list option" where
  "tokenize_loop big fuel chars l = drive (tokenize_step big chars) is_eof fuel l"

definition tokenize :: "(ustring \<Rightarrow> int option) \<Rightarrow> ustring \<Rightarrow> (token \<times> ustring) list option" where
  "tokenize big s = tokenize_loop big (length s + 1) s (lexer_new s)"

end
