(* ===== verification/Lexer_Facts.thy ===== *)
theory Lexer_Facts
  imports Lexer
begin

text \<open>
  What the scanner keeps and promises: the line counter and the line table agree with the
  newlines read so far (\<open>lex_wf\<close>), every method moves forward inside the source and keeps
  that, no method panics, and a token carries the position of its first character.
\<close>

named_theorems lex "how the scanner's methods move, for a state that is well formed"

section \<open>Lines and columns of a source\<close>

definition newlines :: "ustring \<Rightarrow> nat \<Rightarrow> nat" where
  "newlines s n = length (filter (\<lambda>c. c = LF) (take n s))"

definition line_of :: "ustring \<Rightarrow> nat \<Rightarrow> nat" where
  "line_of s n = newlines s n + 1"

text \<open>One more than the distance back to the newline before \<open>n\<close>, or to the start.\<close>

definition column_of :: "ustring \<Rightarrow> nat \<Rightarrow> nat" where
  "column_of s n = length (takeWhile (\<lambda>c. c \<noteq> LF) (rev (take n s))) + 1"

lemma newlines_0 [simp]: "newlines s 0 = 0"
  by (simp add: newlines_def)

lemma newlines_Suc:
  "n < length s \<Longrightarrow> newlines s (Suc n) = newlines s n + (if s ! n = LF then 1 else 0)"
  by (simp add: newlines_def take_Suc_conv_app_nth)

lemma newlines_mono: "m \<le> n \<Longrightarrow> newlines s m \<le> newlines s n"
proof -
  assume "m \<le> n"
  then have "take n s = take m s @ take (n - m) (drop m s)"
    by (metis le_add_diff_inverse take_add)
  then show ?thesis by (simp add: newlines_def)
qed

lemma newlines_strict:
  assumes "m \<le> i" "i < n" "i < length s" "s ! i = LF"
  shows "newlines s m < newlines s n"
proof -
  have "newlines s m \<le> newlines s i" using assms by (simp add: newlines_mono)
  also have "\<dots> < newlines s (Suc i)" using assms by (simp add: newlines_Suc)
  also have "\<dots> \<le> newlines s n" using assms by (simp add: newlines_mono)
  finally show ?thesis .
qed

text \<open>The position right after the last newline before \<open>n\<close>.\<close>

lemma last_newline:
  "n \<le> length s \<Longrightarrow> 0 < newlines s n \<Longrightarrow>
     \<exists>v. 0 < v \<and> v \<le> n \<and> s ! (v - 1) = LF \<and> newlines s v = newlines s n \<and>
         column_of s n = n - v + 1"
proof (induction n)
  case 0
  then show ?case by simp
next
  case (Suc n)
  show ?case
  proof (cases "s ! n = LF")
    case True
    with Suc.prems show ?thesis
      by (intro exI [of _ "Suc n"]) (simp add: column_of_def take_Suc_conv_app_nth)
  next
    case False
    with Suc.prems have *: "newlines s (Suc n) = newlines s n" by (simp add: newlines_Suc)
    with Suc obtain v where "0 < v" "v \<le> n" "s ! (v - 1) = LF" "newlines s v = newlines s n"
      "column_of s n = n - v + 1" by auto
    moreover have "column_of s (Suc n) = column_of s n + 1"
      using False Suc.prems by (simp add: column_of_def take_Suc_conv_app_nth)
    ultimately show ?thesis using * by (intro exI [of _ v]) auto
  qed
qed

lemma first_line_column: "n \<le> length s \<Longrightarrow> newlines s n = 0 \<Longrightarrow> column_of s n = n + 1"
proof (induction n)
  case 0
  then show ?case by (simp add: column_of_def)
next
  case (Suc n)
  then have "s ! n \<noteq> LF" "newlines s n = 0" by (auto simp: newlines_Suc split: if_splits)
  with Suc show ?case by (simp add: column_of_def take_Suc_conv_app_nth)
qed

text \<open>What separates tokens without being one.\<close>

definition is_blank :: "uchar \<Rightarrow> bool" where
  "is_blank c \<longleftrightarrow> c = cp CHR '' '' \<or> c = 9 \<or> c = 13"

section \<open>Well formed states\<close>

definition lines_wf :: "lexer \<Rightarrow> bool" where
  "lines_wf l \<longleftrightarrow>
     (\<forall>k v. map_of (lines l) k = Some v \<longleftrightarrow>
        0 < v \<and> v \<le> current l \<and> source l ! (v - 1) = LF \<and> k = line_of (source l) v)"

definition lex_wf :: "lexer \<Rightarrow> bool" where
  "lex_wf l \<longleftrightarrow> current l \<le> total_count l \<and> lline l = line_of (source l) (current l) \<and> lines_wf l"

text \<open>A state inside a token that began at \<open>start\<close>.\<close>

definition in_token :: "lexer \<Rightarrow> bool" where
  "in_token l \<longleftrightarrow> lex_wf l \<and> start l \<le> current l \<and> start_line l = line_of (source l) (start l)"

text \<open>\<open>l'\<close> is a well formed state that \<open>l\<close> reaches inside the same token.\<close>

definition fwd :: "lexer \<Rightarrow> lexer \<Rightarrow> bool" where
  "fwd l l' \<longleftrightarrow>
     lex_wf l' \<and> source l' = source l \<and> start l' = start l \<and> start_line l' = start_line l \<and>
     current l \<le> current l'"

lemma fwd_refl: "lex_wf l \<Longrightarrow> fwd l l"
  by (simp add: fwd_def)

lemma fwd_trans: "fwd l m \<Longrightarrow> fwd m n \<Longrightarrow> fwd l n"
  by (auto simp: fwd_def)

lemma fwd_wf: "fwd l m \<Longrightarrow> lex_wf m"
  by (simp add: fwd_def)

lemma fwd_in_token: "in_token l \<Longrightarrow> fwd l m \<Longrightarrow> in_token m"
  by (auto simp: fwd_def in_token_def)

lemma map_of_lines_insert: "map_of (lines_insert k v m) = (map_of m)(k \<mapsto> v)"
  by (induction k v m rule: lines_insert.induct) (auto simp: fun_eq_iff)

lemma lex_wf_new: "lex_wf (lexer_new s)"
  by (auto simp: lex_wf_def lexer_new_def total_count_def line_of_def lines_wf_def)

text \<open>Reading one character is a step, whichever method does it.\<close>

definition step_char :: "lexer \<Rightarrow> lexer" where
  "step_char l = note_newline (source l ! current l) (l\<lparr>current := current l + 1\<rparr>)"

lemma adv_step: "\<not> is_at_end l \<Longrightarrow> adv l = step_char l"
  by (simp add: advance_def step_char_def Let_def)

lemma match_char_step:
  "match_char c l =
     (if \<not> is_at_end l \<and> source l ! current l = c then (True, step_char l) else (False, l))"
  by (auto simp: match_char_def step_char_def)

lemma step_char_fields [simp]:
  "source (step_char l) = source l" "current (step_char l) = Suc (current l)"
  "start (step_char l) = start l" "start_line (step_char l) = start_line l"
  "interpolating (step_char l) = interpolating l" "lexing_type (step_char l) = lexing_type l"
  by (simp_all add: step_char_def note_newline_def)

lemma lines_wf_step:
  assumes "lines_wf l" "\<not> is_at_end l" "lline l = line_of (source l) (current l)"
  shows "lines_wf (step_char l)"
proof -
  let ?n = "current l" and ?s = "source l"
  have n: "?n < length ?s" using assms(2) by (simp add: is_at_end_def total_count_def)
  have low: "line_of ?s v \<le> line_of ?s ?n" if "v \<le> ?n" for v
    using newlines_mono [OF that] by (simp add: line_of_def)
  show ?thesis
  proof (cases "?s ! ?n = LF")
    case True
    have suc: "line_of ?s (Suc ?n) = line_of ?s ?n + 1"
      using True n by (simp add: line_of_def newlines_Suc)
    let ?K = "line_of ?s (Suc ?n)"
    have ls: "map_of (lines (step_char l)) = (map_of (lines l))(?K \<mapsto> Suc ?n)"
      using True assms(3) suc by (simp add: step_char_def note_newline_def map_of_lines_insert)
    have "map_of (lines (step_char l)) k = Some v \<longleftrightarrow>
        0 < v \<and> v \<le> Suc ?n \<and> ?s ! (v - 1) = LF \<and> k = line_of ?s v" for k v
    proof (cases "v = Suc ?n")
      case v: True
      have "map_of (lines l) k \<noteq> Some v" using assms(1) v by (simp add: lines_wf_def)
      then show ?thesis using True v by (simp add: ls)
    next
      case v: False
      have old: "map_of (lines l) k = Some v \<longleftrightarrow>
          0 < v \<and> v \<le> ?n \<and> ?s ! (v - 1) = LF \<and> k = line_of ?s v"
        using assms(1) by (simp add: lines_wf_def)
      have "k \<noteq> ?K" if "v \<le> ?n" "k = line_of ?s v" using low [OF that(1)] that(2) suc by simp
      then show ?thesis using old v by (auto simp: ls le_Suc_eq)
    qed
    then show ?thesis by (simp add: lines_wf_def)
  next
    case False
    then have "lines (step_char l) = lines l" by (simp add: step_char_def note_newline_def)
    then show ?thesis using assms(1) False by (auto simp: lines_wf_def le_Suc_eq)
  qed
qed

lemma fwd_step: 
  assumes "lex_wf l" "\<not> is_at_end l"
  shows "fwd l (step_char l)"
proof -
  have n: "current l < length (source l)" using assms(2) by (simp add: is_at_end_def total_count_def)
  have "lline (step_char l) = line_of (source l) (Suc (current l))"
    using assms(1) n
    by (simp add: step_char_def note_newline_def lex_wf_def line_of_def newlines_Suc)
  then show ?thesis
    using assms n lines_wf_step [of l] by (simp add: fwd_def lex_wf_def total_count_def)
qed

lemma fwd_adv: "lex_wf l \<Longrightarrow> fwd l (adv l)"
  by (cases "is_at_end l") (simp_all add: adv_step fwd_step, simp add: advance_def fwd_refl)

text \<open>A step the code takes by hand, over a character that is no newline.\<close>

lemma fwd_skip:
  assumes "lex_wf l" "\<not> is_at_end l" "source l ! current l \<noteq> LF"
  shows "fwd l (l\<lparr>current := current l + 1\<rparr>)"
  using fwd_step [OF assms(1,2)] assms(3) by (simp add: step_char_def note_newline_def)

section \<open>Tokens\<close>

text \<open>
  The table always has the line of a token, at an offset that is not past it: the fallback
  search of \<open>make_token\<close>, and its subtraction, are never reached.
\<close>

lemma make_token_wf:
  assumes "in_token l"
  shows "make_token k l =
     Some (token_new k (start_line l) (column_of (source l) (start l)) (start l) (current l), l)"
proof -
  let ?s = "source l" and ?n = "start l"
  have wf: "lines_wf l" and n: "?n \<le> current l" "?n \<le> length ?s"
    and ln: "start_line l = line_of ?s ?n"
    using assms by (auto simp: in_token_def lex_wf_def total_count_def)
  show ?thesis
  proof (cases "newlines ?s ?n = 0")
    case True
    then show ?thesis
      using first_line_column [OF n(2)] ln by (simp add: make_token_def line_of_def)
  next
    case False
    then obtain v where v: "0 < v" "v \<le> ?n" "?s ! (v - 1) = LF" "newlines ?s v = newlines ?s ?n"
      "column_of ?s ?n = ?n - v + 1"
      using last_newline [OF n(2)] by auto
    then have "map_of (lines l) (start_line l) = Some v"
      using wf n(1) ln by (simp add: lines_wf_def line_of_def)
    then show ?thesis using v False ln by (auto simp: make_token_def line_of_def)
  qed
qed

definition scanned :: "lexer \<Rightarrow> (token \<times> lexer) panics \<Rightarrow> bool" where
  "scanned l r \<longleftrightarrow>
     (\<exists>t l'. r = Some (t, l') \<and> fwd l l' \<and> kind t \<noteq> TkEof \<and>
        line t = start_line l \<and> column t = column_of (source l) (start l) \<and>
        tstart t = start l \<and> current l \<le> tend t \<and>
        (current l' = tend t \<or> current l' = tend t + 1 \<and> source l ! tend t = cp CHR ''{''))"

lemma scanned_fwd: "fwd l m \<Longrightarrow> scanned m r \<Longrightarrow> scanned l r"
  unfolding scanned_def by (auto simp: fwd_def)

lemma scanned_token: "in_token l \<Longrightarrow> k \<noteq> TkEof \<Longrightarrow> scanned l (make_token k l)"
  by (auto simp: scanned_def make_token_wf in_token_def fwd_refl)

lemma scanned_error: "in_token l \<Longrightarrow> scanned l (make_error m l)"
  by (simp add: make_error_def scanned_token)

lemma scanned_fwd_token:
  "in_token l \<Longrightarrow> fwd l m \<Longrightarrow> k \<noteq> TkEof \<Longrightarrow> scanned l (make_token k m)"
  by (rule scanned_fwd) (auto intro: scanned_token fwd_in_token)

lemma scanned_fwd_error: "in_token l \<Longrightarrow> fwd l m \<Longrightarrow> scanned l (make_error e m)"
  by (rule scanned_fwd) (auto intro: scanned_error fwd_in_token)

section \<open>The loops\<close>

lemma fwd_advance_while: "lex_wf l \<Longrightarrow> fwd l (advance_while p l)"
proof (induction p l rule: advance_while.induct)
  case (1 p l)
  show ?case
    using "1.IH" fwd_wf [OF fwd_adv [OF "1.prems"]] fwd_trans [OF fwd_adv [OF "1.prems"]]
    by (subst advance_while.simps) (simp add: fwd_refl "1.prems")
qed

lemma advance_while_passed:
  "current l \<le> i \<Longrightarrow> i < current (advance_while (\<lambda>l. p (peek l)) l) \<Longrightarrow> p (source l ! i)"
proof (induction "total_count l - current l" arbitrary: l rule: less_induct)
  case less
  show ?case
  proof (cases "p (peek l) \<and> \<not> is_at_end l")
    case True
    then have *: "advance_while (\<lambda>l. p (peek l)) l = advance_while (\<lambda>l. p (peek l)) (adv l)"
      by (subst advance_while.simps) simp
    show ?thesis
    proof (cases "i = current l")
      case True
      then show ?thesis
        using \<open>p (peek l) \<and> \<not> is_at_end l\<close> by (simp add: peek_def split: if_splits)
    next
      case False
      then show ?thesis
        using less.hyps [of "adv l"] less.prems adv_left [of l] * True by (simp add: adv_current)
    qed
  next
    case False
    then have "advance_while (\<lambda>l. p (peek l)) l = l" by (subst advance_while.simps) auto
    then show ?thesis using less.prems by simp
  qed
qed

lemma current_adv2:
  assumes "next_char l \<noteq> 0" "\<not> is_at_end l"
  shows "current (adv (adv l)) = current l + 2" "\<not> is_at_end (adv l)"
proof -
  show "\<not> is_at_end (adv l)"
    using assms by (auto simp: next_char_def is_at_end_def total_count_def adv_step split: if_splits)
  then show "current (adv (adv l)) = current l + 2"
    using assms(2) by (simp add: adv_step)
qed

lemma fwd_adv2: "lex_wf l \<Longrightarrow> fwd l (adv (adv l))"
  by (meson fwd_adv fwd_trans fwd_wf)

lemma fwd_doc_block_loop: "lex_wf l \<Longrightarrow> fwd l (snd (doc_block_loop n l))"
proof (induction n l rule: doc_block_loop.induct)
  case (1 n l)
  note a = fwd_adv [OF "1.prems"] and b = fwd_adv2 [OF "1.prems"]
  show ?case
    by (subst doc_block_loop.simps)
      (simp add: fwd_refl "1.prems" "1.IH" fwd_wf [OF a] fwd_wf [OF b] fwd_trans [OF a] fwd_trans [OF b])
qed

lemma doc_block_loop_closed:
  "0 < n \<Longrightarrow> lex_wf l \<Longrightarrow> doc_block_loop n l = (True, l') \<Longrightarrow> current l + 2 \<le> current l'"
proof (induction n l rule: doc_block_loop.induct)
  case (1 n l)
  note a = fwd_adv [OF "1.prems"(2)] and b = fwd_adv2 [OF "1.prems"(2)]
  note eq = doc_block_loop.simps [of n l]
  have more: "\<not> is_at_end l" using "1.prems"(1,3) eq by auto
  have one: "current (adv l) = current l + 1" using more by (simp add: adv_step)
  consider (opens) "peek l = cp CHR ''/'' \<and> next_char l = cp CHR ''*''"
    | (closes) "\<not> (peek l = cp CHR ''/'' \<and> next_char l = cp CHR ''*'')"
        "peek l = cp CHR ''*'' \<and> next_char l = cp CHR ''/''"
    | (other) "\<not> (peek l = cp CHR ''/'' \<and> next_char l = cp CHR ''*'')"
        "\<not> (peek l = cp CHR ''*'' \<and> next_char l = cp CHR ''/'')"
    by blast
  then show ?case
  proof cases
    case opens
    then have "doc_block_loop (n + 1) (adv (adv l)) = (True, l')"
      using "1.prems"(1,3) eq more by simp
    from "1.IH"(1) [OF _ more opens _ fwd_wf [OF b] this] show ?thesis
      using "1.prems"(1) fwd_adv2 [OF "1.prems"(2)] by (simp add: fwd_def)
  next
    case closes
    then have "doc_block_loop (n - 1) (adv (adv l)) = (True, l')"
      using "1.prems"(1,3) eq more by simp
    then have "current (adv (adv l)) \<le> current l'"
      using fwd_doc_block_loop [OF fwd_wf [OF b], of "n - 1"] by (simp add: fwd_def)
    moreover have "next_char l \<noteq> 0" using closes(2) by simp
    ultimately show ?thesis using current_adv2(1) [OF _ more] by simp
  next
    case other
    then have "doc_block_loop n (adv l) = (True, l')"
      using "1.prems"(1,3) eq more by auto
    from "1.IH"(3) [OF _ more other "1.prems"(1) fwd_wf [OF a] this] show ?thesis
      using "1.prems"(1) one by simp
  qed
qed

lemma fwd_string_loop:
  "lex_wf l \<Longrightarrow>
     (case string_loop c l of
        AtInterpolation m \<Rightarrow> fwd l m \<and> \<not> is_at_end m \<and> peek m = cp CHR ''$'' \<and> next_char m = cp CHR ''{''
      | AtQuoteOrEnd m \<Rightarrow> fwd l m \<and> (is_at_end m \<or> peek m = c))"
proof (induction c l rule: string_loop.induct)
  case (1 c l)
  let ?l1 = "if peek l = BACKSLASH \<and>
    (next_char l = c \<or> next_char l = BACKSLASH \<or> next_char l = cp CHR ''$'') then adv l else l"
  have f: "fwd l (adv ?l1)"
    using fwd_adv [OF "1.prems"] fwd_adv2 [OF "1.prems"] by simp
  show ?case
  proof (cases "peek l \<noteq> c \<and> \<not> is_at_end l \<and> \<not> (peek l = cp CHR ''$'' \<and> next_char l = cp CHR ''{'')")
    case True
    then have "string_loop c l = string_loop c (adv ?l1)"
      by (subst string_loop.simps) (simp only: Let_def if_True if_False simp_thms)
    moreover note "1.IH" [OF _ _ refl fwd_wf [OF f]]
    ultimately show ?thesis
      using True by (auto split: string_stop.splits intro: fwd_trans [OF f])
  next
    case False
    then show ?thesis
      by (subst string_loop.simps) (auto simp: fwd_refl "1.prems")
  qed
qed

lemma unescape_loop_total:
  "end_at \<le> length src \<Longrightarrow> unescape_loop src quote end_at i acc \<noteq> None"
proof (induction "end_at - i" arbitrary: i acc rule: less_induct)
  case less
  show ?case
  proof (cases "i < end_at")
    case True
    have IH: "unescape_loop src quote end_at (i + k) acc \<noteq> None" if "0 < k" for k acc
      using less.hyps [of "i + k" acc] less.prems True that by linarith
    have IH1: "unescape_loop src quote end_at (Suc i) acc \<noteq> None"
      and IH2: "unescape_loop src quote end_at (Suc (Suc i)) acc \<noteq> None" for acc
      using IH [of 1] IH [of 2] by simp_all
    have "i < length src" using True less.prems by linarith
    then show ?thesis
      using True less.prems
      by (subst unescape_loop.simps)
        (simp add: IH IH1 IH2 del: not_None_eq split: option.split)
  next
    case False
    then show ?thesis by (subst unescape_loop.simps) simp
  qed
qed

lemma unescape_string_wf:
  assumes "in_token l" "0 < current l"
  obtains (good) s where "unescape_string q l = Some (Inr s)"
  | (bad) msg where "unescape_string q l = map_option Inl (make_error msg l)"
proof -
  have "current l - 1 \<le> length (source l)"
    using assms(1) by (auto simp: in_token_def lex_wf_def total_count_def)
  then obtain r where "unescape_loop (source l) q (current l - 1) (start l + 1) [] = Some r"
    using unescape_loop_total by fast
  then show thesis using assms(2) good bad by (cases r) (simp_all add: unescape_string_def)
qed

section \<open>The scanners of the token kinds\<close>

lemma fwd_less_end: "in_token l \<Longrightarrow> fwd l m \<Longrightarrow> current m \<le> length (source m)"
  by (auto simp: fwd_def lex_wf_def total_count_def)

lemma in_token_wf: "in_token l \<Longrightarrow> lex_wf l"
  by (simp add: in_token_def)

lemma scanned_comment:
  assumes "in_token l" "start l < current l"
  shows "scanned l (comment l)"
proof -
  let ?m = "advance_while (\<lambda>l. peek l \<noteq> LF) l"
  have f: "fwd l ?m" using assms(1) by (simp add: fwd_advance_while in_token_wf)
  then have "start ?m < current ?m" using assms(2) by (simp add: fwd_def)
  then show ?thesis
    using scanned_fwd_token [OF assms(1) f] fwd_less_end [OF assms(1) f]
    by (simp add: comment_def get_string_def Let_def)
qed

lemma scanned_decorator: "in_token l \<Longrightarrow> scanned l (decorator l)"
proof -
  let ?m = "advance_while (\<lambda>l. is_alphanumeric (peek l)) l"
  assume t: "in_token l"
  then have f: "fwd l ?m" by (simp add: fwd_advance_while in_token_wf)
  then have "start ?m \<le> current ?m" using t by (simp add: fwd_def in_token_def)
  then show ?thesis
    using scanned_fwd_token [OF t f] fwd_less_end [OF t f]
    by (simp add: decorator_def get_string_def Let_def)
qed

lemma scanned_identifier: "in_token l \<Longrightarrow> scanned l (lex_identifier l)"
proof -
  let ?m = "advance_while (\<lambda>l. is_alphanumeric (peek l)) l"
  assume t: "in_token l"
  then have f: "fwd l ?m" by (simp add: fwd_advance_while in_token_wf)
  then have "start ?m \<le> current ?m" using t by (simp add: fwd_def in_token_def)
  moreover have "word_kind s \<noteq> TkEof" for s by (simp add: word_kind_def split: option.split)
  ultimately show ?thesis
    using scanned_fwd_token [OF t f] fwd_less_end [OF t f]
    by (simp add: lex_identifier_def get_string_def Let_def)
qed

lemma scanned_doc_block:
  assumes "in_token l" "start l + 2 \<le> current l"
  shows "scanned l (doc_block l)"
proof (cases "doc_block_loop 1 l")
  case (Pair closed m)
  have f: "fwd l m" using fwd_doc_block_loop [of l 1] assms(1) Pair by (simp add: in_token_wf)
  show ?thesis
  proof (cases closed)
    case True
    then have "current l + 2 \<le> current m"
      using doc_block_loop_closed [of 1 l m] assms(1) Pair by (simp add: in_token_wf)
    moreover have "start m = start l" using f by (simp add: fwd_def)
    ultimately show ?thesis
      using assms(2) Pair True scanned_fwd_token [OF assms(1) f] fwd_less_end [OF assms(1) f]
      by (simp add: doc_block_def get_string_def)
  next
    case False
    then show ?thesis using Pair scanned_fwd_error [OF assms(1) f] by (simp add: doc_block_def)
  qed
qed

lemma scanned_radix_literal:
  assumes "in_token l" "start l + 2 \<le> current l" "\<And>n. mk n \<noteq> TkEof"
  shows "scanned l (radix_literal p r mk msg l)"
proof -
  let ?m = "advance_while (\<lambda>l. p (peek l)) l"
  have f: "fwd l ?m" using assms(1) by (simp add: fwd_advance_while in_token_wf)
  then have "start ?m + 2 \<le> current ?m" using assms(2) by (simp add: fwd_def)
  then show ?thesis
    using scanned_fwd_token [OF assms(1) f] scanned_fwd_error [OF assms(1) f]
      fwd_less_end [OF assms(1) f] assms(3)
    by (simp add: radix_literal_def get_string_def Let_def split: option.split)
qed


lemma scanned_decimal_literal:
  assumes "in_token l"
  shows "scanned l (decimal_literal big l)"
proof -
  note wf = in_token_wf [OF assms]
  define l1 where "l1 = advance_while digit_or_separator l"
  define l2 where "l2 = (if peek l1 = cp CHR ''.'' \<and> is_digit (next_char l1) then adv (adv l1) else l1)"
  define l3 where "l3 = advance_while digit_or_separator l2"
  define a where "a = adv l3"
  define b where "b = (if peek a = cp CHR ''+'' \<or> peek a = cp CHR ''-'' then adv a else a)"
  define l4 where "l4 = (if has_exponent l3 then advance_while (\<lambda>l. is_digit (peek l)) b else l3)"
  have f1: "fwd l l1" by (simp add: l1_def fwd_advance_while wf)
  have "fwd l1 l2" using fwd_adv2 [OF fwd_wf [OF f1]] fwd_refl [OF fwd_wf [OF f1]] by (simp add: l2_def)
  with f1 have f2: "fwd l l2" by (rule fwd_trans)
  then have f3: "fwd l l3" using fwd_advance_while [OF fwd_wf] by (auto simp: l3_def intro: fwd_trans)
  then have fa: "fwd l a" using fwd_adv [OF fwd_wf] by (auto simp: a_def intro: fwd_trans)
  then have "fwd a b" using fwd_adv [OF fwd_wf [OF fa]] fwd_refl [OF fwd_wf [OF fa]] by (simp add: b_def)
  with fa have fb: "fwd l b" by (rule fwd_trans)
  then have "fwd l (advance_while (\<lambda>l. is_digit (peek l)) b)"
    using fwd_advance_while [OF fwd_wf] by (auto intro: fwd_trans)
  with f3 have f4: "fwd l l4" by (simp add: l4_def)
  have big_arm: "fwd l (adv l1)" using fwd_trans [OF f1 fwd_adv [OF fwd_wf [OF f1]]] .
  have more: "peek l1 = cp CHR ''n'' \<Longrightarrow> current (adv l1) = current l1 + 1"
    by (simp add: peek_def adv_step split: if_splits)
  have start: "start l1 \<le> current l1" "start l4 \<le> current l4" "start (adv l1) = start l1"
    using f1 f4 big_arm assms by (auto simp: fwd_def in_token_def)
  show ?thesis
  proof (cases "peek l1 = cp CHR ''n''")
    case True
    then have "scanned l (decimal_literal big l) =
        scanned l (make_token (TkBigNumber (case big (take (current l1 - start l1) (drop (start l1) (source l1)))
          of Some n \<Rightarrow> n | None \<Rightarrow> 0)) (adv l1))"
      using more start fwd_less_end [OF assms big_arm]
      by (simp add: decimal_literal_def l1_def Let_def get_string_def)
    then show ?thesis using scanned_fwd_token [OF assms big_arm] by simp
  next
    case False
    have "decimal_literal big l =
        do {
          s \<leftarrow> get_string (start l4) (current l4) l4;
          let number = filter (\<lambda>c. c \<noteq> cp CHR ''_'') s;
          if cp CHR ''.'' \<in> set number \<or> has_exponent l3
          then make_token (TkDouble (case f64_from_str number of Some x \<Rightarrow> x | None \<Rightarrow> 0)) l4
          else (case i64_from_str_radix 10 number of
                  Some n \<Rightarrow> make_token (TkInteger n) l4
                | None \<Rightarrow>
                    (case big number of
                       Some n \<Rightarrow> make_token (TkBigNumber n) l4
                     | None \<Rightarrow> make_error (str ''invalid integer literal'') l4))
        }"
      using False
      by (simp only: decimal_literal_def Let_def l1_def l2_def l3_def a_def b_def l4_def if_False)
    then show ?thesis
      using scanned_fwd_token [OF assms f4] scanned_fwd_error [OF assms f4]
        fwd_less_end [OF assms f4] start(2)
      by (simp add: get_string_def Let_def split: option.split)
  qed
qed

lemma match_char_fwd:
  assumes "in_token l"
  shows "case match_char c l of
      (True, m) \<Rightarrow> fwd l m \<and> in_token m \<and> current m = current l + 1 \<and> start m = start l
    | (False, m) \<Rightarrow> m = l"
  using fwd_step [OF in_token_wf [OF assms]] fwd_in_token [OF assms]
  by (simp add: match_char_step)

text \<open>A branch on \<open>match_char\<close>, by its two arms.\<close>

lemma scanned_if_match:
  assumes "in_token l"
    and "\<And>m. in_token m \<Longrightarrow> start m = start l \<Longrightarrow> current m = current l + 1 \<Longrightarrow> scanned m (f m)"
    and "scanned l (g l)"
  shows "scanned l (if_match c f g l)"
proof (cases "match_char c l")
  case (Pair b m)
  then show ?thesis
    using match_char_fwd [OF assms(1), of c] assms(2) [of m] assms(3) scanned_fwd
    by (cases b) (auto simp: if_match_def)
qed

lemma lex_number_if_match:
  "lex_number big l =
     (if previous l = cp CHR ''0'' then
        if_match (cp CHR ''b'') (radix_literal is_binary 2 TkBinNumber (str ''invalid binary literal''))
          (if_match (cp CHR ''c'') (radix_literal is_octal 8 TkOctNumber (str ''invalid octal literal''))
            (if_match (cp CHR ''x'') (radix_literal is_hex 16 TkHexNumber (str ''invalid hex literal''))
              (decimal_literal big))) l
      else decimal_literal big l)"
  by (simp add: lex_number_def if_match_def match_char_step split: prod.split bool.split)

lemma scanned_number:
  assumes "in_token l" "start l + 1 \<le> current l"
  shows "scanned l (lex_number big l)"
  unfolding lex_number_if_match
  using assms by (auto intro!: scanned_if_match scanned_radix_literal scanned_decimal_literal)

lemma scanned_string:
  assumes "in_token l" "0 < current l"
  shows "scanned l (lex_string c l)"
proof (cases "string_loop c l")
  case (AtInterpolation m)
  then have f: "fwd l m" and m: "\<not> is_at_end m" "peek m = cp CHR ''$''" "next_char m = cp CHR ''{''"
    using fwd_string_loop [OF in_token_wf [OF assms(1)], of c] by simp_all
  let ?n = "m\<lparr>current := current m + 1\<rparr>"
  let ?i = "m\<lparr>interpolating := interpolating m @ [c], current := current m + 1\<rparr>"
  have src: "source m ! current m = cp CHR ''$''" "current m + 1 < length (source m)"
    "source m ! (current m + 1) = cp CHR ''{''"
    using m by (auto simp: peek_def next_char_def total_count_def split: if_splits)
  have wf: "lex_wf (k\<lparr>interpolating := q\<rparr>) = lex_wf k" for k q
    by (simp add: lex_wf_def lines_wf_def total_count_def)
  have n: "fwd m ?n" using fwd_skip [OF fwd_wf [OF f] m(1)] src by (simp add: LF_def)
  have n2: "fwd ?n (?n\<lparr>current := current ?n + 1\<rparr>)"
    using fwd_skip [OF fwd_wf [OF n]] src by (simp add: LF_def is_at_end_def total_count_def)
  have swap: "m\<lparr>interpolating := q, current := n\<rparr> = m\<lparr>current := n, interpolating := q\<rparr>" for q n
    by simp
  have i: "fwd l ?i" and i2: "fwd l (?i\<lparr>current := current ?i + 1\<rparr>)"
    using fwd_trans [OF f n] n2 wf [where k = ?n and q = "interpolating m @ [c]"]
      wf [where k = "?n\<lparr>current := current ?n + 1\<rparr>" and q = "interpolating m @ [c]"]
    by (simp_all add: fwd_def swap)
  have tok: "in_token ?i" using fwd_in_token [OF assms(1) i] .
  have fin: "scanned l (do { tl2 \<leftarrow> make_token k ?i;
      Some (fst tl2, (snd tl2)\<lparr>current := current (snd tl2) + 1\<rparr>) })" if "k \<noteq> TkEof" for k
    using that i i2 src(3) by (simp add: make_token_wf [OF tok, simplified] scanned_def fwd_def)
  have "0 < current ?i" by simp
  from tok this show ?thesis
  proof (cases rule: unescape_string_wf [where l = ?i and q = c])
    case (good s)
    then show ?thesis
      using fin [of "TkInterpolation s"] AtInterpolation by (simp add: lex_string_def Let_def)
  next
    case (bad msg)
    then show ?thesis
      using fin [of "TkError msg (lline ?i) (start ?i)"] AtInterpolation
      by (simp add: lex_string_def Let_def make_error_def make_token_wf [OF tok, simplified])
  qed
next
  case (AtQuoteOrEnd m)
  then have f: "fwd l m" and m: "is_at_end m \<or> peek m = c"
    using fwd_string_loop [OF in_token_wf [OF assms(1)], of c] by simp_all
  show ?thesis
  proof (cases "is_at_end m")
    case True
    then show ?thesis
      using AtQuoteOrEnd scanned_fwd_error [OF assms(1) f] by (simp add: lex_string_def)
  next
    case False
    let ?n = "step_char m"
    have n: "snd (match_char c m) = ?n" using m False by (simp add: match_char_step peek_def)
    have fn: "fwd l ?n" using fwd_trans [OF f fwd_step [OF fwd_wf [OF f] False]] .
    have tok: "in_token ?n" using fwd_in_token [OF assms(1) fn] .
    have "0 < current ?n" by simp
    from tok this show ?thesis
    proof (cases rule: unescape_string_wf [where l = ?n and q = c])
      case (good s)
      then show ?thesis
        using AtQuoteOrEnd False n scanned_fwd_token [OF assms(1) fn]
        by (simp add: lex_string_def Let_def)
    next
      case (bad msg)
      then show ?thesis
        using AtQuoteOrEnd False n scanned_fwd_error [OF assms(1) fn, of msg] tok
        by (simp add: lex_string_def Let_def make_error_def make_token_wf)
    qed
  qed
qed

section \<open>A whole scan\<close>

lemma scanned_sym: "in_token l \<Longrightarrow> scanned l (sym y l)"
  by (simp add: scanned_token)

lemma scanned_close_brace:
  assumes "in_token l" "0 < current l"
  shows "scanned l (scan_close_brace l)"
proof -
  let ?m = "l\<lparr>interpolating := butlast (interpolating l)\<rparr>"
  have m: "in_token ?m"
    using assms(1) by (simp add: in_token_def lex_wf_def lines_wf_def total_count_def)
  then have "fwd l ?m" by (simp add: fwd_def in_token_def)
  then show ?thesis
    using scanned_fwd scanned_string [OF m] assms by (simp add: scan_close_brace_def scanned_sym)
qed

lemma scanned_scan_from:
  assumes "in_token l" "current l = start l + 1"
  shows "scanned l (scan_from big c l)"
proof -
  note branch = scanned_if_match [of l _ _ _, OF assms(1)]
  have "scanned l (scan_dot l)" "scanned l (scan_star l)" "scanned l (scan_slash l)"
    "scanned l (scan_less l)" "scanned l (scan_greater l)" "scanned l (scan_equal l)"
    using assms
    by (auto simp: scan_dot_def scan_star_def scan_slash_def scan_less_def scan_greater_def
        scan_equal_def intro!: scanned_if_match scanned_sym scanned_doc_block)
  moreover have "scanned l (scan_close_brace l)" "scanned l (lex_string c l)"
    "scanned l (lex_number big l)" "scanned l (lex_identifier l)" "scanned l (comment l)"
    "scanned l (decorator l)" "scanned l (make_error e l)" for e
    using assms by (auto intro: scanned_close_brace scanned_string scanned_number
        scanned_identifier scanned_comment scanned_decorator scanned_error)
  moreover have "scanned l (eq_or y z l)" "scanned l (if_match d (sym y) (eq_or z w) l)"
    for y z w d
    using assms by (auto intro!: scanned_if_match scanned_sym)
  ultimately show ?thesis
    by (simp add: scan_from_def scanned_sym [OF assms(1)])
qed

text \<open>
  From a well formed state a scan yields a token that starts after the blanks, at the line and
  column of that place, and a well formed state past it; \<open>Eof\<close> comes exactly at the end.
\<close>

lemma scan_wf:
  assumes "lex_wf l"
  shows "\<exists>t l'. scan big l = Some (t, l') \<and> lex_wf l' \<and> source l' = source l \<and>
      current l \<le> tstart t \<and> tstart t \<le> tend t \<and>
      line t = line_of (source l) (tstart t) \<and> column t = column_of (source l) (tstart t) \<and>
      (if kind t = TkEof then tstart t = length (source l) else tstart t < tend t) \<and>
      (\<forall>i. current l \<le> i \<longrightarrow> i < tstart t \<longrightarrow> is_blank (source l ! i)) \<and>
      (current l' = tend t \<or> current l' = tend t + 1 \<and> source l ! tend t = cp CHR ''{'')"
proof -
  define a where "a = skip_whitespace l"
  define b where "b = a\<lparr>start := current a, start_line := lline a\<rparr>"
  have a: "fwd l a" by (simp add: a_def skip_whitespace_def fwd_advance_while assms)
  have blanks: "is_blank (source l ! i)" if "current l \<le> i" "i < current a" for i
    using that advance_while_passed [of l i is_blank]
    by (simp add: a_def skip_whitespace_def is_blank_def)
  from a have b: "in_token b" "source b = source l" "current l \<le> current b" "start b = current b"
    "current b = current a"
    by (auto simp: b_def fwd_def in_token_def lex_wf_def lines_wf_def total_count_def)
  have scan: "scan big l =
      (if is_at_end b then make_token TkEof b else let (c, m) = advance b in scan_from big c m)"
    by (simp add: scan_def a_def b_def Let_def)
  note wf = in_token_wf [OF b(1)]
  have ln: "start_line b = line_of (source l) (start b)" using b by (simp add: in_token_def)
  show ?thesis
  proof (cases "is_at_end b")
    case True
    then have "current b = length (source l)"
      using wf b(2) by (simp add: lex_wf_def is_at_end_def total_count_def)
    then show ?thesis
      using True b(2-5) wf ln blanks by (simp add: scan make_token_wf [OF b(1)])
  next
    case False
    obtain c m where m: "advance b = (c, m)" "m = step_char b"
      using adv_step [OF False] by (cases "advance b") auto
    have f: "fwd b m" using m fwd_step [OF wf False] by simp
    have tok: "in_token m" "current m = start m + 1" "start m = current b" "source m = source l"
      "start_line m = start_line b"
      using fwd_in_token [OF b(1) f] f m b by (auto simp: fwd_def)
    have "scanned m (scan_from big c m)" using tok by (simp add: scanned_scan_from)
    then show ?thesis
      using False m(1) tok b(3-5) ln blanks by (auto simp: scan Let_def scanned_def fwd_def)
  qed
qed

section \<open>The tokens of a source\<close>

abbreviation scanning :: "ustring \<Rightarrow> lexer \<Rightarrow> bool" where
  "scanning chars l \<equiv> lex_wf l \<and> source l = chars"

lemma tokenize_step_wf:
  assumes "scanning chars l"
  shows "\<exists>t l'. tokenize_step big chars l =
        Some ((t, take (tend t - tstart t) (drop (tstart t) chars)), l') \<and> scanning chars l' \<and>
      current l \<le> tstart t \<and> tstart t \<le> tend t \<and> tend t \<le> length chars \<and>
      line t = line_of chars (tstart t) \<and> column t = column_of chars (tstart t) \<and>
      (if kind t = TkEof then tstart t = length chars else tstart t < tend t) \<and>
      (\<forall>i. current l \<le> i \<longrightarrow> i < tstart t \<longrightarrow> is_blank (chars ! i)) \<and>
      (current l' = tend t \<or> current l' = tend t + 1 \<and> chars ! tend t = cp CHR ''{'')"
proof -
  obtain t l' where *: "scan big l = Some (t, l')" "scanning chars l'"
      "current l \<le> tstart t \<and> tstart t \<le> tend t \<and>
      line t = line_of chars (tstart t) \<and> column t = column_of chars (tstart t) \<and>
      (if kind t = TkEof then tstart t = length chars else tstart t < tend t) \<and>
      (\<forall>i. current l \<le> i \<longrightarrow> i < tstart t \<longrightarrow> is_blank (chars ! i)) \<and>
      (current l' = tend t \<or> current l' = tend t + 1 \<and> chars ! tend t = cp CHR ''{'')"
    using scan_wf [of l big] assms by auto
  moreover have "tend t \<le> length chars"
    using *(2,3) by (auto simp: lex_wf_def total_count_def)
  ultimately show ?thesis by (auto simp: tokenize_step_def)
qed

interpretation lx: spanned_driver "tokenize_step big chars" is_eof "scanning chars"
  "\<lambda>l. length chars - current l" current "\<lambda>t. tstart (fst t)" "\<lambda>t. tend (fst t)"
  for big chars
proof unfold_locales
  fix l t l'
  assume l: "scanning chars l"
  show "\<exists>t l'. tokenize_step big chars l = Some (t, l')"
    using tokenize_step_wf [OF l, of big] by blast
  assume st: "tokenize_step big chars l = Some (t, l')"
  note facts = tokenize_step_wf [OF l, of big, unfolded st]
  show "scanning chars l'" using facts by auto
  show "current l \<le> tstart (fst t) \<and> tstart (fst t) \<le> tend (fst t) \<and> tend (fst t) \<le> current l'"
    using facts by auto
  show "length chars - current l' < length chars - current l" if "\<not> is_eof t"
    using facts that by (auto simp: is_eof_def)
qed

lemma scanning_new: "scanning s (lexer_new s)"
  by (simp add: lex_wf_new) (simp add: lexer_new_def)

lemma tokenize_ends:
  obtains ts t where "tokenize big s = Some (ts @ [t])" "is_eof t" "\<forall>u \<in> set ts. \<not> is_eof u"
proof -
  have "length s - current (lexer_new s) < length s + 1" by simp
  from lx.drive_total [OF scanning_new this, of big] that show thesis
    by (auto simp: tokenize_def tokenize_loop_def)
qed

lemma tokenize_drive: "tokenize big s = drive (tokenize_step big s) is_eof (length s + 1) (lexer_new s)"
  by (simp add: tokenize_def tokenize_loop_def)

text \<open>Every token says where it stands and carries its own text.\<close>

definition placed :: "ustring \<Rightarrow> token \<times> ustring \<Rightarrow> bool" where
  "placed s tx \<longleftrightarrow>
     (let (t, txt) = tx in
      tstart t \<le> tend t \<and> tend t \<le> length s \<and> txt = take (tend t - tstart t) (drop (tstart t) s) \<and>
      line t = line_of s (tstart t) \<and> column t = column_of s (tstart t) \<and>
      (txt = [] \<longleftrightarrow> kind t = TkEof))"

lemma tokenize_placed:
  assumes "tokenize big s = Some ts" "tx \<in> set ts"
  shows "placed s tx"
proof (rule lx.drive_outputs [OF _ scanning_new assms(1)[unfolded tokenize_drive] assms(2)])
  fix l t l'
  assume "scanning s l" "tokenize_step big s l = Some (t, l')"
  then show "placed s t"
    using tokenize_step_wf [of l s big] by (auto simp: placed_def split: if_splits)
qed

lemma tokenize_covered:
  assumes "tokenize big s = Some ts" "i < length s" "\<not> is_blank (s ! i)" "s ! i \<noteq> cp CHR ''{''"
  shows "\<exists>tx \<in> set ts. tstart (fst tx) \<le> i \<and> i < tend (fst tx)"
proof (rule lx.drive_covers [OF _ _ scanning_new assms(1)[unfolded tokenize_drive] _ assms(2),
      where G = "\<lambda>i. is_blank (s ! i) \<or> s ! i = cp CHR ''{''"])
  fix l t l' i
  assume "scanning s l" "tokenize_step big s l = Some (t, l')"
  note facts = tokenize_step_wf [OF this(1), of big, unfolded this(2)]
  show "(is_blank (s ! i) \<or> s ! i = cp CHR ''{'') \<or> tstart (fst t) \<le> i \<and> i < tend (fst t)"
    if "current l \<le> i" "i < current l'"
    using facts that by (auto simp: less_Suc_eq) 
  show "length s \<le> current l'" if "is_eof t"
    using facts that by (auto simp: is_eof_def)
qed (use assms in \<open>auto simp: lexer_new_def\<close>)

end
