(* ===== verification/Lexer_Props.thy ===== *)
theory Lexer_Props
  imports Lexer_Facts
begin

text \<open>
  What the scanner makes of a source: which tokens it yields for names, integers, strings and
  operators, and the properties of whole token sequences.
\<close>

section \<open>Loops over a known prefix\<close>

definition at_text :: "lexer \<Rightarrow> ustring \<Rightarrow> bool" where
  "at_text l s \<longleftrightarrow> current l \<le> length (source l) \<and> drop (current l) (source l) = s"

lemma at_text_end: "at_text l [] \<Longrightarrow> is_at_end l"
  by (simp add: at_text_def is_at_end_def total_count_def)

lemma at_text_more: "at_text l (c # s) \<Longrightarrow> \<not> is_at_end l"
  by (auto simp: at_text_def is_at_end_def total_count_def)

lemma at_text_peek: "at_text l s \<Longrightarrow> peek l = (if s = [] then 0 else hd s)"
  by (cases s) (auto simp: at_text_def peek_def is_at_end_def total_count_def hd_drop_conv_nth
      dest: sym simp flip: hd_drop_conv_nth)

lemma at_text_nth: "at_text l (c # s) \<Longrightarrow> source l ! current l = c"
  by (metis at_text_def drop_all hd_drop_conv_nth leI list.discI list.sel(1))

lemma at_text_step: "at_text l (c # s) \<Longrightarrow> at_text (step_char l) s"
  by (auto simp: at_text_def drop_Suc simp flip: tl_drop)
    (metis Suc_leI drop_all leI list.distinct(1) nat_less_le)

lemma at_text_adv: "at_text l (c # s) \<Longrightarrow> at_text (adv l) s"
  by (simp add: adv_step at_text_more at_text_step)

lemma advance_while_over:
  assumes "at_text l (w @ rest)"
    and "\<And>m u v. w = u @ v \<Longrightarrow> v \<noteq> [] \<Longrightarrow> at_text m (v @ rest) \<Longrightarrow> p m"
    and "\<And>m. at_text m rest \<Longrightarrow> rest \<noteq> [] \<Longrightarrow> \<not> p m"
  shows "at_text (advance_while p l) rest \<and> current (advance_while p l) = current l + length w"
  using assms(1,2)
proof (induction w arbitrary: l)
  case Nil
  then show ?case
    using assms(3) [of l] at_text_end [of l]
    by (subst (1 2) advance_while.simps) (cases "rest = []", auto)
next
  case (Cons c w)
  have "p l" by (rule Cons.prems(2) [of "[]" "c # w"]) (use Cons.prems(1) in auto)
  then have eq: "advance_while p l = advance_while p (adv l)"
    using at_text_more Cons.prems(1) by (subst advance_while.simps) auto
  have "at_text (adv l) (w @ rest)" using Cons.prems(1) at_text_adv by fastforce
  moreover have "p m" if "w = u @ v" "v \<noteq> []" "at_text m (v @ rest)" for m u v
    using Cons.prems(2) [of "c # u" v m] that by simp
  ultimately have "at_text (advance_while p (adv l)) rest \<and>
      current (advance_while p (adv l)) = current (adv l) + length w"
    by (rule Cons.IH)
  then show ?case
    using eq Cons.prems(1) at_text_more by (auto simp: adv_current)
qed

lemma advance_while_chars:
  assumes "at_text l (w @ rest)" "\<forall>c \<in> set w. p c" "rest = [] \<or> \<not> p (hd rest)"
  shows "at_text (advance_while (\<lambda>l. p (peek l)) l) rest"
    "current (advance_while (\<lambda>l. p (peek l)) l) = current l + length w"
proof -
  have "at_text (advance_while (\<lambda>l. p (peek l)) l) rest \<and>
      current (advance_while (\<lambda>l. p (peek l)) l) = current l + length w"
  proof (rule advance_while_over [OF assms(1)])
    fix m u v
    assume "w = u @ v" "v \<noteq> []" "at_text m (v @ rest)"
    then show "p (peek m)" using assms(2) by (cases v) (auto simp: at_text_peek)
  qed (use assms(3) in \<open>auto simp: at_text_peek\<close>)
  then show "at_text (advance_while (\<lambda>l. p (peek l)) l) rest"
    "current (advance_while (\<lambda>l. p (peek l)) l) = current l + length w" by simp_all
qed

section \<open>The start of a scan\<close>

lemma scan_at:
  assumes "lex_wf l" "at_text l (c # s)" "\<not> is_blank c"
  obtains m where "scan big l = scan_from big c m" "in_token m" "at_text m s"
    "source m = source l" "start m = current l" "current m = current l + 1"
    "interpolating m = interpolating l" "lexing_type m = lexing_type l"
proof -
  let ?b = "l\<lparr>start := current l, start_line := lline l\<rparr>"
  have "\<not> (peek l = cp CHR '' '' \<or> peek l = 9 \<or> peek l = 13)"
    using assms(2,3) by (simp add: at_text_peek is_blank_def)
  then have skip: "skip_whitespace l = l"
    unfolding skip_whitespace_def by (subst advance_while.simps) simp
  have b: "in_token ?b" "at_text ?b (c # s)" "\<not> is_at_end ?b"
    using assms at_text_more [of l c s]
    by (auto simp: in_token_def lex_wf_def lines_wf_def total_count_def at_text_def is_at_end_def)
  have "advance ?b = (c, step_char ?b)"
    using at_text_nth [OF b(2)] adv_step [OF b(3)] b(3)
    by (simp add: advance_def step_char_def Let_def)
  moreover have "in_token (step_char ?b)"
    using fwd_in_token [OF b(1) fwd_step [OF in_token_wf [OF b(1)] b(3)]] .
  ultimately show thesis
    using that [of "step_char ?b"] b(3) at_text_step [OF b(2)] skip
    by (simp add: scan_def Let_def)
qed

lemma get_string_at:
  assumes "at_text l (x @ rest)" "source m = source l" "start m = current l"
    "current m = current l + length x"
  shows "get_string (start m) (current m) m = Some x"
proof -
  have "current l + length x \<le> length (source l)"
    using assms(1) by (auto simp: at_text_def dest!: arg_cong [of _ _ length])
  then show ?thesis
    using assms by (simp add: get_string_def at_text_def)
qed

section \<open>Names and keywords\<close>

lemma scan_from_alpha: "is_alpha c \<Longrightarrow> scan_from big c l = lex_identifier l"
  unfolding is_alpha_def scan_from_def is_digit_def BACKSLASH_def LF_def
  by (elim disjE) simp_all

lemma alpha_not_blank: "is_alpha c \<Longrightarrow> \<not> is_blank c"
  by (auto simp: is_alpha_def is_blank_def)

lemma scan_word:
  assumes "lex_wf l" "at_text l (c # w @ rest)" "is_alpha c" "\<forall>x \<in> set w. is_alphanumeric x"
    "rest = [] \<or> \<not> is_alphanumeric (hd rest)"
  obtains t l' where "scan big l = Some (t, l')" "kind t = word_kind (c # w)"
    "tstart t = current l" "tend t = current l + length (c # w)" "at_text l' rest" "lex_wf l'"
proof -
  obtain m where m: "scan big l = scan_from big c m" "in_token m" "at_text m (w @ rest)"
    "source m = source l" "start m = current l" "current m = current l + 1"
    using scan_at [OF assms(1,2) alpha_not_blank [OF assms(3)]] by metis
  let ?e = "advance_while (\<lambda>l. is_alphanumeric (peek l)) m"
  have e: "at_text ?e rest" "current ?e = current l + length (c # w)"
    using advance_while_chars [OF m(3) assms(4,5)] m(6) by simp_all
  have f: "fwd m ?e" using fwd_advance_while [OF in_token_wf [OF m(2)]] .
  then have tok: "in_token ?e" "start ?e = current l" "source ?e = source l"
    using fwd_in_token [OF m(2) f] m by (auto simp: fwd_def)
  have "get_string (start ?e) (current ?e) ?e = Some (c # w)"
    using get_string_at [of l "c # w" rest ?e] assms(2) tok e by simp
  then have "scan big l = Some (token_new (word_kind (c # w)) (start_line ?e)
      (column_of (source ?e) (start ?e)) (start ?e) (current ?e), ?e)"
    using m(1) assms(3) tok(1)
    by (simp add: scan_from_alpha lex_identifier_def Let_def make_token_wf)
  then show thesis using that tok e in_token_wf [OF tok(1)] by simp
qed

section \<open>Integers\<close>

definition number_stop :: "ustring \<Rightarrow> bool" where
  "number_stop rest \<longleftrightarrow> rest = [] \<or> \<not> is_alphanumeric (hd rest) \<and> hd rest \<noteq> cp CHR ''.''"

lemma digits_value_append:
  "digits_value r a (xs @ ys) = Option.bind (digits_value r a xs) (\<lambda>b. digits_value r b ys)"
  by (induction r a xs rule: digits_value.induct) (auto split: option.split)

lemma to_digit_digit_char: "d < r \<Longrightarrow> r \<le> 16 \<Longrightarrow> to_digit r (digit_char d) = Some d"
  by (auto simp: to_digit_def digit_char_def is_digit_def Let_def)

lemma digits_value_show: "2 \<le> r \<Longrightarrow> r \<le> 16 \<Longrightarrow> digits_value r 0 (show_radix r n) = Some n"
proof (induction r n rule: show_radix.induct)
  case (1 r n)
  show ?case
  proof (cases "n < r")
    case True
    then show ?thesis using 1 by (simp add: show_radix.simps [of r n] to_digit_digit_char)
  next
    case False
    then show ?thesis
      using 1 by (simp add: show_radix.simps [of r n] digits_value_append to_digit_digit_char)
  qed
qed

lemma show_radix_not_Nil [simp]: "show_radix r n \<noteq> []"
  by (subst show_radix.simps) simp

lemma set_show_radix: "2 \<le> r \<Longrightarrow> c \<in> set (show_radix r n) \<Longrightarrow> \<exists>d < r. c = digit_char d"
proof (induction r n rule: show_radix.induct)
  case (1 r n)
  show ?case
  proof (cases "n < r")
    case True
    then show ?thesis using 1 by (auto simp: show_radix.simps [of r n])
  next
    case False
    then have "c \<in> set (show_radix r (n div r)) \<or> c = digit_char (n mod r)"
      using 1 by (auto simp: show_radix.simps [of r n])
    moreover have "n mod r < r" using 1 by simp
    moreover have "\<exists>d < r. c = digit_char d" if "c \<in> set (show_radix r (n div r))"
      using 1 False that by simp
    ultimately show ?thesis by blast
  qed
qed

lemma digit_show_nat: "c \<in> set (show_nat n) \<Longrightarrow> is_digit c"
  using set_show_radix [of 10 c n] by (auto simp: show_nat_def digit_char_def is_digit_def)

lemma scan_from_digit: "is_digit c \<Longrightarrow> scan_from big c l = lex_number big l"
  unfolding is_alpha_def scan_from_def is_digit_def BACKSLASH_def LF_def
  by simp

lemma digit_not_blank: "is_digit c \<Longrightarrow> \<not> is_blank c"
  by (auto simp: is_digit_def is_blank_def)

lemma i64_from_digits:
  "\<forall>c \<in> set s. is_digit c \<Longrightarrow> digits_value 10 0 s = Some n \<Longrightarrow> s \<noteq> [] \<Longrightarrow>
     i64_from_str_radix 10 s = (if n < 2 ^ 63 then Some (int n) else None)"
  by (cases s) (auto simp: i64_from_str_radix_def unsigned_digits_def is_digit_def in_i64_def Let_def)

text \<open>A run of decimal digits is one integer token, a big one from \<open>2^63\<close> on.\<close>

lemma decimal_literal_digits:
  assumes m: "in_token m" "at_text m (ds @ rest)" "start m + 1 = current m"
    and ds: "\<forall>x \<in> set (d # ds). is_digit x" and stop: "number_stop rest"
    and src: "at_text l (d # ds @ rest)" "source m = source l" "start m = current l"
    and val: "digits_value 10 0 (d # ds) = Some n"
  obtains e where "in_token e" "at_text e rest" "start e = current l"
    "current e = current l + length (d # ds)"
    "decimal_literal big m =
       (if n < 2 ^ 63 then make_token (TkInteger (int n)) e
        else case big (d # ds) of Some k \<Rightarrow> make_token (TkBigNumber k) e
             | None \<Rightarrow> make_error (str ''invalid integer literal'') e)"
proof -
  let ?e = "advance_while digit_or_separator m"
  have e: "at_text ?e rest" "current ?e = current l + length (d # ds)"
  proof -
    have "at_text ?e rest \<and> current ?e = current m + length ds"
    proof (rule advance_while_over [OF m(2)])
      fix k u v
      assume "ds = u @ v" "v \<noteq> []" "at_text k (v @ rest)"
      then show "digit_or_separator k"
        using ds by (cases v) (auto simp: digit_or_separator_def at_text_peek)
    next
      fix k
      assume "at_text k rest" "rest \<noteq> []"
      then show "\<not> digit_or_separator k"
        using stop by (auto simp: digit_or_separator_def at_text_peek number_stop_def
            is_alphanumeric_def is_alpha_def)
    qed
    then show "at_text ?e rest" "current ?e = current l + length (d # ds)" using m(3) src(3) by auto
  qed
  have f: "fwd m ?e" using fwd_advance_while [OF in_token_wf [OF m(1)]] .
  then have tok: "in_token ?e" "start ?e = current l" "source ?e = source l"
    using fwd_in_token [OF m(1) f] src by (auto simp: fwd_def)
  have pk: "peek ?e = (if rest = [] then 0 else hd rest)" using at_text_peek [OF e(1)] .
  have no: "peek ?e \<noteq> cp CHR ''n''" "peek ?e \<noteq> cp CHR ''.''" "\<not> has_exponent ?e"
    using stop by (auto simp: pk number_stop_def is_alphanumeric_def is_alpha_def has_exponent_def)
  have "\<not> digit_or_separator ?e"
    using stop by (auto simp: pk digit_or_separator_def number_stop_def is_alphanumeric_def
        is_alpha_def is_digit_def)
  then have again: "advance_while digit_or_separator ?e = ?e" by (subst advance_while.simps) simp
  have str: "get_string (start ?e) (current ?e) ?e = Some (d # ds)"
    using get_string_at [of l "d # ds" rest ?e] src tok e by simp
  have flt: "filter (\<lambda>c. c \<noteq> cp CHR ''_'') (d # ds) = d # ds"
    using ds by (auto simp: is_digit_def intro!: filter_True)
  have dot: "cp CHR ''.'' \<notin> set (d # ds)" using ds by (auto simp: is_digit_def)
  have "decimal_literal big m =
      (case i64_from_str_radix 10 (d # ds) of
         Some n \<Rightarrow> make_token (TkInteger n) ?e
       | None \<Rightarrow> case big (d # ds) of Some k \<Rightarrow> make_token (TkBigNumber k) ?e
             | None \<Rightarrow> make_error (str ''invalid integer literal'') ?e)"
    using no again str flt dot
    by (simp only: decimal_literal_def Let_def if_False simp_thms Option.bind.bind_lunit)
  then show thesis
    using that [OF tok(1) e(1) tok(2) e(2)] i64_from_digits [OF ds val] by simp
qed

lemma scan_digits:
  assumes "lex_wf l" "at_text l (d # ds @ rest)" "\<forall>x \<in> set (d # ds). is_digit x"
    "number_stop rest" "digits_value 10 0 (d # ds) = Some n"
    and big: "n < 2 ^ 63 \<or> big (d # ds) = Some (int n)"
  obtains t l' where "scan big l = Some (t, l')"
    "kind t = (if n < 2 ^ 63 then TkInteger (int n) else TkBigNumber (int n))"
    "tstart t = current l" "tend t = current l + length (d # ds)" "at_text l' rest" "lex_wf l'"
proof -
  have d: "is_digit d" using assms(3) by simp
  obtain m where m: "scan big l = scan_from big d m" "in_token m" "at_text m (ds @ rest)"
    "source m = source l" "start m = current l" "current m = current l + 1"
    using scan_at [OF assms(1,2) digit_not_blank [OF d]] by metis
  have head: "peek m \<noteq> c" if "c \<in> {cp CHR ''b'', cp CHR ''c'', cp CHR ''x''}" for c
    using assms(3,4) that
    by (cases ds) (auto simp: at_text_peek [OF m(3)] is_digit_def number_stop_def
        is_alphanumeric_def is_alpha_def)
  have "if_match c f g m = g m" if "c \<in> {cp CHR ''b'', cp CHR ''c'', cp CHR ''x''}" for c f g
    using head [OF that] by (auto simp: if_match_def match_char_step peek_def split: if_splits)
  then have num: "scan big l = decimal_literal big m"
    using m(1) d by (simp add: scan_from_digit lex_number_if_match)
  obtain e where e: "in_token e" "at_text e rest" "start e = current l"
    "current e = current l + length (d # ds)"
    "decimal_literal big m =
       (if n < 2 ^ 63 then make_token (TkInteger (int n)) e
        else case big (d # ds) of Some k \<Rightarrow> make_token (TkBigNumber k) e
             | None \<Rightarrow> make_error (str ''invalid integer literal'') e)"
    using decimal_literal_digits [OF m(2,3) _ assms(3,4,2) m(4,5) assms(5), of big] m(5,6) by auto
  have "scan big l = make_token (if n < 2 ^ 63 then TkInteger (int n) else TkBigNumber (int n)) e"
    using num e(5) big by auto
  then show thesis
    using that e in_token_wf [OF e(1)] by (simp add: make_token_wf)
qed

section \<open>Binary, octal and hexadecimal integers\<close>

lemma i64_from_radix_digits:
  assumes "digits_value r 0 s = Some n" "n < 2 ^ 63" "s \<noteq> []" "\<forall>c \<in> set s. is_hex c"
  shows "i64_from_str_radix r s = Some (int n)"
  using assms
  by (cases s) (auto simp: i64_from_str_radix_def unsigned_digits_def is_hex_def is_digit_def
      in_i64_def Let_def)

lemma radix_literal_digits:
  assumes m: "in_token m" "at_text m (ds @ rest)" "start m + 2 = current m"
    and ds: "\<forall>x \<in> set ds. p x \<and> is_hex x" "ds \<noteq> []" and stop: "rest = [] \<or> \<not> p (hd rest)"
    and val: "digits_value r 0 ds = Some n" "n < 2 ^ 63"
  obtains e where "in_token e" "at_text e rest" "start e = start m"
    "current e = current m + length ds" "radix_literal p r mk msg m = make_token (mk (int n)) e"
proof -
  let ?e = "advance_while (\<lambda>l. p (peek l)) m"
  have e: "at_text ?e rest" "current ?e = current m + length ds"
    using advance_while_chars [where p = p, OF m(2) _ stop] ds by auto
  have f: "fwd m ?e" using fwd_advance_while [OF in_token_wf [OF m(1)]] .
  then have tok: "in_token ?e" "start ?e = start m" "source ?e = source m"
    using fwd_in_token [OF m(1) f] by (auto simp: fwd_def)
  have "current m + length ds \<le> length (source m)"
    using m(2) by (auto simp: at_text_def dest!: arg_cong [of _ _ length])
  then have "get_string (start ?e + 2) (current ?e) ?e = Some ds"
    using m(2,3) tok e by (simp add: get_string_def at_text_def)
  then have "radix_literal p r mk msg m = make_token (mk (int n)) ?e"
    using i64_from_radix_digits [OF val ds(2)] ds(1) by (simp add: radix_literal_def Let_def)
  then show thesis using that tok e by blast
qed

text \<open>The bases of the three notations, with what \<open>describe\<close> and the scanner say of each.\<close>

datatype notation_base = Binary | Octal | Hexadecimal

primrec base_radix :: "notation_base \<Rightarrow> nat" where
  "base_radix Binary = 2" | "base_radix Octal = 8" | "base_radix Hexadecimal = 16"

primrec base_token :: "notation_base \<Rightarrow> int \<Rightarrow> token_kind" where
  "base_token Binary = TkBinNumber" | "base_token Octal = TkOctNumber"
| "base_token Hexadecimal = TkHexNumber"

primrec base_mark :: "notation_base \<Rightarrow> uchar" where
  "base_mark Binary = cp CHR ''b''" | "base_mark Octal = cp CHR ''c''"
| "base_mark Hexadecimal = cp CHR ''x''"

primrec base_digit :: "notation_base \<Rightarrow> uchar \<Rightarrow> bool" where
  "base_digit Binary = is_binary" | "base_digit Octal = is_octal" | "base_digit Hexadecimal = is_hex"

lemma base_digit_show:
  "c \<in> set (show_radix (base_radix b) n) \<Longrightarrow> base_digit b c \<and> is_hex c"
proof -
  assume "c \<in> set (show_radix (base_radix b) n)"
  then obtain d where "d < base_radix b" "c = digit_char d"
    using set_show_radix [of "base_radix b" c n] by (cases b) auto
  then show ?thesis
    by (cases b)
      (auto simp: digit_char_def is_binary_def is_octal_def is_hex_def is_digit_def less_Suc_eq
        numeral_eq_Suc)
qed

lemma lex_number_base:
  assumes "in_token m" "previous m = cp CHR ''0''" "at_text m (base_mark b # s)"
  obtains msg where "lex_number big m =
    radix_literal (base_digit b) (base_radix b) (base_token b) msg (step_char m)"
proof -
  have "match_char c m = (if c = base_mark b then (True, step_char m) else (False, m))" for c
    using at_text_nth [OF assms(3)] at_text_more [OF assms(3)] by (auto simp: match_char_step)
  then show thesis
    using that assms(2) by (cases b) (auto simp: lex_number_if_match if_match_def)
qed

lemma scan_radix:
  assumes "lex_wf l" "at_text l (cp CHR ''0'' # base_mark b # show_radix (base_radix b) n @ rest)"
    "rest = [] \<or> \<not> base_digit b (hd rest)" "n < 2 ^ 63"
  obtains t l' where "scan big l = Some (t, l')" "kind t = base_token b (int n)"
    "tstart t = current l" "tend t = current l + 2 + length (show_radix (base_radix b) n)"
    "at_text l' rest" "lex_wf l'"
proof -
  let ?ds = "show_radix (base_radix b) n"
  have d: "is_digit (cp CHR ''0'')" by (simp add: is_digit_def)
  obtain m where m: "scan big l = scan_from big (cp CHR ''0'') m" "in_token m"
    "at_text m (base_mark b # ?ds @ rest)" "source m = source l" "start m = current l"
    "current m = current l + 1"
    using scan_at [OF assms(1,2) digit_not_blank [OF d]] by metis
  have "previous m = cp CHR ''0''"
    using at_text_nth [OF assms(2)] m(4,6) by (simp add: previous_def)
  then obtain msg where num: "lex_number big m =
      radix_literal (base_digit b) (base_radix b) (base_token b) msg (step_char m)"
    using lex_number_base [OF m(2) _ m(3)] by metis
  have f: "fwd m (step_char m)" using fwd_step [OF in_token_wf [OF m(2)] at_text_more [OF m(3)]] .
  have val: "digits_value (base_radix b) 0 ?ds = Some n"
    by (rule digits_value_show) (cases b; simp)+
  have k: "in_token (step_char m)" "at_text (step_char m) (?ds @ rest)"
    "start (step_char m) + 2 = current (step_char m)"
    using fwd_in_token [OF m(2) f] at_text_step [OF m(3)] m(5,6) by simp_all
  have ds: "\<forall>x \<in> set ?ds. base_digit b x \<and> is_hex x" using base_digit_show by blast
  obtain e where "in_token e" "at_text e rest" "start e = start m"
    "current e = current m + 1 + length ?ds"
    "radix_literal (base_digit b) (base_radix b) (base_token b) msg (step_char m) =
       make_token (base_token b (int n)) e"
    using radix_literal_digits [OF k ds show_radix_not_Nil assms(3) val assms(4),
        where mk = "base_token b" and msg = msg] by auto
  then show thesis
    using that m(1,5,6) num d in_token_wf
    by (simp add: scan_from_digit make_token_wf)
qed

section \<open>Plain strings\<close>

definition plain :: "uchar \<Rightarrow> uchar \<Rightarrow> bool" where
  "plain q c \<longleftrightarrow> c \<noteq> q \<and> c \<noteq> BACKSLASH \<and> c \<noteq> cp CHR ''$''"

lemma string_loop_plain:
  "at_text l (s @ q # rest) \<Longrightarrow> \<forall>c \<in> set s. plain q c \<Longrightarrow>
     \<exists>m. string_loop q l = AtQuoteOrEnd m \<and> at_text m (q # rest) \<and> current m = current l + length s"
proof (induction s arbitrary: l)
  case Nil
  then have "peek l = q" by (simp add: at_text_peek)
  then show ?case using Nil by (subst string_loop.simps) auto
next
  case (Cons c s)
  then have c: "peek l = c" "\<not> is_at_end l" "plain q c"
    using at_text_more [of l c] by (simp_all add: at_text_peek)
  then have eq: "string_loop q l = string_loop q (adv l)"
    by (subst string_loop.simps) (simp add: plain_def)
  have "at_text (adv l) (s @ q # rest)" using at_text_adv Cons.prems(1) by fastforce
  from Cons.IH [OF this] Cons.prems(2) obtain m where "string_loop q (adv l) = AtQuoteOrEnd m"
    "at_text m (q # rest)" "current m = current (adv l) + length s" by auto
  then show ?case using eq c by (simp add: adv_current)
qed

lemma unescape_plain:
  "end_at \<le> length src \<Longrightarrow> i \<le> end_at \<Longrightarrow> \<forall>j. i \<le> j \<longrightarrow> j < end_at \<longrightarrow> src ! j \<noteq> BACKSLASH \<Longrightarrow>
     unescape_loop src q end_at i acc = Some (Inr (acc @ take (end_at - i) (drop i src)))"
proof (induction "end_at - i" arbitrary: i acc)
  case 0
  then show ?case by (subst unescape_loop.simps) simp
next
  case (Suc n)
  then have i: "i < end_at" "i < length src" "src ! i \<noteq> BACKSLASH" by auto
  then have "unescape_loop src q end_at i acc = unescape_loop src q end_at (i + 1) (acc @ [src ! i])"
    by (subst unescape_loop.simps) simp
  moreover have "take (end_at - i) (drop i src) = src ! i # take (end_at - (i + 1)) (drop (i + 1) src)"
    using i by (simp add: Cons_nth_drop_Suc [symmetric] take_Cons' )
  ultimately show ?case using Suc.hyps(1) [of "i + 1"] Suc.hyps(2) Suc.prems i by simp
qed

lemma scan_from_quote: "q = 0x22 \<or> q = 0x27 \<Longrightarrow> scan_from big q l = lex_string q l"
  by (auto simp: scan_from_def BACKSLASH_def LF_def)

lemma scan_plain_string:
  assumes "lex_wf l" "at_text l (q # s @ q # rest)" "q = 0x22 \<or> q = 0x27"
    "\<forall>c \<in> set s. plain q c"
  obtains t l' where "scan big l = Some (t, l')" "kind t = TkLiteral s"
    "tstart t = current l" "tend t = current l + length s + 2" "at_text l' rest" "lex_wf l'"
proof -
  have nb: "\<not> is_blank q" using assms(3) by (auto simp: is_blank_def)
  obtain m where m: "scan big l = scan_from big q m" "in_token m" "at_text m (s @ q # rest)"
    "source m = source l" "start m = current l" "current m = current l + 1"
    using scan_at [OF assms(1,2) nb] by metis
  obtain e where e: "string_loop q m = AtQuoteOrEnd e" "at_text e (q # rest)"
    "current e = current m + length s"
    using string_loop_plain [OF m(3) assms(4)] by blast
  have f: "fwd m e" using fwd_string_loop [OF in_token_wf [OF m(2)], of q] e(1) by simp
  let ?k = "step_char e"
  have fk: "fwd m ?k"
    using fwd_trans [OF f fwd_step [OF fwd_wf [OF f] at_text_more [OF e(2)]]] .
  have tok: "in_token ?k" "start ?k = current l" "source ?k = source l"
    "current ?k = current l + length s + 2"
    using fwd_in_token [OF m(2) fk] fk m e(3) by (auto simp: fwd_def)
  have at: "at_text ?k rest" using at_text_step [OF e(2)] .
  have len: "current l + length s + 2 \<le> length (source l)"
    using fwd_less_end [OF m(2) fk] tok by simp
  have body: "drop (current l + 1) (source l) = s @ q # rest"
    using m(3,4,6) by (simp add: at_text_def)
  have nth: "source l ! j \<noteq> BACKSLASH" if "current l + 1 \<le> j" "j < current l + length s + 1" for j
  proof -
    have "source l ! j = (s @ q # rest) ! (j - (current l + 1))"
      using that len by (simp flip: body)
    then show ?thesis using that assms(4) by (auto simp: nth_append plain_def)
  qed
  have "unescape_string q ?k = Some (Inr s)"
    using unescape_plain [of "current l + length s + 1" "source l" "current l + 1" q "[]"] nth len tok
    by (simp add: unescape_string_def body [simplified])
  then have "scan big l = make_token (TkLiteral s) ?k"
    using m(1) assms(3) e at_text_more [OF e(2)] at_text_nth [OF e(2)]
    by (simp add: scan_from_quote lex_string_def match_char_step Let_def)
  then show thesis using that at tok in_token_wf [OF tok(1)] by (simp add: make_token_wf)
qed

section \<open>Properties\<close>

text \<open>
  C2. Reading all the tokens of a source always ends without a panic, whatever its characters:
  one \<open>Eof\<close> closes the sequence and no other token is one.
\<close>

theorem tokenize_total:
  "\<exists>ts t. tokenize big s = Some (ts @ [t]) \<and> is_eof t \<and> list_all (\<lambda>u. \<not> is_eof u) ts"
  by (rule tokenize_ends [of big s]) (auto simp: list_all_iff)

text \<open>
  C4. Every token of a source carries the text between its two offsets, and its line and column
  are those of its first character: one more than the newlines before it, and one more than
  the characters back to the last of them. Only \<open>Eof\<close> has no text. So the second search that
  \<open>make_token\<close> can do, and its subtraction, never happen.
\<close>

theorem tokenize_places: "\<exists>ts. tokenize big s = Some ts \<and> list_all (placed s) ts"
  by (rule tokenize_ends [of big s]) (auto simp: list_all_iff intro: tokenize_placed)

text \<open>
  C3. No character of a source is lost: the tokens cover, in order and without overlap, all of
  it but blanks and the brace that opens an interpolation.
\<close>

theorem tokenize_covers:
  assumes "i < length s" "\<not> is_blank (s ! i)" "s ! i \<noteq> cp CHR ''{''"
  shows "\<exists>ts. tokenize big s = Some ts \<and>
      sorted_wrt (\<lambda>t u. tend (fst t) \<le> tstart (fst u)) ts \<and>
      list_ex (\<lambda>t. tstart (fst t) \<le> i \<and> i < tend (fst t)) ts"
proof (rule tokenize_ends [of big s])
  fix us u
  assume ts: "tokenize big s = Some (us @ [u])"
  show ?thesis
    using ts lx.drive_spans [OF scanning_new, of big s "length s + 1"]
      tokenize_covered [OF ts assms] by (auto simp: tokenize_drive list_ex_iff)
qed

theorem tokenize_covers_witness:
  "\<exists>ts. tokenize (\<lambda>_. None) (str ''a  = b'') = Some ts \<and>
      sorted_wrt (\<lambda>t u. tend (fst t) \<le> tstart (fst u)) ts \<and>
      list_ex (\<lambda>t. tstart (fst t) \<le> 3 \<and> 3 < tend (fst t)) ts"
  by (rule tokenize_covers) (simp_all add: is_blank_def)

text \<open>
  C30. A letter or underscore followed by any letters, digits and underscores is one token
  that ends before the first other character: the keyword of that spelling, or else the
  identifier with exactly that name.
\<close>

theorem scan_name:
  assumes "lex_wf l" "at_text l (c # w @ rest)" "is_alpha c" "list_all is_alphanumeric w"
    "rest = [] \<or> \<not> is_alphanumeric (hd rest)"
  shows "\<exists>t l'. scan big l = Some (t, l') \<and> kind t = word_kind (c # w) \<and>
      tend t = tstart t + length (c # w) \<and> at_text l' rest"
  by (rule scan_word [OF assms(1-3) _ assms(5), of big])
    (use assms(4) in \<open>simp_all add: list_all_iff\<close>)

theorem scan_name_witness:
  "\<exists>t l'. scan (\<lambda>_. None) (lexer_new (str ''iterate(x)'')) = Some (t, l') \<and>
      kind t = word_kind (str ''iterate'') \<and> tend t = tstart t + length (str ''iterate'') \<and> at_text l' (str ''(x)'')"
  using scan_name [OF lex_wf_new, of "str ''iterate(x)''" "cp CHR ''i''" "str ''terate''" "str ''(x)''"
      "\<lambda>_. None"]
  by (simp add: at_text_def lexer_new_def is_alpha_def is_alphanumeric_def is_digit_def)

text \<open>
  C28. The decimal digits of a natural number, up to a character that is no letter, digit,
  underscore or dot, are one token: the integer itself below \<open>2^63\<close> and from there on the
  big integer that \<open>BigInt\<close> reads in the same digits. Nothing is rounded or replaced.
\<close>

theorem scan_integer:
  assumes "lex_wf l" "at_text l (show_nat n @ rest)" "number_stop rest"
    "n < 2 ^ 63 \<or> big (show_nat n) = Some (int n)"
  shows "\<exists>t l'. scan big l = Some (t, l') \<and>
      kind t = (if n < 2 ^ 63 then TkInteger (int n) else TkBigNumber (int n)) \<and>
      tend t = tstart t + length (show_nat n) \<and> at_text l' rest"
proof -
  obtain d ds where d: "show_nat n = d # ds" by (cases "show_nat n") (auto simp: show_nat_def)
  have digits: "\<forall>x \<in> set (d # ds). is_digit x" using digit_show_nat [of _ n] d by simp
  have val: "digits_value 10 0 (d # ds) = Some n"
    using digits_value_show [of 10 n] by (simp add: show_nat_def flip: d)
  show ?thesis
    using scan_digits [OF assms(1) _ digits assms(3) val, of big] assms(2,4) d by fastforce
qed

theorem scan_integer_witness:
  "\<exists>t l'. scan (\<lambda>s. map_option int (digits_value 10 0 s))
        (lexer_new (show_nat 9223372036854775808 @ str '')'')) = Some (t, l') \<and>
      kind t = TkBigNumber 9223372036854775808 \<and>
      tend t = tstart t + length (show_nat 9223372036854775808) \<and> at_text l' (str '')'')"
  using scan_integer [OF lex_wf_new, of "show_nat 9223372036854775808 @ str '')''"
      9223372036854775808 "str '')''" "\<lambda>s. map_option int (digits_value 10 0 s)"]
    digits_value_show [of 10 9223372036854775808]
  by (simp add: at_text_def lexer_new_def number_stop_def is_alphanumeric_def is_alpha_def
      is_digit_def show_nat_def)

text \<open>
  C27. What \<open>describe\<close> prints for a binary, octal or hexadecimal token reads back as the very
  same token, for every value such a token can have.
\<close>

theorem describe_scans_back:
  assumes "lex_wf l" "at_text l (describe show_f64 to_lowercase t @ rest)"
    "kind t = base_token b (int n)" "n < 2 ^ 63" "rest = [] \<or> \<not> base_digit b (hd rest)"
  shows "\<exists>u l'. scan big l = Some (u, l') \<and> kind u = kind t \<and> at_text l' rest"
proof -
  have "nat (int n mod 2 ^ 64) = n" using assms(4) by (simp add: nat_mod_distrib nat_power_eq)
  then have "describe show_f64 to_lowercase t =
      cp CHR ''0'' # base_mark b # show_radix (base_radix b) n"
    using assms(3) by (cases b) (simp_all add: describe_def show_bits_def)
  then show ?thesis
    using scan_radix [OF assms(1) _ assms(5,4), of big] assms(2,3) by fastforce
qed

theorem describe_scans_back_witness:
  "\<exists>u l'. scan (\<lambda>_. None) (lexer_new (str ''0xff;'')) = Some (u, l') \<and>
      kind u = TkHexNumber 255 \<and> at_text l' (str '';'')"
proof -
  have d: "describe (\<lambda>_. []) id (token_new (TkHexNumber 255) 1 1 0 4) = str ''0xff''" by code_simp
  show ?thesis
    using describe_scans_back [OF lex_wf_new, of "str ''0xff;''" "\<lambda>_. []" id
        "token_new (TkHexNumber 255) 1 1 0 4" "str '';''" Hexadecimal 255 "\<lambda>_. None"] d
    by (simp add: at_text_def lexer_new_def is_hex_def is_digit_def)
qed

text \<open>
  C29. A string whose body has no backslash, dollar or quote of its own kind is one literal
  with exactly the characters between its quotes, newlines included.
\<close>

theorem scan_string:
  assumes "lex_wf l" "at_text l (q # s @ q # rest)" "q = 0x22 \<or> q = 0x27" "list_all (plain q) s"
  shows "\<exists>t l'. scan big l = Some (t, l') \<and> kind t = TkLiteral s \<and>
      tend t = tstart t + length s + 2 \<and> at_text l' rest"
  by (rule scan_plain_string [OF assms(1-3), of big])
    (use assms(4) in \<open>simp_all add: list_all_iff\<close>)

theorem scan_string_witness:
  "\<exists>t l'. scan (\<lambda>_. None) (lexer_new (0x22 # str ''it'' @ [10] @ 0x22 # str ''+'')) = Some (t, l') \<and>
      kind t = TkLiteral (str ''it'' @ [10]) \<and>
      tend t = tstart t + length (str ''it'' @ [10]) + 2 \<and> at_text l' (str ''+'')"
  using scan_string [of "lexer_new (0x22 # str ''it'' @ [10] @ 0x22 # str ''+'')" "0x22"
      "str ''it'' @ [10]" "str ''+''" "\<lambda>_. None", OF lex_wf_new]
  by (simp add: at_text_def lexer_new_def plain_def BACKSLASH_def)

abbreviation kinds :: "(ustring \<Rightarrow> int option) \<Rightarrow> ustring \<Rightarrow> token_kind list option" where
  "kinds big s \<equiv> map_option (map (kind \<circ> fst)) (tokenize big s)"

text \<open>
  C31. Every operator and separator reads back from what \<open>Display\<close> prints for it as that one
  token, longest match first, save two: \<open>Newline\<close> prints its name, and \<open>Arrow\<close> prints
  a dash and an angle bracket, which the scanner reads as \<open>Minus\<close> and \<open>Greater\<close>.
\<close>

theorem symbol_reads_back:
  "kinds big (symbol_display y) =
     Some ((case y of SyNewline \<Rightarrow> [TkIdentifier (str ''Newline'')]
            | SyArrow \<Rightarrow> [TkSym SyMinus, TkSym SyGreater]
            | _ \<Rightarrow> [TkSym y]) @ [TkEof])"
  by (cases y; hypsubst; code_simp)

text \<open>C32. Every keyword reads back, from what \<open>Display\<close> prints for it, as that keyword.\<close>

theorem keyword_reads_back: "kinds big (keyword_display w) = Some [TkKw w, TkEof]"
  by (cases w; hypsubst; code_simp)

end
