(* ===== verification/Ast.thy ===== *)
theory Ast
  imports Tokens
begin

text \<open>
  The syntax tree of \<open>src/compiler/ast.rs\<close>. A node is a kind and the span it was read from.
  A constructor carries the prefix of its enumeration (\<open>E\<close>, \<open>S\<close>, \<open>D\<close>); a \<open>u32\<close> line is a
  natural number, an \<open>i64\<close> literal an integer, and boxes vanish.
\<close>

record span =
  sstart :: nat
  send :: nat

definition span_new :: "nat \<Rightarrow> nat \<Rightarrow> span" where
  "span_new s e = \<lparr>sstart = s, send = e\<rparr>"

definition span_of :: "token \<Rightarrow> span" where
  "span_of t = span_new (tstart t) (tend t)"

definition span_to :: "span \<Rightarrow> span \<Rightarrow> span" where
  "span_to s other = span_new (sstart s) (max (send other) (sstart s))"

datatype (plugins only: code size) type_kind =
    TyAny | TyBool | TyInt | TyNumber | TyBigInt | TyString | TyBytes | TyList | TyDict | TyRange
  | TyFile | TyFunction | TyType | TyCallable | TyIterable | TyInstance token

record type_name =
  ty :: type_kind
  ty_span :: span

datatype (plugins only: code size)
  expr = Expr (ekind: expr_kind) (espan: span)
and expr_kind =
    ENil | EBool bool | EInteger int | EFloat f64 | EBigNumber int | ELiteral ustring
  | EUnary token_kind expr nat
  | EBinary expr token_kind expr nat
  | ELogical expr token_kind expr nat
  | ECircuit expr token_kind expr
  | EGrouping expr
  | ERange expr expr nat
  | EIdentifier token
  | ECondition expr expr expr
  | ECall expr "expr list" nat
  | EGet expr token
  | ESet expr token expr
  | EIndex expr expr nat
  | ESlice expr expr expr nat
  | EList "expr list"
  | EDict "expr list" "expr list"
  | EParent token
  | ESelf token
  | EAssign expr expr
  | EAnonymous decl
  | ETypeHint "type_name list" bool
  | EArgument token expr
  | ECompoundAssign expr token_kind expr nat
  | EUpdate expr token_kind nat
  | EInterpolation "segment list"
  | EShorthand token
and segment = Text token | Value expr
and when_arm = WhenArm (labels: "expr list") (arm_body: stmt) (arm_span: span)
and stmt = Stmt (skind: stmt_kind) (sspan: span)
and stmt_kind =
    SNone | SFixContinue
  | SEcho expr
  | SExpression expr
  | SIf expr stmt "stmt option"
  | SWhile expr stmt
  | SFor "token option" token expr stmt
  | SIter "stmt option" "expr option" "expr list" stmt
  | SDoWhile stmt expr
  | SContinue token
  | SBreak token
  | SRaise expr
  | SReturn token expr
  | SAssert expr "expr option"
  | SUsing expr "when_arm list" "stmt option"
  | SImport ustring "token list" expr "expr list" bool bool
  | SCatch stmt "stmt option" "expr option"
  | SBlock "stmt list"
  | SDecl decl
  | SVar token expr "expr option" bool
  | SVarList "stmt list"
  | STrivia token
and decl = Decl (dkind: decl_kind) (dspan: span)
and decl_kind =
    DStmt stmt
  | DFunction token "expr list" stmt bool
  | DMethod token "expr list" stmt bool bool
  | DProperty token expr expr bool bool
  | DClass token "expr option" "decl list" "decl list" bool
  | DTrivia token

definition is_method :: "ustring \<Rightarrow> decl \<Rightarrow> bool" where
  "is_method name d =
     (case dkind d of
        DMethod t _ _ _ _ \<Rightarrow>
          (case kind t of
             TkIdentifier token_name \<Rightarrow> token_name = name
           | TkDecorator token_name \<Rightarrow> token_name = name
           | _ \<Rightarrow> False)
      | _ \<Rightarrow> False)"

end
