(* ===== verification/Parser_State.thy ===== *)
theory Parser_State
  imports Ast Lexer
begin

text \<open>
  The state of the parser of \<open>src/compiler/parser.rs\<close> and the operations every rule is made of:
  reading the next token past comments and errors of the lexer, looking ahead, stepping back,
  reporting errors and recovering from them. A method on \<open>&mut self\<close> takes the state last and
  returns it updated, with its result first when it has one; \<open>None\<close> is a panic, or the end of
  the fuel of a loop. What comes from outside the repository is an argument, in \<open>library\<close>.
\<close>

section \<open>The state\<close>

record library =
  big_from_str :: "ustring \<Rightarrow> int option"
  show_f64 :: "f64 \<Rightarrow> ustring"
  lowercase :: "ustring \<Rightarrow> ustring"
  debug_string :: "ustring \<Rightarrow> ustring"
  separator :: ustring

record parser_error =
  err_message :: ustring
  line_number :: nat
  offset :: nat
  err_span :: "span option"

definition parser_error_new :: "ustring \<Rightarrow> token \<Rightarrow> parser_error" where
  "parser_error_new msg t =
     \<lparr>err_message = msg, line_number = line t, offset = column t, err_span = Some (span_of t)\<rparr>"

text \<open>\<open>impl Display for ParserError\<close>.\<close>

definition parser_error_display :: "parser_error \<Rightarrow> ustring" where
  "parser_error_display e =
     str ''SyntaxError: '' @ err_message e @ str '' ('' @ show_nat (line_number e) @ str '':'' @
       show_nat (offset e) @ str '')''"

record parser =
  p_lexer :: lexer
  block_count :: nat
  p_current :: token
  p_previous :: token
  last_previous :: token
  anonymous_count :: nat
  functions_count :: nat
  errors :: "parser_error list"
  lookahead :: "token list"
  pending_trivia :: "token list"
  panic_mode :: bool
  brace_depth :: int
  consumed :: nat
  panic_at :: nat
  last_end :: nat
  rewound_end :: nat

definition parser_new :: "lexer \<Rightarrow> parser" where
  "parser_new l =
     \<lparr>p_lexer = l, block_count = 0,
      p_current = token_new TkNone 0 0 0 0, p_previous = token_new TkNone 0 0 0 0,
      last_previous = token_new TkNone 0 0 0 0, anonymous_count = 0, functions_count = 0,
      errors = [], lookahead = [], pending_trivia = [], panic_mode = False, brace_depth = 0,
      consumed = 0, panic_at = 0, last_end = 0, rewound_end = 0\<rparr>"

text \<open>A bound on the tokens that are left, the fuel of the loops over them.\<close>

definition tokens_left :: "parser \<Rightarrow> nat" where
  "tokens_left s =
     length (lookahead s) + (total_count (p_lexer s) - current (p_lexer s)) + 2"

section \<open>Kinds of token\<close>

definition is_identifier :: "token_kind \<Rightarrow> bool" where
  "is_identifier k = (case k of TkIdentifier _ \<Rightarrow> True | _ \<Rightarrow> False)"

definition is_decorator :: "token_kind \<Rightarrow> bool" where
  "is_decorator k = (case k of TkDecorator _ \<Rightarrow> True | _ \<Rightarrow> False)"

definition is_interpolation :: "token_kind \<Rightarrow> bool" where
  "is_interpolation k = (case k of TkInterpolation _ \<Rightarrow> True | _ \<Rightarrow> False)"

definition is_literal :: "token_kind \<Rightarrow> bool" where
  "is_literal k = (case k of TkLiteral _ \<Rightarrow> True | _ \<Rightarrow> False)"

definition is_trivia :: "token_kind \<Rightarrow> bool" where
  "is_trivia k = (case k of TkComment _ \<Rightarrow> True | TkDocBlock _ \<Rightarrow> True | _ \<Rightarrow> False)"

definition any_of :: "token_kind list \<Rightarrow> token_kind \<Rightarrow> bool" where
  "any_of ks k \<longleftrightarrow> k \<in> set ks"

abbreviation is_sym :: "symbol \<Rightarrow> token_kind \<Rightarrow> bool" where
  "is_sym y \<equiv> any_of [TkSym y]"

abbreviation is_kw :: "keyword \<Rightarrow> token_kind \<Rightarrow> bool" where
  "is_kw w \<equiv> any_of [TkKw w]"

abbreviation ends_line :: "token_kind \<Rightarrow> bool" where
  "ends_line \<equiv> any_of [TkSym SyNewline, TkSym SySemicolon, TkNone]"

section \<open>Errors and spans\<close>

definition report_error_at :: "ustring \<Rightarrow> token \<Rightarrow> parser \<Rightarrow> parser" where
  "report_error_at msg t s =
     (if panic_mode s then s
      else s\<lparr>panic_mode := True, panic_at := consumed s, errors := errors s @ [parser_error_new msg t]\<rparr>)"

definition report_error :: "ustring \<Rightarrow> parser \<Rightarrow> parser" where
  "report_error msg s = report_error_at msg (p_current s) s"

definition missing_token :: "parser \<Rightarrow> token" where
  "missing_token s =
     (let t = p_current s in token_new TkEof (line t) (column t) (tstart t) (tstart t))"

definition here :: "parser \<Rightarrow> nat" where
  "here s = tstart (p_current s)"

definition span_from :: "nat \<Rightarrow> parser \<Rightarrow> span" where
  "span_from from s = span_new from (max (last_end s) from)"

definition expr_from :: "expr_kind \<Rightarrow> nat \<Rightarrow> parser \<Rightarrow> expr" where
  "expr_from k from s = Expr k (span_from from s)"

definition stmt_from :: "stmt_kind \<Rightarrow> nat \<Rightarrow> parser \<Rightarrow> stmt" where
  "stmt_from k from s = Stmt k (span_from from s)"

definition decl_from :: "decl_kind \<Rightarrow> nat \<Rightarrow> parser \<Rightarrow> decl" where
  "decl_from k from s = Decl k (span_from from s)"

definition p_at_end :: "parser \<Rightarrow> bool" where
  "p_at_end s \<longleftrightarrow> kind (p_current s) = TkEof"

section \<open>Reading tokens\<close>

text \<open>One token that the grammar sees; comments are set aside and errors of the lexer reported.\<close>

fun scan_real_loop :: "'a library_scheme \<Rightarrow> nat \<Rightarrow> parser \<Rightarrow> (token \<times> parser) panics" where
  "scan_real_loop r 0 s = None"
| "scan_real_loop r (Suc n) s =
     do {
       (t, l) \<leftarrow> scan (big_from_str r) (p_lexer s);
       let s1 = s\<lparr>p_lexer := l\<rparr>;
       if kind t = TkNone then scan_real_loop r n s1
       else if is_trivia (kind t)
         then scan_real_loop r n (s1\<lparr>pending_trivia := pending_trivia s1 @ [t]\<rparr>)
       else
         (case kind t of
            TkError msg _ _ \<Rightarrow> scan_real_loop r n (report_error_at msg t s1)
          | _ \<Rightarrow> Some (t, s1))
     }"

definition scan_real_token :: "'a library_scheme \<Rightarrow> parser \<Rightarrow> (token \<times> parser) panics" where
  "scan_real_token r s = scan_real_loop r (tokens_left s) s"

primrec fill_lookahead :: "'a library_scheme \<Rightarrow> nat \<Rightarrow> parser \<Rightarrow> parser panics" where
  "fill_lookahead r 0 s = Some s"
| "fill_lookahead r (Suc k) s =
     do {
       (t, s1) \<leftarrow> scan_real_token r s;
       fill_lookahead r k (s1\<lparr>lookahead := lookahead s1 @ [t]\<rparr>)
     }"

definition peek_at :: "'a library_scheme \<Rightarrow> nat \<Rightarrow> parser \<Rightarrow> (token \<times> parser) panics" where
  "peek_at r n s =
     do {
       assert_that (1 \<le> n);
       s1 \<leftarrow> fill_lookahead r (n - length (lookahead s)) s;
       t \<leftarrow> index (lookahead s1) (n - 1);
       Some (t, s1)
     }"

definition brace_change :: "token_kind \<Rightarrow> int" where
  "brace_change k = (if k = TkSym SyLbrace then 1 else if k = TkSym SyRbrace then - 1 else 0)"

definition p_advance :: "'a library_scheme \<Rightarrow> parser \<Rightarrow> parser panics" where
  "p_advance r s =
     do {
       let s1 = s\<lparr>last_previous := p_previous s, p_previous := p_current s\<rparr>;
       (t, s2) \<leftarrow> (case lookahead s1 of
                     t # ts \<Rightarrow> Some (t, s1\<lparr>lookahead := ts\<rparr>)
                   | [] \<Rightarrow> scan_real_token r s1);
       let k = kind (p_previous s2);
       Some (s2\<lparr>p_current := t, rewound_end := last_end s2,
                last_end := (if any_of [TkSym SyNewline, TkSym SySemicolon, TkNone, TkEof] k
                             then last_end s2 else tend (p_previous s2)),
                consumed := consumed s2 + 1, brace_depth := brace_depth s2 + brace_change k\<rparr>)
     }"

definition rewind :: "parser \<Rightarrow> parser panics" where
  "rewind s =
     do {
       c \<leftarrow> usub (consumed s) 1;
       Some (s\<lparr>consumed := c, brace_depth := brace_depth s - brace_change (kind (p_previous s)),
               lookahead := p_current s # lookahead s, p_current := p_previous s,
               p_previous := last_previous s, last_end := rewound_end s\<rparr>)
     }"

definition check_tok :: "(token_kind \<Rightarrow> bool) \<Rightarrow> parser \<Rightarrow> bool" where
  "check_tok p s \<longleftrightarrow> p (kind (p_current s))"

definition match_tok ::
  "'a library_scheme \<Rightarrow> (token_kind \<Rightarrow> bool) \<Rightarrow> parser \<Rightarrow> (bool \<times> parser) panics" where
  "match_tok r p s =
     (if p (kind (p_current s)) then do { s1 \<leftarrow> p_advance r s; Some (True, s1) }
      else Some (False, s))"

definition consume_tok ::
  "'a library_scheme \<Rightarrow> (token_kind \<Rightarrow> bool) \<Rightarrow> ustring \<Rightarrow> parser \<Rightarrow> (token \<times> parser) panics" where
  "consume_tok r p msg s =
     (if p (kind (p_current s)) then do { s1 \<leftarrow> p_advance r s; Some (p_previous s1, s1) }
      else let s1 = report_error msg s in Some (missing_token s1, s1))"

section \<open>Comments\<close>

definition take_trivia :: "nat \<Rightarrow> parser \<Rightarrow> token list \<times> parser" where
  "take_trivia from s =
     (let ts = pending_trivia s;
          split = (case position (\<lambda>t. from \<le> tstart t) ts of Some i \<Rightarrow> i | None \<Rightarrow> length ts)
      in (drop split ts, s\<lparr>pending_trivia := take split ts\<rparr>))"

definition drain_trivia_into_decls :: "decl list \<Rightarrow> nat \<Rightarrow> parser \<Rightarrow> decl list \<times> parser" where
  "drain_trivia_into_decls out from s =
     (let (ts, s1) = take_trivia from s
      in (out @ map (\<lambda>t. Decl (DTrivia t) (span_of t)) ts, s1))"

definition drain_trivia_into_stmts :: "stmt list \<Rightarrow> nat \<Rightarrow> parser \<Rightarrow> stmt list \<times> parser" where
  "drain_trivia_into_stmts out from s =
     (let (ts, s1) = take_trivia from s
      in (out @ map (\<lambda>t. Stmt (STrivia t) (span_of t)) ts, s1))"

section \<open>Line ends and recovery\<close>

fun skip_while ::
  "'a library_scheme \<Rightarrow> (token_kind \<Rightarrow> bool) \<Rightarrow> nat \<Rightarrow> parser \<Rightarrow> parser panics" where
  "skip_while r p 0 s = None"
| "skip_while r p (Suc n) s =
     do {
       (m, s1) \<leftarrow> match_tok r p s;
       if m then skip_while r p n s1 else Some s1
     }"

definition ignore_newlines :: "'a library_scheme \<Rightarrow> parser \<Rightarrow> parser panics" where
  "ignore_newlines r s = skip_while r ends_line (tokens_left s) s"

definition ignore_newlines_only :: "'a library_scheme \<Rightarrow> parser \<Rightarrow> parser panics" where
  "ignore_newlines_only r s = skip_while r (is_sym SyNewline) (tokens_left s) s"

definition end_statement :: "'a library_scheme \<Rightarrow> parser \<Rightarrow> parser panics" where
  "end_statement r s =
     do {
       (eof, s1) \<leftarrow> match_tok r (any_of [TkEof]) s;
       if eof \<or> p_at_end s1 \<or> 0 < block_count s1 \<and> check_tok (is_sym SyRbrace) s1 then Some s1
       else do {
         (semi, s2) \<leftarrow> match_tok r (is_sym SySemicolon) s1;
         if semi
         then skip_while r (any_of [TkSym SyNewline, TkSym SySemicolon]) (tokens_left s2) s2
         else do {
           (_, s3) \<leftarrow> consume_tok r (is_sym SyNewline) (str ''End of statement expected'') s2;
           skip_while r ends_line (tokens_left s3) s3
         }
       }
     }"

fun synchronize_loop ::
  "'a library_scheme \<Rightarrow> int \<Rightarrow> bool \<Rightarrow> nat \<Rightarrow> parser \<Rightarrow> parser panics" where
  "synchronize_loop r depth in_block 0 s = None"
| "synchronize_loop r depth in_block (Suc n) s =
     (if \<not> p_at_end s \<and> depth \<le> brace_depth s then
        (if brace_depth s = depth \<and>
            (in_block \<and> check_tok (is_sym SyRbrace) s \<or>
             panic_at s < consumed s \<and>
               any_of [TkSym SyNewline, TkSym SySemicolon] (kind (p_previous s)))
         then Some s
         else do { s1 \<leftarrow> p_advance r s; synchronize_loop r depth in_block n s1 })
      else Some s)"

definition synchronize :: "'a library_scheme \<Rightarrow> int \<Rightarrow> bool \<Rightarrow> parser \<Rightarrow> parser panics" where
  "synchronize r depth in_block s =
     synchronize_loop r depth in_block (tokens_left s) (s\<lparr>panic_mode := False\<rparr>)"

text \<open>The number of tokens from the next one on up to the first that ends no line.\<close>

fun past_newlines :: "'a library_scheme \<Rightarrow> nat \<Rightarrow> nat \<Rightarrow> parser \<Rightarrow> (nat \<times> parser) panics" where
  "past_newlines r 0 ahead s = None"
| "past_newlines r (Suc n) ahead s =
     do {
       (t, s1) \<leftarrow> peek_at r ahead s;
       if kind t = TkSym SyNewline then past_newlines r n (ahead + 1) s1 else Some (ahead, s1)
     }"

primrec advance_times :: "'a library_scheme \<Rightarrow> nat \<Rightarrow> parser \<Rightarrow> parser panics" where
  "advance_times r 0 s = Some s"
| "advance_times r (Suc k) s = do { s1 \<leftarrow> p_advance r s; advance_times r k s1 }"

definition skip_newline_before ::
  "'a library_scheme \<Rightarrow> (token_kind \<Rightarrow> bool) \<Rightarrow> parser \<Rightarrow> parser panics" where
  "skip_newline_before r is_continuation s =
     (if kind (p_current s) \<noteq> TkSym SyNewline then Some s
      else do {
        (ahead, s1) \<leftarrow> past_newlines r (tokens_left s) 1 s;
        (t, s2) \<leftarrow> peek_at r ahead s1;
        if is_continuation (kind t) then advance_times r ahead s2 else Some s2
      })"

end
