(* ===== verification/Parser_Expr.thy ===== *)
theory Parser_Expr
  imports Parser_State
begin

text \<open>
  The expression rules of \<open>src/compiler/parser.rs\<close>, one definition for each method. The rules
  call each other in a circle: the calls that go back up, to a whole expression, a statement,
  or a rule calling itself, are made through the record \<open>rules\<close>, which \<open>Parser\<close> ties. A loop
  takes as fuel the number of tokens left when it starts.
\<close>

record rules = library +
  rec_expression :: "parser \<Rightarrow> (expr \<times> parser) panics"
  rec_assignment :: "parser \<Rightarrow> (expr \<times> parser) panics"
  rec_conditional :: "parser \<Rightarrow> (expr \<times> parser) panics"
  rec_unary :: "parser \<Rightarrow> (expr \<times> parser) panics"
  rec_statement :: "parser \<Rightarrow> (stmt \<times> parser) panics"

section \<open>Parts\<close>

definition get_type_from_token :: "token \<Rightarrow> type_kind" where
  "get_type_from_token t =
     (case kind t of
        TkIdentifier name \<Rightarrow>
          (if name = str ''any'' then TyAny
           else if name = str ''bool'' then TyBool
           else if name = str ''int'' then TyInt
           else if name = str ''number'' then TyNumber
           else if name = str ''bigint'' then TyBigInt
           else if name = str ''string'' then TyString
           else if name = str ''bytes'' then TyBytes
           else if name = str ''list'' then TyList
           else if name = str ''dict'' then TyDict
           else if name = str ''range'' then TyRange
           else if name = str ''file'' then TyFile
           else if name = str ''function'' then TyFunction
           else if name = str ''type'' then TyType
           else if name = str ''callable'' then TyCallable
           else if name = str ''iterable'' then TyIterable
           else TyInstance t)
      | _ \<Rightarrow> TyAny)"

fun parse_type_loop ::
  "'a library_scheme \<Rightarrow> nat \<Rightarrow> type_name list \<Rightarrow> parser \<Rightarrow> (type_name list \<times> parser) panics" where
  "parse_type_loop r 0 types s = None"
| "parse_type_loop r (Suc n) types s =
     do {
       (t, s1) \<leftarrow> consume_tok r is_identifier (str ''Expected type name'') s;
       let types1 = types @ [\<lparr>ty = get_type_from_token t, ty_span = span_of t\<rparr>];
       (m, s2) \<leftarrow> match_tok r (is_sym SyBar) s1;
       if m then parse_type_loop r n types1 s2 else Some (types1, s2)
     }"

definition parse_type :: "'a library_scheme \<Rightarrow> parser \<Rightarrow> (expr \<times> parser) panics" where
  "parse_type r s =
     do {
       let from = here s;
       (nullable, s1) \<leftarrow> match_tok r (is_sym SyQuestion) s;
       (types, s2) \<leftarrow> parse_type_loop r (tokens_left s1) [] s1;
       Some (expr_from (ETypeHint types nullable) from s2, s2)
     }"

definition implicit_type :: "token \<Rightarrow> type_kind \<Rightarrow> bool \<Rightarrow> expr" where
  "implicit_type after t nullable =
     (let sp = span_new (tend after) (tend after)
      in Expr (ETypeHint [\<lparr>ty = t, ty_span = sp\<rparr>] nullable) sp)"

definition parse_args :: "'a library_scheme \<Rightarrow> parser \<Rightarrow> (expr \<times> parser) panics" where
  "parse_args r s =
     do {
       (name, s1) \<leftarrow> consume_tok r is_identifier (str ''Expected argument name'') s;
       (colon, s2) \<leftarrow> match_tok r (is_sym SyColon) s1;
       (type_hint, s3) \<leftarrow>
         (if colon then parse_type r s2 else Some (implicit_type name TyAny True, s2));
       Some (expr_from (EArgument name type_hint) (tstart name) s3, s3)
     }"

definition compose_nil :: "parser \<Rightarrow> expr" where
  "compose_nil s = Expr ENil (span_new (last_end s) (last_end s))"

definition compose_id :: "token \<Rightarrow> expr" where
  "compose_id t = Expr (EIdentifier t) (span_of t)"

definition compose_literal :: "'a library_scheme \<Rightarrow> token \<Rightarrow> expr" where
  "compose_literal r t =
     Expr (case kind t of
             TkLiteral v \<Rightarrow> ELiteral v
           | TkIdentifier v \<Rightarrow> ELiteral v
           | _ \<Rightarrow> ELiteral (token_to_string (show_f64 r) t)) (span_of t)"

section \<open>What follows an operand\<close>

definition grouping :: "'a rules_scheme \<Rightarrow> parser \<Rightarrow> (expr_kind \<times> parser) panics" where
  "grouping r s =
     do {
       s1 \<leftarrow> ignore_newlines r s;
       (e, s2) \<leftarrow> rec_expression r s1;
       s3 \<leftarrow> ignore_newlines r s2;
       (_, s4) \<leftarrow> consume_tok r (is_sym SyRparen) (str ''Expected ')' after expression'') s3;
       Some (EGrouping e, s4)
     }"

fun call_args ::
  "'a rules_scheme \<Rightarrow> nat \<Rightarrow> expr list \<Rightarrow> parser \<Rightarrow> (expr list \<times> parser) panics" where
  "call_args r 0 args s = None"
| "call_args r (Suc n) args s =
     do {
       (comma, s1) \<leftarrow> match_tok r (is_sym SyComma) s;
       if \<not> comma then Some (args, s1)
       else do {
         s2 \<leftarrow> ignore_newlines r s1;
         if check_tok (is_sym SyRparen) s2 then Some (args, s2)
         else do {
           (e, s3) \<leftarrow> rec_expression r s2;
           call_args r n (args @ [e]) s3
         }
       }
     }"

definition finish_call :: "'a rules_scheme \<Rightarrow> expr \<Rightarrow> parser \<Rightarrow> (expr_kind \<times> parser) panics" where
  "finish_call r callee s =
     do {
       let ln = as_u32 (line (p_previous s));
       s1 \<leftarrow> ignore_newlines r s;
       (args, s2) \<leftarrow>
         (if \<not> check_tok (is_sym SyRparen) s1
          then do { (e, s') \<leftarrow> rec_expression r s1; call_args r (tokens_left s') [e] s' }
          else Some ([], s1));
       s3 \<leftarrow> ignore_newlines r s2;
       (_, s4) \<leftarrow> consume_tok r (is_sym SyRparen) (str ''Expected ')' after arguments'') s3;
       Some (ECall callee args ln, s4)
     }"

definition finish_index :: "'a rules_scheme \<Rightarrow> expr \<Rightarrow> parser \<Rightarrow> (expr_kind \<times> parser) panics" where
  "finish_index r callee s =
     do {
       let ln = as_u32 (line (p_previous s));
       s1 \<leftarrow> ignore_newlines r s;
       (lower, s2) \<leftarrow>
         (if \<not> check_tok (is_sym SyComma) s1 then rec_expression r s1 else Some (compose_nil s1, s1));
       (comma, s3) \<leftarrow> match_tok r (is_sym SyComma) s2;
       (k, s4) \<leftarrow>
         (if comma
          then do {
            s' \<leftarrow> ignore_newlines r s3;
            (upper, s'') \<leftarrow>
              (if \<not> check_tok (is_sym SyRbracket) s' then rec_expression r s'
               else Some (compose_nil s', s'));
            Some (ESlice callee lower upper ln, s'')
          }
          else Some (EIndex callee lower ln, s3));
       s5 \<leftarrow> ignore_newlines r s4;
       (_, s6) \<leftarrow> consume_tok r (is_sym SyRbracket) (str ''Expected ']' after index'') s5;
       Some (k, s6)
     }"

definition finish_dot :: "'a rules_scheme \<Rightarrow> expr \<Rightarrow> parser \<Rightarrow> (expr_kind \<times> parser) panics" where
  "finish_dot r callee s =
     do {
       let ln = as_u32 (line (p_previous s));
       s1 \<leftarrow> ignore_newlines r s;
       (prop, s2) \<leftarrow>
         consume_tok r is_identifier (str ''Expected property name after '.'' @ [0x27]) s1;
       (assigns, s3) \<leftarrow> match_tok r (any_of assignment_operators) s2;
       if assigns
       then
         (let t = p_previous s3
          in if kind t = TkSym SyEqual
             then do {
               (v, s4) \<leftarrow> rec_expression r s3;
               Some (ESet callee prop v, s4)
             }
             else do {
               let target = Expr (EGet callee prop) (span_new (sstart (espan callee)) (tend prop));
               (v, s4) \<leftarrow> rec_assignment r s3;
               Some (ECompoundAssign target (kind t) v ln, s4)
             })
       else Some (EGet callee prop, s3)
     }"

fun interpolation_loop ::
  "'a rules_scheme \<Rightarrow> nat \<Rightarrow> segment list \<Rightarrow> parser \<Rightarrow> (segment list \<times> parser) panics" where
  "interpolation_loop r 0 segs s = None"
| "interpolation_loop r (Suc n) segs s =
     do {
       (e, s1) \<leftarrow> rec_expression r s;
       let segs1 = segs @ [Value e];
       if check_tok is_interpolation s1
       then do {
         s2 \<leftarrow> p_advance r s1;
         interpolation_loop r n (segs1 @ [Text (p_previous s2)]) s2
       }
       else if check_tok is_literal s1
       then do {
         s2 \<leftarrow> p_advance r s1;
         Some (segs1 @ [Text (p_previous s2)], s2)
       }
       else Some (segs1, s1)
     }"

definition p_interpolation :: "'a rules_scheme \<Rightarrow> parser \<Rightarrow> (expr_kind \<times> parser) panics" where
  "p_interpolation r s =
     do {
       (segs, s1) \<leftarrow> interpolation_loop r (tokens_left s) [Text (p_previous s)] s;
       Some (EInterpolation segs, s1)
     }"

definition p_literal :: "'a library_scheme \<Rightarrow> parser \<Rightarrow> expr" where
  "p_literal r s = compose_literal r (p_previous s)"

section \<open>Dictionaries, lists and functions without a name\<close>

text \<open>One entry of a dictionary: the key, and its value or shorthand when there is one.\<close>

definition dict_entry ::
  "'a rules_scheme \<Rightarrow> parser \<Rightarrow> (expr \<times> expr list \<times> parser) panics" where
  "dict_entry r s =
     do {
       (name, s1) \<leftarrow> match_tok r is_identifier s;
       (key, s2) \<leftarrow> (if name then Some (p_literal r s1, s1) else rec_expression r s1);
       s3 \<leftarrow> ignore_newlines r s2;
       (colon, s4) \<leftarrow> match_tok r (is_sym SyColon) s3;
       if \<not> colon
       then
         (case ekind key of
            ELiteral v \<Rightarrow>
              Some (key, [Expr (EShorthand (copy_to (p_previous s4) (TkIdentifier v))) (espan key)], s4)
          | _ \<Rightarrow> Some (key, [], report_error (str ''Missing value in dictionary definition'') s4))
       else do {
         s5 \<leftarrow> ignore_newlines r s4;
         (v, s6) \<leftarrow> rec_expression r s5;
         Some (key, [v], s6)
       }
     }"

fun dict_loop ::
  "'a rules_scheme \<Rightarrow> nat \<Rightarrow> expr list \<Rightarrow> expr list \<Rightarrow> parser \<Rightarrow>
     (expr list \<times> expr list \<times> parser) panics" where
  "dict_loop r 0 keys vals s = None"
| "dict_loop r (Suc n) keys vals s =
     do {
       s1 \<leftarrow> ignore_newlines r s;
       if check_tok (is_sym SyRbrace) s1 then Some (keys, vals, s1)
       else do {
         (key, vs, s2) \<leftarrow> dict_entry r s1;
         s3 \<leftarrow> ignore_newlines r s2;
         (comma, s4) \<leftarrow> match_tok r (is_sym SyComma) s3;
         if comma then dict_loop r n (keys @ [key]) (vals @ vs) s4
         else Some (keys @ [key], vals @ vs, s4)
       }
     }"

definition p_dict :: "'a rules_scheme \<Rightarrow> parser \<Rightarrow> (expr_kind \<times> parser) panics" where
  "p_dict r s =
     do {
       s1 \<leftarrow> ignore_newlines r s;
       (keys, vals, s2) \<leftarrow>
         (if \<not> check_tok (is_sym SyRbrace) s1 then dict_loop r (tokens_left s1) [] [] s1
          else Some ([], [], s1));
       let s3 = (if length keys \<noteq> length vals
                 then report_error (str ''Key/value count mismatch dictionary definition'') s2 else s2);
       s4 \<leftarrow> ignore_newlines r s3;
       (_, s5) \<leftarrow> consume_tok r (is_sym SyRbrace) (str ''Expected '}' after dictionary'') s4;
       Some (EDict keys vals, s5)
     }"

fun list_loop ::
  "'a rules_scheme \<Rightarrow> nat \<Rightarrow> expr list \<Rightarrow> parser \<Rightarrow> (expr list \<times> parser) panics" where
  "list_loop r 0 items s = None"
| "list_loop r (Suc n) items s =
     do {
       s1 \<leftarrow> ignore_newlines r s;
       if check_tok (is_sym SyRbracket) s1 then Some (items, s1)
       else do {
         (e, s2) \<leftarrow> rec_expression r s1;
         s3 \<leftarrow> ignore_newlines r s2;
         (comma, s4) \<leftarrow> match_tok r (is_sym SyComma) s3;
         if comma then list_loop r n (items @ [e]) s4 else Some (items @ [e], s4)
       }
     }"

definition p_list :: "'a rules_scheme \<Rightarrow> parser \<Rightarrow> (expr_kind \<times> parser) panics" where
  "p_list r s =
     do {
       s1 \<leftarrow> ignore_newlines r s;
       (items, s2) \<leftarrow>
         (if \<not> check_tok (is_sym SyRbracket) s1 then list_loop r (tokens_left s1) [] s1
          else Some ([], s1));
       s3 \<leftarrow> ignore_newlines r s2;
       (_, s4) \<leftarrow> consume_tok r (is_sym SyRbracket) (str ''Expected ']' at end of list'') s3;
       Some (EList items, s4)
     }"

text \<open>One parameter of a function and the comma after it, unless it is the last.\<close>

definition function_param :: "'a library_scheme \<Rightarrow> parser \<Rightarrow> (expr \<times> parser) panics" where
  "function_param r s =
     do {
       (p, s1) \<leftarrow> parse_args r s;
       s2 \<leftarrow> ignore_newlines r s1;
       if \<not> check_tok (is_sym SyRparen) s2
       then do {
         (_, s3) \<leftarrow> consume_tok r (is_sym SyComma)
           (str ''Expected ',' between function arguments.'') s2;
         s4 \<leftarrow> ignore_newlines r s3;
         Some (p, s4)
       }
       else Some (p, s2)
     }"

text \<open>The parameters of a function, and whether the last one takes the rest.\<close>

fun function_args_loop ::
  "'a library_scheme \<Rightarrow> nat \<Rightarrow> expr list \<Rightarrow> parser \<Rightarrow> (expr list \<times> bool \<times> parser) panics" where
  "function_args_loop r 0 params s = None"
| "function_args_loop r (Suc n) params s =
     (if \<not> (check_tok is_identifier s \<or> check_tok (is_sym SyTriDot) s) then Some (params, False, s)
      else do {
        (dots, s1) \<leftarrow> match_tok r (is_sym SyTriDot) s;
        if dots
        then do {
          let from = tstart (p_previous s1);
          (t, s2) \<leftarrow> consume_tok r is_identifier (str ''Variable parameter name expected.'') s1;
          let collector = implicit_type t TyList False;
          Some (params @ [expr_from (EArgument t collector) from s2], True, s2)
        }
        else do {
          (p, s2) \<leftarrow> function_param r s1;
          function_args_loop r n (params @ [p]) s2
        }
      })"

definition function_args ::
  "'a library_scheme \<Rightarrow> parser \<Rightarrow> (expr list \<times> bool \<times> parser) panics" where
  "function_args r s =
     do { s1 \<leftarrow> ignore_newlines r s; function_args_loop r (tokens_left s1) [] s1 }"

text \<open>The statements of a block, and whether recovery has left the block already.\<close>

fun block_loop ::
  "'a rules_scheme \<Rightarrow> int \<Rightarrow> nat \<Rightarrow> nat \<Rightarrow> stmt list \<Rightarrow> parser \<Rightarrow>
     (stmt list \<times> bool \<times> parser) panics" where
  "block_loop r depth from 0 vals s = None"
| "block_loop r depth from (Suc n) vals s =
     (if check_tok (is_sym SyRbrace) s \<or> p_at_end s \<or> panic_mode s then Some (vals, False, s)
      else do {
        (st, s1) \<leftarrow> rec_statement r s;
        let vals1 = vals @ [st];
        s2 \<leftarrow> (if panic_mode s1 then synchronize r depth True s1 else Some s1);
        if panic_mode s1 \<and> brace_depth s2 < depth then Some (vals1, True, s2)
        else
          (let (vals2, s3) = drain_trivia_into_stmts vals1 from s2
           in block_loop r depth from n vals2 s3)
      })"

definition block :: "'a rules_scheme \<Rightarrow> parser \<Rightarrow> (stmt \<times> parser) panics" where
  "block r s =
     do {
       let from = (if kind (p_previous s) = TkSym SyLbrace then tstart (p_previous s) else here s);
       s1 \<leftarrow> ignore_newlines r (s\<lparr>block_count := block_count s + 1\<rparr>);
       let (vals, s2) = drain_trivia_into_stmts [] from s1;
       (vals1, left_early, s3) \<leftarrow> block_loop r (brace_depth s2) from (tokens_left s2) vals s2;
       if left_early
       then do {
         b \<leftarrow> usub (block_count s3) 1;
         let s4 = s3\<lparr>block_count := b\<rparr>;
         Some (stmt_from (SBlock vals1) from s4, s4)
       }
       else do {
         (_, s4) \<leftarrow> consume_tok r (is_sym SyRbrace) (str ''Expected '}' at end of block.'') s3;
         b \<leftarrow> usub (block_count s4) 1;
         let s5 = s4\<lparr>block_count := b\<rparr>;
         Some (stmt_from (SBlock vals1) from s5, s5)
       }
     }"

definition open_body :: "'a library_scheme \<Rightarrow> ustring \<Rightarrow> parser \<Rightarrow> parser panics" where
  "open_body r msg s =
     do {
       (brace, s1) \<leftarrow> match_tok r (is_sym SyLbrace) s;
       if brace then Some s1
       else
         (let recoverable =
                \<not> panic_mode s1 \<and> kind (p_previous s1) = TkSym SyNewline \<and> \<not> p_at_end s1;
              s2 = report_error msg s1
          in Some (if recoverable then s2\<lparr>panic_mode := False, brace_depth := brace_depth s2 + 1\<rparr>
                   else s2))
     }"

definition match_block :: "'a rules_scheme \<Rightarrow> ustring \<Rightarrow> parser \<Rightarrow> (stmt \<times> parser) panics" where
  "match_block r msg s =
     do {
       s1 \<leftarrow> ignore_newlines r s;
       s2 \<leftarrow> open_body r msg s1;
       block r s2
     }"

text \<open>The parameters of a function without a name, which may have none, not even parentheses.\<close>

definition anonymous_args ::
  "'a library_scheme \<Rightarrow> parser \<Rightarrow> (expr list \<times> bool \<times> parser) panics" where
  "anonymous_args r s =
     do {
       (open_paren, s1) \<leftarrow> match_tok r (is_sym SyLparen) s;
       if \<not> open_paren then Some ([], False, s1)
       else do {
         (closed, s2) \<leftarrow> match_tok r (is_sym SyRparen) s1;
         if closed then Some ([], False, s2)
         else do {
           (ps, variadic, s3) \<leftarrow> function_args r s2;
           (_, s4) \<leftarrow> consume_tok r (is_sym SyRparen)
             (str ''Expected ')' after anonymous function arguments.'') s3;
           Some (ps, variadic, s4)
         }
       }
     }"

definition anonymous :: "'a rules_scheme \<Rightarrow> parser \<Rightarrow> (expr_kind \<times> parser) panics" where
  "anonymous r s =
     do {
       let name_token = p_previous s;
       (parameters, variadic, s1) \<leftarrow>
         anonymous_args r (s\<lparr>functions_count := functions_count s + 1\<rparr>);
       s2 \<leftarrow> ignore_newlines r s1;
       (arrow, s3) \<leftarrow> match_tok r (is_sym SyArrow) s2;
       (body, s4) \<leftarrow>
         (if arrow
          then do {
            let t = p_previous s3;
            (v, s') \<leftarrow> rec_expression r s3;
            Some (stmt_from (SReturn t v) (tstart t) s', s')
          }
          else match_block r (str ''Expected '{' after function declaration'') s3);
       let name = copy_to name_token (TkIdentifier (str ''@anon'' @ show_nat (anonymous_count s4)));
       f \<leftarrow> usub (functions_count s4) 1;
       let s5 = s4\<lparr>anonymous_count := anonymous_count s4 + 1, functions_count := f\<rparr>;
       Some (EAnonymous (decl_from (DFunction name parameters body variadic) (tstart name_token) s5), s5)
     }"

section \<open>Operands and operators, from the tightest\<close>

definition unexpected_token :: "'a library_scheme \<Rightarrow> token \<Rightarrow> ustring" where
  "unexpected_token r t =
     str ''Unexpected token '' @ debug_string r (describe (show_f64 r) (lowercase r) t)"

definition primary_kind :: "'a rules_scheme \<Rightarrow> token \<Rightarrow> parser \<Rightarrow> (expr_kind \<times> parser) panics" where
  "primary_kind r prev s =
     (case kind prev of
        TkDouble v \<Rightarrow> Some (EFloat v, s)
      | TkInteger v \<Rightarrow> Some (EInteger v, s)
      | TkBinNumber v \<Rightarrow> Some (EInteger v, s)
      | TkOctNumber v \<Rightarrow> Some (EInteger v, s)
      | TkHexNumber v \<Rightarrow> Some (EInteger v, s)
      | TkBigNumber v \<Rightarrow> Some (EBigNumber v, s)
      | TkLiteral _ \<Rightarrow> Some (ekind (p_literal r s), s)
      | TkIdentifier _ \<Rightarrow> Some (EIdentifier prev, s)
      | TkInterpolation _ \<Rightarrow> p_interpolation r s
      | k \<Rightarrow>
          if k = TkKw KwFalse then Some (EBool False, s)
          else if k = TkKw KwTrue then Some (EBool True, s)
          else if k = TkKw KwNil then Some (ENil, s)
          else if k = TkKw KwSelf then Some (ESelf prev, s)
          else if k = TkKw KwParent then Some (EParent prev, s)
          else if k = TkSym SyLparen then grouping r s
          else if k = TkSym SyLbrace then p_dict r s
          else if k = TkSym SyLbracket then p_list r s
          else if k = TkSym SyAt \<or> k = TkKw KwDef then anonymous r s
          else
            let s1 = report_error_at (unexpected_token r prev) prev s
            in Some (ekind (p_literal r s1), s1))"

definition primary :: "'a rules_scheme \<Rightarrow> parser \<Rightarrow> (expr \<times> parser) panics" where
  "primary r s =
     do {
       s1 \<leftarrow> p_advance r s;
       let prev = p_previous s1;
       (k, s2) \<leftarrow> primary_kind r prev s1;
       Some (expr_from k (tstart prev) s2, s2)
     }"

fun range_loop :: "'a rules_scheme \<Rightarrow> nat \<Rightarrow> expr \<Rightarrow> parser \<Rightarrow> (expr \<times> parser) panics" where
  "range_loop r 0 e s = None"
| "range_loop r (Suc n) e s =
     do {
       (m, s1) \<leftarrow> match_tok r (is_sym SyRange) s;
       if \<not> m then Some (e, s1)
       else do {
         let ln = as_u32 (line (p_previous s1));
         s2 \<leftarrow> ignore_newlines r s1;
         (upper, s3) \<leftarrow> primary r s2;
         range_loop r n (Expr (ERange e upper ln) (span_to (espan e) (espan upper))) s3
       }
     }"

definition p_range :: "'a rules_scheme \<Rightarrow> parser \<Rightarrow> (expr \<times> parser) panics" where
  "p_range r s = do { (e, s1) \<leftarrow> primary r s; range_loop r (tokens_left s1) e s1 }"

text \<open>One link of a call chain, or none.\<close>

definition call_link :: "'a rules_scheme \<Rightarrow> expr \<Rightarrow> parser \<Rightarrow> (expr_kind option \<times> parser) panics" where
  "call_link r callee s =
     do {
       (dot, s1) \<leftarrow> match_tok r (is_sym SyDot) s;
       if dot then do { (k, s2) \<leftarrow> finish_dot r callee s1; Some (Some k, s2) }
       else do {
         (paren, s2) \<leftarrow> match_tok r (is_sym SyLparen) s1;
         if paren then do { (k, s3) \<leftarrow> finish_call r callee s2; Some (Some k, s3) }
         else do {
           (bracket, s3) \<leftarrow> match_tok r (is_sym SyLbracket) s2;
           if bracket then do { (k, s4) \<leftarrow> finish_index r callee s3; Some (Some k, s4) }
           else Some (None, s3)
         }
       }
     }"

fun call_loop ::
  "'a rules_scheme \<Rightarrow> nat \<Rightarrow> nat \<Rightarrow> expr \<Rightarrow> parser \<Rightarrow> (expr \<times> parser) panics" where
  "call_loop r from 0 callee s = None"
| "call_loop r from (Suc n) callee s =
     do {
       s1 \<leftarrow> skip_newline_before r (is_sym SyDot) s;
       (link, s2) \<leftarrow> call_link r callee s1;
       (case link of
          None \<Rightarrow> Some (callee, s2)
        | Some k \<Rightarrow> call_loop r from n (expr_from k from s2) s2)
     }"

definition do_call :: "'a rules_scheme \<Rightarrow> expr \<Rightarrow> parser \<Rightarrow> (expr \<times> parser) panics" where
  "do_call r callee s = call_loop r (sstart (espan callee)) (tokens_left s) callee s"

definition p_call :: "'a rules_scheme \<Rightarrow> parser \<Rightarrow> (expr \<times> parser) panics" where
  "p_call r s = do { (e, s1) \<leftarrow> p_range r s; do_call r e s1 }"

definition invalid_target :: ustring where
  "invalid_target = str ''invalid assignment target''"

definition update_target :: "expr \<Rightarrow> bool" where
  "update_target e =
     (case ekind e of EGet _ _ \<Rightarrow> True | EIdentifier _ \<Rightarrow> True | EIndex _ _ _ \<Rightarrow> True | _ \<Rightarrow> False)"

definition assign_target :: "expr \<Rightarrow> bool" where
  "assign_target e = (case ekind e of EIdentifier _ \<Rightarrow> True | EIndex _ _ _ \<Rightarrow> True | _ \<Rightarrow> False)"

definition assign_expr :: "'a rules_scheme \<Rightarrow> parser \<Rightarrow> (expr \<times> parser) panics" where
  "assign_expr r s =
     do {
       let start_token = p_current s;
       (e, s1) \<leftarrow> p_call r s;
       (m, s2) \<leftarrow> match_tok r (any_of [TkSym SyIncrement, TkSym SyDecrement]) s1;
       if m
       then
         (let operator = p_previous s2;
              s3 = (if \<not> update_target e then report_error_at invalid_target start_token s2 else s2)
          in Some (expr_from (EUpdate e (kind operator) (as_u32 (line operator))) (sstart (espan e)) s3, s3))
       else Some (e, s2)
     }"

definition p_power :: "'a rules_scheme \<Rightarrow> parser \<Rightarrow> (expr \<times> parser) panics" where
  "p_power r s =
     do {
       (base, s1) \<leftarrow> assign_expr r s;
       s2 \<leftarrow> skip_newline_before r (is_sym SyPow) s1;
       (m, s3) \<leftarrow> match_tok r (is_sym SyPow) s2;
       if m
       then do {
         let ln = as_u32 (line (p_previous s3));
         s4 \<leftarrow> ignore_newlines r s3;
         (exponent, s5) \<leftarrow> rec_unary r s4;
         Some (Expr (EBinary base (TkSym SyPow) exponent ln) (span_to (espan base) (espan exponent)), s5)
       }
       else Some (base, s3)
     }"

definition unary :: "'a rules_scheme \<Rightarrow> parser \<Rightarrow> (expr \<times> parser) panics" where
  "unary r s =
     do {
       (m, s1) \<leftarrow> match_tok r (any_of unary_operators) s;
       if m
       then do {
         let t = p_previous s1;
         s2 \<leftarrow> ignore_newlines r s1;
         (right, s3) \<leftarrow> rec_unary r s2;
         Some (expr_from (EUnary (kind t) right (as_u32 (line t))) (tstart t) s3, s3)
       }
       else p_power r s1
     }"

definition p_chain :: "bool \<Rightarrow> expr \<Rightarrow> token_kind \<Rightarrow> expr \<Rightarrow> nat \<Rightarrow> expr" where
  "p_chain logical left op right ln =
     Expr (if logical then ELogical left op right ln else EBinary left op right ln)
       (span_to (espan left) (espan right))"

definition p_circuit :: "expr \<Rightarrow> token_kind \<Rightarrow> expr \<Rightarrow> nat \<Rightarrow> expr" where
  "p_circuit left op right ln = Expr (ECircuit left op right) (span_to (espan left) (espan right))"

text \<open>
  The loop of a left associative level: \<open>ops\<close> are its operators, \<open>cont\<close> those that may begin
  the next line, \<open>mk\<close> the node of one link.
\<close>

fun chain_loop ::
  "'a library_scheme \<Rightarrow> (parser \<Rightarrow> (expr \<times> parser) panics) \<Rightarrow> token_kind list \<Rightarrow> token_kind list \<Rightarrow>
     (expr \<Rightarrow> token_kind \<Rightarrow> expr \<Rightarrow> nat \<Rightarrow> expr) \<Rightarrow> nat \<Rightarrow> expr \<Rightarrow> parser \<Rightarrow> (expr \<times> parser) panics" where
  "chain_loop r operand cont ops mk 0 e s = None"
| "chain_loop r operand cont ops mk (Suc n) e s =
     do {
       s1 \<leftarrow> skip_newline_before r (any_of cont) s;
       (m, s2) \<leftarrow> match_tok r (any_of ops) s1;
       if \<not> m then Some (e, s2)
       else do {
         let t = p_previous s2;
         s3 \<leftarrow> ignore_newlines r s2;
         (right, s4) \<leftarrow> operand s3;
         chain_loop r operand cont ops mk n (mk e (kind t) right (as_u32 (line t))) s4
       }
     }"

definition chain_level ::
  "'a library_scheme \<Rightarrow> (parser \<Rightarrow> (expr \<times> parser) panics) \<Rightarrow> token_kind list \<Rightarrow> token_kind list \<Rightarrow>
     (expr \<Rightarrow> token_kind \<Rightarrow> expr \<Rightarrow> nat \<Rightarrow> expr) \<Rightarrow> parser \<Rightarrow> (expr \<times> parser) panics" where
  "chain_level r operand cont ops mk s =
     do { (e, s1) \<leftarrow> operand s; chain_loop r operand cont ops mk (tokens_left s1) e s1 }"

definition factor :: "'a rules_scheme \<Rightarrow> parser \<Rightarrow> (expr \<times> parser) panics" where
  "factor r s = chain_level r (unary r) factor_operators factor_operators (p_chain False) s"

text \<open>A minus may not begin the next line: it would read as a negation.\<close>

definition p_term :: "'a rules_scheme \<Rightarrow> parser \<Rightarrow> (expr \<times> parser) panics" where
  "p_term r s = chain_level r (factor r) [TkSym SyPlus] term_operators (p_chain False) s"

definition shift :: "'a rules_scheme \<Rightarrow> parser \<Rightarrow> (expr \<times> parser) panics" where
  "shift r s = chain_level r (p_term r) shift_operators shift_operators (p_chain False) s"

definition bit_and :: "'a rules_scheme \<Rightarrow> parser \<Rightarrow> (expr \<times> parser) panics" where
  "bit_and r s = chain_level r (shift r) [TkSym SyAmp] [TkSym SyAmp] (p_chain False) s"

definition bit_xor :: "'a rules_scheme \<Rightarrow> parser \<Rightarrow> (expr \<times> parser) panics" where
  "bit_xor r s = chain_level r (bit_and r) [TkSym SyXor] [TkSym SyXor] (p_chain False) s"

definition bit_or :: "'a rules_scheme \<Rightarrow> parser \<Rightarrow> (expr \<times> parser) panics" where
  "bit_or r s = chain_level r (bit_xor r) [TkSym SyBar] [TkSym SyBar] (p_chain False) s"

definition comparison :: "'a rules_scheme \<Rightarrow> parser \<Rightarrow> (expr \<times> parser) panics" where
  "comparison r s = chain_level r (bit_or r) comparison_operators comparison_operators (p_chain True) s"

definition equality :: "'a rules_scheme \<Rightarrow> parser \<Rightarrow> (expr \<times> parser) panics" where
  "equality r s = chain_level r (comparison r) equality_operators equality_operators (p_chain False) s"

definition p_and :: "'a rules_scheme \<Rightarrow> parser \<Rightarrow> (expr \<times> parser) panics" where
  "p_and r s = chain_level r (equality r) [TkKw KwAnd] [TkKw KwAnd] p_circuit s"

definition p_or :: "'a rules_scheme \<Rightarrow> parser \<Rightarrow> (expr \<times> parser) panics" where
  "p_or r s = chain_level r (p_and r) [TkKw KwOr] [TkKw KwOr] p_circuit s"

definition conditional :: "'a rules_scheme \<Rightarrow> parser \<Rightarrow> (expr \<times> parser) panics" where
  "conditional r s =
     do {
       (e, s1) \<leftarrow> p_or r s;
       s2 \<leftarrow> skip_newline_before r (is_sym SyQuestion) s1;
       (m, s3) \<leftarrow> match_tok r (is_sym SyQuestion) s2;
       if m
       then do {
         s4 \<leftarrow> ignore_newlines r s3;
         (truth, s5) \<leftarrow> rec_conditional r s4;
         s6 \<leftarrow> skip_newline_before r (is_sym SyColon) s5;
         (_, s7) \<leftarrow> consume_tok r (is_sym SyColon) (str ''Expected ':' in tenary operation.'') s6;
         s8 \<leftarrow> ignore_newlines r s7;
         (falsy, s9) \<leftarrow> rec_conditional r s8;
         Some (expr_from (ECondition e truth falsy) (sstart (espan e)) s9, s9)
       }
       else Some (e, s3)
     }"

definition assignment :: "'a rules_scheme \<Rightarrow> parser \<Rightarrow> (expr \<times> parser) panics" where
  "assignment r s =
     do {
       let start_token = p_current s;
       (e, s1) \<leftarrow> conditional r s;
       (m, s2) \<leftarrow> match_tok r (any_of assignment_operators) s1;
       if m
       then do {
         let t = p_previous s2;
         s3 \<leftarrow> ignore_newlines r s2;
         let from = sstart (espan e);
         (v, s4) \<leftarrow> rec_assignment r s3;
         if kind t = TkSym SyEqual
         then
           Some (if assign_target e then (expr_from (EAssign e v) from s4, s4)
                 else (v, report_error_at invalid_target start_token s4))
         else
           (let s5 = (if \<not> assign_target e then report_error_at invalid_target start_token s4 else s4)
            in Some (expr_from (ECompoundAssign e (kind t) v (as_u32 (line t))) from s5, s5))
       }
       else Some (e, s2)
     }"

definition expression :: "'a rules_scheme \<Rightarrow> parser \<Rightarrow> (expr \<times> parser) panics" where
  "expression r s = assignment r s"

end
