(* ===== verification/Parser.thy ===== *)
theory Parser
  imports Parser_Expr
begin

text \<open>
  The statement and declaration rules of \<open>src/compiler/parser.rs\<close>, the knot that ties the
  rules to each other, and the parse of a whole source. The fuel of \<open>rules_at\<close> bounds how
  deep the rules are nested, which the number of tokens left bounds in turn.
\<close>

section \<open>Simple statements\<close>

definition echo_stmt :: "'a rules_scheme \<Rightarrow> parser \<Rightarrow> (stmt_kind \<times> parser) panics" where
  "echo_stmt r s =
     do { (v, s1) \<leftarrow> expression r s; s2 \<leftarrow> end_statement r s1; Some (SEcho v, s2) }"

definition expression_stmt :: "'a rules_scheme \<Rightarrow> parser \<Rightarrow> (stmt_kind \<times> parser) panics" where
  "expression_stmt r s =
     do { (v, s1) \<leftarrow> expression r s; s2 \<leftarrow> end_statement r s1; Some (SExpression v, s2) }"

definition if_stmt :: "'a rules_scheme \<Rightarrow> parser \<Rightarrow> (stmt_kind \<times> parser) panics" where
  "if_stmt r s =
     do {
       (e, s1) \<leftarrow> expression r s;
       (body, s2) \<leftarrow> rec_statement r s1;
       (has_else, s3) \<leftarrow> match_tok r (is_kw KwElse) s2;
       (else_branch, s4) \<leftarrow>
         (if has_else then do { (b, s') \<leftarrow> rec_statement r s3; Some (Some b, s') } else Some (None, s3));
       Some (SIf e body else_branch, s4)
     }"

definition while_stmt :: "'a rules_scheme \<Rightarrow> parser \<Rightarrow> (stmt_kind \<times> parser) panics" where
  "while_stmt r s =
     do { (e, s1) \<leftarrow> expression r s; (body, s2) \<leftarrow> rec_statement r s1; Some (SWhile e body, s2) }"

definition do_stmt :: "'a rules_scheme \<Rightarrow> parser \<Rightarrow> (stmt_kind \<times> parser) panics" where
  "do_stmt r s =
     do {
       (body, s1) \<leftarrow> rec_statement r s;
       (_, s2) \<leftarrow> consume_tok r (is_kw KwWhile) (str ''Expected 'while' after 'do' body.'') s1;
       (e, s3) \<leftarrow> expression r s2;
       Some (SDoWhile body e, s3)
     }"

definition for_stmt :: "'a rules_scheme \<Rightarrow> parser \<Rightarrow> (stmt_kind \<times> parser) panics" where
  "for_stmt r s =
     do {
       (first, s1) \<leftarrow> consume_tok r is_identifier (str ''Variable name expected'') s;
       (comma, s2) \<leftarrow> match_tok r (is_sym SyComma) s1;
       (key, val, s3) \<leftarrow>
         (if comma
          then do {
            (second, s') \<leftarrow> consume_tok r is_identifier (str ''Variable name expected'') s2;
            Some (Some first, second, s')
          }
          else Some (None, first, s2));
       (_, s4) \<leftarrow> consume_tok r (is_kw KwIn) (str ''Expected 'in' after 'for' statement.'') s3;
       (iterable, s5) \<leftarrow> expression r s4;
       (body, s6) \<leftarrow> rec_statement r s5;
       Some (SFor key val iterable body, s6)
     }"

definition assert_stmt :: "'a rules_scheme \<Rightarrow> parser \<Rightarrow> (stmt_kind \<times> parser) panics" where
  "assert_stmt r s =
     do {
       (e, s1) \<leftarrow> expression r s;
       (comma, s2) \<leftarrow> match_tok r (is_sym SyComma) s1;
       if comma
       then do {
         s3 \<leftarrow> ignore_newlines_only r s2;
         (m, s4) \<leftarrow> expression r s3;
         Some (SAssert e (Some m), s4)
       }
       else Some (SAssert e None, s2)
     }"

section \<open>Using\<close>

fun when_labels ::
  "'a rules_scheme \<Rightarrow> nat \<Rightarrow> expr list \<Rightarrow> parser \<Rightarrow> (expr list \<times> parser) panics" where
  "when_labels r 0 labs s = None"
| "when_labels r (Suc n) labs s =
     do {
       s1 \<leftarrow> ignore_newlines r s;
       (e, s2) \<leftarrow> expression r s1;
       if \<not> check_tok (is_sym SyComma) s2 \<or> check_tok (is_sym SyLbrace) s2
       then Some (labs @ [e], s2)
       else do {
         (_, s3) \<leftarrow> consume_tok r (is_sym SyComma) (str ''Expected ',' but found none.'') s2;
         when_labels r n (labs @ [e]) s3
       }
     }"

text \<open>One arm, default or line end; the flag says whether a default has been seen.\<close>

definition using_arm ::
  "'a rules_scheme \<Rightarrow> when_arm list \<Rightarrow> stmt option \<Rightarrow> bool \<Rightarrow> parser \<Rightarrow>
     (when_arm list \<times> stmt option \<times> bool \<times> parser) panics" where
  "using_arm r arms default_case seen s =
     (let prev = p_previous s
      in if kind prev = TkKw KwWhen
         then do {
           (labs, s1) \<leftarrow> when_labels r (tokens_left s) [] s;
           (body, s2) \<leftarrow> rec_statement r s1;
           Some (arms @ [WhenArm labs body (span_from (tstart prev) s2)], default_case, seen, s2)
         }
         else if kind prev = TkKw KwDefault
         then do {
           (body, s1) \<leftarrow> rec_statement r s;
           Some (arms, Some body, True, s1)
         }
         else if kind prev = TkSym SyNewline then Some (arms, default_case, seen, s)
         else Some (arms, default_case, seen, report_error (str ''Invalid using statement'') s))"

fun using_loop ::
  "'a rules_scheme \<Rightarrow> int \<Rightarrow> nat \<Rightarrow> when_arm list \<Rightarrow> stmt option \<Rightarrow> bool \<Rightarrow> parser \<Rightarrow>
     (when_arm list \<times> stmt option \<times> bool \<times> parser) panics" where
  "using_loop r depth 0 arms default_case seen s = None"
| "using_loop r depth (Suc n) arms default_case seen s =
     (if check_tok (is_sym SyRbrace) s \<or> p_at_end s \<or> panic_mode s
      then Some (arms, default_case, False, s)
      else do {
        (m, s1) \<leftarrow> match_tok r (any_of [TkKw KwWhen, TkKw KwDefault, TkSym SyNewline]) s;
        if \<not> m
        then Some (arms, default_case, False, report_error (str ''Invalid using statement'') s1)
        else do {
          let s2 = (if seen
                    then report_error_at
                      (0x27 # str ''when' or 'default' state cannot exist after a default state'')
                      (p_previous s1) s1
                    else s1);
          (arms1, default1, seen1, s3) \<leftarrow> using_arm r arms default_case seen s2;
          if panic_mode s3
          then do {
            s4 \<leftarrow> synchronize r depth True s3;
            if brace_depth s4 < depth then Some (arms1, default1, True, s4)
            else using_loop r depth n arms1 default1 seen1 s4
          }
          else using_loop r depth n arms1 default1 seen1 s3
        }
      })"

definition using_stmt :: "'a rules_scheme \<Rightarrow> parser \<Rightarrow> (stmt_kind \<times> parser) panics" where
  "using_stmt r s =
     do {
       (e, s1) \<leftarrow> expression r s;
       (_, s2) \<leftarrow> consume_tok r (is_sym SyLbrace) (str ''Expected '{' after 'using' statement.'') s1;
       s3 \<leftarrow> ignore_newlines r s2;
       (arms, default_case, left_early, s4) \<leftarrow>
         using_loop r (brace_depth s3) (tokens_left s3) [] None False s3;
       if left_early then Some (SUsing e arms default_case, s4)
       else do {
         (_, s5) \<leftarrow> consume_tok r (is_sym SyRbrace)
           (str ''Expected '}' at end of using statement.'') s4;
         Some (SUsing e arms default_case, s5)
       }
     }"

section \<open>Imports\<close>

fun dots_in :: "token list \<Rightarrow> nat" where
  "dots_in [] = 0"
| "dots_in (t # ts) =
     (if kind t = TkSym SyDot then 1 else if kind t = TkSym SyRange then 2 else 3) + dots_in ts"

text \<open>The parts of a run of \<open>n\<close> dots whose first stands \<open>at\<close> characters into the run.\<close>

fun split_run :: "token \<Rightarrow> nat \<Rightarrow> nat \<Rightarrow> (ustring \<times> token) list" where
  "split_run f at 0 = []"
| "split_run f at (Suc 0) =
     [(str ''.'', token_new (TkSym SyDot) (line f) (column f + at) (tstart f + at) (tstart f + at + 1))]"
| "split_run f at (Suc (Suc n)) =
     (str ''..'', token_new (TkSym SyRange) (line f) (column f + at) (tstart f + at) (tstart f + at + 2)) #
     split_run f (at + 2) n"

definition split_dots :: "token list \<Rightarrow> ustring list \<Rightarrow> token list \<Rightarrow> ustring list \<times> token list" where
  "split_dots dots paths path_tokens =
     (case dots of
        [] \<Rightarrow> (paths, path_tokens)
      | f # _ \<Rightarrow>
          (let parts = split_run f 0 (dots_in dots)
           in (paths @ map fst parts, path_tokens @ map snd parts)))"

definition path_part :: "token_kind \<Rightarrow> bool" where
  "path_part k \<longleftrightarrow> any_of [TkSym SyDot, TkSym SyRange, TkSym SyTriDot] k \<or> is_identifier k"

fun import_path ::
  "'a library_scheme \<Rightarrow> nat \<Rightarrow> token list \<Rightarrow> ustring list \<Rightarrow> token list \<Rightarrow> parser \<Rightarrow>
     (token list \<times> ustring list \<times> token list \<times> parser) panics" where
  "import_path r 0 dots paths toks s = None"
| "import_path r (Suc n) dots paths toks s =
     do {
       (m, s1) \<leftarrow> match_tok r path_part s;
       if \<not> m then Some (dots, paths, toks, s1)
       else
         (let t = p_previous s1
          in case kind t of
               TkIdentifier name \<Rightarrow>
                 (let (paths1, toks1) = split_dots dots paths toks
                  in import_path r n [] (paths1 @ [name]) (toks1 @ [t]) s1)
             | _ \<Rightarrow>
                 if dots \<noteq> [] \<and> tend (last dots) = tstart t
                 then import_path r n (dots @ [t]) paths toks s1
                 else
                   (let (paths1, toks1) = split_dots dots paths toks
                    in import_path r n [t] paths1 toks1 s1))
     }"

definition is_private :: "token_kind \<Rightarrow> bool" where
  "is_private k = (case k of TkIdentifier name \<Rightarrow> name \<noteq> [] \<and> hd name = cp CHR ''_'' | _ \<Rightarrow> False)"

fun import_elements ::
  "'a library_scheme \<Rightarrow> nat \<Rightarrow> bool \<Rightarrow> expr list \<Rightarrow> parser \<Rightarrow>
     (expr list \<times> bool \<times> parser) panics" where
  "import_elements r 0 again elements s = None"
| "import_elements r (Suc n) again elements s =
     (if check_tok (is_sym SyRbrace) s \<or> \<not> again then Some (elements, False, s)
      else do {
        s1 \<leftarrow> ignore_newlines r s;
        (t, s2) \<leftarrow> consume_tok r (\<lambda>k. is_identifier k \<or> k = TkSym SyMultiply)
          (str ''Expected identifier or '*' after import statement.'') s1;
        if kind t = TkSym SyMultiply
        then Some (elements, True,
          (if elements \<noteq> []
           then report_error_at
             (str ''Cannot import selected items and everything from the same import statement.'') t s2
           else s2))
        else if is_private (kind t)
        then Some (elements, False,
          report_error_at (str ''Cannot import private items from module'') t s2)
        else do {
          (comma, s3) \<leftarrow> match_tok r (is_sym SyComma) s2;
          s4 \<leftarrow> ignore_newlines r s3;
          import_elements r n comma (elements @ [compose_id t]) s4
        }
      })"

fun join_with :: "ustring \<Rightarrow> ustring list \<Rightarrow> ustring" where
  "join_with sep [] = []"
| "join_with sep [x] = x"
| "join_with sep (x # y # xs) = x @ sep @ join_with sep (y # xs)"

text \<open>What follows the path: the elements of an import, its name, or nothing.\<close>

definition import_tail ::
  "'a library_scheme \<Rightarrow> parser \<Rightarrow> (expr list \<times> bool \<times> expr option \<times> parser) panics" where
  "import_tail r s =
     do {
       (brace, s1) \<leftarrow> match_tok r (is_sym SyLbrace) s;
       if brace
       then do {
         (elements, everything, s2) \<leftarrow> import_elements r (tokens_left s1 + 1) True [] s1;
         (_, s3) \<leftarrow> consume_tok r (is_sym SyRbrace) (str ''Expected '}' after import statement.'') s2;
         Some (elements, everything, None, s3)
       }
       else do {
         (renamed, s2) \<leftarrow> match_tok r (is_kw KwAs) s1;
         if renamed
         then do {
           (t, s3) \<leftarrow> consume_tok r is_identifier (str ''Expected identifier after 'as' keyword.'') s2;
           Some ([], False, Some (compose_id t), s3)
         }
         else Some ([], False, None, s2)
       }
     }"

definition import_stmt :: "'a library_scheme \<Rightarrow> parser \<Rightarrow> (stmt_kind \<times> parser) panics" where
  "import_stmt r s =
     do {
       let no_name = compose_nil s;
       (exported, s1) \<leftarrow> match_tok r (is_sym SyAt) s;
       (dots, paths0, toks0, s2) \<leftarrow> import_path r (tokens_left s1) [] [] [] s1;
       let (paths, toks) = split_dots dots paths0 toks0;
       (elements, everything, given, s3) \<leftarrow> import_tail r s2;
       let path = join_with (separator r) paths;
       (case given of
          Some name \<Rightarrow> Some (SImport path toks name elements everything exported, s3)
        | None \<Rightarrow>
            if paths \<noteq> []
            then
              (let name = Expr (EIdentifier (copy_to (p_previous s3) (TkLiteral (last paths))))
                     (if toks \<noteq> [] then span_of (last toks) else span_new 0 0)
               in Some (SImport path toks name elements everything exported, s3))
            else Some (SImport path toks no_name elements everything exported,
                   report_error (str ''Expected a module path after 'import'' @ [0x27]) s3))
     }"

section \<open>Declarations of variables, functions and classes\<close>

text \<open>One \<open>name = value\<close>, with its position, as a statement of its own.\<close>

definition var_item :: "'a rules_scheme \<Rightarrow> bool \<Rightarrow> parser \<Rightarrow> (stmt \<times> parser) panics" where
  "var_item r is_constant s =
     do {
       (t, s1) \<leftarrow> consume_tok r is_identifier (str ''Variable name expected.'') s;
       (colon, s2) \<leftarrow> match_tok r (is_sym SyColon) s1;
       (type_hint, s3) \<leftarrow>
         (if colon then do { (h, s') \<leftarrow> parse_type r s2; Some (Some h, s') } else Some (None, s2));
       (equal, s4) \<leftarrow> match_tok r (is_sym SyEqual) s3;
       (k, s5) \<leftarrow>
         (if equal
          then do { (v, s') \<leftarrow> expression r s4; Some (SVar t v type_hint is_constant, s') }
          else if is_constant
          then Some (SNone, report_error (str ''Constant value not declared'') s4)
          else Some (SVar t (compose_nil s4) type_hint False, s4));
       Some (stmt_from k (tstart t) s5, s5)
     }"

fun var_decl_loop ::
  "'a rules_scheme \<Rightarrow> bool \<Rightarrow> nat \<Rightarrow> nat \<Rightarrow> stmt list \<Rightarrow> parser \<Rightarrow> (stmt \<times> parser) panics" where
  "var_decl_loop r is_constant from 0 declarations s = None"
| "var_decl_loop r is_constant from (Suc n) declarations s =
     do {
       (d, s1) \<leftarrow> var_item r is_constant s;
       (comma, s2) \<leftarrow> match_tok r (is_sym SyComma) s1;
       if comma
       then do {
         s3 \<leftarrow> ignore_newlines r s2;
         var_decl_loop r is_constant from n (declarations @ [d]) s3
       }
       else if declarations = [] then Some (d, s2)
       else Some (stmt_from (SVarList (declarations @ [d])) from s2, s2)
     }"

definition var_decl :: "'a rules_scheme \<Rightarrow> bool \<Rightarrow> parser \<Rightarrow> (stmt \<times> parser) panics" where
  "var_decl r is_constant s = var_decl_loop r is_constant (here s) (tokens_left s) [] s"

text \<open>A named function, after its \<open>def\<close>.\<close>

definition function_decl :: "'a rules_scheme \<Rightarrow> parser \<Rightarrow> (decl \<times> parser) panics" where
  "function_decl r s =
     do {
       let from = tstart (p_previous s);
       (name, s1) \<leftarrow> consume_tok r is_identifier (str ''Function name expected.'')
         (s\<lparr>functions_count := functions_count s + 1\<rparr>);
       (_, s2) \<leftarrow> consume_tok r (is_sym SyLparen) (str ''Expected '(' after function name.'') s1;
       s3 \<leftarrow> ignore_newlines r s2;
       (parameters, variadic, s4) \<leftarrow> function_args r s3;
       s5 \<leftarrow> ignore_newlines r s4;
       (_, s6) \<leftarrow> consume_tok r (is_sym SyRparen) (str ''Expected ')' after function arguments.'') s5;
       s7 \<leftarrow> ignore_newlines r s6;
       (body, s8) \<leftarrow> match_block r (str ''Expected '{' after function declaration'') s7;
       f \<leftarrow> usub (functions_count s8) 1;
       let s9 = s8\<lparr>functions_count := f\<rparr>;
       Some (decl_from (DFunction name parameters body variadic) from s9, s9)
     }"

definition class_field ::
  "'a rules_scheme \<Rightarrow> nat \<Rightarrow> bool \<Rightarrow> bool \<Rightarrow> parser \<Rightarrow> (decl \<times> parser) panics" where
  "class_field r from is_static is_constant s =
     do {
       (t, s1) \<leftarrow> consume_tok r is_identifier (str ''Class field name expected.'') s;
       (colon, s2) \<leftarrow> match_tok r (is_sym SyColon) s1;
       (type_hint, s3) \<leftarrow>
         (if colon then parse_type r s2 else Some (implicit_type t TyList False, s2));
       (equal, s4) \<leftarrow> match_tok r (is_sym SyEqual) s3;
       (v, s5) \<leftarrow> (if equal then expression r s4 else Some (compose_nil s4, s4));
       let field = decl_from (DProperty t v type_hint is_static is_constant) from s5;
       s6 \<leftarrow> end_statement r s5;
       s7 \<leftarrow> ignore_newlines r s6;
       Some (field, s7)
     }"

definition method_decl :: "'a rules_scheme \<Rightarrow> nat \<Rightarrow> bool \<Rightarrow> parser \<Rightarrow> (decl \<times> parser) panics" where
  "method_decl r from is_static s =
     do {
       (name, s1) \<leftarrow> consume_tok r (\<lambda>k. is_identifier k \<or> is_decorator k) (str ''Method name expected.'')
         (s\<lparr>functions_count := functions_count s + 1\<rparr>);
       (_, s2) \<leftarrow> consume_tok r (is_sym SyLparen) (str ''Expected '(' after method name.'') s1;
       s3 \<leftarrow> ignore_newlines r s2;
       (parameters, variadic, s4) \<leftarrow> function_args r s3;
       s5 \<leftarrow> ignore_newlines r s4;
       (_, s6) \<leftarrow> consume_tok r (is_sym SyRparen) (str ''Expected ')' after method arguments.'') s5;
       s7 \<leftarrow> ignore_newlines r s6;
       (body, s8) \<leftarrow> match_block r (str ''Expected '{' after method declaration'') s7;
       f \<leftarrow> usub (functions_count s8) 1;
       let s9 = s8\<lparr>functions_count := f\<rparr>;
       Some (decl_from (DMethod name parameters body variadic is_static) from s9, s9)
     }"

definition class_reference :: "'a rules_scheme \<Rightarrow> ustring \<Rightarrow> parser \<Rightarrow> (expr \<times> parser) panics" where
  "class_reference r msg s =
     do { (t, s1) \<leftarrow> consume_tok r is_identifier msg s; do_call r (compose_id t) s1 }"

text \<open>The members read so far: properties, methods, and whether the last one was a method.\<close>

record members =
  properties :: "decl list"
  methods :: "decl list"
  last_member_was_method :: "bool option"

definition is_field_keyword :: "token_kind \<Rightarrow> bool" where
  "is_field_keyword = any_of [TkKw KwVar, TkKw KwConst]"

definition drain_into_fields :: "members \<Rightarrow> nat \<Rightarrow> parser \<Rightarrow> members \<times> parser" where
  "drain_into_fields ms from s =
     (let (ds, s1) = drain_trivia_into_decls (properties ms) from s in (ms\<lparr>properties := ds\<rparr>, s1))"

definition drain_into_methods :: "members \<Rightarrow> nat \<Rightarrow> parser \<Rightarrow> members \<times> parser" where
  "drain_into_methods ms from s =
     (let (ds, s1) = drain_trivia_into_decls (methods ms) from s in (ms\<lparr>methods := ds\<rparr>, s1))"

definition class_member ::
  "'a rules_scheme \<Rightarrow> members \<Rightarrow> parser \<Rightarrow> (members \<times> parser) panics" where
  "class_member r ms s =
     do {
       let from = here s;
       (is_static, s1) \<leftarrow> match_tok r (is_kw KwStatic) s;
       (is_var, s2) \<leftarrow> match_tok r (is_kw KwVar) s1;
       if is_var
       then do {
         (d, s3) \<leftarrow> class_field r from is_static False s2;
         Some (ms\<lparr>properties := properties ms @ [d], last_member_was_method := Some False\<rparr>, s3)
       }
       else do {
         (is_const, s3) \<leftarrow> match_tok r (is_kw KwConst) s2;
         if is_const
         then do {
           (d, s4) \<leftarrow> class_field r from is_static True s3;
           Some (ms\<lparr>properties := properties ms @ [d], last_member_was_method := Some False\<rparr>, s4)
         }
         else do {
           (_, s4) \<leftarrow> match_tok r (is_kw KwDef) s3;
           (d, s5) \<leftarrow> method_decl r from is_static s4;
           Some (ms\<lparr>methods := methods ms @ [d], last_member_was_method := Some True\<rparr>, s5)
         }
       }
     }"

text \<open>The comments before a member go to the list that the member is about to join.\<close>

definition member_trivia ::
  "'a library_scheme \<Rightarrow> nat \<Rightarrow> members \<Rightarrow> parser \<Rightarrow> (members \<times> parser) panics" where
  "member_trivia r from ms s =
     do {
       (k, s1) \<leftarrow>
         (if kind (p_current s) = TkKw KwStatic
          then do { (t, s') \<leftarrow> peek_at r 1 s; Some (kind t, s') }
          else Some (kind (p_current s), s));
       Some (if is_field_keyword k then drain_into_fields ms from s1 else drain_into_methods ms from s1)
     }"

fun class_loop ::
  "'a rules_scheme \<Rightarrow> int \<Rightarrow> nat \<Rightarrow> nat \<Rightarrow> members \<Rightarrow> parser \<Rightarrow> (members \<times> bool \<times> parser) panics" where
  "class_loop r depth from 0 ms s = None"
| "class_loop r depth from (Suc n) ms s =
     (if check_tok (is_sym SyRbrace) s \<or> p_at_end s \<or> panic_mode s then Some (ms, False, s)
      else do {
        s1 \<leftarrow> ignore_newlines r s;
        if check_tok (is_sym SyRbrace) s1 \<or> p_at_end s1 then Some (ms, False, s1)
        else do {
          (ms1, s2) \<leftarrow> member_trivia r from ms s1;
          (ms2, s3) \<leftarrow> class_member r ms1 s2;
          s4 \<leftarrow> (if panic_mode s3 then synchronize r depth True s3 else Some s3);
          if panic_mode s3 \<and> brace_depth s4 < depth then Some (ms2, True, s4)
          else do {
            s5 \<leftarrow> ignore_newlines r s4;
            class_loop r depth from n ms2 s5
          }
        }
      })"

definition class_header ::
  "'a rules_scheme \<Rightarrow> parser \<Rightarrow> (expr option \<times> bool \<times> parser) panics" where
  "class_header r s =
     do {
       (less, s1) \<leftarrow> match_tok r (is_sym SyLess) s;
       if less
       then do {
         (e, s2) \<leftarrow> class_reference r (str ''Superclass name expected.'') s1;
         Some (Some e, False, s2)
       }
       else do {
         (greater, s2) \<leftarrow> match_tok r (is_sym SyGreater) s1;
         if greater
         then do {
           (e, s3) \<leftarrow> class_reference r (str ''Target class name expected.'') s2;
           Some (Some e, True, s3)
         }
         else Some (None, False, s2)
       }
     }"

definition class_decl :: "'a rules_scheme \<Rightarrow> parser \<Rightarrow> (decl \<times> parser) panics" where
  "class_decl r s =
     do {
       let from = tstart (p_previous s);
       (name, s1) \<leftarrow> consume_tok r is_identifier (str ''Class name expected.'') s;
       (superclass, is_extension, s2) \<leftarrow> class_header r s1;
       s3 \<leftarrow> ignore_newlines r s2;
       s4 \<leftarrow> open_body r (str ''Expected '{' after class declaration.'') s3;
       s5 \<leftarrow> ignore_newlines r s4;
       (ms, left_early, s6) \<leftarrow>
         class_loop r (brace_depth s5) from (tokens_left s5)
           \<lparr>properties = [], methods = [], last_member_was_method = None\<rparr> s5;
       if left_early
       then Some (decl_from (DClass name superclass (properties ms) (methods ms) is_extension) from s6, s6)
       else do {
         let (ms1, s7) = (if last_member_was_method ms = Some False then drain_into_fields ms from s6
                          else drain_into_methods ms from s6);
         (_, s8) \<leftarrow> consume_tok r (is_sym SyRbrace) (str ''Expected '}' after class declaration.'') s7;
         Some (decl_from (DClass name superclass (properties ms1) (methods ms1) is_extension) from s8, s8)
       }
     }"

section \<open>Catch and iter\<close>

definition catch_stmt :: "'a rules_scheme \<Rightarrow> parser \<Rightarrow> (stmt_kind \<times> parser) panics" where
  "catch_stmt r s =
     do {
       (body, s1) \<leftarrow> match_block r (str ''Expected '{' after 'catch' statement.'') s;
       (named_error, s2) \<leftarrow> match_tok r (is_kw KwAs) s1;
       if \<not> named_error then Some (SCatch body None None, s2)
       else do {
         (t, s3) \<leftarrow> consume_tok r is_identifier
           (str ''Error variable name expected after 'as'.'') s2;
         if check_tok (is_sym SyLbrace) s3
         then do {
           (b, s4) \<leftarrow> match_block r (str ''Expected '{' after error variable.'') s3;
           Some (SCatch body (Some b) (Some (compose_id t)), s4)
         }
         else Some (SCatch body None (Some (compose_id t)), s3)
       }
     }"

definition iter_initializer :: "'a rules_scheme \<Rightarrow> parser \<Rightarrow> (stmt option \<times> parser) panics" where
  "iter_initializer r s =
     do {
       (none, s1) \<leftarrow> match_tok r (is_sym SySemicolon) s;
       if none then Some (None, s1)
       else do {
         let from = here s1;
         (_, s2) \<leftarrow> match_tok r (is_kw KwVar) s1;
         (d, s3) \<leftarrow> var_decl r False s2;
         let d1 = Stmt (skind d) (span_from from s3);
         (_, s4) \<leftarrow> consume_tok r (is_sym SySemicolon) (str ''Expected ';' after iter initializer.'') s3;
         s5 \<leftarrow> ignore_newlines r s4;
         Some (Some d1, s5)
       }
     }"

definition iter_condition :: "'a rules_scheme \<Rightarrow> parser \<Rightarrow> (expr option \<times> parser) panics" where
  "iter_condition r s =
     do {
       (none, s1) \<leftarrow> match_tok r (is_sym SySemicolon) s;
       if none then Some (None, s1)
       else do {
         (e, s2) \<leftarrow> expression r s1;
         (_, s3) \<leftarrow> consume_tok r (is_sym SySemicolon) (str ''Expected ';' after iter condition.'') s2;
         s4 \<leftarrow> ignore_newlines r s3;
         Some (Some e, s4)
       }
     }"

fun iter_steps ::
  "'a rules_scheme \<Rightarrow> nat \<Rightarrow> expr list \<Rightarrow> parser \<Rightarrow> (expr list \<times> parser) panics" where
  "iter_steps r 0 steps s = None"
| "iter_steps r (Suc n) steps s =
     do {
       (e, s1) \<leftarrow> expression r s;
       s2 \<leftarrow> ignore_newlines r s1;
       (comma, s3) \<leftarrow> match_tok r (is_sym SyComma) s2;
       if comma
       then do { s4 \<leftarrow> ignore_newlines r s3; iter_steps r n (steps @ [e]) s4 }
       else Some (steps @ [e], s3)
     }"

definition iter_stmt :: "'a rules_scheme \<Rightarrow> parser \<Rightarrow> (stmt_kind \<times> parser) panics" where
  "iter_stmt r s =
     do {
       (_, s1) \<leftarrow> match_tok r (is_sym SyLparen) s;
       (initializer, s2) \<leftarrow> iter_initializer r s1;
       (condition, s3) \<leftarrow> iter_condition r s2;
       (steps, s4) \<leftarrow>
         (if \<not> (check_tok (is_sym SyLbrace) s3 \<or> check_tok (is_sym SyRparen) s3)
          then iter_steps r (tokens_left s3) [] s3 else Some ([], s3));
       (_, s5) \<leftarrow> match_tok r (is_sym SyRparen) s4;
       (body, s6) \<leftarrow> match_block r (str ''Expected '{' at the start of iter body.'') s5;
       Some (SIter initializer condition steps body, s6)
     }"

section \<open>Statements\<close>

text \<open>The value after \<open>return\<close> or \<open>raise\<close>, or the \<open>nil\<close> left out.\<close>

definition optional_value :: "'a rules_scheme \<Rightarrow> parser \<Rightarrow> (expr \<times> parser) panics" where
  "optional_value r s =
     (if \<not> p_at_end s \<and>
         \<not> check_tok (any_of [TkSym SyNewline, TkSym SySemicolon, TkSym SyRbrace]) s
      then expression r s else Some (compose_nil s, s))"

text \<open>The statement that the keyword or token just consumed begins.\<close>

definition statement_kind :: "'a rules_scheme \<Rightarrow> parser \<Rightarrow> (stmt_kind \<times> parser) panics" where
  "statement_kind r s =
     (let t = p_previous s; k = kind t
      in if k = TkKw KwAs
         then Some (SNone, report_error_at
           (0x27 # str ''as' is only a valid keyword in catch context'') t s)
         else if k = TkKw KwVar \<or> k = TkKw KwConst
         then do {
           (d, s1) \<leftarrow> var_decl r (k = TkKw KwConst) s;
           s2 \<leftarrow> end_statement r s1;
           Some (skind d, s2)
         }
         else if k = TkKw KwEcho then echo_stmt r s
         else if k = TkKw KwIf then if_stmt r s
         else if k = TkKw KwWhile then while_stmt r s
         else if k = TkKw KwDo then do_stmt r s
         else if k = TkKw KwIter then iter_stmt r s
         else if k = TkKw KwFor then for_stmt r s
         else if k = TkKw KwUsing then using_stmt r s
         else if k = TkKw KwAssert then assert_stmt r s
         else if k = TkSym SyLbrace then do { (b, s1) \<leftarrow> block r s; Some (skind b, s1) }
         else if k = TkKw KwImport then import_stmt r s
         else if k = TkKw KwCatch then catch_stmt r s
         else if k = TkKw KwDef \<and>
           (is_identifier (kind (p_current s)) \<or> is_decorator (kind (p_current s)))
         then do { (d, s1) \<leftarrow> function_decl r s; Some (SDecl d, s1) }
         else if k = TkKw KwContinue then Some (SContinue t, s)
         else if k = TkKw KwBreak then Some (SBreak t, s)
         else if k = TkKw KwReturn
         then do {
           let s1 = (if functions_count s = 0
                     then report_error_at
                       (0x27 # str ''return' is only a valid keyword in function context'') t s
                     else s);
           (v, s2) \<leftarrow> optional_value r s1;
           Some (SReturn t v, s2)
         }
         else if k = TkKw KwRaise
         then do { (v, s1) \<leftarrow> optional_value r s; Some (SRaise v, s1) }
         else do { s1 \<leftarrow> rewind s; expression_stmt r s1 })"

definition statement :: "'a rules_scheme \<Rightarrow> parser \<Rightarrow> (stmt \<times> parser) panics" where
  "statement r s =
     do {
       s1 \<leftarrow> ignore_newlines r s;
       let from = here s1;
       s2 \<leftarrow> p_advance r s1;
       (k, s3) \<leftarrow> statement_kind r s2;
       let result = stmt_from k from s3;
       s4 \<leftarrow> ignore_newlines r s3;
       Some (result, s4)
     }"

section \<open>The knot\<close>

fun expression_at :: "library \<Rightarrow> nat \<Rightarrow> parser \<Rightarrow> (expr \<times> parser) panics"
  and conditional_at :: "library \<Rightarrow> nat \<Rightarrow> parser \<Rightarrow> (expr \<times> parser) panics"
  and unary_at :: "library \<Rightarrow> nat \<Rightarrow> parser \<Rightarrow> (expr \<times> parser) panics"
  and statement_at :: "library \<Rightarrow> nat \<Rightarrow> parser \<Rightarrow> (stmt \<times> parser) panics" where
  "expression_at b 0 s = None"
| "expression_at b (Suc n) s =
     expression (library.extend b (rules.fields (expression_at b n) (expression_at b n)
       (conditional_at b n) (unary_at b n) (statement_at b n))) s"
| "conditional_at b 0 s = None"
| "conditional_at b (Suc n) s =
     conditional (library.extend b (rules.fields (expression_at b n) (expression_at b n)
       (conditional_at b n) (unary_at b n) (statement_at b n))) s"
| "unary_at b 0 s = None"
| "unary_at b (Suc n) s =
     unary (library.extend b (rules.fields (expression_at b n) (expression_at b n)
       (conditional_at b n) (unary_at b n) (statement_at b n))) s"
| "statement_at b 0 s = None"
| "statement_at b (Suc n) s =
     statement (library.extend b (rules.fields (expression_at b n) (expression_at b n)
       (conditional_at b n) (unary_at b n) (statement_at b n))) s"

definition rules_at :: "library \<Rightarrow> nat \<Rightarrow> rules" where
  "rules_at b n =
     library.extend b (rules.fields (expression_at b n) (expression_at b n)
       (conditional_at b n) (unary_at b n) (statement_at b n))"

section \<open>A whole source\<close>

text \<open>The declaration or statement that the token just consumed begins, from \<open>from\<close> on.\<close>

definition declaration_kind ::
  "'a rules_scheme \<Rightarrow> nat \<Rightarrow> parser \<Rightarrow> (decl_kind \<times> parser) panics" where
  "declaration_kind r from s =
     (let k = kind (p_previous s)
      in if k = TkKw KwDef \<and> (is_identifier (kind (p_current s)) \<or> is_decorator (kind (p_current s)))
         then do { (d, s1) \<leftarrow> function_decl r s; Some (dkind d, s1) }
         else if k = TkKw KwClass
         then do { (d, s1) \<leftarrow> class_decl r s; Some (dkind d, s1) }
         else if k = TkSym SyLbrace
         then (if \<not> check_tok (is_sym SyNewline) s \<and> block_count s = 0
               then do {
                 (d, s1) \<leftarrow> p_dict r s;
                 (e, s2) \<leftarrow> do_call r (expr_from d from s1) s1;
                 Some (DStmt (stmt_from (SExpression e) from s2), s2)
               }
               else do { (b, s1) \<leftarrow> block r s; Some (DStmt b, s1) })
         else do { s1 \<leftarrow> rewind s; (st, s2) \<leftarrow> statement r s1; Some (DStmt st, s2) })"

definition p_declaration :: "'a rules_scheme \<Rightarrow> parser \<Rightarrow> (decl \<times> parser) panics" where
  "p_declaration r s =
     do {
       s1 \<leftarrow> ignore_newlines r s;
       let from = here s1;
       s2 \<leftarrow> p_advance r s1;
       (dk, s3) \<leftarrow> declaration_kind r from s2;
       let result = decl_from dk from s3;
       s4 \<leftarrow> ignore_newlines r s3;
       Some (result, s4)
     }"

fun parse_loop ::
  "'a rules_scheme \<Rightarrow> nat \<Rightarrow> decl list \<Rightarrow> parser \<Rightarrow> (decl list \<times> parser) panics" where
  "parse_loop r 0 result s = None"
| "parse_loop r (Suc n) result s =
     (if p_at_end s then Some (result, s)
      else if errors s \<noteq> [] \<and> check_tok (is_sym SyRbrace) s
      then do {
        s1 \<leftarrow> p_advance r s;
        s2 \<leftarrow> ignore_newlines r s1;
        parse_loop r n result s2
      }
      else do {
        (d, s1) \<leftarrow> p_declaration r s;
        s2 \<leftarrow> (if panic_mode s1 then synchronize r (brace_depth s) False s1 else Some s1);
        let (result1, s3) = drain_trivia_into_decls (result @ [d]) 0 s2;
        parse_loop r n result1 s3
      })"

definition parse_recovering ::
  "library \<Rightarrow> parser \<Rightarrow> ((decl list \<times> parser_error list) \<times> parser) panics" where
  "parse_recovering b s =
     do {
       let r = rules_at b (tokens_left s + 1);
       s1 \<leftarrow> ignore_newlines r s;
       let (result, s2) = drain_trivia_into_decls [] 0 s1;
       (result1, s3) \<leftarrow> parse_loop r (tokens_left s2) result s2;
       Some ((result1, errors s3), s3)
     }"

definition parse ::
  "library \<Rightarrow> parser \<Rightarrow> ((parser_error list + decl list) \<times> parser) panics" where
  "parse b s =
     do {
       ((ds, es), s1) \<leftarrow> parse_recovering b s;
       Some (if es = [] then Inr ds else Inl es, s1)
     }"

definition parse_source :: "library \<Rightarrow> ustring \<Rightarrow> (parser_error list + decl list) panics" where
  "parse_source b src = map_option fst (parse b (parser_new (lexer_new src)))"

end
