(* ===== verification/Lower.thy ===== *)
theory Lower
  imports Ast
begin

text \<open>
  The rewriting of \<open>src/compiler/lower.rs\<close>: the loops and shorthands the parser keeps as
  written become \<open>while\<close> loops, assignments and chains of \<open>+\<close>. The one panic of the module,
  an interpolated string with no segment, is \<open>None\<close>. The recursion of the code on a target,
  an iterable or a segment is done by the caller here, so that it is structural.
\<close>

section \<open>Made up nodes\<close>

definition named :: "token \<Rightarrow> ustring \<Rightarrow> token" where
  "named t name = copy_to t (TkIdentifier name)"

definition at_expr :: "span \<Rightarrow> expr_kind \<Rightarrow> expr" where
  "at_expr s k = Expr k s"

definition at_stmt :: "span \<Rightarrow> stmt_kind \<Rightarrow> stmt" where
  "at_stmt s k = Stmt k s"

definition at_id :: "span \<Rightarrow> token \<Rightarrow> expr" where
  "at_id s t = at_expr s (EIdentifier t)"

definition at_var :: "span \<Rightarrow> token \<Rightarrow> expr \<Rightarrow> stmt" where
  "at_var s name value = at_stmt s (SVar name value None False)"

definition at_assign :: "span \<Rightarrow> token \<Rightarrow> expr_kind \<Rightarrow> stmt" where
  "at_assign s target value =
     at_stmt s (SExpression (at_expr s (EAssign (at_id s target) (at_expr s value))))"

definition text_of :: "(f64 \<Rightarrow> ustring) \<Rightarrow> token \<Rightarrow> ustring" where
  "text_of show_f64 t =
     (case kind t of
        TkLiteral s \<Rightarrow> s
      | TkInterpolation s \<Rightarrow> s
      | _ \<Rightarrow> token_to_string show_f64 t)"

section \<open>Expressions\<close>

text \<open>
  \<open>target = target op operand\<close>, from the target already lowered: a property lowers to the
  property of its lowered receiver (\<open>lower_get\<close>), which is what the code builds. The
  flag says whether the target was written as a property.
\<close>

definition is_get :: "expr \<Rightarrow> bool" where
  "is_get e = (case ekind e of EGet _ _ \<Rightarrow> True | _ \<Rightarrow> False)"

definition assign_with :: "span \<Rightarrow> bool \<Rightarrow> expr \<Rightarrow> token_kind \<Rightarrow> expr \<Rightarrow> nat \<Rightarrow> expr" where
  "assign_with s property target op operand ln =
     (let updated = Expr (EBinary target op operand ln) s
      in case (property, ekind target) of
           (True, EGet object name) \<Rightarrow> Expr (ESet object name updated) s
         | _ \<Rightarrow> Expr (EAssign target updated) s)"

text \<open>One round of the loop of \<open>interpolation\<close>, on the chain so far and the last line seen.\<close>

fun interpolation_step ::
  "(f64 \<Rightarrow> ustring) \<Rightarrow> span \<Rightarrow> expr option \<times> nat \<Rightarrow> segment \<Rightarrow> expr option \<times> nat" where
  "interpolation_step show_f64 s (chain, ln) segment =
     (let (part, ln') =
        (case segment of
           Text t \<Rightarrow> (Expr (ELiteral (text_of show_f64 t)) (span_of t), as_u32 (line t))
         | Value v \<Rightarrow> (v, ln))
      in (Some (case chain of
                  None \<Rightarrow> part
                | Some c \<Rightarrow> Expr (EBinary c (TkSym SyPlus) part ln') s), ln'))"

definition interpolation :: "(f64 \<Rightarrow> ustring) \<Rightarrow> span \<Rightarrow> segment list \<Rightarrow> expr panics" where
  "interpolation show_f64 s segments =
     expect (fst (foldl (interpolation_step show_f64 s) (None, 0) segments))"

section \<open>Loops\<close>

definition counted_range_loop ::
  "span \<Rightarrow> token \<Rightarrow> expr \<Rightarrow> expr \<Rightarrow> nat \<Rightarrow> stmt \<Rightarrow> stmt" where
  "counted_range_loop s var lower upper ln body =
     (let lower_name = named var (str ''$lower'');
          upper_name = named var (str ''$upper'');
          count_name = named var (str ''$count'');
          step_name = named var (str ''$step'');
          n_name = named var (str ''$n'');
          lower_decl = at_var s lower_name lower;
          upper_decl = at_var s upper_name upper;
          ascending = ELogical (at_id s upper_name) (TkSym SyGreaterEq) (at_id s lower_name) ln;
          rising = EBinary (at_id s upper_name) (TkSym SyMinus) (at_id s lower_name) ln;
          falling = EBinary (at_id s lower_name) (TkSym SyMinus) (at_id s upper_name) ln;
          count_value = ECondition (at_expr s ascending) (at_expr s rising) (at_expr s falling);
          count_decl = at_var s count_name (at_expr s count_value);
          step_value = ECondition (at_expr s ascending) (at_expr s (EInteger 1))
            (at_expr s (EInteger (- 1)));
          step_decl = at_var s step_name (at_expr s step_value);
          n_decl = at_var s n_name (at_expr s (EInteger 0));
          var_decl = at_var s var (at_id s lower_name);
          var_advance = at_assign s var (EBinary (at_id s var) (TkSym SyPlus) (at_id s step_name) ln);
          n_advance = at_assign s n_name
            (EBinary (at_id s n_name) (TkSym SyPlus) (at_expr s (EInteger 1)) ln);
          loop_body = at_stmt s (SBlock [body, at_stmt s SFixContinue, var_advance, n_advance]);
          condition = ELogical (at_id s n_name) (TkSym SyLess) (at_id s count_name) ln;
          looped = at_stmt s (SWhile (at_expr s condition) loop_body)
      in at_stmt s (SBlock [lower_decl, upper_decl, count_decl, step_decl, n_decl, var_decl, looped]))"

text \<open>The loop over the iteration methods of an iterable, which \<open>for_loop\<close> builds in general.\<close>

definition method_loop :: "span \<Rightarrow> token option \<Rightarrow> token \<Rightarrow> expr \<Rightarrow> stmt \<Rightarrow> stmt" where
  "method_loop s key value iterable body =
     (let first = (case key of Some k \<Rightarrow> k | None \<Rightarrow> value);
          key_track = (case key of Some k \<Rightarrow> k | None \<Rightarrow> named value (str ''$key''));
          key_decl = at_var s key_track (at_expr s ENil);
          value_decl = at_var s value (at_expr s ENil);
          iter_name = named first (str ''$iter'');
          iter_decl = at_var s iter_name iterable;
          key_getter = EGet (at_id s iter_name) (named key_track (str ''@key''));
          next_key = ECall (at_expr s key_getter) [at_id s key_track]
            (as_u32 (line key_track));
          advance = at_assign s key_track next_key;
          exhausted = ELogical (at_id s key_track) (TkSym SyEqualEq) (at_expr s ENil)
            (as_u32 (line key_track));
          stop = at_stmt s (SIf (at_expr s exhausted) (at_stmt s (SBreak key_track)) None);
          value_getter = EGet (at_id s iter_name) (named value (str ''@value''));
          next_value = ECall (at_expr s value_getter) [at_id s key_track]
            (as_u32 (line value));
          fetch = at_assign s value next_value;
          loop_body = at_stmt s (SBlock [advance, stop, fetch, body]);
          looped = at_stmt s (SWhile (at_expr s (EBool True)) loop_body)
      in at_stmt s (SBlock [iter_decl, key_decl, value_decl, looped]))"

definition for_loop :: "span \<Rightarrow> token option \<Rightarrow> token \<Rightarrow> expr \<Rightarrow> stmt \<Rightarrow> stmt" where
  "for_loop s key value iterable body =
     (case (key, ekind iterable) of
        (None, ERange lower upper ln) \<Rightarrow> counted_range_loop s value lower upper ln body
      | _ \<Rightarrow> method_loop s key value iterable body)"

definition iter_loop :: "span \<Rightarrow> stmt option \<Rightarrow> expr option \<Rightarrow> expr list \<Rightarrow> stmt \<Rightarrow> stmt" where
  "iter_loop s initializer condition steps body =
     (let loop_body = [body, at_stmt s SFixContinue] @
            map (\<lambda>step. Stmt (SExpression step) (espan step)) steps;
          condition = (case condition of Some c \<Rightarrow> c | None \<Rightarrow> at_expr s (EBool True));
          looped = at_stmt s (SWhile condition (at_stmt s (SBlock loop_body)))
      in at_stmt s (SBlock ((case initializer of Some i \<Rightarrow> [i] | None \<Rightarrow> []) @ [looped])))"

definition update_operator :: "token_kind \<Rightarrow> token_kind" where
  "update_operator op = (if op = TkSym SyIncrement then TkSym SyPlus else TkSym SyMinus)"

section \<open>The tree\<close>

primrec
      lower_expr :: "(f64 \<Rightarrow> ustring) \<Rightarrow> expr \<Rightarrow> expr panics"
  and lower_ekind :: "(f64 \<Rightarrow> ustring) \<Rightarrow> expr_kind \<Rightarrow> span \<Rightarrow> expr panics"
  and lower_segment :: "(f64 \<Rightarrow> ustring) \<Rightarrow> segment \<Rightarrow> segment panics"
  and lower_arm :: "(f64 \<Rightarrow> ustring) \<Rightarrow> when_arm \<Rightarrow> when_arm panics"
  and lower_stmt :: "(f64 \<Rightarrow> ustring) \<Rightarrow> stmt \<Rightarrow> stmt panics"
  and lower_skind :: "(f64 \<Rightarrow> ustring) \<Rightarrow> stmt_kind \<Rightarrow> span \<Rightarrow> stmt panics"
  and lower_decl :: "(f64 \<Rightarrow> ustring) \<Rightarrow> decl \<Rightarrow> decl panics"
  and lower_dkind :: "(f64 \<Rightarrow> ustring) \<Rightarrow> decl_kind \<Rightarrow> decl_kind panics" where
  "lower_expr sf (Expr k s) = lower_ekind sf k s"

| "lower_ekind sf (ECompoundAssign target op value ln) s =
     do {
       v \<leftarrow> lower_expr sf value;
       t \<leftarrow> lower_expr sf target;
       Some (assign_with s (is_get target) t (get_assignment_alt op) v ln)
     }"
| "lower_ekind sf (EUpdate target op ln) s =
     do {
       t \<leftarrow> lower_expr sf target;
       Some (assign_with s (is_get target) t (update_operator op) (Expr (EInteger 1) s) ln)
     }"
| "lower_ekind sf (EInterpolation segments) s =
     do {
       segs \<leftarrow> all_some (map (lower_segment sf) segments);
       interpolation sf s segs
     }"
| "lower_ekind sf (EShorthand name) s = Some (Expr (EIdentifier name) s)"
| "lower_ekind sf (EUnary op operand ln) s =
     do { a \<leftarrow> lower_expr sf operand; Some (Expr (EUnary op a ln) s) }"
| "lower_ekind sf (EBinary left op right ln) s =
     do { a \<leftarrow> lower_expr sf left; b \<leftarrow> lower_expr sf right; Some (Expr (EBinary a op b ln) s) }"
| "lower_ekind sf (ELogical left op right ln) s =
     do { a \<leftarrow> lower_expr sf left; b \<leftarrow> lower_expr sf right; Some (Expr (ELogical a op b ln) s) }"
| "lower_ekind sf (ECircuit left op right) s =
     do { a \<leftarrow> lower_expr sf left; b \<leftarrow> lower_expr sf right; Some (Expr (ECircuit a op b) s) }"
| "lower_ekind sf (EGrouping inner) s =
     do { a \<leftarrow> lower_expr sf inner; Some (Expr (EGrouping a) s) }"
| "lower_ekind sf (ERange lower upper ln) s =
     do { a \<leftarrow> lower_expr sf lower; b \<leftarrow> lower_expr sf upper; Some (Expr (ERange a b ln) s) }"
| "lower_ekind sf (ECondition condition truth falsy) s =
     do {
       a \<leftarrow> lower_expr sf condition;
       b \<leftarrow> lower_expr sf truth;
       c \<leftarrow> lower_expr sf falsy;
       Some (Expr (ECondition a b c) s)
     }"
| "lower_ekind sf (ECall callee args ln) s =
     do {
       a \<leftarrow> lower_expr sf callee;
       b \<leftarrow> all_some (map (lower_expr sf) args);
       Some (Expr (ECall a b ln) s)
     }"
| "lower_ekind sf (EGet object name) s =
     do { a \<leftarrow> lower_expr sf object; Some (Expr (EGet a name) s) }"
| "lower_ekind sf (ESet object name value) s =
     do { a \<leftarrow> lower_expr sf object; b \<leftarrow> lower_expr sf value; Some (Expr (ESet a name b) s) }"
| "lower_ekind sf (EIndex object ix ln) s =
     do { a \<leftarrow> lower_expr sf object; b \<leftarrow> lower_expr sf ix; Some (Expr (EIndex a b ln) s) }"
| "lower_ekind sf (ESlice object lower upper ln) s =
     do {
       a \<leftarrow> lower_expr sf object;
       b \<leftarrow> lower_expr sf lower;
       c \<leftarrow> lower_expr sf upper;
       Some (Expr (ESlice a b c ln) s)
     }"
| "lower_ekind sf (EList items) s =
     do { xs \<leftarrow> all_some (map (lower_expr sf) items); Some (Expr (EList xs) s) }"
| "lower_ekind sf (EDict keys values) s =
     do {
       xs \<leftarrow> all_some (map (lower_expr sf) keys);
       ys \<leftarrow> all_some (map (lower_expr sf) values);
       Some (Expr (EDict xs ys) s)
     }"
| "lower_ekind sf (EAssign target value) s =
     do { a \<leftarrow> lower_expr sf target; b \<leftarrow> lower_expr sf value; Some (Expr (EAssign a b) s) }"
| "lower_ekind sf (EAnonymous f) s = do { d \<leftarrow> lower_decl sf f; Some (Expr (EAnonymous d) s) }"
| "lower_ekind sf (EArgument name type_hint) s =
     do { a \<leftarrow> lower_expr sf type_hint; Some (Expr (EArgument name a) s) }"
| "lower_ekind sf ENil s = Some (Expr ENil s)"
| "lower_ekind sf (EBool b) s = Some (Expr (EBool b) s)"
| "lower_ekind sf (EInteger n) s = Some (Expr (EInteger n) s)"
| "lower_ekind sf (EFloat x) s = Some (Expr (EFloat x) s)"
| "lower_ekind sf (EBigNumber n) s = Some (Expr (EBigNumber n) s)"
| "lower_ekind sf (ELiteral t) s = Some (Expr (ELiteral t) s)"
| "lower_ekind sf (EIdentifier t) s = Some (Expr (EIdentifier t) s)"
| "lower_ekind sf (EParent t) s = Some (Expr (EParent t) s)"
| "lower_ekind sf (ESelf t) s = Some (Expr (ESelf t) s)"
| "lower_ekind sf (ETypeHint ts nullable) s = Some (Expr (ETypeHint ts nullable) s)"

| "lower_segment sf (Text t) = Some (Text t)"
| "lower_segment sf (Value v) = do { e \<leftarrow> lower_expr sf v; Some (Value e) }"

| "lower_arm sf (WhenArm ls b s) =
     do {
       ls' \<leftarrow> all_some (map (lower_expr sf) ls);
       b' \<leftarrow> lower_stmt sf b;
       Some (WhenArm ls' b' s)
     }"

| "lower_stmt sf (Stmt k s) = lower_skind sf k s"

| "lower_skind sf (SFor key value iterable body) s =
     do {
       i \<leftarrow> lower_expr sf iterable;
       b \<leftarrow> lower_stmt sf body;
       Some (for_loop s key value i b)
     }"
| "lower_skind sf (SIter initializer condition steps body) s =
     do {
       i \<leftarrow> opt_some (map_option (lower_stmt sf) initializer);
       c \<leftarrow> opt_some (map_option (lower_expr sf) condition);
       xs \<leftarrow> all_some (map (lower_expr sf) steps);
       b \<leftarrow> lower_stmt sf body;
       Some (iter_loop s i c xs b)
     }"
| "lower_skind sf (SDoWhile body condition) s =
     do {
       b \<leftarrow> lower_stmt sf body;
       c \<leftarrow> lower_expr sf condition;
       Some (Stmt (SBlock [b, Stmt (SWhile c b) s]) s)
     }"
| "lower_skind sf (SEcho e) s = do { a \<leftarrow> lower_expr sf e; Some (Stmt (SEcho a) s) }"
| "lower_skind sf (SExpression e) s = do { a \<leftarrow> lower_expr sf e; Some (Stmt (SExpression a) s) }"
| "lower_skind sf (SIf condition then_branch else_branch) s =
     do {
       c \<leftarrow> lower_expr sf condition;
       t \<leftarrow> lower_stmt sf then_branch;
       e \<leftarrow> opt_some (map_option (lower_stmt sf) else_branch);
       Some (Stmt (SIf c t e) s)
     }"
| "lower_skind sf (SWhile condition body) s =
     do { c \<leftarrow> lower_expr sf condition; b \<leftarrow> lower_stmt sf body; Some (Stmt (SWhile c b) s) }"
| "lower_skind sf (SRaise e) s = do { a \<leftarrow> lower_expr sf e; Some (Stmt (SRaise a) s) }"
| "lower_skind sf (SReturn keyword e) s =
     do { a \<leftarrow> lower_expr sf e; Some (Stmt (SReturn keyword a) s) }"
| "lower_skind sf (SAssert condition message) s =
     do {
       c \<leftarrow> lower_expr sf condition;
       m \<leftarrow> opt_some (map_option (lower_expr sf) message);
       Some (Stmt (SAssert c m) s)
     }"
| "lower_skind sf (SUsing subject arms dflt) s =
     do {
       a \<leftarrow> lower_expr sf subject;
       as \<leftarrow> all_some (map (lower_arm sf) arms);
       d \<leftarrow> opt_some (map_option (lower_stmt sf) dflt);
       Some (Stmt (SUsing a as d) s)
     }"
| "lower_skind sf (SImport path path_tokens name elements imports_all exported) s =
     do {
       n \<leftarrow> lower_expr sf name;
       es \<leftarrow> all_some (map (lower_expr sf) elements);
       Some (Stmt (SImport path path_tokens n es imports_all exported) s)
     }"
| "lower_skind sf (SCatch body handler error_var) s =
     do {
       b \<leftarrow> lower_stmt sf body;
       h \<leftarrow> opt_some (map_option (lower_stmt sf) handler);
       v \<leftarrow> opt_some (map_option (lower_expr sf) error_var);
       Some (Stmt (SCatch b h v) s)
     }"
| "lower_skind sf (SBlock stmts) s =
     do { xs \<leftarrow> all_some (map (lower_stmt sf) stmts); Some (Stmt (SBlock xs) s) }"
| "lower_skind sf (SDecl d) s = do { d' \<leftarrow> lower_decl sf d; Some (Stmt (SDecl d') s) }"
| "lower_skind sf (SVar name value type_hint is_constant) s =
     do {
       v \<leftarrow> lower_expr sf value;
       h \<leftarrow> opt_some (map_option (lower_expr sf) type_hint);
       Some (Stmt (SVar name v h is_constant) s)
     }"
| "lower_skind sf (SVarList stmts) s =
     do { xs \<leftarrow> all_some (map (lower_stmt sf) stmts); Some (Stmt (SVarList xs) s) }"
| "lower_skind sf SNone s = Some (Stmt SNone s)"
| "lower_skind sf SFixContinue s = Some (Stmt SFixContinue s)"
| "lower_skind sf (SContinue keyword) s = Some (Stmt (SContinue keyword) s)"
| "lower_skind sf (SBreak keyword) s = Some (Stmt (SBreak keyword) s)"
| "lower_skind sf (STrivia t) s = Some (Stmt (STrivia t) s)"

| "lower_decl sf (Decl k s) = do { k' \<leftarrow> lower_dkind sf k; Some (Decl k' s) }"

| "lower_dkind sf (DStmt s) = do { s' \<leftarrow> lower_stmt sf s; Some (DStmt s') }"
| "lower_dkind sf (DFunction name params body is_variadic) =
     do {
       ps \<leftarrow> all_some (map (lower_expr sf) params);
       b \<leftarrow> lower_stmt sf body;
       Some (DFunction name ps b is_variadic)
     }"
| "lower_dkind sf (DMethod name params body is_variadic is_static) =
     do {
       ps \<leftarrow> all_some (map (lower_expr sf) params);
       b \<leftarrow> lower_stmt sf body;
       Some (DMethod name ps b is_variadic is_static)
     }"
| "lower_dkind sf (DProperty name value type_hint is_static is_constant) =
     do {
       v \<leftarrow> lower_expr sf value;
       h \<leftarrow> lower_expr sf type_hint;
       Some (DProperty name v h is_static is_constant)
     }"
| "lower_dkind sf (DClass name superclass props methods is_extension) =
     do {
       c \<leftarrow> opt_some (map_option (lower_expr sf) superclass);
       ps \<leftarrow> all_some (map (lower_decl sf) props);
       ms \<leftarrow> all_some (map (lower_decl sf) methods);
       Some (DClass name c ps ms is_extension)
     }"
| "lower_dkind sf (DTrivia t) = Some (DTrivia t)"

definition lower_program :: "(f64 \<Rightarrow> ustring) \<Rightarrow> decl list \<Rightarrow> decl list panics" where
  "lower_program sf decls = all_some (map (lower_decl sf) decls)"

end
