(* ===== verification/Lower_Facts.thy ===== *)
theory Lower_Facts
  imports Lower
begin

text \<open>
  What the rewriting promises: its output has none of the constructs it removes, it changes
  nothing where there is none, it only panics on an empty interpolation, it keeps spans, and
  the names it makes up cannot be written in a program.
\<close>

section \<open>Properties of every node\<close>

datatype node = NExpr expr_kind | NText token | NStmt stmt_kind | NDecl decl_kind

definition all_true :: "bool list \<Rightarrow> bool" where
  "all_true bs = list_all id bs"

definition opt_true :: "bool option \<Rightarrow> bool" where
  "opt_true b = (case b of None \<Rightarrow> True | Some c \<Rightarrow> c)"

lemma all_true_simps [simp]: "all_true []" "all_true (b # bs) \<longleftrightarrow> b \<and> all_true bs"
  by (simp_all add: all_true_def)

lemma opt_true_simps [simp]: "opt_true None" "opt_true (Some b) = b"
  by (simp_all add: opt_true_def)

lemma all_true_map [simp]: "all_true (map f xs) \<longleftrightarrow> list_all f xs"
  by (simp add: all_true_def list.pred_map)

lemma opt_true_map [simp]:
  "opt_true (map_option f x) \<longleftrightarrow> (case x of None \<Rightarrow> True | Some y \<Rightarrow> f y)"
  by (simp add: opt_true_def split: option.split)

text \<open>\<open>nodes_decl P d\<close>: every expression, text, statement and declaration in \<open>d\<close> satisfies \<open>P\<close>.\<close>

primrec
      nodes_expr :: "(node \<Rightarrow> bool) \<Rightarrow> expr \<Rightarrow> bool"
  and nodes_ekind :: "(node \<Rightarrow> bool) \<Rightarrow> expr_kind \<Rightarrow> bool"
  and nodes_segment :: "(node \<Rightarrow> bool) \<Rightarrow> segment \<Rightarrow> bool"
  and nodes_arm :: "(node \<Rightarrow> bool) \<Rightarrow> when_arm \<Rightarrow> bool"
  and nodes_stmt :: "(node \<Rightarrow> bool) \<Rightarrow> stmt \<Rightarrow> bool"
  and nodes_skind :: "(node \<Rightarrow> bool) \<Rightarrow> stmt_kind \<Rightarrow> bool"
  and nodes_decl :: "(node \<Rightarrow> bool) \<Rightarrow> decl \<Rightarrow> bool"
  and nodes_dkind :: "(node \<Rightarrow> bool) \<Rightarrow> decl_kind \<Rightarrow> bool" where
  "nodes_expr P (Expr k s) \<longleftrightarrow> nodes_ekind P k"
| "nodes_ekind P ENil \<longleftrightarrow> P (NExpr ENil)"
| "nodes_ekind P (EBool b) \<longleftrightarrow> P (NExpr (EBool b))"
| "nodes_ekind P (EInteger n) \<longleftrightarrow> P (NExpr (EInteger n))"
| "nodes_ekind P (EFloat x) \<longleftrightarrow> P (NExpr (EFloat x))"
| "nodes_ekind P (EBigNumber n) \<longleftrightarrow> P (NExpr (EBigNumber n))"
| "nodes_ekind P (ELiteral t) \<longleftrightarrow> P (NExpr (ELiteral t))"
| "nodes_ekind P (EUnary op a ln) \<longleftrightarrow>
     P (NExpr (EUnary op a ln)) \<and> nodes_expr P a"
| "nodes_ekind P (EBinary a op b ln) \<longleftrightarrow>
     P (NExpr (EBinary a op b ln)) \<and> nodes_expr P a \<and> nodes_expr P b"
| "nodes_ekind P (ELogical a op b ln) \<longleftrightarrow>
     P (NExpr (ELogical a op b ln)) \<and> nodes_expr P a \<and> nodes_expr P b"
| "nodes_ekind P (ECircuit a op b) \<longleftrightarrow>
     P (NExpr (ECircuit a op b)) \<and> nodes_expr P a \<and> nodes_expr P b"
| "nodes_ekind P (EGrouping a) \<longleftrightarrow>
     P (NExpr (EGrouping a)) \<and> nodes_expr P a"
| "nodes_ekind P (ERange a b ln) \<longleftrightarrow>
     P (NExpr (ERange a b ln)) \<and> nodes_expr P a \<and> nodes_expr P b"
| "nodes_ekind P (EIdentifier t) \<longleftrightarrow> P (NExpr (EIdentifier t))"
| "nodes_ekind P (ECondition a b c) \<longleftrightarrow>
     P (NExpr (ECondition a b c)) \<and> nodes_expr P a \<and> nodes_expr P b \<and> nodes_expr P c"
| "nodes_ekind P (ECall a xs ln) \<longleftrightarrow>
     P (NExpr (ECall a xs ln)) \<and> nodes_expr P a \<and> all_true (map (nodes_expr P) xs)"
| "nodes_ekind P (EGet a t) \<longleftrightarrow> P (NExpr (EGet a t)) \<and> nodes_expr P a"
| "nodes_ekind P (ESet a t b) \<longleftrightarrow>
     P (NExpr (ESet a t b)) \<and> nodes_expr P a \<and> nodes_expr P b"
| "nodes_ekind P (EIndex a b ln) \<longleftrightarrow>
     P (NExpr (EIndex a b ln)) \<and> nodes_expr P a \<and> nodes_expr P b"
| "nodes_ekind P (ESlice a b c ln) \<longleftrightarrow>
     P (NExpr (ESlice a b c ln)) \<and> nodes_expr P a \<and> nodes_expr P b \<and> nodes_expr P c"
| "nodes_ekind P (EList xs) \<longleftrightarrow>
     P (NExpr (EList xs)) \<and> all_true (map (nodes_expr P) xs)"
| "nodes_ekind P (EDict xs ys) \<longleftrightarrow>
     P (NExpr (EDict xs ys)) \<and> all_true (map (nodes_expr P) xs) \<and> all_true (map (nodes_expr P) ys)"
| "nodes_ekind P (EParent t) \<longleftrightarrow> P (NExpr (EParent t))"
| "nodes_ekind P (ESelf t) \<longleftrightarrow> P (NExpr (ESelf t))"
| "nodes_ekind P (EAssign a b) \<longleftrightarrow>
     P (NExpr (EAssign a b)) \<and> nodes_expr P a \<and> nodes_expr P b"
| "nodes_ekind P (EAnonymous d) \<longleftrightarrow>
     P (NExpr (EAnonymous d)) \<and> nodes_decl P d"
| "nodes_ekind P (ETypeHint ts n) \<longleftrightarrow> P (NExpr (ETypeHint ts n))"
| "nodes_ekind P (EArgument t a) \<longleftrightarrow>
     P (NExpr (EArgument t a)) \<and> nodes_expr P a"
| "nodes_ekind P (ECompoundAssign a op b ln) \<longleftrightarrow>
     P (NExpr (ECompoundAssign a op b ln)) \<and> nodes_expr P a \<and> nodes_expr P b"
| "nodes_ekind P (EUpdate a op ln) \<longleftrightarrow>
     P (NExpr (EUpdate a op ln)) \<and> nodes_expr P a"
| "nodes_ekind P (EInterpolation xs) \<longleftrightarrow>
     P (NExpr (EInterpolation xs)) \<and> all_true (map (nodes_segment P) xs)"
| "nodes_ekind P (EShorthand t) \<longleftrightarrow> P (NExpr (EShorthand t))"
| "nodes_segment P (Text t) \<longleftrightarrow> P (NText t)"
| "nodes_segment P (Value e) \<longleftrightarrow> nodes_expr P e"
| "nodes_arm P (WhenArm ls b s) \<longleftrightarrow> all_true (map (nodes_expr P) ls) \<and> nodes_stmt P b"
| "nodes_stmt P (Stmt k s) \<longleftrightarrow> nodes_skind P k"
| "nodes_skind P SNone \<longleftrightarrow> P (NStmt SNone)"
| "nodes_skind P SFixContinue \<longleftrightarrow> P (NStmt SFixContinue)"
| "nodes_skind P (SEcho a) \<longleftrightarrow> P (NStmt (SEcho a)) \<and> nodes_expr P a"
| "nodes_skind P (SExpression a) \<longleftrightarrow>
     P (NStmt (SExpression a)) \<and> nodes_expr P a"
| "nodes_skind P (SIf a s q) \<longleftrightarrow>
     P (NStmt (SIf a s q)) \<and> nodes_expr P a \<and> nodes_stmt P s \<and> opt_true (map_option (nodes_stmt P) q)"
| "nodes_skind P (SWhile a s) \<longleftrightarrow>
     P (NStmt (SWhile a s)) \<and> nodes_expr P a \<and> nodes_stmt P s"
| "nodes_skind P (SFor k t a s) \<longleftrightarrow>
     P (NStmt (SFor k t a s)) \<and> nodes_expr P a \<and> nodes_stmt P s"
| "nodes_skind P (SIter i c xs s) \<longleftrightarrow>
     P (NStmt (SIter i c xs s)) \<and> opt_true (map_option (nodes_stmt P) i) \<and> opt_true (map_option (nodes_expr P) c) \<and> all_true (map (nodes_expr P) xs) \<and> nodes_stmt P s"
| "nodes_skind P (SDoWhile s a) \<longleftrightarrow>
     P (NStmt (SDoWhile s a)) \<and> nodes_stmt P s \<and> nodes_expr P a"
| "nodes_skind P (SContinue t) \<longleftrightarrow> P (NStmt (SContinue t))"
| "nodes_skind P (SBreak t) \<longleftrightarrow> P (NStmt (SBreak t))"
| "nodes_skind P (SRaise a) \<longleftrightarrow> P (NStmt (SRaise a)) \<and> nodes_expr P a"
| "nodes_skind P (SReturn t a) \<longleftrightarrow>
     P (NStmt (SReturn t a)) \<and> nodes_expr P a"
| "nodes_skind P (SAssert a q) \<longleftrightarrow>
     P (NStmt (SAssert a q)) \<and> nodes_expr P a \<and> opt_true (map_option (nodes_expr P) q)"
| "nodes_skind P (SUsing a xs q) \<longleftrightarrow>
     P (NStmt (SUsing a xs q)) \<and> nodes_expr P a \<and> all_true (map (nodes_arm P) xs) \<and> opt_true (map_option (nodes_stmt P) q)"
| "nodes_skind P (SImport p ts a xs i x) \<longleftrightarrow>
     P (NStmt (SImport p ts a xs i x)) \<and> nodes_expr P a \<and> all_true (map (nodes_expr P) xs)"
| "nodes_skind P (SCatch s q e) \<longleftrightarrow>
     P (NStmt (SCatch s q e)) \<and> nodes_stmt P s \<and> opt_true (map_option (nodes_stmt P) q) \<and> opt_true (map_option (nodes_expr P) e)"
| "nodes_skind P (SBlock xs) \<longleftrightarrow>
     P (NStmt (SBlock xs)) \<and> all_true (map (nodes_stmt P) xs)"
| "nodes_skind P (SDecl d) \<longleftrightarrow> P (NStmt (SDecl d)) \<and> nodes_decl P d"
| "nodes_skind P (SVar t a q i) \<longleftrightarrow>
     P (NStmt (SVar t a q i)) \<and> nodes_expr P a \<and> opt_true (map_option (nodes_expr P) q)"
| "nodes_skind P (SVarList xs) \<longleftrightarrow>
     P (NStmt (SVarList xs)) \<and> all_true (map (nodes_stmt P) xs)"
| "nodes_skind P (STrivia t) \<longleftrightarrow> P (NStmt (STrivia t))"
| "nodes_decl P (Decl k s) \<longleftrightarrow> nodes_dkind P k"
| "nodes_dkind P (DStmt s) \<longleftrightarrow> P (NDecl (DStmt s)) \<and> nodes_stmt P s"
| "nodes_dkind P (DFunction t xs s v) \<longleftrightarrow>
     P (NDecl (DFunction t xs s v)) \<and> all_true (map (nodes_expr P) xs) \<and> nodes_stmt P s"
| "nodes_dkind P (DMethod t xs s v i) \<longleftrightarrow>
     P (NDecl (DMethod t xs s v i)) \<and> all_true (map (nodes_expr P) xs) \<and> nodes_stmt P s"
| "nodes_dkind P (DProperty t a b i c) \<longleftrightarrow>
     P (NDecl (DProperty t a b i c)) \<and> nodes_expr P a \<and> nodes_expr P b"
| "nodes_dkind P (DClass t q xs ys x) \<longleftrightarrow>
     P (NDecl (DClass t q xs ys x)) \<and> opt_true (map_option (nodes_expr P) q) \<and> all_true (map (nodes_decl P) xs) \<and> all_true (map (nodes_decl P) ys)"
| "nodes_dkind P (DTrivia t) \<longleftrightarrow> P (NDecl (DTrivia t))"

text \<open>The constructs that lowering removes.\<close>

primrec core_node :: "node \<Rightarrow> bool" where
  "core_node (NExpr k) =
     (case k of
        ECompoundAssign _ _ _ _ \<Rightarrow> False
      | EUpdate _ _ _ \<Rightarrow> False
      | EInterpolation _ \<Rightarrow> False
      | EShorthand _ \<Rightarrow> False
      | _ \<Rightarrow> True)"
| "core_node (NText t) = True"
| "core_node (NStmt k) =
     (case k of
        SFor _ _ _ _ \<Rightarrow> False
      | SIter _ _ _ _ \<Rightarrow> False
      | SDoWhile _ _ \<Rightarrow> False
      | _ \<Rightarrow> True)"
| "core_node (NDecl d) = True"

text \<open>The tree the parser builds starts an interpolation with text; one with no segment panics.\<close>

primrec no_empty_interpolation :: "node \<Rightarrow> bool" where
  "no_empty_interpolation (NExpr k) = (case k of EInterpolation segs \<Rightarrow> segs \<noteq> [] | _ \<Rightarrow> True)"
| "no_empty_interpolation (NText t) = True"
| "no_empty_interpolation (NStmt k) = True"
| "no_empty_interpolation (NDecl d) = True"

lemma list_all_lowered:
  "all_some (map f xs) = Some ys \<Longrightarrow> (\<And>x y. x \<in> set xs \<Longrightarrow> f x = Some y \<Longrightarrow> P y) \<Longrightarrow> list_all P ys"
  by (auto simp: list_all_iff elim: all_some_set)

lemma opt_lowered:
  "opt_some (map_option f x) = Some y \<Longrightarrow> (\<And>a b. x = Some a \<Longrightarrow> f a = Some b \<Longrightarrow> P b) \<Longrightarrow>
     (case y of None \<Rightarrow> True | Some z \<Rightarrow> P z)"
  by (cases x) auto

named_theorems made_up "definitions of the nodes lowering makes up"

lemmas [made_up] = at_expr_def at_stmt_def at_id_def at_var_def at_assign_def

section \<open>The output is in the core language\<close>

abbreviation core_expr :: "expr \<Rightarrow> bool" where "core_expr \<equiv> nodes_expr core_node"
abbreviation core_stmt :: "stmt \<Rightarrow> bool" where "core_stmt \<equiv> nodes_stmt core_node"
abbreviation core_decl :: "decl \<Rightarrow> bool" where "core_decl \<equiv> nodes_decl core_node"

lemma core_assign_with:
  "core_expr t \<Longrightarrow> core_expr v \<Longrightarrow> core_expr (assign_with s b t op v ln)"
  by (cases t) (auto simp: assign_with_def Let_def split: expr_kind.split bool.split)

lemma core_interpolation_chain:
  "list_all (nodes_segment core_node) segs \<Longrightarrow>
     (\<And>c. fst acc = Some c \<Longrightarrow> core_expr c) \<Longrightarrow>
     fst (foldl (interpolation_step sf s) acc segs) = Some e \<Longrightarrow> core_expr e"
proof (induction segs arbitrary: acc)
  case Nil
  then show ?case by simp
next
  case (Cons g segs)
  have "core_expr c" if "fst (interpolation_step sf s acc g) = Some c" for c
    using that Cons.prems(1,2)
    by (cases acc; cases g) (auto simp: Let_def split: option.splits)
  then show ?case using Cons.IH [of "interpolation_step sf s acc g"] Cons.prems(1,3) by simp
qed

lemma core_interpolation:
  "list_all (nodes_segment core_node) segs \<Longrightarrow> interpolation sf s segs = Some e \<Longrightarrow> core_expr e"
  using core_interpolation_chain [of segs "(None, 0)" sf s e] by (simp add: interpolation_def)

lemma core_interpolation_lowered:
  "all_some (map f xs) = Some segs \<Longrightarrow>
     (\<And>x y. x \<in> set xs \<Longrightarrow> f x = Some y \<Longrightarrow> nodes_segment core_node y) \<Longrightarrow>
     interpolation sf s segs = Some e \<Longrightarrow> core_expr e"
  by (rule core_interpolation [OF list_all_lowered])

lemma core_counted_range_loop:
  "core_expr a \<Longrightarrow> core_expr b \<Longrightarrow> core_stmt body \<Longrightarrow>
     core_stmt (counted_range_loop s var a b ln body)"
  by (simp add: counted_range_loop_def Let_def made_up)

lemma core_method_loop:
  "core_expr i \<Longrightarrow> core_stmt body \<Longrightarrow> core_stmt (method_loop s key value i body)"
  by (simp add: method_loop_def Let_def made_up)

lemma for_loop_cases:
  obtains (counted) a b ln where "key = None" "ekind i = ERange a b ln"
      "for_loop s key value i body = counted_range_loop s value a b ln body"
  | (general) "for_loop s key value i body = method_loop s key value i body"
  by (cases key; cases "ekind i") (auto simp: for_loop_def)

lemma core_for_loop:
  "core_expr i \<Longrightarrow> core_stmt body \<Longrightarrow> core_stmt (for_loop s key value i body)"
  by (cases i; rule for_loop_cases [of key i s "value" body])
    (auto simp: core_counted_range_loop core_method_loop)

lemma core_iter_loop:
  "(case i of None \<Rightarrow> True | Some x \<Rightarrow> core_stmt x) \<Longrightarrow> (case c of None \<Rightarrow> True | Some x \<Rightarrow> core_expr x) \<Longrightarrow>
     list_all core_expr steps \<Longrightarrow> core_stmt body \<Longrightarrow> core_stmt (iter_loop s i c steps body)"
  by (auto simp: iter_loop_def Let_def made_up list_all_iff split: option.splits)

lemma lower_core_all:
  "lower_expr sf e = Some e' \<Longrightarrow> core_expr e'"
  "lower_ekind sf k sp = Some e' \<Longrightarrow> core_expr e'"
  "lower_segment sf g = Some g' \<Longrightarrow> nodes_segment core_node g'"
  "lower_arm sf a = Some a' \<Longrightarrow> nodes_arm core_node a'"
  "lower_stmt sf st = Some st' \<Longrightarrow> core_stmt st'"
  "lower_skind sf sk sp = Some st' \<Longrightarrow> core_stmt st'"
  "lower_decl sf d = Some d' \<Longrightarrow> core_decl d'"
  "lower_dkind sf dk = Some dk' \<Longrightarrow> nodes_dkind core_node dk'"
proof (induction e and k and g and a and st and sk and d and dk
    arbitrary: e' and sp e' and g' and a' and st' and sp st' and d' and dk')
qed (auto simp: Option.bind_eq_Some_conv
    intro!: core_assign_with core_for_loop core_iter_loop,
    (erule core_interpolation_lowered list_all_lowered opt_lowered, blast+)+)

section \<open>The core language is left alone\<close>

lemma lower_id_all:
  "core_expr e \<Longrightarrow> lower_expr sf e = Some e"
  "nodes_ekind core_node k \<Longrightarrow> lower_ekind sf k sp = Some (Expr k sp)"
  "nodes_segment core_node g \<Longrightarrow> lower_segment sf g = Some g"
  "nodes_arm core_node a \<Longrightarrow> lower_arm sf a = Some a"
  "core_stmt st \<Longrightarrow> lower_stmt sf st = Some st"
  "nodes_skind core_node sk \<Longrightarrow> lower_skind sf sk sp = Some (Stmt sk sp)"
  "core_decl d \<Longrightarrow> lower_decl sf d = Some d"
  "nodes_dkind core_node dk \<Longrightarrow> lower_dkind sf dk = Some dk"
  by (induction e and k and g and a and st and sk and d and dk arbitrary: and sp and and and and sp)
    (auto simp: list_all_iff all_some_id split: option.splits)

section \<open>The one panic\<close>

abbreviation safe :: "node \<Rightarrow> bool" where "safe \<equiv> no_empty_interpolation"

lemma all_some_None: "all_some (map f xs) = None \<longleftrightarrow> (\<exists>x \<in> set xs. f x = None)"
  by (induction xs) (auto simp: Option.bind_eq_None_conv)

lemma opt_some_None: "opt_some (map_option f x) = None \<longleftrightarrow> (\<exists>a. x = Some a \<and> f a = None)"
  by (cases x) auto

lemma interpolation_None: "interpolation sf s segs = None \<longleftrightarrow> segs = []"
proof (cases segs rule: rev_cases)
  case Nil
  then show ?thesis by (simp add: interpolation_def)
next
  case (snoc gs g)
  have "fst (interpolation_step sf s acc g) \<noteq> None" for acc
    by (cases acc; cases g) (simp_all add: Let_def)
  then show ?thesis by (simp add: interpolation_def snoc)
qed

lemma all_some_length: "all_some (map f xs) = Some ys \<Longrightarrow> length ys = length xs"
  by (simp add: all_some_map_Some)

lemma the_all_some_Nil:
  "\<forall>x \<in> set xs. \<exists>y. f x = Some y \<Longrightarrow> the (all_some (map f xs)) = [] \<longleftrightarrow> xs = []"
  using all_some_ex [of xs f] all_some_length [of f xs] by auto

lemma lower_None_all:
  "lower_expr sf e = None \<longleftrightarrow> \<not> nodes_expr safe e"
  "lower_ekind sf k sp = None \<longleftrightarrow> \<not> nodes_ekind safe k"
  "lower_segment sf g = None \<longleftrightarrow> \<not> nodes_segment safe g"
  "lower_arm sf a = None \<longleftrightarrow> \<not> nodes_arm safe a"
  "lower_stmt sf st = None \<longleftrightarrow> \<not> nodes_stmt safe st"
  "lower_skind sf sk sp = None \<longleftrightarrow> \<not> nodes_skind safe sk"
  "lower_decl sf d = None \<longleftrightarrow> \<not> nodes_decl safe d"
  "lower_dkind sf dk = None \<longleftrightarrow> \<not> nodes_dkind safe dk"
proof (induction e and k and g and a and st and sk and d and dk arbitrary: and sp and and and and sp)
qed (auto simp: Option.bind_eq_None_conv all_some_None opt_some_None interpolation_None the_all_some_Nil
    list_all_iff split: option.splits)

section \<open>Spans\<close>

lemma for_loop_span: "sspan (for_loop s key value i body) = s"
  by (rule for_loop_cases [of key i s "value" body])
    (simp_all add: counted_range_loop_def method_loop_def Let_def at_stmt_def)

lemma lower_stmt_span: "lower_stmt sf s = Some s' \<Longrightarrow> sspan s' = sspan s"
proof -
  have "lower_skind sf k sp = Some t \<Longrightarrow> sspan t = sp" for k sp t
    by (cases k) (auto simp: Option.bind_eq_Some_conv for_loop_span iter_loop_def Let_def at_stmt_def
        split: option.splits)
  then show "lower_stmt sf s = Some s' \<Longrightarrow> sspan s' = sspan s" by (cases s) auto
qed

lemma lower_decl_span: "lower_decl sf d = Some d' \<Longrightarrow> dspan d' = dspan d"
  by (cases d) (auto simp: Option.bind_eq_Some_conv)

lemma assign_with_span [simp]: "espan (assign_with s b t op v ln) = s"
  by (simp add: assign_with_def Let_def split: expr_kind.split bool.split)

lemma interpolation_chain_span:
  "(fst acc = None \<longrightarrow> 2 \<le> length segs) \<Longrightarrow> (\<And>c. fst acc = Some c \<Longrightarrow> segs = [] \<Longrightarrow> espan c = s) \<Longrightarrow>
     fst (foldl (interpolation_step sf s) acc segs) = Some e \<Longrightarrow> espan e = s"
proof (induction segs arbitrary: acc)
  case Nil
  then show ?case by auto
next
  case (Cons g segs)
  have "espan c = s" if "fst (interpolation_step sf s acc g) = Some c" "segs = []" for c
    using that Cons.prems(1) by (cases acc; cases g) (auto simp: Let_def split: option.splits)
  moreover have "fst (interpolation_step sf s acc g) \<noteq> None"
    by (cases acc; cases g) (simp_all add: Let_def)
  ultimately show ?case
    using Cons.IH [of "interpolation_step sf s acc g"] Cons.prems(3) by auto
qed

lemma lower_expr_span:
  assumes "lower_expr sf e = Some e'" "\<And>segs. ekind e = EInterpolation segs \<Longrightarrow> 2 \<le> length segs"
  shows "espan e' = espan e"
proof (cases e)
  case (Expr k sp)
  show ?thesis
  proof (cases "\<exists>segs. k = EInterpolation segs")
    case True
    then obtain segs gs where gs: "k = EInterpolation segs"
      "all_some (map (lower_segment sf) segs) = Some gs" "interpolation sf sp gs = Some e'"
      using assms(1) Expr by (auto simp: Option.bind_eq_Some_conv)
    then have "2 \<le> length gs" using assms(2) Expr all_some_length by fastforce
    then show ?thesis
      using interpolation_chain_span [of "(None, 0)" gs sp sf e'] gs(3) Expr
      by (simp add: interpolation_def)
  next
    case False
    then show ?thesis using assms(1) Expr by (cases k) (auto simp: Option.bind_eq_Some_conv)
  qed
qed

section \<open>Names\<close>

primrec node_tokens :: "node \<Rightarrow> token list" where
  "node_tokens (NExpr k) =
     (case k of EIdentifier t \<Rightarrow> [t] | EGet _ t \<Rightarrow> [t] | ESet _ t _ \<Rightarrow> [t] | EParent t \<Rightarrow> [t]
      | ESelf t \<Rightarrow> [t] | EArgument t _ \<Rightarrow> [t] | EShorthand t \<Rightarrow> [t] | _ \<Rightarrow> [])"
| "node_tokens (NText t) = [t]"
| "node_tokens (NStmt k) =
     (case k of SFor key t _ _ \<Rightarrow> (case key of Some u \<Rightarrow> [u, t] | None \<Rightarrow> [t]) | SContinue t \<Rightarrow> [t]
      | SBreak t \<Rightarrow> [t] | SReturn t _ \<Rightarrow> [t] | SImport _ ts _ _ _ _ \<Rightarrow> ts | SVar t _ _ _ \<Rightarrow> [t]
      | STrivia t \<Rightarrow> [t] | _ \<Rightarrow> [])"
| "node_tokens (NDecl k) =
     (case k of DFunction t _ _ _ \<Rightarrow> [t] | DMethod t _ _ _ _ \<Rightarrow> [t] | DProperty t _ _ _ _ \<Rightarrow> [t]
      | DClass t _ _ _ _ \<Rightarrow> [t] | DTrivia t \<Rightarrow> [t] | _ \<Rightarrow> [])"

text \<open>The names lowering gives to what it makes up: hidden variables and the iteration methods.\<close>

definition hidden_names :: "ustring list" where
  "hidden_names =
     [str ''$key'', str ''$iter'', str ''$lower'', str ''$upper'', str ''$count'', str ''$step'',
      str ''$n'', str ''@key'', str ''@value'']"

definition hidden :: "token \<Rightarrow> bool" where
  "hidden t = (case kind t of TkIdentifier w \<Rightarrow> w \<in> set hidden_names | _ \<Rightarrow> False)"

primrec written :: "(token \<Rightarrow> bool) \<Rightarrow> node \<Rightarrow> bool" where
  "written Q (NExpr k) \<longleftrightarrow> list_all Q (node_tokens (NExpr k))"
| "written Q (NText t) \<longleftrightarrow> list_all Q (node_tokens (NText t))"
| "written Q (NStmt k) \<longleftrightarrow> list_all Q (node_tokens (NStmt k))"
| "written Q (NDecl k) \<longleftrightarrow> list_all Q (node_tokens (NDecl k))"

lemma hidden_named [simp]: "hidden (named t w) \<longleftrightarrow> w \<in> set hidden_names"
  by (simp add: hidden_def named_def)

lemma written_assign_with:
  "nodes_expr (written Q) t \<Longrightarrow> nodes_expr (written Q) v \<Longrightarrow>
     nodes_expr (written Q) (assign_with s b t op v ln)"
  by (cases t) (auto simp: assign_with_def Let_def split: expr_kind.split bool.split)

lemma written_interpolation_chain:
  "list_all (nodes_segment (written Q)) segs \<Longrightarrow>
     (\<And>c. fst acc = Some c \<Longrightarrow> nodes_expr (written Q) c) \<Longrightarrow>
     fst (foldl (interpolation_step sf s) acc segs) = Some e \<Longrightarrow> nodes_expr (written Q) e"
proof (induction segs arbitrary: acc)
  case Nil
  then show ?case by simp
next
  case (Cons g segs)
  have "nodes_expr (written Q) c" if "fst (interpolation_step sf s acc g) = Some c" for c
    using that Cons.prems(1,2)
    by (cases acc; cases g) (auto simp: Let_def split: option.splits)
  then show ?case using Cons.IH [of "interpolation_step sf s acc g"] Cons.prems(1,3) by simp
qed

lemma written_interpolation_lowered:
  "all_some (map f xs) = Some segs \<Longrightarrow>
     (\<And>x y. x \<in> set xs \<Longrightarrow> f x = Some y \<Longrightarrow> nodes_segment (written Q) y) \<Longrightarrow>
     interpolation sf s segs = Some e \<Longrightarrow> nodes_expr (written Q) e"
  using written_interpolation_chain [OF list_all_lowered, of f xs segs Q "(None, 0)" sf s e]
  by (simp add: interpolation_def)

definition source_or_hidden :: "(token \<Rightarrow> bool) \<Rightarrow> token \<Rightarrow> bool" where
  "source_or_hidden Q t \<longleftrightarrow> Q t \<or> hidden t"

lemma source_or_hidden_simps [simp]:
  "Q t \<Longrightarrow> source_or_hidden Q t"
  "w \<in> set hidden_names \<Longrightarrow> source_or_hidden Q (named t w)"
  by (simp_all add: source_or_hidden_def)

abbreviation lowered_name :: "(token \<Rightarrow> bool) \<Rightarrow> node \<Rightarrow> bool" where
  "lowered_name Q \<equiv> written (source_or_hidden Q)"

lemma written_counted_range_loop:
  "source_or_hidden Q var \<Longrightarrow> nodes_expr (lowered_name Q) a \<Longrightarrow> nodes_expr (lowered_name Q) b \<Longrightarrow>
     nodes_stmt (lowered_name Q) body \<Longrightarrow>
     nodes_stmt (lowered_name Q) (counted_range_loop s var a b ln body)"
  by (simp add: counted_range_loop_def Let_def made_up hidden_names_def)

lemma written_method_loop:
  "nodes_expr (lowered_name Q) i \<Longrightarrow> nodes_stmt (lowered_name Q) body \<Longrightarrow>
     source_or_hidden Q value \<Longrightarrow> (\<And>k. key = Some k \<Longrightarrow> source_or_hidden Q k) \<Longrightarrow>
     nodes_stmt (lowered_name Q) (method_loop s key value i body)"
  by (cases key) (simp_all add: method_loop_def Let_def made_up hidden_names_def)

lemma written_for_loop:
  "nodes_expr (lowered_name Q) i \<Longrightarrow> nodes_stmt (lowered_name Q) body \<Longrightarrow>
     source_or_hidden Q value \<Longrightarrow> (\<And>k. key = Some k \<Longrightarrow> source_or_hidden Q k) \<Longrightarrow>
     nodes_stmt (lowered_name Q) (for_loop s key value i body)"
  by (cases i; rule for_loop_cases [of key i s "value" body])
    (auto simp: written_counted_range_loop written_method_loop)

lemma written_iter_loop:
  "(case i of None \<Rightarrow> True | Some x \<Rightarrow> nodes_stmt (written Q) x) \<Longrightarrow>
     (case c of None \<Rightarrow> True | Some x \<Rightarrow> nodes_expr (written Q) x) \<Longrightarrow>
     list_all (nodes_expr (written Q)) steps \<Longrightarrow> nodes_stmt (written Q) body \<Longrightarrow>
     nodes_stmt (written Q) (iter_loop s i c steps body)"
  by (auto simp: iter_loop_def Let_def made_up list_all_iff split: option.splits)

text \<open>Lists and options of subtrees, whose nodes are written in the source.\<close>

lemma list_all_written:
  "all_some (map f xs) = Some ys \<Longrightarrow> list_all N xs \<Longrightarrow>
     (\<And>x y. x \<in> set xs \<Longrightarrow> N x \<Longrightarrow> f x = Some y \<Longrightarrow> P y) \<Longrightarrow> list_all P ys"
  by (auto simp: list_all_iff elim: all_some_set)

lemma opt_written:
  "opt_some (map_option f x) = Some y \<Longrightarrow> (case x of None \<Rightarrow> True | Some z \<Rightarrow> N z) \<Longrightarrow>
     (\<And>a b. x = Some a \<Longrightarrow> N a \<Longrightarrow> f a = Some b \<Longrightarrow> P b) \<Longrightarrow>
     (case y of None \<Rightarrow> True | Some z \<Rightarrow> P z)"
  by (cases x) auto

lemma interpolation_written:
  "all_some (map f xs) = Some segs \<Longrightarrow> list_all N xs \<Longrightarrow>
     (\<And>x y. x \<in> set xs \<Longrightarrow> N x \<Longrightarrow> f x = Some y \<Longrightarrow> nodes_segment (written Q) y) \<Longrightarrow>
     interpolation sf s segs = Some e \<Longrightarrow> nodes_expr (written Q) e"
  by (erule written_interpolation_lowered) (auto simp: list_all_iff)

lemma lower_written_all:
  "nodes_expr (written Q) e \<Longrightarrow> lower_expr sf e = Some e' \<Longrightarrow> nodes_expr (lowered_name Q) e'"
  "nodes_ekind (written Q) k \<Longrightarrow> lower_ekind sf k sp = Some e' \<Longrightarrow> nodes_expr (lowered_name Q) e'"
  "nodes_segment (written Q) g \<Longrightarrow> lower_segment sf g = Some g' \<Longrightarrow> nodes_segment (lowered_name Q) g'"
  "nodes_arm (written Q) a \<Longrightarrow> lower_arm sf a = Some a' \<Longrightarrow> nodes_arm (lowered_name Q) a'"
  "nodes_stmt (written Q) st \<Longrightarrow> lower_stmt sf st = Some st' \<Longrightarrow> nodes_stmt (lowered_name Q) st'"
  "nodes_skind (written Q) sk \<Longrightarrow> lower_skind sf sk sp = Some st' \<Longrightarrow> nodes_stmt (lowered_name Q) st'"
  "nodes_decl (written Q) d \<Longrightarrow> lower_decl sf d = Some d' \<Longrightarrow> nodes_decl (lowered_name Q) d'"
  "nodes_dkind (written Q) dk \<Longrightarrow> lower_dkind sf dk = Some dk' \<Longrightarrow> nodes_dkind (lowered_name Q) dk'"
proof (induction e and k and g and a and st and sk and d and dk
    arbitrary: e' and sp e' and g' and a' and st' and sp st' and d' and dk')
qed (auto simp: Option.bind_eq_Some_conv list_all_iff [of _ "_ :: token list"] split: option.splits
    intro!: written_assign_with written_for_loop written_iter_loop,
    (erule interpolation_written list_all_written opt_written, assumption, blast+)+)

section \<open>Exits from loops\<close>

text \<open>
  The \<open>break\<close>, \<open>continue\<close> and made up \<open>FixContinue\<close> statements of a statement that lie
  outside every loop in it: the ones that the code generator resolves against a loop around
  the statement, or rejects when there is none.
\<close>

definition opt_sum :: "nat option \<Rightarrow> nat" where
  "opt_sum x = (case x of None \<Rightarrow> 0 | Some n \<Rightarrow> n)"

lemma opt_sum_simps [simp]: "opt_sum None = 0" "opt_sum (Some n) = n"
  by (simp_all add: opt_sum_def)

primrec
      loose_arm :: "when_arm \<Rightarrow> nat"
  and loose_stmt :: "stmt \<Rightarrow> nat"
  and loose_skind :: "stmt_kind \<Rightarrow> nat"
  and loose_decl :: "decl \<Rightarrow> nat"
  and loose_dkind :: "decl_kind \<Rightarrow> nat" where
  "loose_arm (WhenArm ls b s) = loose_stmt b"
| "loose_stmt (Stmt k s) = loose_skind k"
| "loose_skind (SBreak t) = 1"
| "loose_skind (SContinue t) = 1"
| "loose_skind SFixContinue = 1"
| "loose_skind (SIf c t e) = loose_stmt t + opt_sum (map_option loose_stmt e)"
| "loose_skind (SUsing e arms d) = sum_list (map loose_arm arms) + opt_sum (map_option loose_stmt d)"
| "loose_skind (SCatch b h v) = loose_stmt b + opt_sum (map_option loose_stmt h)"
| "loose_skind (SBlock xs) = sum_list (map loose_stmt xs)"
| "loose_skind (SVarList xs) = sum_list (map loose_stmt xs)"
| "loose_skind (SDecl d) = loose_decl d"
| "loose_skind (SWhile c b) = 0"
| "loose_skind (SFor k v i b) = 0"
| "loose_skind (SDoWhile b c) = 0"
| "loose_skind (SIter i c xs b) = opt_sum (map_option loose_stmt i)"
| "loose_skind SNone = 0"
| "loose_skind (SEcho e) = 0"
| "loose_skind (SExpression e) = 0"
| "loose_skind (SRaise e) = 0"
| "loose_skind (SReturn t e) = 0"
| "loose_skind (SAssert e m) = 0"
| "loose_skind (SImport p ts n es a x) = 0"
| "loose_skind (SVar t e h c) = 0"
| "loose_skind (STrivia t) = 0"
| "loose_decl (Decl k s) = loose_dkind k"
| "loose_dkind (DStmt s) = loose_stmt s"
| "loose_dkind (DFunction t ps b v) = 0"
| "loose_dkind (DMethod t ps b v s) = 0"
| "loose_dkind (DProperty t v h s c) = 0"
| "loose_dkind (DClass t c ps ms x) = 0"
| "loose_dkind (DTrivia t) = 0"

text \<open>No body of a \<open>do\<close> loop leaves that loop, or goes on with it.\<close>

primrec do_closed :: "node \<Rightarrow> bool" where
  "do_closed (NExpr k) = True"
| "do_closed (NText t) = True"
| "do_closed (NStmt k) = (case k of SDoWhile b c \<Rightarrow> loose_stmt b = 0 | _ \<Rightarrow> True)"
| "do_closed (NDecl k) = True"

lemma loose_for_loop [simp]: "loose_stmt (for_loop s key value i body) = 0"
  by (rule for_loop_cases [of key i s "value" body])
    (simp_all add: counted_range_loop_def method_loop_def Let_def made_up)

lemma loose_iter_loop [simp]:
  "loose_stmt (iter_loop s i c steps body) = opt_sum (map_option loose_stmt i)"
  by (simp add: iter_loop_def Let_def made_up split: option.splits)

lemma all_some_loose:
  "all_some (map f xs) = Some ys \<Longrightarrow> list_all N xs \<Longrightarrow>
     (\<And>x y. x \<in> set xs \<Longrightarrow> N x \<Longrightarrow> f x = Some y \<Longrightarrow> g y = (h x :: nat)) \<Longrightarrow>
     sum_list (map g ys) = sum_list (map h xs)"
  by (rule all_some_sum) (auto simp: list_all_iff)

lemma opt_loose:
  "opt_some (map_option f x) = Some y \<Longrightarrow> (case x of None \<Rightarrow> True | Some z \<Rightarrow> N z) \<Longrightarrow>
     (\<And>a b. x = Some a \<Longrightarrow> N a \<Longrightarrow> f a = Some b \<Longrightarrow> g b = h a) \<Longrightarrow>
     opt_sum (map_option g y) = opt_sum (map_option h x)"
  by (cases x) auto

lemma lower_loose_all:
  "nodes_expr do_closed e \<Longrightarrow> True"
  "nodes_ekind do_closed k \<Longrightarrow> True"
  "nodes_segment do_closed g \<Longrightarrow> True"
  "nodes_arm do_closed a \<Longrightarrow> lower_arm sf a = Some a' \<Longrightarrow> loose_arm a' = loose_arm a"
  "nodes_stmt do_closed st \<Longrightarrow> lower_stmt sf st = Some st' \<Longrightarrow> loose_stmt st' = loose_stmt st"
  "nodes_skind do_closed sk \<Longrightarrow> lower_skind sf sk sp = Some st' \<Longrightarrow> loose_stmt st' = loose_skind sk"
  "nodes_decl do_closed d \<Longrightarrow> lower_decl sf d = Some d' \<Longrightarrow> loose_decl d' = loose_decl d"
  "nodes_dkind do_closed dk \<Longrightarrow> lower_dkind sf dk = Some dk' \<Longrightarrow> loose_dkind dk' = loose_dkind dk"
proof (induction e and k and g and a and st and sk and d and dk
    arbitrary: and and and a' and st' and sp st' and d' and dk')
qed (auto simp: Option.bind_eq_Some_conv intro!: arg_cong2 [of _ _ _ _ "(+)"],
    (erule all_some_loose opt_loose, assumption, blast)+)

end
