(* ===== verification/Lowering_Props.thy ===== *)
theory Lowering_Props
  imports Lower_Facts Lexer_Props
begin

text \<open>
  The properties of the rewriting, and how it fits the scanner: the names it makes up are
  none that a source can spell.
\<close>

section \<open>Names that the scanner produces\<close>

definition no_name :: "(token \<times> lexer) panics \<Rightarrow> bool" where
  "no_name r \<longleftrightarrow> (\<forall>t l' w. r = Some (t, l') \<longrightarrow> kind t \<noteq> TkIdentifier w)"

lemma make_token_kind: "make_token k l = Some (t, l') \<Longrightarrow> kind t = k"
  by (auto simp: make_token_def Let_def Option.bind_eq_Some_conv split: if_splits)

lemma no_name_make_token: "(\<And>w. k \<noteq> TkIdentifier w) \<Longrightarrow> no_name (make_token k l)"
  by (auto simp: no_name_def dest: make_token_kind)

lemma no_name_error: "no_name (make_error m l)"
  by (simp add: make_error_def no_name_make_token)

lemma no_name_bind: "(\<And>x. m = Some x \<Longrightarrow> no_name (f x)) \<Longrightarrow> no_name (Option.bind m f)"
  by (cases m) (auto simp: no_name_def)

lemmas no_name_rules = no_name_make_token no_name_error no_name_bind

lemma no_name_if_match:
  "(\<And>m. no_name (f m)) \<Longrightarrow> (\<And>m. no_name (g m)) \<Longrightarrow> no_name (if_match c f g l)"
  by (simp add: if_match_def split: prod.split bool.split)

lemma unescape_error:
  "unescape_string q m = Some (Inl err) \<Longrightarrow> \<exists>msg. make_error msg m = Some err"
  unfolding unescape_string_def
  by (clarsimp simp: Option.bind_eq_Some_conv, case_tac ya) auto

lemma no_name_string: "no_name (lex_string c l)"
proof -
  have un: "no_name (Some err)" if "unescape_string q m = Some (Inl err)" for q m err
    using unescape_error [OF that] no_name_error by metis
  have "kind t = k" if "make_token k m = Some (t, m')" for k m t m' by (rule make_token_kind [OF that])
  then have step: "no_name (do { tl2 \<leftarrow> r; Some (fst tl2, h (snd tl2)) })" if "no_name r" for r h
    using that by (cases r) (auto simp: no_name_def)
  show ?thesis
    unfolding lex_string_def Let_def
    by (auto simp: un no_name_rules intro!: no_name_bind step split: string_stop.split sum.split)
qed

lemma no_name_number: "no_name (lex_number big l)"
proof -
  have "no_name (decimal_literal big m)" for m
    unfolding decimal_literal_def Let_def
    by (auto intro!: no_name_rules split: option.split)
  moreover have "no_name (radix_literal p r mk msg m)" if "\<And>n w. mk n \<noteq> TkIdentifier w" for p r mk msg m
    unfolding radix_literal_def Let_def
    using that by (auto intro!: no_name_rules split: option.split)
  ultimately show ?thesis
    by (auto simp: lex_number_if_match intro!: no_name_if_match)
qed

lemma no_name_scan_from: "\<not> is_alpha c \<Longrightarrow> no_name (scan_from big c l)"
proof -
  assume c: "\<not> is_alpha c"
  have "no_name (scan_dot l)" "no_name (scan_star l)" "no_name (scan_slash l)"
    "no_name (scan_less l)" "no_name (scan_greater l)" "no_name (scan_equal l)"
    by (auto simp: scan_dot_def scan_star_def scan_slash_def scan_less_def scan_greater_def
        scan_equal_def doc_block_def intro!: no_name_if_match no_name_rules split: prod.split bool.split)
  moreover have "no_name (scan_close_brace l)" "no_name (lex_string c l)"
    "no_name (lex_number big l)" "no_name (comment l)" "no_name (decorator l)"
    "no_name (make_error e l)" for e
    by (auto simp: scan_close_brace_def comment_def decorator_def Let_def no_name_string no_name_number
        intro!: no_name_rules)
  moreover have "no_name (eq_or y z l)" "no_name (if_match d (sym y) (eq_or z w) l)" "no_name (sym y l)"
    for y z w d
    by (auto intro!: no_name_if_match no_name_rules)
  ultimately show ?thesis using c by (simp add: scan_from_def)
qed

text \<open>An identifier that a scan yields starts with a letter or an underscore.\<close>

lemma scan_identifier_alpha:
  assumes "lex_wf l" "scan big l = Some (t, l')" "kind t = TkIdentifier w"
  shows "w \<noteq> [] \<and> is_alpha (hd w)"
proof -
  define a where "a = skip_whitespace l"
  define b where "b = a\<lparr>start := current a, start_line := lline a\<rparr>"
  have a: "fwd l a" by (simp add: a_def skip_whitespace_def fwd_advance_while assms(1))
  then have b: "in_token b" "start b = current b"
    by (auto simp: b_def fwd_def in_token_def lex_wf_def lines_wf_def total_count_def)
  have scan: "scan big l =
      (if is_at_end b then make_token TkEof b else let (c, m) = advance b in scan_from big c m)"
    by (simp add: scan_def a_def b_def Let_def)
  have not_end: "\<not> is_at_end b" using assms(2,3) scan make_token_kind by fastforce
  define c where "c = source b ! current b"
  have adv: "advance b = (c, step_char b)"
    using adv_step [OF not_end] not_end by (simp add: advance_def c_def Let_def step_char_def)
  have c: "is_alpha c"
    using no_name_scan_from [of c big "step_char b"] assms(2,3) scan not_end adv
    by (auto simp: no_name_def)
  let ?e = "advance_while (\<lambda>l. is_alphanumeric (peek l)) (step_char b)"
  have f: "fwd (step_char b) ?e"
    using fwd_advance_while [OF fwd_wf [OF fwd_step [OF in_token_wf [OF b(1)] not_end]]] .
  have "lex_identifier (step_char b) = Some (t, l')"
    using assms(2) scan not_end adv c by (simp add: scan_from_alpha)
  then obtain s where s: "get_string (start ?e) (current ?e) ?e = Some s" "kind t = word_kind s"
    by (auto simp: lex_identifier_def Let_def Option.bind_eq_Some_conv dest: make_token_kind)
  have "w = s" using s(2) assms(3) by (simp add: word_kind_def split: option.splits)
  moreover have "s \<noteq> [] \<and> hd s = c"
    using s(1) f b(2) not_end
    by (auto simp: get_string_def slice_Some fwd_def c_def hd_drop_conv_nth is_at_end_def total_count_def)
  ultimately show ?thesis using c by simp
qed

lemma tokenize_identifier_alpha:
  assumes "tokenize big s = Some ts" "tx \<in> set ts" "kind (fst tx) = TkIdentifier w"
  shows "w \<noteq> [] \<and> is_alpha (hd w)"
proof -
  have "\<forall>w. kind (fst tx) = TkIdentifier w \<longrightarrow> w \<noteq> [] \<and> is_alpha (hd w)"
  proof (rule lx.drive_outputs [OF _ scanning_new assms(1)[unfolded tokenize_drive] assms(2)])
    fix l t l'
    assume "scanning s l" "tokenize_step big s l = Some (t, l')"
    then obtain u x where "lex_wf l" "scan big l = Some (u, l')" "t = (u, x)"
      by (auto simp: tokenize_step_def Option.bind_eq_Some_conv)
    then show "\<forall>w. kind (fst t) = TkIdentifier w \<longrightarrow> w \<noteq> [] \<and> is_alpha (hd w)"
      using scan_identifier_alpha by simp
  qed
  then show ?thesis using assms(3) by blast
qed

lemma hidden_not_alpha: "hidden t \<Longrightarrow> kind t = TkIdentifier w \<Longrightarrow> \<not> is_alpha (hd w)"
  by (auto simp: hidden_def hidden_names_def is_alpha_def)

lemma tokenize_not_hidden:
  "tokenize big s = Some ts \<Longrightarrow> tx \<in> set ts \<Longrightarrow> \<not> hidden (fst tx)"
  using tokenize_identifier_alpha [of big s ts tx] hidden_not_alpha [of "fst tx"]
  by (auto simp: hidden_def split: token_kind.splits)

section \<open>Properties\<close>

lemma lower_program_None: "lower_program sf ds = None \<longleftrightarrow> \<not> list_all (nodes_decl safe) ds"
  by (auto simp: lower_program_def all_some_None lower_None_all list_all_iff)

text \<open>
  C14. Lowering a program gives a program in the language of the code generator: with no \<open>for\<close>,
  \<open>iter\<close>, \<open>do\<close>, compound assignment, update, interpolation or shorthand anywhere in it,
  one declaration for each, at the same span. It panics just when some interpolated string
  has no segment.
\<close>

theorem lower_program_core:
  "(case lower_program sf ds of
      None \<Rightarrow> \<not> list_all (nodes_decl no_empty_interpolation) ds
    | Some ds' \<Rightarrow> list_all (nodes_decl no_empty_interpolation) ds \<and>
        list_all (nodes_decl core_node) ds' \<and> map dspan ds' = map dspan ds)"
proof (cases "lower_program sf ds")
  case None
  then have "\<not> list_all (nodes_decl safe) ds" using lower_program_None by blast
  with None show ?thesis by simp
next
  case (Some ds')
  then have "list_all core_decl ds'" "list_all (nodes_decl safe) ds"
    using lower_program_None [of sf ds] list_all_lowered [of "lower_decl sf" ds ds' core_decl]
    by (auto simp: lower_program_def lower_core_all)
  moreover have "map dspan ds' = map dspan ds"
    using Some by (auto simp: lower_program_def all_some_map_Some list_eq_iff_nth_eq lower_decl_span)
  ultimately show ?thesis using Some by simp
qed

text \<open>
  C33. A program already in that language is lowered to itself, so lowering twice is lowering
  once.
\<close>

theorem lower_program_fixed:
  assumes "list_all (nodes_decl core_node) ds"
  shows "lower_program sf ds = Some ds"
  unfolding lower_program_def
  by (rule all_some_id) (use assms in \<open>auto simp: list_all_iff intro: lower_id_all\<close>)

definition sample_span :: span where
  "sample_span = span_new 0 20"

definition sample_core :: "decl list" where
  "sample_core =
     [Decl (DStmt (Stmt (SWhile (Expr (EBool True) sample_span)
        (Stmt (SBlock [Stmt (SBreak (token_new (TkKw KwBreak) 1 1 0 5)) sample_span]) sample_span))
        sample_span)) sample_span]"

theorem lower_program_fixed_witness: "lower_program (\<lambda>_. []) sample_core = Some sample_core"
  by (rule lower_program_fixed) (simp add: sample_core_def)

text \<open>
  C34. An expression and a statement lower to one with the very span they were
  read from; an interpolated string does when it has more than its leading text, and the
  parser makes no other.
\<close>

theorem lower_spans:
  assumes "nodes_expr no_empty_interpolation e" "nodes_stmt no_empty_interpolation s"
    and "\<forall>segs. ekind e = EInterpolation segs \<longrightarrow> 2 \<le> length segs"
  shows "\<exists>e' s'. lower_expr sf e = Some e' \<and> espan e' = espan e \<and>
      lower_stmt sf s = Some s' \<and> sspan s' = sspan s"
proof -
  obtain e' s' where "lower_expr sf e = Some e'" "lower_stmt sf s = Some s'"
    using lower_None_all(1) [of sf e] lower_None_all(5) [of sf s] assms(1,2) by auto
  then show ?thesis using lower_expr_span [of sf e e'] lower_stmt_span [of sf s s'] assms(3) by simp
qed

definition sample_update :: expr where
  "sample_update =
     Expr (EUpdate (Expr (EIdentifier (token_new (TkIdentifier (str ''i'')) 1 1 0 1)) (span_new 0 1))
       (TkSym SyIncrement) 1) (span_new 0 3)"

definition sample_do :: stmt where
  "sample_do =
     Stmt (SDoWhile (Stmt (SBreak (token_new (TkKw KwBreak) 1 6 5 10)) (span_new 5 10))
       (Expr (EBool True) (span_new 18 22))) (span_new 0 22)"

theorem lower_spans_witness:
  "\<exists>e' s'. lower_expr (\<lambda>_. []) sample_update = Some e' \<and> espan e' = span_new 0 3 \<and>
      lower_stmt (\<lambda>_. []) sample_do = Some s' \<and> sspan s' = span_new 0 22"
  using lower_spans [of sample_update sample_do "\<lambda>_. []"]
  by (simp add: sample_update_def sample_do_def)



definition sample_tokens :: "(token \<times> ustring) list" where
  "sample_tokens = the (tokenize (\<lambda>_. None) (str ''for x in y { }''))"

definition sample_for :: "decl list" where
  "sample_for =
     [Decl (DStmt (Stmt (SFor None (fst (sample_tokens ! 1))
        (Expr (EIdentifier (fst (sample_tokens ! 3))) (span_new 9 10))
        (Stmt (SBlock []) (span_new 11 14))) (span_new 0 14))) (span_new 0 14)]"

lemma sample_tokens_length: "length sample_tokens = 7"
  by code_simp



definition sample_iter :: stmt where
  "sample_iter =
     Stmt (SIter None None [sample_update]
       (Stmt (SIf (Expr (EBool True) sample_span)
         (Stmt (SContinue (token_new (TkKw KwContinue) 1 1 0 8)) sample_span) None) sample_span))
       sample_span"




end
