(* ===== verification/Parser_Facts.thy ===== *)
theory Parser_Facts
  imports Parser Lowering_Props
begin

text \<open>
  What every step of the parser keeps: the lexer in shape, the tokens it holds real places in
  the source, and the counts of open blocks and functions; what it never adds to: the tokens
  that are left; and what it never takes back: an error. A specification says that a function
  gives a result and what holds of it, and the rules below run a definition through those
  of the functions it calls.
\<close>

section \<open>Results\<close>

definition gives :: "'a option \<Rightarrow> ('a \<Rightarrow> bool) \<Rightarrow> bool" where
  "gives m Q \<longleftrightarrow> (\<exists>x. m = Some x \<and> Q x)"

lemma gives_Some: "Q x \<Longrightarrow> gives (Some x) Q"
  by (simp add: gives_def)

lemma gives_bind: "gives m (\<lambda>x. gives (k x) Q) \<Longrightarrow> gives (Option.bind m k) Q"
  by (auto simp: gives_def)

lemma gives_pair: "gives (f a b) Q \<Longrightarrow> gives (case (a, b) of (x, y) \<Rightarrow> f x y) Q"
  by simp

lemma gives_let: "gives (f x) Q \<Longrightarrow> gives (Let x f) Q"
  by simp

lemma gives_let_pair: "(\<And>a b. x = (a, b) \<Longrightarrow> gives (f a b) Q) \<Longrightarrow> gives (case x of (a, b) \<Rightarrow> f a b) Q"
  by (cases x) simp

lemma gives_if: "(b \<Longrightarrow> gives m Q) \<Longrightarrow> (\<not> b \<Longrightarrow> gives n Q) \<Longrightarrow> gives (if b then m else n) Q"
  by simp

lemma gives_decided:
  "gives m Q \<Longrightarrow> gives (if True then m else n) Q" "gives n Q \<Longrightarrow> gives (if False then m else n) Q"
  "gives n Q \<Longrightarrow> gives (if \<not> True then m else n) Q" "gives m Q \<Longrightarrow> gives (if \<not> False then m else n) Q"
  by simp_all

lemma gives_option:
  "(x = None \<Longrightarrow> gives m Q) \<Longrightarrow> (\<And>y. x = Some y \<Longrightarrow> gives (f y) Q) \<Longrightarrow>
     gives (case x of None \<Rightarrow> m | Some y \<Rightarrow> f y) Q"
  by (cases x) simp_all

lemma gives_usub: "b \<le> a \<Longrightarrow> Q (a - b) \<Longrightarrow> gives (usub a b) Q"
  by (simp add: gives_def)

lemmas gives_rules = gives_decided gives_Some gives_bind gives_pair gives_let gives_option gives_if
  gives_usub

lemma gives_then: "gives m P \<Longrightarrow> (\<And>x. P x \<Longrightarrow> Q x) \<Longrightarrow> gives m Q"
  by (auto simp: gives_def)

lemma gives_then2: "gives m (\<lambda>(x, s). P x s) \<Longrightarrow> (\<And>x s. P x s \<Longrightarrow> Q (x, s)) \<Longrightarrow> gives m Q"
  by (auto simp: gives_def)

lemma gives_then3:
  "gives m (\<lambda>(x, y, s). P x y s) \<Longrightarrow> (\<And>x y s. P x y s \<Longrightarrow> Q (x, y, s)) \<Longrightarrow> gives m Q"
  by (auto simp: gives_def)

lemma gives_then4:
  "gives m (\<lambda>(x, y, z, s). P x y z s) \<Longrightarrow> (\<And>x y z s. P x y z s \<Longrightarrow> Q (x, y, z, s)) \<Longrightarrow> gives m Q"
  by (auto simp: gives_def)

section \<open>States\<close>

text \<open>A token with a place in the source, and one whose name is none that lowering makes up.\<close>

definition tok_in :: "ustring \<Rightarrow> token \<Rightarrow> bool" where
  "tok_in src t \<longleftrightarrow> tstart t \<le> tend t \<and> tend t \<le> length src"

definition tok :: "ustring \<Rightarrow> token \<Rightarrow> bool" where
  "tok src t \<longleftrightarrow> tok_in src t \<and> \<not> hidden t"

text \<open>The tokens held stand in the order of the source, none beyond what the lexer has read.\<close>

definition in_order :: "parser \<Rightarrow> bool" where
  "in_order s \<longleftrightarrow>
     sorted_wrt (\<lambda>t u. tend t \<le> tstart u) (p_previous s # p_current s # lookahead s) \<and>
     list_all (\<lambda>t. tend t \<le> current (p_lexer s)) (p_previous s # p_current s # lookahead s)"

definition ok :: "ustring \<Rightarrow> parser \<Rightarrow> bool" where
  "ok src s \<longleftrightarrow>
     lex_wf (p_lexer s) \<and> source (p_lexer s) = src \<and>
     tok src (p_current s) \<and> tok src (p_previous s) \<and> tok src (last_previous s) \<and>
     list_all (tok src) (lookahead s) \<and> list_all (tok src) (pending_trivia s) \<and>
     last_end s \<le> length src \<and> rewound_end s \<le> length src \<and>
     (panic_mode s \<longrightarrow> errors s \<noteq> []) \<and> in_order s"

text \<open>The tokens before the end that are still to be read, at most.\<close>

definition weight :: "token \<Rightarrow> nat" where
  "weight t = (if kind t = TkEof then 0 else 1)"

definition unread :: "parser \<Rightarrow> nat" where
  "unread s =
     weight (p_current s) + sum_list (map weight (lookahead s)) +
       (total_count (p_lexer s) - current (p_lexer s))"

definition after :: "ustring \<Rightarrow> parser \<Rightarrow> parser \<Rightarrow> bool" where
  "after src s s' \<longleftrightarrow>
     ok src s' \<and> unread s' \<le> unread s \<and> block_count s' = block_count s \<and>
     functions_count s' = functions_count s \<and> (errors s' = [] \<longrightarrow> errors s = []) \<and>
     here s \<le> here s'"

text \<open>Fields that these do not depend on.\<close>

lemma frame [simp]:
  "in_order (s\<lparr>panic_mode := a\<rparr>) = in_order s"
  "in_order (s\<lparr>panic_at := b\<rparr>) = in_order s"
  "in_order (s\<lparr>pending_trivia := c\<rparr>) = in_order s"
  "in_order (s\<lparr>block_count := d\<rparr>) = in_order s"
  "in_order (s\<lparr>functions_count := e\<rparr>) = in_order s"
  "in_order (s\<lparr>anonymous_count := f\<rparr>) = in_order s"
  "in_order (s\<lparr>brace_depth := g\<rparr>) = in_order s"
  "in_order (s\<lparr>errors := h\<rparr>) = in_order s"
  "here (s\<lparr>panic_mode := a\<rparr>) = here s"
  "here (s\<lparr>panic_at := b\<rparr>) = here s"
  "here (s\<lparr>pending_trivia := c\<rparr>) = here s"
  "here (s\<lparr>block_count := d\<rparr>) = here s"
  "here (s\<lparr>functions_count := e\<rparr>) = here s"
  "here (s\<lparr>anonymous_count := f\<rparr>) = here s"
  "here (s\<lparr>brace_depth := g\<rparr>) = here s"
  "here (s\<lparr>errors := h\<rparr>) = here s"
  "unread (s\<lparr>panic_mode := a\<rparr>) = unread s"
  "unread (s\<lparr>panic_at := b\<rparr>) = unread s"
  "unread (s\<lparr>pending_trivia := c\<rparr>) = unread s"
  "unread (s\<lparr>block_count := d\<rparr>) = unread s"
  "unread (s\<lparr>functions_count := e\<rparr>) = unread s"
  "unread (s\<lparr>anonymous_count := f\<rparr>) = unread s"
  "unread (s\<lparr>brace_depth := g\<rparr>) = unread s"
  "unread (s\<lparr>errors := h\<rparr>) = unread s"
  by (simp_all add: in_order_def here_def unread_def)

lemma ok_frame [simp]:
  "ok src (s\<lparr>panic_at := b\<rparr>) = ok src s"
  "ok src (s\<lparr>block_count := d\<rparr>) = ok src s"
  "ok src (s\<lparr>functions_count := e\<rparr>) = ok src s"
  "ok src (s\<lparr>anonymous_count := f\<rparr>) = ok src s"
  "ok src (s\<lparr>brace_depth := g\<rparr>) = ok src s"
  "ok src s \<Longrightarrow> ok src (s\<lparr>panic_mode := False\<rparr>)"
  by (simp_all add: ok_def)

lemma sum_weight_le: "sum_list (map weight ts) \<le> length ts"
  by (induction ts) (auto simp: weight_def)

lemma unread_tokens_left: "unread s < tokens_left s"
  using sum_weight_le [of "lookahead s"] by (simp add: unread_def tokens_left_def weight_def)

lemma after_refl: "ok src s \<Longrightarrow> after src s s"
  by (simp add: after_def)

lemma after_ok: "after src s s' \<Longrightarrow> ok src s'"
  by (simp add: after_def)

lemma after_trans: "after src s s' \<Longrightarrow> after src s' s'' \<Longrightarrow> after src s s''"
  by (simp add: after_def)

section \<open>Reporting\<close>

lemma report_error_at_after: "ok src s \<Longrightarrow> after src s (report_error_at msg t s)"
  by (simp add: report_error_at_def after_def ok_def unread_def in_order_def here_def)

lemma report_error_at_errors [simp]:
  "ok src s \<Longrightarrow> errors (report_error_at msg t s) \<noteq> []"
  by (simp add: report_error_at_def ok_def)

lemma report_error_at_simps [simp]:
  "p_current (report_error_at msg t s) = p_current s"
  "p_previous (report_error_at msg t s) = p_previous s"
  "last_previous (report_error_at msg t s) = last_previous s"
  "lookahead (report_error_at msg t s) = lookahead s"
  "p_lexer (report_error_at msg t s) = p_lexer s"
  "pending_trivia (report_error_at msg t s) = pending_trivia s"
  "block_count (report_error_at msg t s) = block_count s"
  "functions_count (report_error_at msg t s) = functions_count s"
  "last_end (report_error_at msg t s) = last_end s"
  "rewound_end (report_error_at msg t s) = rewound_end s"
  "consumed (report_error_at msg t s) = consumed s"
  by (simp_all add: report_error_at_def)

section \<open>Reading a token\<close>

lemma scan_tok:
  assumes "lex_wf l" "scan big l = Some (t, l')"
  shows "tok (source l) t \<and> lex_wf l' \<and> source l' = source l \<and>
    total_count l' - current l' + weight t \<le> total_count l - current l \<and>
    current l \<le> tstart t \<and> tend t \<le> current l'"
proof -
  obtain "lex_wf l'" "source l' = source l" "current l \<le> tstart t" "tstart t \<le> tend t"
    "kind t \<noteq> TkEof \<Longrightarrow> tstart t < tend t" "kind t = TkEof \<Longrightarrow> tstart t = length (source l)"
    "tend t \<le> current l'"
    using scan_wf [OF assms(1), of big] assms(2) by (auto split: if_splits)
  moreover have "\<not> hidden t"
    using scan_identifier_alpha [OF assms] hidden_not_alpha [of t]
    by (auto simp: hidden_def split: token_kind.splits)
  moreover have "current l' \<le> length (source l')"
    using calculation(1) by (simp add: lex_wf_def total_count_def)
  ultimately show ?thesis
    by (auto simp: tok_def tok_in_def weight_def total_count_def)
qed

text \<open>What a scan leaves alone.\<close>

definition scans :: "parser \<Rightarrow> parser \<Rightarrow> bool" where
  "scans s s' \<longleftrightarrow>
     p_current s' = p_current s \<and> p_previous s' = p_previous s \<and> last_previous s' = last_previous s \<and>
     lookahead s' = lookahead s \<and> block_count s' = block_count s \<and>
     functions_count s' = functions_count s \<and> last_end s' = last_end s \<and>
     rewound_end s' = rewound_end s \<and> consumed s' = consumed s \<and>
     current (p_lexer s) \<le> current (p_lexer s')"

lemma scan_real_loop_gives:
  "ok src s \<Longrightarrow> total_count (p_lexer s) - current (p_lexer s) < n \<Longrightarrow>
     gives (scan_real_loop r n s)
       (\<lambda>(t, s'). after src s s' \<and> scans s s' \<and> tok src t \<and> unread s' + weight t \<le> unread s \<and>
         current (p_lexer s) \<le> tstart t \<and> tend t \<le> current (p_lexer s'))"
proof (induction n arbitrary: s)
  case 0
  then show ?case by simp
next
  case (Suc n)
  from Suc.prems(1) have wf: "lex_wf (p_lexer s)" "source (p_lexer s) = src" by (simp_all add: ok_def)
  obtain t l where sc: "scan (big_from_str r) (p_lexer s) = Some (t, l)"
    using scan_wf [OF wf(1)] by blast
  note t = scan_tok [OF wf(1) sc, unfolded wf(2)]
  let ?s = "s\<lparr>p_lexer := l\<rparr>"
  have fwd: "current (p_lexer s) \<le> current l" using t by (auto simp: tok_def tok_in_def)
  then have "in_order ?s" using Suc.prems(1) by (auto simp: ok_def in_order_def list_all_iff)
  then have base: "ok src ?s" using Suc.prems(1) t by (simp add: ok_def)
  have step: ?case
    if x: "scan_real_loop r (Suc n) s = scan_real_loop r n x" "ok src x" "scans s x" "p_lexer x = l"
      "errors x = [] \<longrightarrow> errors s = []" "kind t \<noteq> TkEof" for x
  proof -
    have w: "weight t = 1" using x(6) by (simp add: weight_def)
    then have "total_count (p_lexer x) - current (p_lexer x) < n" using Suc.prems(2) t x(4) by simp
    moreover have "unread x \<le> unread s" using t x(3,4) by (simp add: unread_def scans_def)
    ultimately show ?thesis
      unfolding x(1) using x(3,5)
      by (intro gives_then2 [OF Suc.IH [OF x(2)]]) (auto simp: after_def scans_def here_def)
  qed
  show ?case
  proof (cases "kind t = TkNone \<or> is_trivia (kind t)")
    case True
    then consider "kind t = TkNone" | "kind t \<noteq> TkNone" "is_trivia (kind t)" by blast
    then show ?thesis
    proof cases
      case 1
      then show ?thesis using base sc fwd by (intro step [of ?s]) (auto simp: scans_def)
    next
      case 2
      have "ok src (?s\<lparr>pending_trivia := pending_trivia ?s @ [t]\<rparr>)" using base t by (simp add: ok_def in_order_def)
      then show ?thesis
        using 2 sc fwd by (intro step [of "?s\<lparr>pending_trivia := pending_trivia ?s @ [t]\<rparr>"])
          (auto simp: scans_def is_trivia_def)
    qed
  next
    case False
    show ?thesis
    proof (cases "\<exists>msg a b. kind t = TkError msg a b")
      case True
      then obtain msg a b where e: "kind t = TkError msg a b" by blast
      then show ?thesis
        using sc base fwd after_ok [OF report_error_at_after [OF base]]
        by (intro step [of "report_error_at msg t ?s"]) (auto simp: scans_def is_trivia_def)
    next
      case noerr: False
      then have "scan_real_loop r (Suc n) s = Some (t, ?s)"
        using False sc by (cases "kind t") (simp_all add: Let_def)
      then show ?thesis
        using base t fwd by (simp add: gives_def after_def scans_def unread_def here_def)
    qed
  qed
qed

lemma scan_real_token_gives:
  assumes "ok src s"
  shows "gives (scan_real_token r s)
    (\<lambda>(t, s'). after src s s' \<and> scans s s' \<and> tok src t \<and> unread s' + weight t \<le> unread s \<and>
         current (p_lexer s) \<le> tstart t \<and> tend t \<le> current (p_lexer s'))"
  unfolding scan_real_token_def
  by (rule scan_real_loop_gives [OF assms]) (simp add: tokens_left_def)

text \<open>A scan does not look at the tokens already consumed.\<close>

lemma scan_real_loop_previous:
  "scan_real_loop r n (s\<lparr>last_previous := a, p_previous := b\<rparr>) =
     map_option (\<lambda>(t, s'). (t, s'\<lparr>last_previous := a, p_previous := b\<rparr>)) (scan_real_loop r n s)"
proof (induction n arbitrary: s)
  case 0
  then show ?case by simp
next
  case (Suc n)
  have lex: "s\<lparr>last_previous := a, p_previous := b, p_lexer := l\<rparr> =
      (s\<lparr>p_lexer := l\<rparr>)\<lparr>last_previous := a, p_previous := b\<rparr>" for s l by simp
  have err: "report_error_at m t (s\<lparr>last_previous := a, p_previous := b\<rparr>) =
      (report_error_at m t s)\<lparr>last_previous := a, p_previous := b\<rparr>" for m t s
    by (simp add: report_error_at_def)
  have tri: "s\<lparr>last_previous := a, p_previous := b, pending_trivia := ts\<rparr> =
      (s\<lparr>pending_trivia := ts\<rparr>)\<lparr>last_previous := a, p_previous := b\<rparr>" for s ts by simp
  show ?case
  proof (cases "scan (big_from_str r) (p_lexer s)")
    case None
    then show ?thesis by simp
  next
    case (Some tl)
    obtain t l where tl: "tl = (t, l)" by (cases tl)
    show ?thesis
      using Some tl
      by (cases "kind t") (simp_all add: lex tri err Suc.IH Let_def is_trivia_def del: parser.update_convs)
  qed
qed

lemma scan_real_token_previous:
  "scan_real_token r (s\<lparr>last_previous := a, p_previous := b\<rparr>) =
     map_option (\<lambda>(t, s'). (t, s'\<lparr>last_previous := a, p_previous := b\<rparr>)) (scan_real_token r s)"
  by (simp add: scan_real_token_def scan_real_loop_previous tokens_left_def)

lemma p_advance_gives:
  assumes "ok src s"
  shows "gives (p_advance r s)
    (\<lambda>s'. after src s s' \<and> p_previous s' = p_current s \<and> last_previous s' = p_previous s \<and>
       tend (last_previous s') \<le> tstart (p_previous s') \<and> tend (p_previous s') \<le> here s' \<and>
       unread s' + weight (p_current s) \<le> unread s \<and> consumed s' = consumed s + 1)"
proof (cases "lookahead s")
  case Nil
  have cur: "tstart (p_current s) \<le> tend (p_current s)" "tend (p_previous s) \<le> tstart (p_current s)"
    "tend (p_current s) \<le> current (p_lexer s)" "tend (p_current s) \<le> length src"
    using assms by (simp_all add: ok_def tok_def tok_in_def in_order_def)
  obtain t s1 where sc: "scan_real_token r s = Some (t, s1)" "after src s s1" "scans s s1" "tok src t"
    "unread s1 + weight t \<le> unread s" "current (p_lexer s) \<le> tstart t" "tend t \<le> current (p_lexer s1)"
    using scan_real_token_gives [OF assms, of r] by (auto simp: gives_def)
  have la: "lookahead s1 = []" using sc(3) Nil by (simp add: scans_def)
  have adv: "p_advance r s = Some (s1\<lparr>last_previous := p_previous s, p_previous := p_current s,
      p_current := t, rewound_end := last_end s1,
      last_end := (if any_of [TkSym SyNewline, TkSym SySemicolon, TkNone, TkEof] (kind (p_current s))
        then last_end s1 else tend (p_current s)),
      consumed := consumed s1 + 1, brace_depth := brace_depth s1 + brace_change (kind (p_current s))\<rparr>)"
    using Nil sc(1) by (simp add: p_advance_def scan_real_token_previous Let_def)
  show ?thesis
    unfolding adv
    using sc(2-7) cur la
    by (simp add: gives_def after_def ok_def unread_def in_order_def here_def scans_def)
next
  case (Cons t ts)
  then show ?thesis
    using assms
    by (auto simp: p_advance_def Let_def gives_def after_def ok_def unread_def tok_def tok_in_def
        in_order_def here_def)
qed

lemmas p_advance_rule = gives_then [OF p_advance_gives]


lemma weight_other: "p (kind t) \<Longrightarrow> \<not> p TkEof \<Longrightarrow> weight t = 1"
  by (auto simp: weight_def)

lemma match_tok_rule:
  assumes "ok src s"
    and "\<And>s'. p (kind (p_current s)) \<Longrightarrow> after src s s' \<and> p_previous s' = p_current s \<and>
      (\<not> p TkEof \<longrightarrow> unread s' < unread s) \<Longrightarrow> Q (True, s')"
    and "\<not> p (kind (p_current s)) \<Longrightarrow> Q (False, s)"
  shows "gives (match_tok r p s) Q"
  unfolding match_tok_def
  by (intro gives_rules p_advance_rule [OF assms(1)])
    (auto intro!: assms simp: weight_other [of p "p_current s"])

lemma missing_tok: "ok src s \<Longrightarrow> tok src (missing_token s)"
  by (simp add: missing_token_def ok_def tok_def tok_in_def hidden_def Let_def)

lemma consume_tok_rule:
  assumes "ok src s"
    and "\<And>t s'. after src s s' \<and> tok src t \<and>
      (p (kind (p_current s)) \<longrightarrow> t = p_current s \<and> (\<not> p TkEof \<longrightarrow> unread s' < unread s)) \<and>
      (\<not> p (kind (p_current s)) \<longrightarrow> errors s' \<noteq> [] \<and> kind t = TkEof) \<and> here s \<le> tend t \<and>
      tstart t \<le> here s' \<Longrightarrow> Q (t, s')"
  shows "gives (consume_tok r p msg s) Q"
proof -
  have err: "after src s (report_error msg s)" "errors (report_error msg s) \<noteq> []"
    using report_error_at_after [OF assms(1)] assms(1) by (simp_all add: report_error_def)
  have "tok src (p_previous s')" if "after src s s'" for s' using that by (simp add: after_def ok_def)
  moreover have "tstart (p_current s) \<le> tend (p_current s)"
    using assms(1) by (simp add: ok_def tok_def tok_in_def)
  moreover have "tstart (p_current (report_error msg s)) \<le> here (report_error msg s)"
    by (simp add: here_def)
  moreover have "here s \<le> tend (p_current s)"
    using assms(1) by (simp add: ok_def tok_def tok_in_def here_def)
  moreover have "here s = tstart (p_current (report_error msg s))"
    by (simp add: report_error_def here_def)
  ultimately show ?thesis
    unfolding consume_tok_def
    using err missing_tok [OF after_ok [OF err(1)]] assms(1)
    by (intro gives_rules p_advance_rule [OF assms(1)]) (auto intro!: assms(2) simp: missing_token_def Let_def ok_def weight_other [of p "p_current s"])
qed

lemma ok_push:
  assumes "ok src s" "tok src t" "tend t \<le> current (p_lexer s)"
    and "list_all (\<lambda>u. tend u \<le> tstart t) (p_previous s # p_current s # lookahead s)"
  shows "ok src (s\<lparr>lookahead := lookahead s @ [t]\<rparr>)"
  using assms by (simp add: ok_def in_order_def sorted_wrt_append list_all_iff)

text \<open>What looking ahead leaves alone: all but the queue, which it only adds to.\<close>

definition peeks :: "parser \<Rightarrow> parser \<Rightarrow> bool" where
  "peeks s s' \<longleftrightarrow>
     p_current s' = p_current s \<and> p_previous s' = p_previous s \<and> last_previous s' = last_previous s \<and>
     rewound_end s' = rewound_end s \<and> consumed s' = consumed s \<and>
     (\<exists>us. lookahead s' = lookahead s @ us)"

lemma fill_lookahead_gives:
  "ok src s \<Longrightarrow> gives (fill_lookahead r k s)
     (\<lambda>s'. after src s s' \<and> peeks s s' \<and> length (lookahead s') = length (lookahead s) + k)"
proof (induction k arbitrary: s)
  case 0
  then show ?case by (simp add: gives_def after_refl peeks_def)
next
  case (Suc k)
  show ?case
    unfolding fill_lookahead.simps
  proof (intro gives_rules gives_then2 [OF scan_real_token_gives [OF Suc.prems]])
    fix t s1
    assume s1: "after src s s1 \<and> scans s s1 \<and> tok src t \<and> unread s1 + weight t \<le> unread s \<and>
      current (p_lexer s) \<le> tstart t \<and> tend t \<le> current (p_lexer s1)"
    let ?s = "s1\<lparr>lookahead := lookahead s1 @ [t]\<rparr>"
    have "list_all (\<lambda>u. tend u \<le> tstart t) (p_previous s1 # p_current s1 # lookahead s1)"
      using Suc.prems s1 unfolding ok_def in_order_def scans_def by (auto simp: list_all_iff)
    then have "ok src ?s" using s1 by (intro ok_push) (simp_all add: after_def)
    moreover have "after src s ?s" using calculation s1 by (simp add: after_def unread_def here_def)
    moreover have "peeks s s2" if "peeks ?s s2" for s2
      using that s1 by (auto simp: peeks_def scans_def)
    ultimately show "gives (fill_lookahead r k ?s)
      (\<lambda>s'. after src s s' \<and> peeks s s' \<and> length (lookahead s') = length (lookahead s) + Suc k)"
      using s1 by (intro gives_then [OF Suc.IH]) (auto simp: scans_def intro: after_trans)
  qed
qed

lemma peek_at_rule:
  assumes "ok src s" "1 \<le> n"
    and "\<And>t s'. after src s s' \<and> peeks s s' \<and> tok src t \<and> n \<le> length (lookahead s') \<and>
      t = lookahead s' ! (n - 1) \<Longrightarrow> Q (t, s')"
  shows "gives (peek_at r n s) Q"
proof -
  obtain s' where s': "fill_lookahead r (n - length (lookahead s)) s = Some s'" "after src s s'"
    "length (lookahead s') = length (lookahead s) + (n - length (lookahead s))" "peeks s s'"
    using fill_lookahead_gives [OF assms(1), of r "n - length (lookahead s)"] by (auto simp: gives_def)
  have n: "n - 1 < length (lookahead s')" "n \<le> length (lookahead s')" using s'(3) assms(2) by linarith+
  then have "tok src (lookahead s' ! (n - 1))"
    using s'(2) by (auto simp: after_def ok_def list_all_length)
  then show ?thesis
    using s' n assms(2) assms(3) [of s' "lookahead s' ! (n - 1)"] by (simp add: peek_at_def gives_def)
qed

lemma rewind_gives:
  assumes "ok src s" "0 < consumed s" "tend (last_previous s) \<le> tstart (p_previous s)"
  shows "gives (rewind s)
    (\<lambda>s'. ok src s' \<and> block_count s' = block_count s \<and> functions_count s' = functions_count s \<and>
       errors s' = errors s \<and> unread s' = unread s + weight (p_previous s) \<and>
       p_current s' = p_previous s)"
proof -
  have "tstart (p_previous s) \<le> tend (p_previous s)"
    using assms(1) by (simp add: ok_def tok_def tok_in_def)
  then have "in_order (s\<lparr>lookahead := p_current s # lookahead s, p_current := p_previous s,
      p_previous := last_previous s\<rparr>)"
    using assms(1,3) by (force simp: ok_def in_order_def list_all_iff)
  then show ?thesis
    using assms(1,2) by (auto simp: rewind_def gives_def ok_def unread_def in_order_def)
qed

section \<open>Loops over tokens\<close>

lemma skip_while_gives:
  "ok src s \<Longrightarrow> unread s < n \<Longrightarrow> \<not> p TkEof \<Longrightarrow>
     gives (skip_while r p n s)
       (\<lambda>s'. after src s s' \<and> \<not> p (kind (p_current s')) \<and>
          (p (kind (p_current s)) \<longrightarrow> unread s' < unread s) \<and>
          (\<not> p (kind (p_current s)) \<longrightarrow> s' = s))"
proof (induction n arbitrary: s)
  case 0
  then show ?case by simp
next
  case (Suc n)
  show ?case
    unfolding skip_while.simps
  proof (intro gives_rules match_tok_rule [OF Suc.prems(1)])
    fix s'
    assume p: "p (kind (p_current s))"
      and s': "after src s s' \<and> p_previous s' = p_current s \<and> (\<not> p TkEof \<longrightarrow> unread s' < unread s)"
    then have "unread s' < n" "ok src s'" "unread s' < unread s"
      using s' Suc.prems(2,3) by (auto simp: after_def)
    then show "gives (skip_while r p n s')
       (\<lambda>s'. after src s s' \<and> \<not> p (kind (p_current s')) \<and>
          (p (kind (p_current s)) \<longrightarrow> unread s' < unread s) \<and>
          (\<not> p (kind (p_current s)) \<longrightarrow> s' = s))"
      using p s' Suc.prems(3) by (intro gives_then [OF Suc.IH]) (auto simp: after_def)
  qed (use Suc.prems(1) in \<open>auto simp: after_refl\<close>)
qed

lemmas skip_while_rule = gives_then [OF skip_while_gives [OF _ unread_tokens_left]]

lemma any_of_Eof [simp]: "any_of ks TkEof \<longleftrightarrow> TkEof \<in> set ks"
  by (simp add: any_of_def)

lemma Eof_no_operator [simp]:
  "TkEof \<notin> set assignment_operators" "TkEof \<notin> set factor_operators" "TkEof \<notin> set term_operators"
  "TkEof \<notin> set equality_operators" "TkEof \<notin> set shift_operators"
  "TkEof \<notin> set comparison_operators" "TkEof \<notin> set unary_operators"
  by (simp_all add: assignment_operators_def factor_operators_def term_operators_def
      equality_operators_def shift_operators_def comparison_operators_def unary_operators_def)

lemma Eof_simps [simp]:
  "\<not> is_identifier TkEof" "\<not> is_decorator TkEof" "\<not> is_interpolation TkEof" "\<not> is_literal TkEof"
  by (simp_all add: is_identifier_def is_decorator_def is_interpolation_def is_literal_def)

lemma ignore_newlines_rule:
  assumes "ok src s"
    and "\<And>s'. after src s s' \<and> (s' = s \<or> unread s' < unread s) \<Longrightarrow> Q s'"
  shows "gives (ignore_newlines r s) Q"
  unfolding ignore_newlines_def
  by (rule skip_while_rule [OF assms(1)]) (auto intro: assms(2))

lemma ignore_newlines_only_rule:
  "ok src s \<Longrightarrow> (\<And>s'. after src s s' \<Longrightarrow> Q s') \<Longrightarrow> gives (ignore_newlines_only r s) Q"
  unfolding ignore_newlines_only_def
  by (rule skip_while_rule) (auto simp: any_of_def)

text \<open>The newlines passed are all still to be read, so there are no more of them than that.\<close>

lemma newlines_unread:
  "kind (p_current s) = TkSym SyNewline \<Longrightarrow> n \<le> length (lookahead s) \<Longrightarrow>
     list_all (\<lambda>t. kind t = TkSym SyNewline) (take n (lookahead s)) \<Longrightarrow> n < unread s"
proof -
  assume c: "kind (p_current s) = TkSym SyNewline" "n \<le> length (lookahead s)"
    "list_all (\<lambda>t. kind t = TkSym SyNewline) (take n (lookahead s))"
  have "sum_list (map weight ts) = length ts" if "list_all (\<lambda>t. kind t = TkSym SyNewline) ts" for ts
    using that by (induction ts) (simp_all add: weight_def)
  from this [OF c(3)] have "n = sum_list (map weight (take n (lookahead s)))" using c(2) by simp
  also have "\<dots> \<le> sum_list (map weight (take n (lookahead s))) + sum_list (map weight (drop n (lookahead s)))"
    by simp
  also have "\<dots> = sum_list (map weight (lookahead s))"
    by (metis append_take_drop_id map_append sum_list_append)
  finally show ?thesis using c(1) by (simp add: unread_def weight_def)
qed

lemma past_newlines_gives:
  "ok src s \<Longrightarrow> kind (p_current s) = TkSym SyNewline \<Longrightarrow> k \<le> length (lookahead s) \<Longrightarrow>
     list_all (\<lambda>t. kind t = TkSym SyNewline) (take k (lookahead s)) \<Longrightarrow> unread s \<le> n + k \<Longrightarrow>
     gives (past_newlines r n (k + 1) s) (\<lambda>(m, s'). after src s s' \<and> 1 \<le> m)"
proof (induction n arbitrary: k s)
  case 0
  then show ?case using newlines_unread [of s k] by simp
next
  case (Suc n)
  show ?case
    unfolding past_newlines.simps
  proof (intro gives_rules peek_at_rule [OF Suc.prems(1)])
    fix t s1
    assume s1: "after src s s1 \<and> peeks s s1 \<and> tok src t \<and> k + 1 \<le> length (lookahead s1) \<and>
      t = lookahead s1 ! (k + 1 - 1)" and t: "kind t = TkSym SyNewline"
    then have "take (k + 1) (lookahead s1) = take k (lookahead s) @ [t]"
      using Suc.prems(3) by (auto simp: peeks_def take_Suc_conv_app_nth)
    then show "gives (past_newlines r n (k + 1 + 1) s1) (\<lambda>(m, s'). after src s s' \<and> 1 \<le> m)"
      using s1 t Suc.prems
      by (intro gives_then2 [OF Suc.IH]) (auto simp: after_def peeks_def)
  qed (use Suc.prems in \<open>auto simp: after_def\<close>)
qed

lemma advance_times_gives:
  "ok src s \<Longrightarrow> gives (advance_times r k s) (\<lambda>s'. after src s s')"
proof (induction k arbitrary: s)
  case 0
  then show ?case by (simp add: gives_def after_refl)
next
  case (Suc k)
  show ?case
    unfolding advance_times.simps
    by (intro gives_rules p_advance_rule [OF Suc.prems] gives_then [OF Suc.IH]) (auto simp: after_def)
qed

lemma skip_newline_before_rule:
  assumes "ok src s" and "\<And>s'. after src s s' \<Longrightarrow> Q s'"
  shows "gives (skip_newline_before r c s) Q"
  unfolding skip_newline_before_def
proof (intro gives_rules)
  assume "\<not> kind (p_current s) \<noteq> TkSym SyNewline"
  then have "gives (past_newlines r (tokens_left s) 1 s) (\<lambda>(m, s'). after src s s' \<and> 1 \<le> m)"
    using past_newlines_gives [OF assms(1), of 0 "tokens_left s" r] unread_tokens_left [of s] by simp
  then show "gives (past_newlines r (tokens_left s) 1 s)
     (\<lambda>x. gives (case x of (ahead, s1) \<Rightarrow> do { (t, s2) \<leftarrow> peek_at r ahead s1;
        if c (kind t) then advance_times r ahead s2 else Some s2 }) Q)"
    by (rule gives_then2)
      (intro gives_rules peek_at_rule gives_then [OF advance_times_gives];
       auto intro: assms(2) simp: after_def)
qed (rule assms(2) [OF after_refl [OF assms(1)]])

lemma synchronize_loop_gives:
  "ok src s \<Longrightarrow> unread s < n \<Longrightarrow>
     gives (synchronize_loop r depth in_block n s) (\<lambda>s'. after src s s')"
proof (induction n arbitrary: s)
  case 0
  then show ?case by simp
next
  case (Suc n)
  show ?case
    unfolding synchronize_loop.simps
  proof (intro gives_rules p_advance_rule [OF Suc.prems(1)])
    fix s1
    assume "after src s s1 \<and> p_previous s1 = p_current s \<and> last_previous s1 = p_previous s \<and>
        tend (last_previous s1) \<le> tstart (p_previous s1) \<and> tend (p_previous s1) \<le> here s1 \<and>
        unread s1 + weight (p_current s) \<le> unread s \<and> consumed s1 = consumed s + 1"
      and "\<not> p_at_end s \<and> depth \<le> brace_depth s"
    then show "gives (synchronize_loop r depth in_block n s1) (\<lambda>s'. after src s s')"
      using Suc.prems by (intro gives_then [OF Suc.IH]) (auto simp: after_def p_at_end_def weight_def)
  qed (use Suc.prems in \<open>auto simp: after_refl\<close>)
qed

lemma synchronize_rule:
  assumes "ok src s" and "\<And>s'. after src s s' \<Longrightarrow> Q s'"
  shows "gives (synchronize r depth in_block s) Q"
  unfolding synchronize_def
proof (rule gives_then [OF synchronize_loop_gives])
  show "ok src (s\<lparr>panic_mode := False\<rparr>)" "unread (s\<lparr>panic_mode := False\<rparr>) < tokens_left s"
    using assms(1) unread_tokens_left [of s] by simp_all
next
  fix s'
  assume "after src (s\<lparr>panic_mode := False\<rparr>) s'"
  then show "Q s'" by (intro assms(2)) (simp add: after_def)
qed

lemma end_statement_rule:
  assumes "ok src s" and "\<And>s'. after src s s' \<Longrightarrow> Q s'"
  shows "gives (end_statement r s) Q"
  unfolding end_statement_def
  by (intro gives_rules match_tok_rule consume_tok_rule skip_while_rule)
    (use assms in \<open>auto simp: after_def any_of_def\<close>)

section \<open>Comments\<close>

lemma drain_tokens:
  assumes "take_trivia from s = (ts, s')" "ok src s"
  shows "list_all (tok src) ts \<and> after src s s' \<and> panic_mode s' = panic_mode s \<and>
    p_current s' = p_current s \<and> p_previous s' = p_previous s \<and> brace_depth s' = brace_depth s \<and>
    unread s' = unread s \<and> errors s' = errors s"
proof -
  obtain i where i: "ts = drop i (pending_trivia s)"
    "s' = s\<lparr>pending_trivia := take i (pending_trivia s)\<rparr>"
    using assms(1) by (auto simp: take_trivia_def Let_def)
  have "list_all (tok src) (take i (pending_trivia s) @ drop i (pending_trivia s))"
    using assms(2) by (simp add: ok_def)
  then have "list_all (tok src) (take i (pending_trivia s))" "list_all (tok src) ts"
    by (simp_all only: list_all_append i(1))
  then show ?thesis using assms(2) by (simp add: i(2) after_def ok_def unread_def)
qed

end
