(* ===== verification/Parser_Rules.thy ===== *)
theory Parser_Rules
  imports Parser_Facts
begin

text \<open>
  What the trees of the parser have in common, and the rules of expressions run through the
  specifications of what they call. The rules further up are the assumptions of a locale:
  they hold on fewer tokens than are left, and that is enough for the rules below, which
  have consumed one by the time they call them.
\<close>

section \<open>Trees\<close>

text \<open>A span in order and inside a source of \<open>n\<close> characters.\<close>

definition within :: "nat \<Rightarrow> span \<Rightarrow> bool" where
  "within n sp \<longleftrightarrow> sstart sp \<le> send sp \<and> send sp \<le> n"

text \<open>
  Every node of a tree has such a span. The name an import takes from a path that ends in
  dots is left out: its span is computed from their number.
\<close>

primrec
      spans_expr :: "nat \<Rightarrow> expr \<Rightarrow> bool"
  and spans_ekind :: "nat \<Rightarrow> expr_kind \<Rightarrow> bool"
  and spans_segment :: "nat \<Rightarrow> segment \<Rightarrow> bool"
  and spans_arm :: "nat \<Rightarrow> when_arm \<Rightarrow> bool"
  and spans_stmt :: "nat \<Rightarrow> stmt \<Rightarrow> bool"
  and spans_skind :: "nat \<Rightarrow> stmt_kind \<Rightarrow> bool"
  and spans_decl :: "nat \<Rightarrow> decl \<Rightarrow> bool"
  and spans_dkind :: "nat \<Rightarrow> decl_kind \<Rightarrow> bool" where
  "spans_expr n (Expr k s) \<longleftrightarrow> within n s \<and> spans_ekind n k"
| "spans_ekind n ENil \<longleftrightarrow> True"
| "spans_ekind n (EBool b) \<longleftrightarrow> True"
| "spans_ekind n (EInteger i) \<longleftrightarrow> True"
| "spans_ekind n (EFloat x) \<longleftrightarrow> True"
| "spans_ekind n (EBigNumber i) \<longleftrightarrow> True"
| "spans_ekind n (ELiteral t) \<longleftrightarrow> True"
| "spans_ekind n (EUnary op a ln) \<longleftrightarrow> spans_expr n a"
| "spans_ekind n (EBinary a op b ln) \<longleftrightarrow> spans_expr n a \<and> spans_expr n b"
| "spans_ekind n (ELogical a op b ln) \<longleftrightarrow> spans_expr n a \<and> spans_expr n b"
| "spans_ekind n (ECircuit a op b) \<longleftrightarrow> spans_expr n a \<and> spans_expr n b"
| "spans_ekind n (EGrouping a) \<longleftrightarrow> spans_expr n a"
| "spans_ekind n (ERange a b ln) \<longleftrightarrow> spans_expr n a \<and> spans_expr n b"
| "spans_ekind n (EIdentifier t) \<longleftrightarrow> True"
| "spans_ekind n (ECondition a b c) \<longleftrightarrow> spans_expr n a \<and> spans_expr n b \<and> spans_expr n c"
| "spans_ekind n (ECall a xs ln) \<longleftrightarrow> spans_expr n a \<and> all_true (map (spans_expr n) xs)"
| "spans_ekind n (EGet a t) \<longleftrightarrow> spans_expr n a"
| "spans_ekind n (ESet a t b) \<longleftrightarrow> spans_expr n a \<and> spans_expr n b"
| "spans_ekind n (EIndex a b ln) \<longleftrightarrow> spans_expr n a \<and> spans_expr n b"
| "spans_ekind n (ESlice a b c ln) \<longleftrightarrow> spans_expr n a \<and> spans_expr n b \<and> spans_expr n c"
| "spans_ekind n (EList xs) \<longleftrightarrow> all_true (map (spans_expr n) xs)"
| "spans_ekind n (EDict xs ys) \<longleftrightarrow> all_true (map (spans_expr n) xs) \<and> all_true (map (spans_expr n) ys)"
| "spans_ekind n (EParent t) \<longleftrightarrow> True"
| "spans_ekind n (ESelf t) \<longleftrightarrow> True"
| "spans_ekind n (EAssign a b) \<longleftrightarrow> spans_expr n a \<and> spans_expr n b"
| "spans_ekind n (EAnonymous d) \<longleftrightarrow> spans_decl n d"
| "spans_ekind n (ETypeHint ts b) \<longleftrightarrow> list_all (\<lambda>t. within n (ty_span t)) ts"
| "spans_ekind n (EArgument t a) \<longleftrightarrow> spans_expr n a"
| "spans_ekind n (ECompoundAssign a op b ln) \<longleftrightarrow> spans_expr n a \<and> spans_expr n b"
| "spans_ekind n (EUpdate a op ln) \<longleftrightarrow> spans_expr n a"
| "spans_ekind n (EInterpolation xs) \<longleftrightarrow> all_true (map (spans_segment n) xs)"
| "spans_ekind n (EShorthand t) \<longleftrightarrow> True"
| "spans_segment n (Text t) \<longleftrightarrow> True"
| "spans_segment n (Value e) \<longleftrightarrow> spans_expr n e"
| "spans_arm n (WhenArm ls b s) \<longleftrightarrow> within n s \<and> all_true (map (spans_expr n) ls) \<and> spans_stmt n b"
| "spans_stmt n (Stmt k s) \<longleftrightarrow> within n s \<and> spans_skind n k"
| "spans_skind n SNone \<longleftrightarrow> True"
| "spans_skind n SFixContinue \<longleftrightarrow> True"
| "spans_skind n (SEcho a) \<longleftrightarrow> spans_expr n a"
| "spans_skind n (SExpression a) \<longleftrightarrow> spans_expr n a"
| "spans_skind n (SIf a s q) \<longleftrightarrow> spans_expr n a \<and> spans_stmt n s \<and> opt_true (map_option (spans_stmt n) q)"
| "spans_skind n (SWhile a s) \<longleftrightarrow> spans_expr n a \<and> spans_stmt n s"
| "spans_skind n (SFor k t a s) \<longleftrightarrow> spans_expr n a \<and> spans_stmt n s"
| "spans_skind n (SIter i c xs s) \<longleftrightarrow> opt_true (map_option (spans_stmt n) i) \<and> opt_true (map_option (spans_expr n) c) \<and> all_true (map (spans_expr n) xs) \<and> spans_stmt n s"
| "spans_skind n (SDoWhile s a) \<longleftrightarrow> spans_stmt n s \<and> spans_expr n a"
| "spans_skind n (SContinue t) \<longleftrightarrow> True"
| "spans_skind n (SBreak t) \<longleftrightarrow> True"
| "spans_skind n (SRaise a) \<longleftrightarrow> spans_expr n a"
| "spans_skind n (SReturn t a) \<longleftrightarrow> spans_expr n a"
| "spans_skind n (SAssert a q) \<longleftrightarrow> spans_expr n a \<and> opt_true (map_option (spans_expr n) q)"
| "spans_skind n (SUsing a xs q) \<longleftrightarrow> spans_expr n a \<and> all_true (map (spans_arm n) xs) \<and> opt_true (map_option (spans_stmt n) q)"
| "spans_skind n (SImport p ts a xs i x) \<longleftrightarrow> all_true (map (spans_expr n) xs)"
| "spans_skind n (SCatch s q e) \<longleftrightarrow> spans_stmt n s \<and> opt_true (map_option (spans_stmt n) q) \<and> opt_true (map_option (spans_expr n) e)"
| "spans_skind n (SBlock xs) \<longleftrightarrow> all_true (map (spans_stmt n) xs)"
| "spans_skind n (SDecl d) \<longleftrightarrow> spans_decl n d"
| "spans_skind n (SVar t a q i) \<longleftrightarrow> spans_expr n a \<and> opt_true (map_option (spans_expr n) q)"
| "spans_skind n (SVarList xs) \<longleftrightarrow> all_true (map (spans_stmt n) xs)"
| "spans_skind n (STrivia t) \<longleftrightarrow> True"
| "spans_decl n (Decl k s) \<longleftrightarrow> within n s \<and> spans_dkind n k"
| "spans_dkind n (DStmt s) \<longleftrightarrow> spans_stmt n s"
| "spans_dkind n (DFunction t xs s v) \<longleftrightarrow> all_true (map (spans_expr n) xs) \<and> spans_stmt n s"
| "spans_dkind n (DMethod t xs s v i) \<longleftrightarrow> all_true (map (spans_expr n) xs) \<and> spans_stmt n s"
| "spans_dkind n (DProperty t a b i c) \<longleftrightarrow> spans_expr n a \<and> spans_expr n b"
| "spans_dkind n (DClass t q xs ys x) \<longleftrightarrow> opt_true (map_option (spans_expr n) q) \<and> all_true (map (spans_decl n) xs) \<and> all_true (map (spans_decl n) ys)"
| "spans_dkind n (DTrivia t) \<longleftrightarrow> True"
text \<open>
  The tokens in a node are from the source, and none has a name of lowering. A shorthand entry
  is named by a string of the program, and a dot of an import path by how many there are.
\<close>

primrec sound :: "ustring \<Rightarrow> node \<Rightarrow> bool" where
  "sound src (NExpr k) \<longleftrightarrow>
     (case k of
        EShorthand t \<Rightarrow> tok_in src t
      | EInterpolation segs \<Rightarrow> 2 \<le> length segs
      | _ \<Rightarrow> list_all (tok src) (node_tokens (NExpr k)))"
| "sound src (NText t) \<longleftrightarrow> tok src t"
| "sound src (NStmt k) \<longleftrightarrow>
     (case k of
        SImport _ ts _ _ _ _ \<Rightarrow> list_all (\<lambda>t. \<not> hidden t) ts
      | _ \<Rightarrow> list_all (tok src) (node_tokens (NStmt k)))"
| "sound src (NDecl k) \<longleftrightarrow> list_all (tok src) (node_tokens (NDecl k))"

text \<open>Only a place that can hold a value is assigned to.\<close>

primrec assigns_place :: "node \<Rightarrow> bool" where
  "assigns_place (NExpr k) \<longleftrightarrow>
     (case k of
        EAssign t _ \<Rightarrow> assign_target t
      | ECompoundAssign t _ _ _ \<Rightarrow> update_target t
      | EUpdate t _ _ \<Rightarrow> update_target t
      | _ \<Rightarrow> True)"
| "assigns_place (NText t) \<longleftrightarrow> True"
| "assigns_place (NStmt k) \<longleftrightarrow> True"
| "assigns_place (NDecl k) \<longleftrightarrow> True"

text \<open>The three together; the last one only where no error has been reported.\<close>

definition fine_expr :: "ustring \<Rightarrow> bool \<Rightarrow> expr \<Rightarrow> bool" where
  "fine_expr src clean e \<longleftrightarrow>
     nodes_expr (sound src) e \<and> spans_expr (length src) e \<and> (clean \<longrightarrow> nodes_expr assigns_place e)"

definition fine_ekind :: "ustring \<Rightarrow> bool \<Rightarrow> expr_kind \<Rightarrow> bool" where
  "fine_ekind src clean k \<longleftrightarrow>
     nodes_ekind (sound src) k \<and> spans_ekind (length src) k \<and> (clean \<longrightarrow> nodes_ekind assigns_place k)"

definition fine_segment :: "ustring \<Rightarrow> bool \<Rightarrow> segment \<Rightarrow> bool" where
  "fine_segment src clean g \<longleftrightarrow>
     nodes_segment (sound src) g \<and> spans_segment (length src) g \<and> (clean \<longrightarrow> nodes_segment assigns_place g)"

definition fine_arm :: "ustring \<Rightarrow> bool \<Rightarrow> when_arm \<Rightarrow> bool" where
  "fine_arm src clean a \<longleftrightarrow>
     nodes_arm (sound src) a \<and> spans_arm (length src) a \<and> (clean \<longrightarrow> nodes_arm assigns_place a)"

definition fine_stmt :: "ustring \<Rightarrow> bool \<Rightarrow> stmt \<Rightarrow> bool" where
  "fine_stmt src clean s \<longleftrightarrow>
     nodes_stmt (sound src) s \<and> spans_stmt (length src) s \<and> (clean \<longrightarrow> nodes_stmt assigns_place s)"

definition fine_skind :: "ustring \<Rightarrow> bool \<Rightarrow> stmt_kind \<Rightarrow> bool" where
  "fine_skind src clean k \<longleftrightarrow>
     nodes_skind (sound src) k \<and> spans_skind (length src) k \<and> (clean \<longrightarrow> nodes_skind assigns_place k)"

definition fine_decl :: "ustring \<Rightarrow> bool \<Rightarrow> decl \<Rightarrow> bool" where
  "fine_decl src clean d \<longleftrightarrow>
     nodes_decl (sound src) d \<and> spans_decl (length src) d \<and> (clean \<longrightarrow> nodes_decl assigns_place d)"

definition fine_dkind :: "ustring \<Rightarrow> bool \<Rightarrow> decl_kind \<Rightarrow> bool" where
  "fine_dkind src clean k \<longleftrightarrow>
     nodes_dkind (sound src) k \<and> spans_dkind (length src) k \<and> (clean \<longrightarrow> nodes_dkind assigns_place k)"

text \<open>The same for lists.\<close>

definition fine_exprs :: "ustring \<Rightarrow> bool \<Rightarrow> expr list \<Rightarrow> bool" where
  "fine_exprs src clean xs \<longleftrightarrow>
     list_all (nodes_expr (sound src)) xs \<and> list_all (spans_expr (length src)) xs \<and>
     (clean \<longrightarrow> list_all (nodes_expr assigns_place) xs)"

definition fine_segments :: "ustring \<Rightarrow> bool \<Rightarrow> segment list \<Rightarrow> bool" where
  "fine_segments src clean xs \<longleftrightarrow>
     list_all (nodes_segment (sound src)) xs \<and> list_all (spans_segment (length src)) xs \<and>
     (clean \<longrightarrow> list_all (nodes_segment assigns_place) xs)"

definition fine_arms :: "ustring \<Rightarrow> bool \<Rightarrow> when_arm list \<Rightarrow> bool" where
  "fine_arms src clean xs \<longleftrightarrow>
     list_all (nodes_arm (sound src)) xs \<and> list_all (spans_arm (length src)) xs \<and>
     (clean \<longrightarrow> list_all (nodes_arm assigns_place) xs)"

definition fine_stmts :: "ustring \<Rightarrow> bool \<Rightarrow> stmt list \<Rightarrow> bool" where
  "fine_stmts src clean xs \<longleftrightarrow>
     list_all (nodes_stmt (sound src)) xs \<and> list_all (spans_stmt (length src)) xs \<and>
     (clean \<longrightarrow> list_all (nodes_stmt assigns_place) xs)"

definition fine_decls :: "ustring \<Rightarrow> bool \<Rightarrow> decl list \<Rightarrow> bool" where
  "fine_decls src clean xs \<longleftrightarrow>
     list_all (nodes_decl (sound src)) xs \<and> list_all (spans_decl (length src)) xs \<and>
     (clean \<longrightarrow> list_all (nodes_decl assigns_place) xs)"

lemmas fine_defs = fine_expr_def fine_ekind_def fine_segment_def fine_arm_def fine_stmt_def
  fine_skind_def fine_decl_def fine_dkind_def fine_exprs_def fine_segments_def fine_arms_def
  fine_stmts_def fine_decls_def

section \<open>Places\<close>

lemma tok_bounds [simp]: "tok src t \<Longrightarrow> tstart t \<le> length src" "tok src t \<Longrightarrow> tend t \<le> length src"
  by (auto simp: tok_def tok_in_def)

lemma within_span_of [simp]: "tok src t \<Longrightarrow> within (length src) (span_of t)"
  by (auto simp: within_def span_of_def span_new_def tok_def tok_in_def)

lemma within_span_from [simp]: "ok src s \<Longrightarrow> from \<le> length src \<Longrightarrow> within (length src) (span_from from s)"
  by (auto simp: within_def span_from_def span_new_def ok_def)

lemma within_span_to [simp]: "within n a \<Longrightarrow> within n b \<Longrightarrow> within n (span_to a b)"
  by (auto simp: within_def span_to_def span_new_def)

lemma spans_within [simp]:
  "spans_expr n e \<Longrightarrow> within n (espan e)" "spans_stmt n s \<Longrightarrow> within n (sspan s)"
  "spans_decl n d \<Longrightarrow> within n (dspan d)"
  by (cases e, simp, cases s, simp, cases d, simp)

lemma within_start [simp]: "within n sp \<Longrightarrow> sstart sp \<le> n"
  by (simp add: within_def)

lemma ok_tokens [simp]:
  "ok src s \<Longrightarrow> tok src (p_current s)" "ok src s \<Longrightarrow> tok src (p_previous s)"
  "ok src s \<Longrightarrow> last_end s \<le> length src"
  by (simp_all add: ok_def)

lemma here_eq: "tstart (p_current s) = here s"
  by (simp add: here_def)

lemma tok_in_previous: "ok src s \<Longrightarrow> tok_in src (copy_to (p_previous s) k)"
  by (simp add: ok_def tok_def tok_in_def)

lemma here_bound [simp]: "ok src s \<Longrightarrow> here s \<le> length src"
  by (simp add: here_def)

lemma nodes_from [simp]:
  "nodes_expr P (expr_from k from s) \<longleftrightarrow> nodes_ekind P k"
  "nodes_stmt P (stmt_from k' from s) \<longleftrightarrow> nodes_skind P k'"
  "nodes_decl P (decl_from k'' from s) \<longleftrightarrow> nodes_dkind P k''"
  by (simp_all add: expr_from_def stmt_from_def decl_from_def)

lemma spans_from [simp]:
  "spans_expr n (expr_from k from s) \<longleftrightarrow> within n (span_from from s) \<and> spans_ekind n k"
  "spans_stmt n (stmt_from k' from s) \<longleftrightarrow> within n (span_from from s) \<and> spans_skind n k'"
  "spans_decl n (decl_from k'' from s) \<longleftrightarrow> within n (span_from from s) \<and> spans_dkind n k''"
  by (simp_all add: expr_from_def stmt_from_def decl_from_def)

lemma fine_kind:
  "fine_expr src c e \<Longrightarrow> fine_ekind src c (ekind e)" "fine_stmt src c s \<Longrightarrow> fine_skind src c (skind s)"
  "fine_decl src c d \<Longrightarrow> fine_dkind src c (dkind d)"
  by (cases e, simp add: fine_defs, cases s, simp add: fine_defs, cases d, simp add: fine_defs)

lemma newlines_rule:
  "ok src s \<Longrightarrow> (\<And>s'. after src s s' \<Longrightarrow> Q s') \<Longrightarrow> gives (ignore_newlines r s) Q"
  by (rule ignore_newlines_rule) blast+

text \<open>The same for an error just reported.\<close>

lemma report_frame [simp]:
  "ok src s \<Longrightarrow> ok src (report_error_at m t s)" "ok src s \<Longrightarrow> ok src (report_error m s)"
  "here (report_error_at m t s) = here s" "here (report_error m s) = here s"
  "unread (report_error_at m t s) = unread s" "unread (report_error m s) = unread s"
  "block_count (report_error m s) = block_count s" "functions_count (report_error m s) = functions_count s"
  using report_error_at_after [of src s m t] report_error_at_after [of src s m "p_current s"]
  by (simp_all add: report_error_def after_def here_def unread_def)

lemma report_errors: "ok src s \<Longrightarrow> errors (report_error m s) \<noteq> []"
  by (simp add: report_error_def)

lemma errors_report [simp]:
  "errors (report_error_at m t s) = [] \<longleftrightarrow> panic_mode s \<and> errors s = []"
  "errors (report_error m s) = [] \<longleftrightarrow> panic_mode s \<and> errors s = []"
  by (simp_all add: report_error_def report_error_at_def)

lemma report_let:
  assumes "ok src s"
    and "\<And>s'. after src s s' \<and> unread s' = unread s \<and> here s' = here s \<and> p_current s' = p_current s \<and>
      p_previous s' = p_previous s \<and> last_previous s' = last_previous s \<and> consumed s' = consumed s \<and>
      (b \<longrightarrow> errors s' \<noteq> []) \<Longrightarrow> gives (f s') Q"
  shows "gives (Let (if b then report_error m s else s) f) Q"
    and "gives (Let (if b then report_error_at m t s else s) f) Q"
proof -
  have a: "after src s (report_error m s)" "after src s (report_error_at m t s)"
    using report_error_at_after [OF assms(1)] by (simp_all add: report_error_def)
  then show "gives (Let (if b then report_error m s else s) f) Q"
    using assms(2) [of "report_error m s"] assms(2) [of s] after_refl [OF assms(1)] report_errors [OF assms(1)]
    by (simp add: report_error_def here_def unread_def)
  show "gives (Let (if b then report_error_at m t s else s) f) Q"
    using a assms(2) [of "report_error_at m t s"] assms(2) [of s] after_refl [OF assms(1)]
      assms(1) [unfolded ok_def]
    by (simp add: here_def unread_def)
qed

lemma spans_start [simp]:
  "sstart (espan (expr_from k from s)) = from" "sstart (span_to a b) = sstart a"
  "sstart (span_of t) = tstart t" "sstart (span_new i j) = i" "sstart (span_from from s) = from"
  by (simp_all add: expr_from_def span_from_def span_to_def span_of_def span_new_def)

lemma within_new [simp]: "a \<le> b \<Longrightarrow> b \<le> n \<Longrightarrow> within n (span_new a b)"
  by (simp add: within_def span_new_def)

section \<open>Parts\<close>

lemma implicit_type_fine: "tok src t \<Longrightarrow> fine_expr src c (implicit_type t k b)"
  by (simp add: implicit_type_def fine_defs Let_def)

text \<open>How a definition is run: its own steps, the leaves, and what the simplifier needs at the end.\<close>

lemmas run_defs = after_def fine_defs implicit_type_def Let_def

lemma parse_type_loop_gives:
  "ok src s \<Longrightarrow> unread s < n \<Longrightarrow> list_all (\<lambda>t. within (length src) (ty_span t)) types \<Longrightarrow>
     gives (parse_type_loop r n types s)
       (\<lambda>(ts, s'). after src s s' \<and> list_all (\<lambda>t. within (length src) (ty_span t)) ts)"
proof (induction n arbitrary: s types)
  case 0
  then show ?case by simp
next
  case (Suc n)
  show ?case
    unfolding parse_type_loop.simps
    by (intro gives_rules consume_tok_rule [where src = src] match_tok_rule [where src = src] gives_then2 [OF Suc.IH])
      (insert Suc.prems, simp_all add: run_defs)
qed

lemma parse_type_gives:
  "ok src s \<Longrightarrow>
     gives (parse_type r s) (\<lambda>(e, s'). after src s s' \<and> fine_expr src (errors s' = []) e)"
  unfolding parse_type_def
  by (intro gives_rules match_tok_rule [where src = src]
      gives_then2 [OF parse_type_loop_gives [where src = src]] unread_tokens_left)
    (simp_all add: run_defs)

lemmas parse_type_rule = gives_then2 [OF parse_type_gives]

lemma parse_args_gives:
  "ok src s \<Longrightarrow>
     gives (parse_args r s) (\<lambda>(e, s'). after src s s' \<and> fine_expr src (errors s' = []) e \<and>
       (is_identifier (kind (p_current s)) \<longrightarrow> unread s' < unread s))"
  unfolding parse_args_def
  by (intro gives_rules consume_tok_rule [where src = src] match_tok_rule [where src = src]
      parse_type_rule [where src = src])
    (simp_all add: run_defs)

lemmas parse_args_rule = gives_then2 [OF parse_args_gives]


lemma function_param_gives:
  "ok src s \<Longrightarrow>
     gives (function_param r s) (\<lambda>(e, s'). after src s s' \<and> fine_expr src (errors s' = []) e \<and>
       (is_identifier (kind (p_current s)) \<longrightarrow> unread s' < unread s))"
  unfolding function_param_def
  by (intro gives_rules consume_tok_rule [where src = src] newlines_rule [where src = src]
      parse_args_rule [where src = src])
    (simp_all add: run_defs, ((intro impI, simp)+)?)

lemmas function_param_rule = gives_then2 [OF function_param_gives]

lemma function_args_loop_gives:
  "ok src s \<Longrightarrow> unread s < n \<Longrightarrow> fine_exprs src (errors s = []) ps \<Longrightarrow>
     gives (function_args_loop r n ps s)
       (\<lambda>(ps', v, s'). after src s s' \<and> fine_exprs src (errors s' = []) ps')"
proof (induction n arbitrary: s ps)
  case 0
  then show ?case by simp
next
  case (Suc n)
  show ?case
    unfolding function_args_loop.simps
    by (intro gives_rules consume_tok_rule [where src = src] match_tok_rule [where src = src]
        function_param_rule [where src = src] gives_then3 [OF Suc.IH])
      (insert Suc.prems, simp_all add: run_defs check_tok_def, ((intro impI, simp)+)?)
qed

lemma function_args_gives:
  "ok src s \<Longrightarrow>
     gives (function_args r s)
       (\<lambda>(ps, v, s'). after src s s' \<and> fine_exprs src (errors s' = []) ps)"
  unfolding function_args_def
  by (intro gives_rules newlines_rule [where src = src] unread_tokens_left
      gives_then3 [OF function_args_loop_gives [where src = src]])
    (simp_all add: run_defs, ((intro impI, simp)+)?)

lemmas function_args_rule = gives_then3 [OF function_args_gives]

lemma anonymous_args_gives:
  "ok src s \<Longrightarrow>
     gives (anonymous_args r s)
       (\<lambda>(ps, v, s'). after src s s' \<and> fine_exprs src (errors s' = []) ps)"
  unfolding anonymous_args_def
  by (intro gives_rules match_tok_rule [where src = src] consume_tok_rule [where src = src]
      function_args_rule [where src = src])
    (simp_all add: run_defs, ((intro impI, simp)+)?)

lemma open_body_gives:
  "ok src s \<Longrightarrow> gives (open_body r msg s) (\<lambda>s'. after src s s')"
  unfolding open_body_def
  by (intro gives_rules match_tok_rule [where src = src]) (simp_all add: run_defs)

section \<open>The rules of expressions\<close>

abbreviation reads_expr :: "ustring \<Rightarrow> parser \<Rightarrow> expr \<times> parser \<Rightarrow> bool" where
  "reads_expr src s \<equiv> \<lambda>(e, s'). after src s s' \<and> fine_expr src (errors s' = []) e \<and>
     sstart (espan e) \<le> here s' \<and>
     (kind (p_current s) \<noteq> TkEof \<longrightarrow> unread s' < unread s)"

abbreviation reads_stmt :: "ustring \<Rightarrow> parser \<Rightarrow> stmt \<times> parser \<Rightarrow> bool" where
  "reads_stmt src s \<equiv> \<lambda>(t, s'). after src s s' \<and> fine_stmt src (errors s' = []) t \<and>
     (kind (p_current s) \<noteq> TkEof \<longrightarrow> unread s' < unread s)"

abbreviation reads_kind :: "ustring \<Rightarrow> parser \<Rightarrow> expr_kind \<times> parser \<Rightarrow> bool" where
  "reads_kind src s \<equiv> \<lambda>(k, s'). after src s s' \<and> fine_ekind src (errors s' = []) k"

locale upper_rules =
  fixes r :: "'a rules_scheme" and src :: ustring and N :: nat
  assumes rec_expression: "ok src s \<Longrightarrow> unread s < N \<Longrightarrow> gives (rec_expression r s) (reads_expr src s)"
    and rec_assignment: "ok src s \<Longrightarrow> unread s < N \<Longrightarrow> gives (rec_assignment r s) (reads_expr src s)"
    and rec_conditional: "ok src s \<Longrightarrow> unread s < N \<Longrightarrow> gives (rec_conditional r s) (reads_expr src s)"
    and rec_unary: "ok src s \<Longrightarrow> unread s < N \<Longrightarrow> gives (rec_unary r s) (reads_expr src s)"
    and rec_statement: "ok src s \<Longrightarrow> unread s < N \<Longrightarrow> gives (rec_statement r s) (reads_stmt src s)"
begin

lemmas rec_rules = gives_then2 [OF rec_expression] gives_then2 [OF rec_assignment]
  gives_then2 [OF rec_conditional] gives_then2 [OF rec_unary] gives_then2 [OF rec_statement]

lemmas steps = report_let [where src = src] gives_rules match_tok_rule [where src = src] consume_tok_rule [where src = src]
  newlines_rule [where src = src] skip_newline_before_rule [where src = src]
  p_advance_rule [where src = src] parse_type_rule [where src = src]
  function_args_rule [where src = src] end_statement_rule [where src = src] rec_rules

lemma grouping_gives:
  "ok src s \<Longrightarrow> unread s < N \<Longrightarrow> gives (grouping r s) (reads_kind src s)"
  unfolding grouping_def by (intro steps) (simp_all add: run_defs, ((intro impI, simp)+)?)

lemma call_args_gives:
  "ok src s \<Longrightarrow> unread s < n \<Longrightarrow> unread s < N \<Longrightarrow> fine_exprs src (errors s = []) args \<Longrightarrow>
     gives (call_args r n args s)
       (\<lambda>(es, s'). after src s s' \<and> fine_exprs src (errors s' = []) es)"
proof (induction n arbitrary: s args)
  case 0
  then show ?case by simp
next
  case (Suc n)
  show ?case
    unfolding call_args.simps
    by (intro steps gives_then2 [OF Suc.IH]) (insert Suc.prems, simp_all add: run_defs, ((intro impI, simp)+)?)
qed

lemma finish_call_gives:
  "ok src s \<Longrightarrow> unread s < N \<Longrightarrow> fine_expr src (errors s = []) callee \<Longrightarrow>
     gives (finish_call r callee s) (reads_kind src s)"
  unfolding finish_call_def
  by (intro steps gives_then2 [OF call_args_gives] unread_tokens_left) (simp_all add: run_defs, ((intro impI, simp)+)?)

lemma finish_index_gives:
  "ok src s \<Longrightarrow> unread s < N \<Longrightarrow> fine_expr src (errors s = []) callee \<Longrightarrow>
     gives (finish_index r callee s) (reads_kind src s)"
  unfolding finish_index_def
  by (intro steps) (simp_all add: run_defs compose_nil_def)

lemma finish_dot_gives:
  "ok src s \<Longrightarrow> unread s < N \<Longrightarrow> fine_expr src (errors s = []) callee \<Longrightarrow>
     sstart (espan callee) \<le> here s \<Longrightarrow> gives (finish_dot r callee s) (reads_kind src s)"
  unfolding finish_dot_def
  by (intro steps) (simp_all add: run_defs update_target_def)

section \<open>Interpolation, dictionaries and lists\<close>

lemma interpolation_loop_gives:
  "ok src s \<Longrightarrow> unread s < n \<Longrightarrow> unread s < N \<Longrightarrow> fine_segments src (errors s = []) segs \<Longrightarrow>
     1 \<le> length segs \<Longrightarrow>
     gives (interpolation_loop r n segs s)
       (\<lambda>(gs, s'). after src s s' \<and> fine_segments src (errors s' = []) gs \<and> 2 \<le> length gs)"
proof (induction n arbitrary: s segs)
  case 0
  then show ?case by simp
next
  case (Suc n)
  show ?case
    unfolding interpolation_loop.simps
    by (intro steps gives_then2 [OF Suc.IH])
      (insert Suc.prems, simp_all add: run_defs check_tok_def weight_other)
qed

lemma p_interpolation_gives:
  "ok src s \<Longrightarrow> unread s < N \<Longrightarrow> gives (p_interpolation r s) (reads_kind src s)"
  unfolding p_interpolation_def
  by (intro steps gives_then2 [OF interpolation_loop_gives] unread_tokens_left) (simp_all add: run_defs)

lemma literal_fine: "ok src s \<Longrightarrow> fine_expr src c (p_literal r s)"
  by (simp add: p_literal_def compose_literal_def fine_defs split: token_kind.split)

lemma gives_literal:
  "(\<And>v. k = ELiteral v \<Longrightarrow> gives (f v) Q) \<Longrightarrow> gives m Q \<Longrightarrow>
     gives (case k of ELiteral v \<Rightarrow> f v | _ \<Rightarrow> m) Q"
  by (cases k) simp_all

lemma dict_entry_gives:
  "ok src s \<Longrightarrow> unread s < N \<Longrightarrow>
     gives (dict_entry r s)
       (\<lambda>(key, vs, s'). after src s s' \<and> fine_expr src (errors s' = []) key \<and>
          fine_exprs src (errors s' = []) vs \<and> (kind (p_current s) \<noteq> TkEof \<longrightarrow> unread s' < unread s))"
  unfolding dict_entry_def
  by (intro steps gives_literal;
      simp add: run_defs tok_in_previous literal_fine [where c = True, unfolded fine_defs, simplified];
      (intro impI; simp)?)

lemma dict_loop_gives:
  "ok src s \<Longrightarrow> unread s < n \<Longrightarrow> unread s < N \<Longrightarrow> fine_exprs src (errors s = []) ks \<Longrightarrow>
     fine_exprs src (errors s = []) vs \<Longrightarrow>
     gives (dict_loop r n ks vs s)
       (\<lambda>(ks', vs', s'). after src s s' \<and> fine_exprs src (errors s' = []) ks' \<and>
          fine_exprs src (errors s' = []) vs')"
proof (induction n arbitrary: s ks vs)
  case 0
  then show ?case by simp
next
  case (Suc n)
  show ?case
    unfolding dict_loop.simps
    by (intro steps gives_then3 [OF dict_entry_gives] gives_then3 [OF Suc.IH])
      (insert Suc.prems, simp_all add: run_defs)
qed

lemma p_dict_gives:
  "ok src s \<Longrightarrow> unread s < N \<Longrightarrow> gives (p_dict r s) (reads_kind src s)"
  unfolding p_dict_def
  by (intro steps gives_then3 [OF dict_loop_gives] unread_tokens_left)
    (simp_all add: run_defs)

lemma list_loop_gives:
  "ok src s \<Longrightarrow> unread s < n \<Longrightarrow> unread s < N \<Longrightarrow> fine_exprs src (errors s = []) xs \<Longrightarrow>
     gives (list_loop r n xs s)
       (\<lambda>(xs', s'). after src s s' \<and> fine_exprs src (errors s' = []) xs')"
proof (induction n arbitrary: s xs)
  case 0
  then show ?case by simp
next
  case (Suc n)
  show ?case
    unfolding list_loop.simps
    by (intro steps gives_then2 [OF Suc.IH]) (insert Suc.prems, simp_all add: run_defs)
qed

lemma p_list_gives:
  "ok src s \<Longrightarrow> unread s < N \<Longrightarrow> gives (p_list r s) (reads_kind src s)"
  unfolding p_list_def
  by (intro steps gives_then2 [OF list_loop_gives] unread_tokens_left) (simp_all add: run_defs)

section \<open>Blocks and functions\<close>

lemma drain_stmts_rule:
  assumes "ok src s" "fine_stmts src (errors s = []) out"
    and "\<And>vs s'. after src s s' \<and> fine_stmts src (errors s' = []) vs \<and> unread s' = unread s \<and>
      panic_mode s' = panic_mode s \<and> brace_depth s' = brace_depth s \<Longrightarrow> gives (f vs s') Q"
  shows "gives (case drain_trivia_into_stmts out from s of (vs, s') \<Rightarrow> f vs s') Q"
proof -
  obtain ts s1 where t: "take_trivia from s = (ts, s1)" by fastforce
  note d = drain_tokens [OF t assms(1)]
  have "list_all (nodes_stmt (sound src)) (map (\<lambda>t. Stmt (STrivia t) (span_of t)) ts)"
    "list_all (spans_stmt (length src)) (map (\<lambda>t. Stmt (STrivia t) (span_of t)) ts)"
    "list_all (nodes_stmt assigns_place) (map (\<lambda>t. Stmt (STrivia t) (span_of t)) ts)"
    using d by (auto simp: list_all_iff)
  then show ?thesis
    using t d assms(2) assms(3) [of s1 "out @ map (\<lambda>t. Stmt (STrivia t) (span_of t)) ts"]
    by (simp add: drain_trivia_into_stmts_def fine_stmts_def)
qed

lemma block_loop_gives:
  "ok src s \<Longrightarrow> unread s < n \<Longrightarrow> unread s < N \<Longrightarrow> fine_stmts src (errors s = []) vs \<Longrightarrow>
     gives (block_loop r depth from n vs s)
       (\<lambda>(vs', early, s'). after src s s' \<and> fine_stmts src (errors s' = []) vs')"
proof (induction n arbitrary: s vs)
  case 0
  then show ?case by simp
next
  case (Suc n)
  show ?case
    unfolding block_loop.simps
    by (intro drain_stmts_rule synchronize_rule [where src = src] steps
        gives_then3 [OF Suc.IH])
      (insert Suc.prems, simp_all add: run_defs p_at_end_def)
qed

lemma block_gives:
  "ok src s \<Longrightarrow> unread s < N \<Longrightarrow>
     gives (block r s) (\<lambda>(b, s'). after src s s' \<and> fine_stmt src (errors s' = []) b)"
  unfolding block_def
  by (intro drain_stmts_rule steps gives_then3 [OF block_loop_gives] unread_tokens_left)
    (simp_all add: run_defs)

lemma match_block_gives:
  "ok src s \<Longrightarrow> unread s < N \<Longrightarrow>
     gives (match_block r msg s) (\<lambda>(b, s'). after src s s' \<and> fine_stmt src (errors s' = []) b)"
  unfolding match_block_def
  by (intro steps gives_then [OF open_body_gives [where src = src]] gives_then2 [OF block_gives])
    (simp_all add: run_defs)

lemma not_hidden_anon: "tok src t \<Longrightarrow> tok src (copy_to t (TkIdentifier (64 # 97 # w)))"
  by (simp add: tok_def tok_in_def hidden_def hidden_names_def)

lemma anonymous_gives:
  "ok src s \<Longrightarrow> unread s < N \<Longrightarrow> gives (anonymous r s) (reads_kind src s)"
  unfolding anonymous_def
  by (intro steps gives_then3 [OF anonymous_args_gives [where src = src]] gives_then2 [OF match_block_gives])
    (simp_all add: run_defs not_hidden_anon)

section \<open>Operands\<close>

lemma primary_kind_gives:
  assumes "ok src s" "prev = p_previous s" "kind prev \<noteq> TkEof \<Longrightarrow> unread s < N"
  shows "gives (primary_kind r prev s) (reads_kind src s)"
proof (cases "kind prev = TkEof")
  case True
  then show ?thesis
    using assms(1) literal_fine [of "report_error_at (unexpected_token r prev) prev s", THEN fine_kind(1)]
    by (simp add: primary_kind_def gives_def after_def fine_ekind_def Let_def)
next
  case False
  note n = assms(3) [OF False]
  note calls = gives_then2 [OF p_interpolation_gives] gives_then2 [OF grouping_gives]
    gives_then2 [OF p_dict_gives] gives_then2 [OF p_list_gives] gives_then2 [OF anonymous_gives]
  note leaf = literal_fine [OF assms(1), THEN fine_kind(1)]
    literal_fine [OF report_frame(1) [OF assms(1)], THEN fine_kind(1)]
  consider y where "kind prev = TkSym y" | w where "kind prev = TkKw w" | v where "kind prev = TkInterpolation v"
    | "\<forall>y w v. kind prev \<noteq> TkSym y \<and> kind prev \<noteq> TkKw w \<and> kind prev \<noteq> TkInterpolation v"
    by blast
  then show ?thesis
  proof cases
    case 1
    then show ?thesis
      unfolding primary_kind_def 1 token_kind.case
      by (intro calls steps) (use assms(1) n leaf in \<open>simp_all add: run_defs\<close>)
  next
    case 2
    then show ?thesis
      unfolding primary_kind_def 2 token_kind.case
      by (intro calls steps) (use assms(1,2) n leaf in \<open>simp_all add: run_defs\<close>)
  next
    case 3
    then show ?thesis using p_interpolation_gives [OF assms(1) n] by (simp add: primary_kind_def)
  next
    case 4
    then show ?thesis
      using assms(1,2) leaf
      by (cases "kind prev") (simp_all add: primary_kind_def gives_def run_defs)
  qed
qed

lemma primary_gives:
  "ok src s \<Longrightarrow> unread s \<le> N \<Longrightarrow> gives (primary r s) (reads_expr src s)"
  unfolding primary_def
  by (intro steps gives_then2 [OF primary_kind_gives]) (simp_all add: run_defs weight_def here_eq, ((intro impI, simp)+)?)

lemma range_loop_gives:
  "ok src s \<Longrightarrow> unread s < n \<Longrightarrow> unread s \<le> N \<Longrightarrow> fine_expr src (errors s = []) e \<Longrightarrow>
     sstart (espan e) \<le> here s \<Longrightarrow>
     gives (range_loop r n e s)
       (\<lambda>(e', s'). after src s s' \<and> fine_expr src (errors s' = []) e' \<and> sstart (espan e') \<le> here s')"
proof (induction n arbitrary: s e)
  case 0
  then show ?case by simp
next
  case (Suc n)
  show ?case
    unfolding range_loop.simps
    by (intro steps gives_then2 [OF primary_gives] gives_then2 [OF Suc.IH];
        insert Suc.prems; simp add: run_defs)
qed

lemma p_range_gives:
  "ok src s \<Longrightarrow> unread s \<le> N \<Longrightarrow> gives (p_range r s) (reads_expr src s)"
  unfolding p_range_def
  by (intro gives_rules gives_then2 [OF primary_gives] gives_then2 [OF range_loop_gives] unread_tokens_left;
      simp add: run_defs; (intro impI; simp)?)

lemma call_link_gives:
  "ok src s \<Longrightarrow> unread s \<le> N \<Longrightarrow> fine_expr src (errors s = []) e \<Longrightarrow> sstart (espan e) \<le> here s \<Longrightarrow>
     gives (call_link r e s)
       (\<lambda>(link, s'). after src s s' \<and>
          (\<forall>k. link = Some k \<longrightarrow> fine_ekind src (errors s' = []) k \<and> unread s' < unread s))"
  unfolding call_link_def
  by (intro steps gives_then2 [OF finish_dot_gives] gives_then2 [OF finish_call_gives]
      gives_then2 [OF finish_index_gives]; simp add: run_defs)

lemma call_loop_gives:
  "ok src s \<Longrightarrow> unread s < n \<Longrightarrow> unread s \<le> N \<Longrightarrow> fine_expr src (errors s = []) e \<Longrightarrow>
     sstart (espan e) \<le> from \<Longrightarrow> from \<le> here s \<Longrightarrow>
     gives (call_loop r from n e s)
       (\<lambda>(e', s'). after src s s' \<and> fine_expr src (errors s' = []) e' \<and> sstart (espan e') \<le> from)"
proof (induction n arbitrary: s e)
  case 0
  then show ?case by simp
next
  case (Suc n)
  have "here s \<le> length src" using Suc.prems(1) by simp
  then have "from \<le> length src" using Suc.prems(6) by simp
  then show ?case
    unfolding call_loop.simps
    by (intro steps gives_then2 [OF call_link_gives] gives_then2 [OF Suc.IH];
        insert Suc.prems; simp add: run_defs)
qed

lemma do_call_gives:
  "ok src s \<Longrightarrow> unread s \<le> N \<Longrightarrow> fine_expr src (errors s = []) e \<Longrightarrow> sstart (espan e) \<le> here s \<Longrightarrow>
     gives (do_call r e s)
       (\<lambda>(e', s'). after src s s' \<and> fine_expr src (errors s' = []) e' \<and> sstart (espan e') \<le> here s')"
  unfolding do_call_def
  by (rule gives_then2 [OF call_loop_gives [OF _ unread_tokens_left]]; simp add: run_defs)

lemma p_call_gives:
  "ok src s \<Longrightarrow> unread s \<le> N \<Longrightarrow> gives (p_call r s) (reads_expr src s)"
  unfolding p_call_def
  by (intro gives_rules gives_then2 [OF p_range_gives] gives_then2 [OF do_call_gives];
      simp add: run_defs; (intro impI; simp)?)

section \<open>Operators\<close>

lemma assign_expr_gives:
  "ok src s \<Longrightarrow> unread s \<le> N \<Longrightarrow> gives (assign_expr r s) (reads_expr src s)"
  unfolding assign_expr_def
  by (intro steps gives_then2 [OF p_call_gives]; simp add: run_defs; (intro conjI impI; simp)?)

lemma p_power_gives:
  "ok src s \<Longrightarrow> unread s \<le> N \<Longrightarrow> gives (p_power r s) (reads_expr src s)"
  unfolding p_power_def
  by (intro steps gives_then2 [OF assign_expr_gives]; simp add: run_defs; (intro conjI impI; simp)?)

lemma unary_gives:
  "ok src s \<Longrightarrow> unread s \<le> N \<Longrightarrow> gives (unary r s) (reads_expr src s)"
  unfolding unary_def
  by (intro steps gives_then2 [OF p_power_gives]; simp add: run_defs here_eq; (intro conjI impI; simp)?)

definition links :: "(expr \<Rightarrow> token_kind \<Rightarrow> expr \<Rightarrow> nat \<Rightarrow> expr) \<Rightarrow> bool" where
  "links mk \<longleftrightarrow>
     (\<forall>c a op b ln. fine_expr src c a \<longrightarrow> fine_expr src c b \<longrightarrow> fine_expr src c (mk a op b ln)) \<and>
     (\<forall>a op b ln. sstart (espan (mk a op b ln)) = sstart (espan a))"

lemma links_chain [simp]: "links (p_chain b)" "links p_circuit"
  by (cases b; simp add: links_def p_chain_def p_circuit_def fine_defs) (simp add: links_def p_circuit_def fine_defs)

lemma fine_mono: "fine_expr src c e \<Longrightarrow> (c' \<longrightarrow> c) \<Longrightarrow> fine_expr src c' e"
  by (auto simp: fine_expr_def)

lemma links_fine:
  "links mk \<Longrightarrow> fine_expr src c a \<Longrightarrow> (c' \<longrightarrow> c) \<Longrightarrow> fine_expr src c' b \<Longrightarrow> fine_expr src c' (mk a op b ln)"
  using fine_mono [of c a c'] by (simp add: links_def)

lemma links_start: "links mk \<Longrightarrow> sstart (espan (mk a op b ln)) = sstart (espan a)"
  by (simp add: links_def)

lemma chain_loop_gives:
  assumes mk: "links mk" and ops: "TkEof \<notin> set ops"
    and operand: "\<And>s. ok src s \<Longrightarrow> unread s \<le> N \<Longrightarrow> gives (operand s) (reads_expr src s)"
  shows "ok src s \<Longrightarrow> unread s < n \<Longrightarrow> unread s \<le> N \<Longrightarrow> fine_expr src (errors s = []) e \<Longrightarrow>
     sstart (espan e) \<le> here s \<Longrightarrow>
     gives (chain_loop r operand cont ops mk n e s)
       (\<lambda>(e', s'). after src s s' \<and> fine_expr src (errors s' = []) e' \<and> sstart (espan e') \<le> here s')"
proof (induction n arbitrary: s e)
  case 0
  then show ?case by simp
next
  case (Suc n)
  note e = links_fine [OF mk Suc.prems(4)]
  show ?case
    unfolding chain_loop.simps
    by (intro steps gives_then2 [OF operand] gives_then2 [OF Suc.IH] e; insert Suc.prems fine_mono [OF Suc.prems(4)];
        simp add: after_def Let_def links_start [OF mk] ops)
qed

lemma chain_level_gives:
  assumes "links mk" "TkEof \<notin> set ops"
    and operand: "\<And>s. ok src s \<Longrightarrow> unread s \<le> N \<Longrightarrow> gives (operand s) (reads_expr src s)"
    and "ok src s" "unread s \<le> N"
  shows "gives (chain_level r operand cont ops mk s) (reads_expr src s)"
  unfolding chain_level_def
  by (intro gives_rules gives_then2 [OF operand] gives_then2 [OF chain_loop_gives [OF assms(1,2) operand]]
      unread_tokens_left; insert assms(4,5); simp add: after_def; (intro impI; simp)?)

lemmas level = chain_level_gives [OF links_chain(1)] chain_level_gives [OF links_chain(2)]

lemma factor_gives: "ok src s \<Longrightarrow> unread s \<le> N \<Longrightarrow> gives (factor r s) (reads_expr src s)"
  unfolding factor_def by (rule level [OF _ unary_gives]) simp_all

lemma term_gives: "ok src s \<Longrightarrow> unread s \<le> N \<Longrightarrow> gives (p_term r s) (reads_expr src s)"
  unfolding p_term_def by (rule level [OF _ factor_gives]) simp_all

lemma shift_gives: "ok src s \<Longrightarrow> unread s \<le> N \<Longrightarrow> gives (shift r s) (reads_expr src s)"
  unfolding shift_def by (rule level [OF _ term_gives]) simp_all

lemma bit_and_gives: "ok src s \<Longrightarrow> unread s \<le> N \<Longrightarrow> gives (bit_and r s) (reads_expr src s)"
  unfolding bit_and_def by (rule level [OF _ shift_gives]) simp_all

lemma bit_xor_gives: "ok src s \<Longrightarrow> unread s \<le> N \<Longrightarrow> gives (bit_xor r s) (reads_expr src s)"
  unfolding bit_xor_def by (rule level [OF _ bit_and_gives]) simp_all

lemma bit_or_gives: "ok src s \<Longrightarrow> unread s \<le> N \<Longrightarrow> gives (bit_or r s) (reads_expr src s)"
  unfolding bit_or_def by (rule level [OF _ bit_xor_gives]) simp_all

lemma comparison_gives: "ok src s \<Longrightarrow> unread s \<le> N \<Longrightarrow> gives (comparison r s) (reads_expr src s)"
  unfolding comparison_def by (rule level [OF _ bit_or_gives]) simp_all

lemma equality_gives: "ok src s \<Longrightarrow> unread s \<le> N \<Longrightarrow> gives (equality r s) (reads_expr src s)"
  unfolding equality_def by (rule level [OF _ comparison_gives]) simp_all

lemma and_gives: "ok src s \<Longrightarrow> unread s \<le> N \<Longrightarrow> gives (p_and r s) (reads_expr src s)"
  unfolding p_and_def by (rule level [OF _ equality_gives]) simp_all

lemma or_gives: "ok src s \<Longrightarrow> unread s \<le> N \<Longrightarrow> gives (p_or r s) (reads_expr src s)"
  unfolding p_or_def by (rule level [OF _ and_gives]) simp_all

lemma conditional_gives:
  "ok src s \<Longrightarrow> unread s \<le> N \<Longrightarrow> gives (conditional r s) (reads_expr src s)"
  unfolding conditional_def
  by (intro steps gives_then2 [OF or_gives]; simp add: run_defs; (intro conjI impI; simp)?)

lemma assign_update: "assign_target e \<Longrightarrow> update_target e"
  by (simp add: assign_target_def update_target_def split: expr_kind.splits)

lemma assignment_gives:
  "ok src s \<Longrightarrow> unread s \<le> N \<Longrightarrow> gives (assignment r s) (reads_expr src s)"
  unfolding assignment_def
  by (intro steps gives_then2 [OF conditional_gives]; simp add: run_defs;
      (intro conjI impI; simp add: assign_update)?)

lemma expression_gives:
  "ok src s \<Longrightarrow> unread s \<le> N \<Longrightarrow> gives (expression r s) (reads_expr src s)"
  unfolding expression_def by (rule assignment_gives)

end

end
