(* ===== verification/Parser_Stmts.thy ===== *)
theory Parser_Stmts
  imports Parser_Rules
begin

text \<open>
  The rules of statements and declarations run through the specifications of what they call,
  under the same assumptions on the rules further up, and then those assumptions discharged:
  every level of the knot satisfies them, by induction on its fuel.
\<close>

abbreviation reads_skind :: "ustring \<Rightarrow> parser \<Rightarrow> stmt_kind \<times> parser \<Rightarrow> bool" where
  "reads_skind src s \<equiv> \<lambda>(k, s'). after src s s' \<and> fine_skind src (errors s' = []) k"

abbreviation reads_decl :: "ustring \<Rightarrow> parser \<Rightarrow> decl \<times> parser \<Rightarrow> bool" where
  "reads_decl src s \<equiv> \<lambda>(d, s'). after src s s' \<and> fine_decl src (errors s' = []) d"

lemma nil_fine [simp]:
  "nodes_expr (sound src) (compose_nil s)" "nodes_expr assigns_place (compose_nil s)"
  "ok src s \<Longrightarrow> spans_expr (length src) (compose_nil s)"
  by (simp_all add: compose_nil_def)

lemma id_fine [simp]:
  "tok src t \<Longrightarrow> nodes_expr (sound src) (compose_id t)" "nodes_expr assigns_place (compose_id t)"
  "tok src t \<Longrightarrow> spans_expr (length src) (compose_id t)" "sstart (espan (compose_id t)) = tstart t"
  by (simp_all add: compose_id_def)

lemma kind_fine [simp]:
  "nodes_stmt P t \<Longrightarrow> nodes_skind P (skind t)" "spans_stmt n t \<Longrightarrow> spans_skind n (skind t)"
  "nodes_decl P d \<Longrightarrow> nodes_dkind P (dkind d)" "spans_decl n d \<Longrightarrow> spans_dkind n (dkind d)"
  by (cases t, simp, cases t, simp, cases d, simp, cases d, simp)

text \<open>What is left out is fine.\<close>

definition fine_opt :: "ustring \<Rightarrow> bool \<Rightarrow> stmt option \<Rightarrow> bool" where
  "fine_opt src clean q \<longleftrightarrow>
     opt_true (map_option (nodes_stmt (sound src)) q) \<and> opt_true (map_option (spans_stmt (length src)) q) \<and>
     (clean \<longrightarrow> opt_true (map_option (nodes_stmt assigns_place) q))"

definition fine_opt_expr :: "ustring \<Rightarrow> bool \<Rightarrow> expr option \<Rightarrow> bool" where
  "fine_opt_expr src clean q \<longleftrightarrow>
     opt_true (map_option (nodes_expr (sound src)) q) \<and> opt_true (map_option (spans_expr (length src)) q) \<and>
     (clean \<longrightarrow> opt_true (map_option (nodes_expr assigns_place) q))"

lemma all_true_last [simp]: "all_true (map f xs @ [True]) \<longleftrightarrow> list_all f xs"
  by (induction xs) simp_all

context upper_rules
begin

lemmas parts = steps gives_then2 [OF expression_gives] gives_then2 [OF match_block_gives]

section \<open>Simple statements\<close>

lemma echo_stmt_gives:
  "ok src s \<Longrightarrow> unread s < N \<Longrightarrow> gives (echo_stmt r s) (reads_skind src s)"
  unfolding echo_stmt_def by (intro parts; simp add: run_defs)

lemma expression_stmt_gives:
  "ok src s \<Longrightarrow> unread s \<le> N \<Longrightarrow>
     gives (expression_stmt r s) (\<lambda>(k, s'). after src s s' \<and> fine_skind src (errors s' = []) k \<and>
       (kind (p_current s) \<noteq> TkEof \<longrightarrow> unread s' < unread s))"
  unfolding expression_stmt_def by (intro parts; simp add: run_defs; (intro impI; simp)?)

lemma if_stmt_gives:
  "ok src s \<Longrightarrow> unread s < N \<Longrightarrow> gives (if_stmt r s) (reads_skind src s)"
  unfolding if_stmt_def by (intro parts; simp add: run_defs)

lemma while_stmt_gives:
  "ok src s \<Longrightarrow> unread s < N \<Longrightarrow> gives (while_stmt r s) (reads_skind src s)"
  unfolding while_stmt_def by (intro parts; simp add: run_defs)

lemma do_stmt_gives:
  "ok src s \<Longrightarrow> unread s < N \<Longrightarrow> gives (do_stmt r s) (reads_skind src s)"
  unfolding do_stmt_def by (intro parts; simp add: run_defs)

lemma for_stmt_gives:
  "ok src s \<Longrightarrow> unread s < N \<Longrightarrow> gives (for_stmt r s) (reads_skind src s)"
  unfolding for_stmt_def by (intro parts; simp add: run_defs)

lemma assert_stmt_gives:
  "ok src s \<Longrightarrow> unread s < N \<Longrightarrow> gives (assert_stmt r s) (reads_skind src s)"
  unfolding assert_stmt_def
  by (intro parts ignore_newlines_only_rule [where src = src]; simp add: run_defs)

section \<open>Using and imports\<close>

lemma when_labels_gives:
  "ok src s \<Longrightarrow> unread s < n \<Longrightarrow> unread s < N \<Longrightarrow> fine_exprs src (errors s = []) labs \<Longrightarrow>
     gives (when_labels r n labs s)
       (\<lambda>(labs', s'). after src s s' \<and> fine_exprs src (errors s' = []) labs')"
proof (induction n arbitrary: s labs)
  case 0
  then show ?case by simp
next
  case (Suc n)
  show ?case
    unfolding when_labels.simps
    by (intro parts gives_then2 [OF Suc.IH]; insert Suc.prems; simp add: run_defs check_tok_def; (intro impI; simp)?)
qed

lemma using_arm_gives:
  "ok src s \<Longrightarrow> unread s < N \<Longrightarrow> fine_arms src (errors s = []) arms \<Longrightarrow> fine_opt src (errors s = []) q \<Longrightarrow>
     gives (using_arm r arms q seen s)
       (\<lambda>(arms', q', seen', s'). after src s s' \<and> fine_arms src (errors s' = []) arms' \<and>
          fine_opt src (errors s' = []) q')"
  unfolding using_arm_def
  by (intro parts gives_then2 [OF when_labels_gives] unread_tokens_left; simp add: run_defs fine_opt_def)

lemma using_loop_gives:
  "ok src s \<Longrightarrow> unread s < n \<Longrightarrow> unread s < N \<Longrightarrow> fine_arms src (errors s = []) arms \<Longrightarrow>
     fine_opt src (errors s = []) q \<Longrightarrow>
     gives (using_loop r depth n arms q seen s)
       (\<lambda>(arms', q', early, s'). after src s s' \<and> fine_arms src (errors s' = []) arms' \<and>
          fine_opt src (errors s' = []) q')"
proof (induction n arbitrary: s arms q seen)
  case 0
  then show ?case by simp
next
  case (Suc n)
  show ?case
    unfolding using_loop.simps
    by (intro parts synchronize_rule [where src = src] gives_then4 [OF using_arm_gives] gives_then4 [OF Suc.IH];
        insert Suc.prems; simp add: run_defs fine_opt_def)
qed

lemma using_stmt_gives:
  "ok src s \<Longrightarrow> unread s < N \<Longrightarrow> gives (using_stmt r s) (reads_skind src s)"
  unfolding using_stmt_def
  by (intro parts gives_then4 [OF using_loop_gives] unread_tokens_left; simp add: run_defs fine_opt_def)

lemma split_run_shown: "list_all (\<lambda>t. \<not> hidden t) (map snd (split_run f k n))"
  by (induction f k n rule: split_run.induct) (simp_all add: hidden_def)

lemma split_dots_shown:
  "split_dots dots paths toks = (paths', toks') \<Longrightarrow> list_all (\<lambda>t. \<not> hidden t) toks \<Longrightarrow>
     list_all (\<lambda>t. \<not> hidden t) toks'"
  using split_run_shown [unfolded list.pred_map comp_def] by (auto simp: split_dots_def Let_def list.pred_map comp_def split: list.splits)

lemma gives_dots:
  "list_all (\<lambda>t. \<not> hidden t) toks \<Longrightarrow>
     (\<And>ps ts. list_all (\<lambda>t. \<not> hidden t) ts \<Longrightarrow> gives (f ps ts) Q) \<Longrightarrow>
     gives (case split_dots dots paths toks of (ps, ts) \<Rightarrow> f ps ts) Q"
  using split_dots_shown [of dots paths toks] by (cases "split_dots dots paths toks") simp

lemma tok_literal: "tok src t \<Longrightarrow> tok src (copy_to t (TkLiteral w))"
  by (simp add: tok_def tok_in_def hidden_def)

lemma import_path_gives:
  "ok src s \<Longrightarrow> unread s < n \<Longrightarrow> list_all (\<lambda>t. \<not> hidden t) toks \<Longrightarrow>
     gives (import_path r n dots paths toks s)
       (\<lambda>(dots', paths', toks', s'). after src s s' \<and> list_all (\<lambda>t. \<not> hidden t) toks')"
proof (induction n arbitrary: s dots paths toks)
  case 0
  then show ?case by simp
next
  case (Suc n)
  have eof: "\<not> path_part TkEof" by (simp add: path_part_def)
  have ident: "gives (case k of TkIdentifier w \<Rightarrow> f w | _ \<Rightarrow> m) Q"
    if "\<And>w. k = TkIdentifier w \<Longrightarrow> gives (f w) Q" "gives m Q" for k and f :: "ustring \<Rightarrow> 'c option" and m Q
    using that by (cases k) simp_all
  have t: "tok src t \<Longrightarrow> \<not> hidden t" for t by (simp add: tok_def)
  show ?case
    unfolding import_path.simps
    by (intro parts ident gives_dots gives_then4 [OF Suc.IH]; insert Suc.prems;
        simp add: run_defs eof t)
qed

lemma import_elements_gives:
  "ok src s \<Longrightarrow> (if again then unread s + 1 else 0) < n \<Longrightarrow> fine_exprs src (errors s = []) es \<Longrightarrow>
     gives (import_elements r n again es s)
       (\<lambda>(es', every, s'). after src s s' \<and> fine_exprs src (errors s' = []) es')"
proof (induction n arbitrary: s es again)
  case 0
  then show ?case by simp
next
  case (Suc n)
  show ?case
    unfolding import_elements.simps
    by (intro parts gives_then3 [OF Suc.IH]; insert Suc.prems; simp add: run_defs split: if_splits)
qed

lemma import_tail_gives:
  "ok src s \<Longrightarrow>
     gives (import_tail r s)
       (\<lambda>(es, every, q, s'). after src s s' \<and> fine_exprs src (errors s' = []) es \<and>
          fine_opt_expr src (errors s' = []) q)"
  unfolding import_tail_def
  by (intro parts gives_then3 [OF import_elements_gives]; simp add: run_defs fine_opt_expr_def unread_tokens_left)

lemma import_stmt_gives:
  "ok src s \<Longrightarrow> gives (import_stmt r s) (reads_skind src s)"
  unfolding import_stmt_def
  by (intro parts gives_dots gives_then4 [OF import_path_gives] gives_then4 [OF import_tail_gives] unread_tokens_left;
      simp add: run_defs fine_opt_expr_def tok_literal)

section \<open>Declarations\<close>

lemma var_item_gives:
  "ok src s \<Longrightarrow> unread s < N \<Longrightarrow> gives (var_item r c s) (\<lambda>(t, s'). after src s s' \<and> fine_stmt src (errors s' = []) t)"
  unfolding var_item_def by (intro parts; simp add: run_defs)

lemma var_decl_loop_gives:
  "ok src s \<Longrightarrow> unread s < n \<Longrightarrow> unread s < N \<Longrightarrow> fine_stmts src (errors s = []) ds \<Longrightarrow>
     from \<le> length src \<Longrightarrow>
     gives (var_decl_loop r c from n ds s) (\<lambda>(t, s'). after src s s' \<and> fine_stmt src (errors s' = []) t)"
proof (induction n arbitrary: s ds)
  case 0
  then show ?case by simp
next
  case (Suc n)
  show ?case
    unfolding var_decl_loop.simps
    by (intro parts gives_then2 [OF var_item_gives] gives_then2 [OF Suc.IH]; insert Suc.prems; simp add: run_defs)
qed

lemma var_decl_gives:
  "ok src s \<Longrightarrow> unread s < N \<Longrightarrow> gives (var_decl r c s) (\<lambda>(t, s'). after src s s' \<and> fine_stmt src (errors s' = []) t)"
  unfolding var_decl_def
  by (rule var_decl_loop_gives [OF _ unread_tokens_left]) (simp_all add: fine_defs)

lemma function_decl_gives:
  "ok src s \<Longrightarrow> unread s < N \<Longrightarrow> gives (function_decl r s) (reads_decl src s)"
  unfolding function_decl_def by (intro parts gives_usub; simp add: run_defs)

lemma method_decl_gives:
  "ok src s \<Longrightarrow> unread s < N \<Longrightarrow> from \<le> length src \<Longrightarrow> gives (method_decl r from b s) (reads_decl src s)"
  unfolding method_decl_def by (intro parts gives_usub; simp add: run_defs)

lemma class_field_gives:
  "ok src s \<Longrightarrow> unread s < N \<Longrightarrow> from \<le> length src \<Longrightarrow> gives (class_field r from b c s) (reads_decl src s)"
  unfolding class_field_def by (intro parts; simp add: run_defs)

lemma class_reference_gives:
  "ok src s \<Longrightarrow> unread s < N \<Longrightarrow>
     gives (class_reference r msg s) (\<lambda>(e, s'). after src s s' \<and> fine_expr src (errors s' = []) e)"
  unfolding class_reference_def by (intro parts gives_then2 [OF do_call_gives]; simp add: run_defs)

section \<open>Catch and iter\<close>

lemma catch_stmt_gives:
  "ok src s \<Longrightarrow> unread s < N \<Longrightarrow> gives (catch_stmt r s) (reads_skind src s)"
  unfolding catch_stmt_def by (intro parts; simp add: run_defs)

lemma iter_initializer_gives:
  "ok src s \<Longrightarrow> unread s < N \<Longrightarrow>
     gives (iter_initializer r s) (\<lambda>(q, s'). after src s s' \<and> fine_opt src (errors s' = []) q)"
  unfolding iter_initializer_def
  by (intro parts gives_then2 [OF var_decl_gives]; simp add: run_defs fine_opt_def)

lemma iter_condition_gives:
  "ok src s \<Longrightarrow> unread s < N \<Longrightarrow>
     gives (iter_condition r s) (\<lambda>(q, s'). after src s s' \<and> fine_opt_expr src (errors s' = []) q)"
  unfolding iter_condition_def by (intro parts; simp add: run_defs fine_opt_expr_def)

lemma iter_steps_gives:
  "ok src s \<Longrightarrow> unread s < n \<Longrightarrow> unread s < N \<Longrightarrow> fine_exprs src (errors s = []) es \<Longrightarrow>
     gives (iter_steps r n es s) (\<lambda>(es', s'). after src s s' \<and> fine_exprs src (errors s' = []) es')"
proof (induction n arbitrary: s es)
  case 0
  then show ?case by simp
next
  case (Suc n)
  show ?case
    unfolding iter_steps.simps
    by (intro parts gives_then2 [OF Suc.IH]; insert Suc.prems; simp add: run_defs)
qed

lemma iter_stmt_gives:
  "ok src s \<Longrightarrow> unread s < N \<Longrightarrow> gives (iter_stmt r s) (reads_skind src s)"
  unfolding iter_stmt_def
  by (intro parts gives_then2 [OF iter_initializer_gives] gives_then2 [OF iter_condition_gives]
      gives_then2 [OF iter_steps_gives] unread_tokens_left;
      simp add: run_defs fine_opt_def fine_opt_expr_def)

section \<open>Classes\<close>

lemma drain_decls:
  assumes "drain_trivia_into_decls out from s = (ds, s')" "ok src s" "fine_decls src (errors s = []) out"
  shows "after src s s' \<and> fine_decls src (errors s' = []) ds \<and> unread s' = unread s \<and>
    panic_mode s' = panic_mode s \<and> brace_depth s' = brace_depth s \<and> p_current s' = p_current s"
proof -
  obtain ts s1 where t: "take_trivia from s = (ts, s1)" by fastforce
  note d = drain_tokens [OF t assms(2)]
  have "list_all (nodes_decl (sound src)) (map (\<lambda>t. Decl (DTrivia t) (span_of t)) ts)"
    "list_all (spans_decl (length src)) (map (\<lambda>t. Decl (DTrivia t) (span_of t)) ts)"
    "list_all (nodes_decl assigns_place) (map (\<lambda>t. Decl (DTrivia t) (span_of t)) ts)"
    using d by (auto simp: list_all_iff)
  then show ?thesis
    using t d assms(1,3) by (auto simp: drain_trivia_into_decls_def fine_decls_def)
qed

lemma drain_decls_rule:
  assumes "ok src s" "fine_decls src (errors s = []) out"
    and "\<And>ds s'. after src s s' \<and> fine_decls src (errors s' = []) ds \<and> unread s' = unread s \<and>
      panic_mode s' = panic_mode s \<and> brace_depth s' = brace_depth s \<and> p_current s' = p_current s \<Longrightarrow> gives (f ds s') Q"
  shows "gives (case drain_trivia_into_decls out from s of (ds, s') \<Rightarrow> f ds s') Q"
  using drain_decls [OF _ assms(1,2)] by (cases "drain_trivia_into_decls out from s") (simp add: assms(3))

definition fine_members :: "bool \<Rightarrow> members \<Rightarrow> bool" where
  "fine_members c ms \<longleftrightarrow> fine_decls src c (properties ms) \<and> fine_decls src c (methods ms)"

lemma fine_decls_snoc:
  "fine_decls src c ds \<Longrightarrow> (c' \<longrightarrow> c) \<Longrightarrow> fine_decl src c' d \<Longrightarrow> fine_decls src c' (ds @ [d])"
  by (auto simp: fine_defs)

lemma fine_decls_mono: "fine_decls src c ds \<Longrightarrow> (c' \<longrightarrow> c) \<Longrightarrow> fine_decls src c' ds"
  by (auto simp: fine_defs)

text \<open>
  A member may fail on its first token, and then nothing is consumed before recovery. From
  there on the parser is in panic mode: it reports nothing, and either consumes a token or
  stays where it is.
\<close>

definition quiet :: "parser \<Rightarrow> parser \<Rightarrow> bool" where
  "quiet s s' \<longleftrightarrow>
     ok src s' \<and> unread s' \<le> unread s \<and> block_count s' = block_count s \<and>
     functions_count s' = functions_count s \<and>
     (panic_mode s \<longrightarrow> unread s' < unread s \<or>
        p_current s' = p_current s \<and> panic_mode s' \<and> panic_at s' = panic_at s \<and> consumed s' = consumed s)"

lemma quiet_refl: "ok src s \<Longrightarrow> quiet s s"
  by (simp add: quiet_def)

lemma quiet_trans: "quiet s s' \<Longrightarrow> quiet s' s'' \<Longrightarrow> quiet s s''"
  by (auto simp: quiet_def)

lemma quiet_ok: "quiet s s' \<Longrightarrow> ok src s'"
  by (simp add: quiet_def)

lemma quiet_unread: "quiet s s' \<Longrightarrow> unread s' \<le> unread s"
  by (simp add: quiet_def)

lemma moved_quiet: "after src s s' \<Longrightarrow> unread s' < unread s \<Longrightarrow> quiet s s'"
  by (simp add: after_def quiet_def)

lemma report_quiet: "ok src s \<Longrightarrow> quiet s (report_error msg s)"
  by (simp add: quiet_def) (simp add: report_error_def report_error_at_def)

lemma ignore_newlines_quiet:
  "ok src s \<Longrightarrow> (\<And>s'. quiet s s' \<Longrightarrow> Q s') \<Longrightarrow> gives (ignore_newlines r s) Q"
  by (rule ignore_newlines_rule [where src = src]) (auto intro: quiet_refl moved_quiet)

lemma match_quiet:
  "ok src s \<Longrightarrow> \<not> p TkEof \<Longrightarrow>
     (\<And>s'. p (kind (p_current s)) \<Longrightarrow> after src s s' \<Longrightarrow> quiet s s' \<Longrightarrow> unread s' < unread s \<Longrightarrow> Q (True, s')) \<Longrightarrow>
     (\<not> p (kind (p_current s)) \<Longrightarrow> Q (False, s)) \<Longrightarrow> gives (match_tok r p s) Q"
  by (rule match_tok_rule [where src = src]) (auto intro: moved_quiet)

lemma consume_quiet:
  assumes "ok src s" "\<not> p TkEof" "\<And>t s'. quiet s s' \<Longrightarrow> Q (t, s')"
  shows "gives (consume_tok r p msg s) Q"
proof (cases "p (kind (p_current s))")
  case True
  show ?thesis
    by (rule consume_tok_rule [where src = src, OF assms(1)]) (use True assms(2) in \<open>auto intro!: assms(3) moved_quiet\<close>)
next
  case False
  then show ?thesis
    using assms(3) [OF report_quiet [OF assms(1)]] by (simp add: consume_tok_def gives_def Let_def)
qed

lemma function_args_quiet:
  assumes "ok src s"
  shows "gives (function_args r s) (\<lambda>(ps, v, s'). quiet s s')"
proof -
  have loop: "gives (function_args_loop r (tokens_left s1) [] s1) (\<lambda>(ps, v, s'). quiet s1 s')" if "ok src s1" for s1
  proof (cases "check_tok is_identifier s1 \<or> check_tok (is_sym SyTriDot) s1")
    case False
    then show ?thesis using that by (simp add: tokens_left_def gives_def quiet_refl)
  next
    case True
    obtain k where k: "tokens_left s1 = Suc k" "unread s1 \<le> k"
      using unread_tokens_left [of s1] by (cases "tokens_left s1") auto
    show ?thesis
      unfolding k(1) function_args_loop.simps
      by (intro gives_rules match_tok_rule [where src = src, OF that] consume_tok_rule [where src = src]
          function_param_rule [where src = src] gives_then3 [OF function_args_loop_gives [where src = src]];
          (use that k(2) True in \<open>simp add: run_defs quiet_def check_tok_def\<close>))
  qed
  show ?thesis
    unfolding function_args_def
    by (intro gives_rules ignore_newlines_quiet assms gives_then3 [OF loop])
      (auto intro: quiet_ok quiet_trans)
qed

lemma open_body_quiet:
  "ok src s \<Longrightarrow> gives (open_body r msg s) (\<lambda>s'. quiet s s')"
  unfolding open_body_def
  by (intro gives_rules match_quiet; (use report_quiet in \<open>simp add: quiet_def\<close>))

lemma block_loop_quiet:
  assumes "ok src s" "unread s < n" "unread s < N" "fine_stmts src (errors s = []) vs"
  shows "gives (block_loop r depth from n vs s) (\<lambda>(vs', early, s'). quiet s s')"
proof (cases "panic_mode s")
  case True
  then show ?thesis using assms by (cases n) (simp_all add: gives_def quiet_refl)
next
  case False
  then show ?thesis
    by (intro gives_then3 [OF block_loop_gives [OF assms]]) (simp add: after_def quiet_def)
qed

lemma drain_quiet:
  assumes "ok src s"
    and "\<And>vs s'. quiet s s' \<and> unread s' = unread s \<and> fine_stmts src (errors s' = []) vs \<Longrightarrow> gives (f vs s') Q"
  shows "gives (case drain_trivia_into_stmts [] from s of (vs, s') \<Rightarrow> f vs s') Q"
proof -
  obtain vs s1 where t: "drain_trivia_into_stmts [] from s = (vs, s1)" by fastforce
  moreover have "quiet s s1" if "after src s s1" "unread s1 = unread s"
    using t that
    by (auto simp: drain_trivia_into_stmts_def take_trivia_def Let_def quiet_def after_def)
  moreover have "after src s s1 \<and> unread s1 = unread s \<and> fine_stmts src (errors s1 = []) vs"
    using drain_stmts_rule [of s "[]" "\<lambda>vs s'. Some (vs, s')" "\<lambda>(vs, s'). after src s s' \<and> unread s' = unread s \<and> fine_stmts src (errors s' = []) vs" "from"] t assms(1)
    by (simp add: gives_def fine_stmts_def)
  ultimately show ?thesis using assms(2) [of s1 vs] by simp
qed

lemma block_counted:
  assumes "quiet (s\<lparr>block_count := block_count s + 1\<rparr>) s'"
  shows "1 \<le> block_count s'" "quiet s (s'\<lparr>block_count := block_count s' - 1\<rparr>)"
  using assms by (auto simp: quiet_def)

lemma block_quiet:
  assumes "ok src s" "unread s < N"
  shows "gives (block r s) (\<lambda>(b, s'). quiet s s')"
proof -
  let ?t = "s\<lparr>block_count := block_count s + 1\<rparr>"
  have "unread s' < N" if "quiet ?t s'" for s' using quiet_unread [OF that] assms(2) by simp
  note [intro] = this quiet_ok quiet_trans block_counted
  show ?thesis
    unfolding block_def
    by (intro gives_rules ignore_newlines_quiet drain_quiet gives_then3 [OF block_loop_quiet] consume_quiet
        unread_tokens_left; (elim conjE)?; (use assms in \<open>simp; fail\<close> | blast))
qed

lemma match_block_quiet:
  assumes "ok src s" "unread s < N"
  shows "gives (match_block r msg s) (\<lambda>(b, s'). quiet s s')"
proof -
  have "unread s' < N" if "quiet s s'" for s' using quiet_unread [OF that] assms(2) by simp
  note [intro] = this quiet_ok quiet_trans
  show ?thesis
    unfolding match_block_def
    by (intro gives_rules ignore_newlines_quiet gives_then [OF open_body_quiet] gives_then2 [OF block_quiet];
        (use assms in \<open>simp; fail\<close> | blast))
qed

text \<open>A declaration that consumes nothing has failed just here.\<close>

definition caught :: "parser \<Rightarrow> parser \<Rightarrow> bool" where
  "caught s s' \<longleftrightarrow>
     unread s' < unread s \<or>
     unread s' = unread s \<and> p_current s' = p_current s \<and> panic_mode s' \<and> panic_at s' = consumed s'"

lemma caught_quiet: "caught s s' \<Longrightarrow> quiet s' s'' \<Longrightarrow> caught s s''"
  by (auto simp: caught_def quiet_def)

lemma consume_caught:
  assumes "ok src s" "\<not> panic_mode s" "\<not> p TkEof"
    and "\<And>t s'. after src s s' \<Longrightarrow> caught s s' \<Longrightarrow> Q (t, s')"
  shows "gives (consume_tok r p msg s) Q"
proof (cases "p (kind (p_current s))")
  case True
  show ?thesis
    by (rule consume_tok_rule [where src = src, OF assms(1)])
      (use True assms(3) in \<open>auto intro!: assms(4) simp: caught_def\<close>)
next
  case False
  have "after src s (report_error msg s)"
    using report_error_at_after [OF assms(1)] by (simp add: report_error_def)
  then show ?thesis
    using False assms(1,2) assms(4) [of "report_error msg s"]
    by (simp add: consume_tok_def gives_def Let_def caught_def report_error_def report_error_at_def)
qed

lemma caught_counts [simp]:
  "caught s (s'\<lparr>functions_count := k\<rparr>) = caught s s'" "caught (s\<lparr>functions_count := k\<rparr>) s' = caught s s'"
  by (simp_all add: caught_def)

lemma quiet_counted:
  "after src (s\<lparr>functions_count := functions_count s + 1\<rparr>) s' \<Longrightarrow> quiet s' s'' \<Longrightarrow> 1 \<le> functions_count s''"
  by (simp add: after_def quiet_def)

lemma method_decl_caught:
  assumes "ok src s" "unread s < N" "\<not> panic_mode s"
  shows "gives (method_decl r from b s) (\<lambda>(d, s'). caught s s')"
proof -
  let ?t = "s\<lparr>functions_count := functions_count s + 1\<rparr>"
  have n: "unread s'' < N" if "after src ?t s'" "quiet s' s''" for s' s''
    using that assms(2) by (simp add: after_def quiet_def)
  note [intro] = n caught_quiet quiet_ok quiet_trans quiet_counted after_ok
  show ?thesis
    unfolding method_decl_def
    apply (rule gives_bind, rule consume_caught)
    prefer 4
    subgoal
      by (intro gives_rules ignore_newlines_quiet consume_quiet gives_then3 [OF function_args_quiet]
        gives_then2 [OF match_block_quiet])
        ((simp; fail | (simp only: prod.case caught_counts)?, blast)+)
    by (use assms in simp_all)
qed

lemma method_decl_both:
  assumes "ok src s" "unread s < N" "i \<le> length src"
  shows "gives (method_decl r i b s)
    (\<lambda>(d, s'). after src s s' \<and> fine_decl src (errors s' = []) d \<and> (panic_mode s \<or> caught s s'))"
  using method_decl_gives [OF assms, of b] method_decl_caught [OF assms(1,2), of i b]
  by (cases "panic_mode s") (auto simp: gives_def)

lemma fine_member:
  assumes "fine_members c ms" "c' \<longrightarrow> c" "fine_decl src c' d"
  shows "fine_members c' (ms\<lparr>properties := properties ms @ [d], last_member_was_method := m\<rparr>)"
    and "fine_members c' (ms\<lparr>methods := methods ms @ [d], last_member_was_method := m\<rparr>)"
  using assms by (auto simp: fine_members_def intro: fine_decls_mono fine_decls_snoc)

lemma class_member_reads:
  assumes "ok src s" "unread s < N" "fine_members (errors s = []) ms"
  shows "gives (class_member r ms s) (\<lambda>(ms', s'). after src s s' \<and> fine_members (errors s' = []) ms')"
  unfolding class_member_def
  apply (intro parts gives_then2 [OF class_field_gives] gives_then2 [OF method_decl_gives])
  apply (use assms(1,2) in \<open>simp_all add: after_def Let_def\<close>)
  apply (simp_all add: fine_member [OF assms(3)])
  done

lemma class_member_static:
  assumes "ok src s" "unread s < N" "is_kw KwStatic (kind (p_current s))"
  shows "gives (class_member r ms s) (\<lambda>(ms', s'). unread s' < unread s)"
  unfolding class_member_def
  by (intro parts gives_then2 [OF class_field_gives] gives_then2 [OF method_decl_gives];
      use assms in \<open>simp add: after_def Let_def\<close>)
lemma class_member_caught:
  "ok src s \<Longrightarrow> unread s < N \<Longrightarrow> \<not> panic_mode s \<Longrightarrow> gives (class_member r ms s) (\<lambda>(ms', s'). caught s s')"
  unfolding class_member_def
  by (intro parts gives_then2 [OF class_field_gives] gives_then2 [OF method_decl_both];
      simp add: run_defs caught_def)

lemma class_member_gives:
  assumes "ok src s" "unread s < N" "fine_members (errors s = []) ms"
  shows "gives (class_member r ms s)
    (\<lambda>(ms', s'). after src s s' \<and> fine_members (errors s' = []) ms' \<and>
       ((panic_mode s \<longrightarrow> kind (p_current s) = TkKw KwStatic) \<longrightarrow> caught s s'))"
proof (cases "panic_mode s \<and> kind (p_current s) = TkKw KwStatic")
  case True
  then show ?thesis
    using class_member_reads [OF assms] class_member_static [OF assms(1,2), of ms]
    by (auto simp: gives_def caught_def any_of_def)
next
  case False
  then show ?thesis
    using class_member_reads [OF assms] class_member_caught [OF assms(1,2), of ms]
    by (cases "panic_mode s") (auto simp: gives_def)
qed

lemma synchronize_moves:
  assumes "ok src s" "\<not> p_at_end s" "\<not> check_tok (is_sym SyRbrace) s" "panic_at s = consumed s"
  shows "gives (synchronize r depth b s)
    (\<lambda>s'. after src s s' \<and> (brace_depth s' < depth \<or> unread s' < unread s))"
proof -
  obtain k where k: "tokens_left s = Suc k" "unread s \<le> k"
    using unread_tokens_left [of s] by (cases "tokens_left s") auto
  show ?thesis
    unfolding synchronize_def k(1) synchronize_loop.simps
    by (intro gives_rules p_advance_rule [where src = src] gives_then [OF synchronize_loop_gives [where src = src]];
        use assms k(2) in \<open>simp add: after_def p_at_end_def check_tok_def weight_def\<close>)
qed

lemma drain_members:
  assumes "ok src s" "fine_members (errors s = []) ms"
  shows "drain_into_fields ms from s = (ms', s') \<or> drain_into_methods ms from s = (ms', s') \<Longrightarrow>
     after src s s' \<and> fine_members (errors s' = []) ms' \<and> unread s' = unread s \<and>
     panic_mode s' = panic_mode s \<and> brace_depth s' = brace_depth s \<and> p_current s' = p_current s"
proof -
  have f: "fine_decls src (errors s = []) (properties ms)" "fine_decls src (errors s = []) (methods ms)"
    using assms(2) by (simp_all add: fine_members_def)
  obtain ds s1 es s2 where d: "drain_trivia_into_decls (properties ms) from s = (ds, s1)"
    "drain_trivia_into_decls (methods ms) from s = (es, s2)" by fastforce
  note e = drain_decls [OF d(1) assms(1) f(1)] drain_decls [OF d(2) assms(1) f(2)]
  have m: "fine_decls src (errors t = []) xs" if "after src s t" "fine_decls src (errors s = []) xs" for t xs
    using that by (auto simp: after_def intro: fine_decls_mono)
  assume "drain_into_fields ms from s = (ms', s') \<or> drain_into_methods ms from s = (ms', s')"
  then show ?thesis
    using e f m by (auto simp: drain_into_fields_def drain_into_methods_def d fine_members_def)
qed

lemma fine_members_after: "fine_members (errors s = []) ms \<Longrightarrow> after src s s' \<Longrightarrow> fine_members (errors s' = []) ms"
  by (auto simp: fine_members_def after_def intro: fine_decls_mono)

lemma member_trivia_gives:
  assumes "ok src s" "fine_members (errors s = []) ms"
  shows "gives (member_trivia r from ms s)
    (\<lambda>(ms', s'). after src s s' \<and> fine_members (errors s' = []) ms' \<and>
       (panic_mode s' \<longrightarrow> panic_mode s \<or> kind (p_current s) = TkKw KwStatic) \<and> p_current s' = p_current s)"
proof -
  have drain: "gives (Some (if b then drain_into_fields ms from s' else drain_into_methods ms from s'))
      (\<lambda>(ms', s''). after src s s'' \<and> fine_members (errors s'' = []) ms' \<and>
         (panic_mode s'' \<longrightarrow> panic_mode s \<or> kind (p_current s) = TkKw KwStatic) \<and> p_current s'' = p_current s)"
    if s': "after src s s'" "panic_mode s' \<longrightarrow> panic_mode s \<or> kind (p_current s) = TkKw KwStatic"
      "p_current s' = p_current s" for b s'
  proof -
    obtain ms1 s1 ms2 s2 where d: "drain_into_fields ms from s' = (ms1, s1)"
      "drain_into_methods ms from s' = (ms2, s2)" by fastforce
    note m = drain_members [OF after_ok [OF s'(1)] fine_members_after [OF assms(2) s'(1)]]
    show ?thesis
      using m [of "from" ms1 s1] m [of "from" ms2 s2] d s' after_trans [OF s'(1)] by (simp add: gives_def)
  qed
  show ?thesis
    unfolding member_trivia_def
    by (intro gives_rules peek_at_rule [where src = src] drain; use assms in \<open>simp add: peeks_def after_refl\<close>)
qed

lemma recover_gives:
  assumes "after src s s'" "caught s s'" "\<not> p_at_end s" "\<not> check_tok (is_sym SyRbrace) s"
  shows "gives (if panic_mode s' then synchronize r depth True s' else Some s')
    (\<lambda>s''. after src s s'' \<and> (panic_mode s' \<and> brace_depth s'' < depth \<or> unread s'' < unread s))"
proof (cases "panic_mode s'")
  case False
  then show ?thesis using assms(1,2) by (simp add: gives_def caught_def)
next
  case True
  show ?thesis
  proof (cases "unread s' < unread s")
    case less: True
    then show ?thesis
      using True after_ok [OF assms(1)] after_trans [OF assms(1)]
      by (simp, intro synchronize_rule [where src = src]) (auto simp: after_def)
  next
    case False
    then have "p_current s' = p_current s" "panic_at s' = consumed s'" "unread s' = unread s"
      using assms(2) by (simp_all add: caught_def)
    then show ?thesis
      using True assms(3,4) after_ok [OF assms(1)] after_trans [OF assms(1)]
      by (simp, intro gives_then [OF synchronize_moves]) (auto simp: p_at_end_def check_tok_def)
  qed
qed

lemma recover_errors:
  assumes "(if panic_mode s' then synchronize r depth b s' else Some s') = Some s''" "ok src s'"
  shows "errors s'' = [] \<longrightarrow> errors s' = []"
  using assms synchronize_rule [where src = src and r = r and depth = depth and in_block = b, OF assms(2), of "after src s'"]
  by (cases "panic_mode s'") (auto simp: gives_def after_def)

lemma recover_after:
  assumes "after src s s'"
  shows "gives (if panic_mode s' then synchronize r depth True s' else Some s') (\<lambda>s''. after src s s'')"
  using assms after_ok [OF assms] after_trans [OF assms]
  by (cases "panic_mode s'") (simp_all add: gives_Some synchronize_rule [where src = src])

lemma class_loop_gives:
  "ok src s \<Longrightarrow> unread s < n \<Longrightarrow> unread s < N \<Longrightarrow> fine_members (errors s = []) ms \<Longrightarrow>
     gives (class_loop r depth from n ms s)
       (\<lambda>(ms', early, s'). after src s s' \<and> fine_members (errors s' = []) ms')"
proof (induction n arbitrary: s ms)
  case 0
  then show ?case by simp
next
  case (Suc n)
  show ?case
  proof (cases "check_tok (is_sym SyRbrace) s \<or> p_at_end s \<or> panic_mode s")
    case True
    then show ?thesis using Suc.prems by (simp add: gives_def after_refl)
  next
    case go: False
    obtain s1 where s1: "ignore_newlines r s = Some s1" "after src s s1" "s1 = s \<or> unread s1 < unread s"
      using ignore_newlines_rule [where src = src and r = r, OF Suc.prems(1), of "\<lambda>s1. after src s s1 \<and> (s1 = s \<or> unread s1 < unread s)"]
      by (auto simp: gives_def)
    note m1 = fine_members_after [OF Suc.prems(4) s1(2)]
    show ?thesis
    proof (cases "check_tok (is_sym SyRbrace) s1 \<or> p_at_end s1")
      case True
      then show ?thesis using go s1 m1 by (simp add: gives_def)
    next
      case item: False
      obtain ms1 s2 where s2: "member_trivia r from ms s1 = Some (ms1, s2)" "after src s1 s2"
        "fine_members (errors s2 = []) ms1" "p_current s2 = p_current s1"
        "panic_mode s2 \<longrightarrow> panic_mode s1 \<or> kind (p_current s1) = TkKw KwStatic"
        using member_trivia_gives [OF after_ok [OF s1(2)] m1, of "from"] by (auto simp: gives_def)
      have a2: "after src s s2" by (rule after_trans [OF s1(2) s2(2)])
      obtain ms2 s3 where s3: "class_member r ms1 s2 = Some (ms2, s3)" "after src s2 s3"
        "fine_members (errors s3 = []) ms2"
        "(panic_mode s2 \<longrightarrow> kind (p_current s2) = TkKw KwStatic) \<longrightarrow> caught s2 s3"
        using class_member_gives [OF after_ok [OF a2] _ s2(3)] Suc.prems(3) a2
        by (auto simp: gives_def after_def)
      obtain s4 where s4: "(if panic_mode s3 then synchronize r depth True s3 else Some s3) = Some s4"
        "after src s2 s4" "panic_mode s3 \<and> brace_depth s4 < depth \<or> unread s4 < unread s"
      proof (cases "s1 = s")
        case True
        then have "caught s2 s3" using s3(4) s2(4,5) go by simp
        then show ?thesis
          using recover_gives [OF s3(2), of depth] item s2(4) a2 that
          by (fastforce simp: gives_def p_at_end_def check_tok_def after_def)
      next
        case False
        then show ?thesis
          using recover_after [OF s3(2), of depth] s1(3) s2(2) that by (fastforce simp: gives_def after_def)
      qed
      have a4: "after src s s4" by (rule after_trans [OF a2 s4(2)])
      have m4: "fine_members (errors s4 = []) ms2"
        using s3(3) recover_errors [OF s4(1) after_ok [OF s3(2)]] by (auto simp: fine_members_def intro: fine_decls_mono)
      obtain s5 where s5: "ignore_newlines r s4 = Some s5" "after src s4 s5"
        using ignore_newlines_rule [where src = src and r = r, OF after_ok [OF s4(2)], of "after src s4"] by (auto simp: gives_def)
      have "gives (class_loop r depth from n ms2 s5)
          (\<lambda>(ms', early, s'). after src s s' \<and> fine_members (errors s' = []) ms')"
        if "\<not> (panic_mode s3 \<and> brace_depth s4 < depth)"
        using that s4(3) a4 s5(2) Suc.prems(2,3) fine_members_after [OF m4 s5(2)] after_trans [OF after_trans [OF a4 s5(2)]]
        by (intro gives_then3 [OF Suc.IH]) (auto simp: after_def)
      then show ?thesis
        using go s1(1) item s2(1) s3(1) s4(1) s5(1) a4 m4 by (auto simp: gives_def)
    qed
  qed
qed

lemma class_header_gives:
  "ok src s \<Longrightarrow> unread s < N \<Longrightarrow>
     gives (class_header r s) (\<lambda>(q, b, s'). after src s s' \<and> fine_opt_expr src (errors s' = []) q)"
  unfolding class_header_def
  by (intro parts gives_then2 [OF class_reference_gives]; simp add: run_defs fine_opt_expr_def)

lemma open_body_rule:
  "ok src s \<Longrightarrow> (\<And>s'. after src s s' \<Longrightarrow> Q s') \<Longrightarrow> gives (open_body r msg s) Q"
  by (rule gives_then [OF open_body_gives])

lemma class_decl_fine:
  "fine_opt_expr src c q \<Longrightarrow> fine_members d ms \<Longrightarrow> tok src name \<Longrightarrow> (c' \<longrightarrow> c) \<Longrightarrow> (c' \<longrightarrow> d) \<Longrightarrow>
     within (length src) sp \<Longrightarrow> fine_decl src c' (Decl (DClass name q (properties ms) (methods ms) x) sp)"
  by (auto simp: fine_opt_expr_def fine_members_def fine_defs)

lemma no_members [simp]: "fine_members c \<lparr>properties = [], methods = [], last_member_was_method = m\<rparr>"
  by (simp add: fine_members_def fine_defs)

lemma drain_last_rule:
  assumes "ok src s" "fine_members (errors s = []) ms"
    and "\<And>ms' s'. after src s s' \<Longrightarrow> fine_members (errors s' = []) ms' \<Longrightarrow> gives (f ms' s') Q"
  shows "gives (case (if b then drain_into_fields ms from s else drain_into_methods ms from s) of (ms', s') \<Rightarrow> f ms' s') Q"
proof -
  obtain ms1 s1 ms2 s2 where d: "drain_into_fields ms from s = (ms1, s1)"
    "drain_into_methods ms from s = (ms2, s2)" by fastforce
  then show ?thesis
    using drain_members [OF assms(1,2), of "from" ms1 s1] drain_members [OF assms(1,2), of "from" ms2 s2] assms(3) by auto
qed

lemma class_decl_gives:
  assumes "ok src s" "unread s < N"
  shows "gives (class_decl r s) (reads_decl src s)"
  unfolding class_decl_def
  apply (intro parts gives_then3 [OF class_header_gives] open_body_rule drain_last_rule gives_then3 [OF class_loop_gives] unread_tokens_left)
  apply (use assms in \<open>simp_all add: after_def Let_def decl_from_def\<close>)
  by (elim conjE, rule class_decl_fine, assumption, assumption, assumption, simp, simp, simp)+

section \<open>Statements and declarations\<close>

lemma optional_value_gives:
  "ok src s \<Longrightarrow> unread s < N \<Longrightarrow>
     gives (optional_value r s) (\<lambda>(e, s'). after src s s' \<and> fine_expr src (errors s' = []) e)"
  unfolding optional_value_def by (intro parts; simp add: run_defs)

text \<open>
  The first token has been consumed. A rule that hands it back counts it again, and never
  leaves the parser in front of it.
\<close>

abbreviation begun :: "parser \<Rightarrow> bool" where
  "begun s \<equiv> ok src s \<and> 0 < consumed s \<and> tend (last_previous s) \<le> tstart (p_previous s) \<and>
     tend (p_previous s) \<le> here s \<and> unread s + weight (p_previous s) \<le> N"

abbreviation since :: "parser \<Rightarrow> parser \<Rightarrow> bool" where
  "since s s' \<equiv> ok src s' \<and> unread s' \<le> unread s \<and> block_count s' = block_count s \<and>
     functions_count s' = functions_count s \<and> (errors s' = [] \<longrightarrow> errors s = []) \<and>
     tstart (p_previous s) \<le> here s'"

lemma since_after: "after src s s' \<Longrightarrow> ok src s \<Longrightarrow> tend (p_previous s) \<le> here s \<Longrightarrow> since s s'"
  using ok_tokens(2) [of src s] by (auto simp: after_def tok_def tok_in_def)

lemma rewound_stmt_gives:
  assumes "begun s"
  shows "gives (do { s1 \<leftarrow> rewind s; expression_stmt r s1 })
    (\<lambda>(k, s'). since s s' \<and> fine_skind src (errors s' = []) k)"
proof -
  obtain s1 where s1: "rewind s = Some s1" "ok src s1" "block_count s1 = block_count s"
    "functions_count s1 = functions_count s" "errors s1 = errors s"
    "unread s1 = unread s + weight (p_previous s)" "p_current s1 = p_previous s"
    using rewind_gives [of src s] assms by (auto simp: gives_def)
  have "gives (expression_stmt r s1) (\<lambda>(k, s'). since s s' \<and> fine_skind src (errors s' = []) k)"
    by (intro gives_then2 [OF expression_stmt_gives])
      (use s1 assms in \<open>auto simp: after_def weight_def here_def split: if_splits\<close>)
  then show ?thesis by (simp add: s1(1) gives_def)
qed

lemma statement_kind_gives:
  assumes "begun s"
  shows "gives (statement_kind r s) (\<lambda>(k, s'). since s s' \<and> fine_skind src (errors s' = []) k)"
proof -
  have leaf: "gives m (\<lambda>(k, s'). since s s' \<and> fine_skind src (errors s' = []) k)"
    if "gives m (reads_skind src s)" for m
    by (rule gives_then2 [OF that]) (use assms since_after in blast)
  have ok: "ok src s" using assms by simp
  have n: "kind (p_previous s) \<noteq> TkEof \<Longrightarrow> unread s < N" using assms by (simp add: weight_def)
  note stmts = gives_then2 [OF echo_stmt_gives] gives_then2 [OF if_stmt_gives] gives_then2 [OF while_stmt_gives]
    gives_then2 [OF do_stmt_gives] gives_then2 [OF iter_stmt_gives] gives_then2 [OF for_stmt_gives]
    gives_then2 [OF using_stmt_gives] gives_then2 [OF assert_stmt_gives] gives_then2 [OF block_gives]
    gives_then2 [OF import_stmt_gives] gives_then2 [OF catch_stmt_gives] gives_then2 [OF function_decl_gives]
    gives_then2 [OF var_decl_gives] gives_then2 [OF optional_value_gives]
  show ?thesis
    unfolding statement_kind_def
    by (rule gives_let, rule gives_let, intro gives_if; (rule rewound_stmt_gives [OF assms] | rule leaf, intro stmts parts))
      ((simp add: ok n run_defs; fail | elim disjE; simp add: ok n run_defs; fail)+)
qed

lemma statement_gives:
  assumes "ok src s" "unread s \<le> N"
  shows "gives (statement r s) (reads_stmt src s)"
  unfolding statement_def
  by (intro gives_bind gives_let gives_pair ignore_newlines_rule [where src = src] p_advance_rule [where src = src]
      gives_then2 [OF statement_kind_gives] gives_Some; use assms in \<open>simp add: run_defs\<close>;
      (elim conjE disjE; simp add: weight_def here_def; (intro impI; simp)?)?)

lemma rewound_gives:
  assumes "begun s"
  shows "gives (do { s1 \<leftarrow> rewind s; (t, s2) \<leftarrow> statement r s1; Some (DStmt t, s2) })
    (\<lambda>(k, s'). since s s' \<and> fine_dkind src (errors s' = []) k)"
proof -
  obtain s1 where s1: "rewind s = Some s1" "ok src s1" "block_count s1 = block_count s"
    "functions_count s1 = functions_count s" "errors s1 = errors s"
    "unread s1 = unread s + weight (p_previous s)" "p_current s1 = p_previous s"
    using rewind_gives [of src s] assms by (auto simp: gives_def)
  have "gives (statement r s1) (\<lambda>(t, s'). since s s' \<and> fine_stmt src (errors s' = []) t)"
    by (intro gives_then2 [OF statement_gives])
      (use s1 assms in \<open>auto simp: after_def weight_def here_def split: if_splits\<close>)
  then show ?thesis by (auto simp: s1(1) gives_def fine_defs)
qed

lemma declaration_kind_gives:
  assumes "begun s" "i \<le> here s"
  shows "gives (declaration_kind r i s) (\<lambda>(k, s'). since s s' \<and> fine_dkind src (errors s' = []) k)"
proof -
  have leaf: "gives m (\<lambda>(k, s'). since s s' \<and> fine_dkind src (errors s' = []) k)"
    if "gives m (\<lambda>(k, s'). after src s s' \<and> fine_dkind src (errors s' = []) k)" for m
    by (rule gives_then2 [OF that]) (use assms since_after in blast)
  have ok: "ok src s" using assms by simp
  have i: "i \<le> length src" using assms(2) here_bound [OF ok] by simp
  have n: "kind (p_previous s) \<noteq> TkEof \<Longrightarrow> unread s < N" using assms by (simp add: weight_def)
  note decls = gives_then2 [OF function_decl_gives] gives_then2 [OF class_decl_gives] gives_then2 [OF p_dict_gives]
    gives_then2 [OF do_call_gives] gives_then2 [OF block_gives]
  show ?thesis
    unfolding declaration_kind_def
    by (rule gives_let, intro gives_if; (rule rewound_gives [OF assms(1)] | rule leaf, intro decls parts))
      ((simp add: ok n i assms(2) run_defs; fail | use n assms(2) in \<open>simp add: ok i run_defs; fail\<close>)+)
qed

lemma declaration_gives:
  assumes "ok src s" "unread s \<le> N"
  shows "gives (p_declaration r s)
    (\<lambda>(d, s'). after src s s' \<and> fine_decl src (errors s' = []) d \<and> (kind (p_current s) \<noteq> TkEof \<longrightarrow> unread s' < unread s))"
  unfolding p_declaration_def
  by (intro gives_bind gives_let gives_pair ignore_newlines_rule [where src = src] p_advance_rule [where src = src]
      gives_then2 [OF declaration_kind_gives] gives_Some; use assms in \<open>simp add: run_defs\<close>;
      (elim conjE disjE; simp add: weight_def here_def; (intro impI; simp)?)?)

end

section \<open>The knot\<close>

text \<open>Each level satisfies the specifications on as many tokens as its fuel.\<close>

lemma rules_at_simps [simp]:
  "rec_expression (rules_at b n) = expression_at b n" "rec_assignment (rules_at b n) = expression_at b n"
  "rec_conditional (rules_at b n) = conditional_at b n" "rec_unary (rules_at b n) = unary_at b n"
  "rec_statement (rules_at b n) = statement_at b n"
  by (simp_all add: rules_at_def library.defs rules.defs)

lemma rules_at_upper: "upper_rules (rules_at b n) src n"
proof (induction n)
  case 0
  then show ?case by (simp add: upper_rules_def)
next
  case (Suc n)
  note up = expression_at.simps(2) conditional_at.simps(2) unary_at.simps(2) statement_at.simps(2)
  show ?case
    by (rule upper_rules.intro; simp only: rules_at_simps up rules_at_def [symmetric] less_Suc_eq_le;
        rule upper_rules.expression_gives [OF Suc.IH] upper_rules.conditional_gives [OF Suc.IH]
          upper_rules.unary_gives [OF Suc.IH] upper_rules.statement_gives [OF Suc.IH]; assumption)
qed

interpretation knot: upper_rules "rules_at b n" src n for b n src
  by (rule rules_at_upper)

section \<open>A whole source\<close>

lemma parse_loop_gives:
  "ok src s \<Longrightarrow> unread s < n \<Longrightarrow> unread s \<le> N \<Longrightarrow> fine_decls src (errors s = []) ds \<Longrightarrow>
     gives (parse_loop (rules_at b N) n ds s)
       (\<lambda>(ds', s'). after src s s' \<and> fine_decls src (errors s' = []) ds' \<and> p_at_end s')"
proof (induction n arbitrary: s ds)
  case 0
  then show ?case by simp
next
  case (Suc n)
  let ?r = "rules_at b N"
  show ?case
  proof (cases "p_at_end s")
    case True
    then show ?thesis using Suc.prems by (simp add: gives_def after_refl)
  next
    case more: False
    show ?thesis
    proof (cases "errors s \<noteq> [] \<and> check_tok (is_sym SyRbrace) s")
      case True
      obtain s1 where s1: "p_advance ?r s = Some s1" "after src s s1" "unread s1 < unread s"
        using p_advance_gives [OF Suc.prems(1), of ?r] more by (auto simp: gives_def p_at_end_def weight_def)
      obtain s2 where s2: "ignore_newlines ?r s1 = Some s2" "after src s1 s2"
        using ignore_newlines_rule [where r = ?r, OF after_ok [OF s1(2)], of "after src s1"] by (auto simp: gives_def)
      have a: "after src s s2" by (rule after_trans [OF s1(2) s2(2)])
      have "gives (parse_loop ?r n ds s2)
          (\<lambda>(ds', s'). after src s s' \<and> fine_decls src (errors s' = []) ds' \<and> p_at_end s')"
        using Suc.prems s1(3) s2(2) a after_trans [OF a]
        by (intro gives_then2 [OF Suc.IH]) (auto simp: after_def intro: knot.fine_decls_mono)
      then show ?thesis using True more s1(1) s2(1) by simp
    next
      case False
      obtain d s1 where s1: "p_declaration ?r s = Some (d, s1)" "after src s s1"
        "fine_decl src (errors s1 = []) d" "unread s1 < unread s"
        using knot.declaration_gives [OF Suc.prems(1,3), of b] more by (auto simp: gives_def p_at_end_def)
      obtain s2 where s2: "(if panic_mode s1 then synchronize ?r (brace_depth s) False s1 else Some s1) = Some s2"
        "after src s1 s2"
        using synchronize_rule [where r = ?r and depth = "brace_depth s" and in_block = False,
            OF after_ok [OF s1(2)], of "after src s1"] after_refl [OF after_ok [OF s1(2)]]
        by (cases "panic_mode s1") (auto simp: gives_def)
      have a2: "after src s s2" by (rule after_trans [OF s1(2) s2(2)])
      obtain ds2 s3 where s3: "drain_trivia_into_decls (ds @ [d]) 0 s2 = (ds2, s3)" by fastforce
      have "fine_decls src (errors s2 = []) (ds @ [d])"
        using Suc.prems(4) s1(3) a2 s2(2) by (auto simp: after_def fine_defs)
      note f3 = knot.drain_decls [OF s3 after_ok [OF a2] this]
      have a3: "after src s s3" using after_trans [OF a2] f3 by blast
      have "gives (parse_loop ?r n ds2 s3)
          (\<lambda>(ds', s'). after src s s' \<and> fine_decls src (errors s' = []) ds' \<and> p_at_end s')"
        using Suc.prems(2,3) s1(4) s2(2) f3 a3 after_trans [OF a3]
        by (intro gives_then2 [OF Suc.IH]) (auto simp: after_def)
      then show ?thesis using more s1(1) s2(1) s3 by (simp add: if_not_P [OF False])
    qed
  qed
qed

lemma parser_new_ok: "ok src (parser_new (lexer_new src))"
  using lex_wf_new [of src]
  by (simp add: ok_def parser_new_def tok_def tok_in_def hidden_def in_order_def lexer_new_def)

lemma parse_recovering_gives:
  assumes "ok src s"
  shows "gives (parse_recovering b s)
    (\<lambda>((ds, es), s'). after src s s' \<and> es = errors s' \<and> fine_decls src (es = []) ds \<and> p_at_end s')"
proof -
  let ?r = "rules_at b (tokens_left s + 1)"
  obtain s1 where s1: "ignore_newlines ?r s = Some s1" "after src s s1"
    using ignore_newlines_rule [where r = ?r, OF assms, of "after src s"] by (auto simp: gives_def)
  obtain ds2 s2 where s2: "drain_trivia_into_decls [] 0 s1 = (ds2, s2)" by fastforce
  have "fine_decls src (errors s1 = []) []" by (simp add: fine_defs)
  note f = knot.drain_decls [OF s2 after_ok [OF s1(2)] this]
  have a2: "after src s s2" using after_trans [OF s1(2)] f by blast
  have "unread s2 \<le> tokens_left s + 1" using a2 unread_tokens_left [of s] by (simp add: after_def)
  then have "gives (parse_loop ?r (tokens_left s2) ds2 s2)
      (\<lambda>(ds', s'). after src s s' \<and> fine_decls src (errors s' = []) ds' \<and> p_at_end s')"
    using f after_ok [OF a2] after_trans [OF a2]
    by (intro gives_then2 [OF parse_loop_gives [OF _ unread_tokens_left]]) auto
  then show ?thesis using s1(1) s2 by (auto simp: parse_recovering_def gives_def Let_def)
qed
end
