(* ===== verification/Parser_Props.thy ===== *)
theory Parser_Props
  imports Parser_Stmts
begin

text \<open>
  The properties of the parser, for every source and every behaviour of the library it uses,
  and how it fits the rewriting that follows it.
\<close>

section \<open>Weakening what holds of every node\<close>

lemma nodes_mono:
  assumes "\<And>x. P x \<Longrightarrow> Q x"
  shows "nodes_expr P e \<Longrightarrow> nodes_expr Q e"
    "nodes_ekind P k \<Longrightarrow> nodes_ekind Q k"
    "nodes_segment P g \<Longrightarrow> nodes_segment Q g"
    "nodes_arm P a \<Longrightarrow> nodes_arm Q a"
    "nodes_stmt P st \<Longrightarrow> nodes_stmt Q st"
    "nodes_skind P sk \<Longrightarrow> nodes_skind Q sk"
    "nodes_decl P d \<Longrightarrow> nodes_decl Q d"
    "nodes_dkind P dk \<Longrightarrow> nodes_dkind Q dk"
proof (induction e and k and g and a and st and sk and d and dk)
qed (auto simp: list_all_iff assms split: option.splits)

lemma sound_safe: "sound src x \<Longrightarrow> no_empty_interpolation x"
  by (cases x) (auto split: expr_kind.splits)

section \<open>A run of the parser\<close>

lemma parse_recovering_run:
  obtains ds es s where "parse_recovering b (parser_new (lexer_new src)) = Some ((ds, es), s)"
    "after src (parser_new (lexer_new src)) s" "es = errors s" "fine_decls src (es = []) ds" "p_at_end s"
  using parse_recovering_gives [OF parser_new_ok, of b src] by (auto simp: gives_def)

lemma parse_source_run:
  obtains ds es where "parse_source b src = Some (if es = [] then Inr ds else Inl es)"
    "fine_decls src (es = []) ds"
proof -
  obtain ds es s where r: "parse_recovering b (parser_new (lexer_new src)) = Some ((ds, es), s)"
    "fine_decls src (es = []) ds"
    by (rule parse_recovering_run)
  then show thesis using that [of es ds] by (simp add: parse_source_def parse_def)
qed

section \<open>Properties\<close>

text \<open>
  C5. Every source is parsed to an end: no loop of the parser and no nesting of its rules goes
  on for ever, no counter is taken below zero and no look ahead falls outside the queue, on any
  input, however broken. The result is a program, or at least one error.
\<close>

theorem parse_source_total:
  "\<exists>res. parse_source b src = Some res \<and> (case res of Inl es \<Rightarrow> es \<noteq> [] | Inr ds \<Rightarrow> True)"
proof -
  obtain ds es where "parse_source b src = Some (if es = [] then Inr ds else Inl es)"
    by (rule parse_source_run)
  then show ?thesis by simp
qed



text \<open>
  C15. The two passes fit: whatever the parser makes of a source, the rewriting takes without
  panicking, and gives a program in the language of the code generator, declaration by
  declaration with the span it was written with.
\<close>

theorem parsed_program_lowers:
  "\<exists>ds es s ds'. parse_recovering b (parser_new (lexer_new src)) = Some ((ds, es), s) \<and>
      lower_program sf ds = Some ds' \<and> list_all (nodes_decl core_node) ds' \<and> map dspan ds' = map dspan ds"
proof -
  obtain ds es s where r: "parse_recovering b (parser_new (lexer_new src)) = Some ((ds, es), s)"
    "fine_decls src (es = []) ds"
    by (rule parse_recovering_run)
  have safe: "list_all (nodes_decl no_empty_interpolation) ds"
    using r(2) nodes_mono(7) [OF sound_safe] by (auto simp: fine_decls_def list_all_iff)
  obtain ds' where ds': "lower_program sf ds = Some ds'"
    using lower_program_None [of sf ds] safe by auto
  have "list_all core_decl ds'"
    using ds' list_all_lowered [of "lower_decl sf" ds ds' core_decl]
    by (auto simp: lower_program_def lower_core_all)
  moreover have "map dspan ds' = map dspan ds"
    using ds' by (auto simp: lower_program_def all_some_map_Some list_eq_iff_nth_eq lower_decl_span)
  ultimately show ?thesis using r(1) ds' by blast
qed

end
