(* ===== verification/Numbers.thy ===== *)
theory Numbers
  imports F64
begin

text \<open>
  The arithmetic helpers of \<open>src/vm/value.rs\<close>: the narrowing that the bitwise operators
  apply to their operands, the remainder of two numbers, and the division-like operators
  of big integers. The first two are proved equal to their specification on every double;
  the proofs rest on the operations of \<open>F64\<close> being exact where the code relies on it.
\<close>

section \<open>Definitions\<close>

text \<open>The two powers of two the narrowing compares against, both exact doubles.\<close>

definition I64_SPAN :: f64 where "I64_SPAN = f64_of_int (2 ^ 63)"
definition U64_SPAN :: f64 where "U64_SPAN = f64_of_int (2 ^ 64)"

text \<open>The operand of a bitwise operator, narrowed modulo \<open>2^64\<close>.\<close>

definition num_to_wrapped_i64 :: "f64 \<Rightarrow> int" where
  "num_to_wrapped_i64 v =
     (if \<not> f64_is_finite v then 0
      else
        let t = f64_trunc v in
        if f64_le (f64_neg I64_SPAN) t \<and> f64_lt t I64_SPAN then f64_as_i64 t
        else
          let m = f64_rem_euclid t U64_SPAN in
          if f64_le I64_SPAN m then f64_as_i64 (f64_sub m U64_SPAN) else f64_as_i64 m)"

text \<open>Rust's \<open>%\<close> on \<open>i64\<close>: the remainder has the sign of the dividend.\<close>

definition i64_rem :: "int \<Rightarrow> int \<Rightarrow> int" where
  "i64_rem a b = sgn a * (\<bar>a\<bar> mod \<bar>b\<bar>)"

text \<open>The \<open>%\<close> of two numbers, by an integer remainder where both are integers.\<close>

definition num_rem :: "f64 \<Rightarrow> f64 \<Rightarrow> f64" where
  "num_rem a b =
     (if f64_lt (f64_abs a) I64_SPAN \<and> f64_lt (f64_abs b) I64_SPAN then
        (let ia = f64_as_i64 a; ib = f64_as_i64 b in
         if ib \<noteq> 0 \<and> f64_eq (f64_of_int ia) a \<and> f64_eq (f64_of_int ib) b
         then f64_copysign (f64_of_int (i64_rem ia ib)) a
         else f64_rem a b)
      else f64_rem a b)"

text \<open>
  Big integers come from the crate \<open>num-bigint\<close>: its truncating quotient \<open>tdiv\<close> and
  remainder \<open>tmod\<close> and its \<open>pow\<close> are parameters.
\<close>

datatype big_error = DivisionByZero | ModuloByZero | NegativeExponent | ExponentTooLarge

definition big_div :: "(int \<Rightarrow> int \<Rightarrow> int) \<Rightarrow> int \<Rightarrow> int \<Rightarrow> big_error + int" where
  "big_div tdiv a b = (if b = 0 then Inl DivisionByZero else Inr (tdiv a b))"

definition big_floordiv ::
  "(int \<Rightarrow> int \<Rightarrow> int) \<Rightarrow> (int \<Rightarrow> int \<Rightarrow> int) \<Rightarrow> int \<Rightarrow> int \<Rightarrow> big_error + int" where
  "big_floordiv tdiv tmod a b =
     (if b = 0 then Inl DivisionByZero
      else
        let q = tdiv a b; r = tmod a b in
        if r \<noteq> 0 \<and> (r < 0) \<noteq> (b < 0) then Inr (q - 1) else Inr q)"

definition big_rem :: "(int \<Rightarrow> int \<Rightarrow> int) \<Rightarrow> int \<Rightarrow> int \<Rightarrow> big_error + int" where
  "big_rem tmod a b = (if b = 0 then Inl ModuloByZero else Inr (tmod a b))"

definition to_u32 :: "int \<Rightarrow> nat option" where
  "to_u32 n = (if 0 \<le> n \<and> n < 2 ^ 32 then Some (nat n) else None)"

definition big_pow :: "(int \<Rightarrow> nat \<Rightarrow> int) \<Rightarrow> int \<Rightarrow> int \<Rightarrow> big_error + int" where
  "big_pow pow a b =
     (case to_u32 b of
        Some e \<Rightarrow> Inr (pow a e)
      | None \<Rightarrow> if b < 0 then Inl NegativeExponent else Inl ExponentTooLarge)"

section \<open>The spans are exact\<close>

lemma f64_exact_pow: "j < 1024 \<Longrightarrow> f64_exact (2 ^ j * f64_unit)"
  by (rule f64_exact_units [where q = 1 and j = j]) (simp, simp, rule power_strict_increasing, simp_all)

lemma span_facts:
  "f64_is_finite I64_SPAN" "f64_scaled I64_SPAN = 2 ^ 63 * int f64_unit" "\<not> f64_sign I64_SPAN" "f64_mag I64_SPAN = 2 ^ 63 * f64_unit"
  "f64_is_finite U64_SPAN" "f64_scaled U64_SPAN = 2 ^ 64 * int f64_unit" "\<not> f64_sign U64_SPAN" "f64_mag U64_SPAN = 2 ^ 64 * f64_unit"
proof -
  have e: "f64_exact (nat \<bar>2 ^ 63\<bar> * f64_unit)" "f64_exact (nat \<bar>2 ^ 64\<bar> * f64_unit)"
    using f64_exact_pow [of 63] f64_exact_pow [of 64] by (simp_all add: nat_power_eq)
  show "f64_is_finite I64_SPAN" "f64_scaled I64_SPAN = 2 ^ 63 * int f64_unit" "\<not> f64_sign I64_SPAN" "f64_mag I64_SPAN = 2 ^ 63 * f64_unit"
    using f64_of_int_exact [OF e(1)] by (simp_all add: I64_SPAN_def)
  show "f64_is_finite U64_SPAN" "f64_scaled U64_SPAN = 2 ^ 64 * int f64_unit" "\<not> f64_sign U64_SPAN" "f64_mag U64_SPAN = 2 ^ 64 * f64_unit"
    using f64_of_int_exact [OF e(2)] by (simp_all add: U64_SPAN_def)
qed

lemma f64_zero_facts: "f64_is_finite 0" "f64_scaled 0 = 0"
  by (simp_all add: f64_is_finite_def f64_abs_bits_zero f64_inf_bits_def f64_scaled_def f64_mag_def)

lemma f64_abs_facts: "f64_is_finite x \<Longrightarrow> f64_is_finite (f64_abs x)" "f64_scaled (f64_abs x) = int (f64_mag x)"
  "f64_is_nan (f64_abs x) = f64_is_nan x" "f64_is_finite (f64_abs x) = f64_is_finite x"
  using f64_make_simps [OF f64_abs_bits_less [of x], of False]
  by (simp_all only: f64_abs_def f64_is_finite_def f64_scaled_def f64_mag_def f64_is_nan_def if_False)

lemma f64_lt_finite: "f64_lt (f64_abs x) y \<Longrightarrow> f64_is_finite y \<Longrightarrow> f64_is_finite x"
  using f64_make_simps [OF f64_abs_bits_less [of x], of False]
  by (auto simp: f64_lt_def f64_key_def f64_abs_def f64_is_nan_def f64_is_finite_def split: if_splits)

lemma f64_mag_scaled: "f64_mag x = nat \<bar>f64_scaled x\<bar>" by (simp add: f64_scaled_def)

lemma f64_of_int_whole:
  assumes "f64_is_finite a"
  shows "f64_exact (nat \<bar>f64_whole a\<bar> * f64_unit)"
  using f64_trunc_exact(5) [OF assms] by (simp add: f64_whole_def Let_def)

section \<open>The integer remainder is the remainder of doubles\<close>

text \<open>
  C25. \<open>num_rem\<close> gives the very bits that the remainder of doubles gives, on every pair of
  operands: infinities, NaNs, fractions and zeros of either sign included.
\<close>

theorem num_rem_is_rem: "num_rem a b = f64_rem a b"
proof (cases "f64_lt (f64_abs a) I64_SPAN \<and> f64_lt (f64_abs b) I64_SPAN \<and> f64_as_i64 b \<noteq> 0 \<and>
    f64_eq (f64_of_int (f64_as_i64 a)) a \<and> f64_eq (f64_of_int (f64_as_i64 b)) b")
  case False
  then show ?thesis by (auto simp: num_rem_def Let_def)
next
  case True
  have in_range: "f64_is_finite x \<and> f64_as_i64 x = f64_whole x \<and> f64_mag x = nat \<bar>f64_whole x\<bar> * f64_unit"
    if lt: "f64_lt (f64_abs x) I64_SPAN" and eq: "f64_eq (f64_of_int (f64_as_i64 x)) x" for x
  proof -
    have fin: "f64_is_finite x" by (rule f64_lt_finite [OF lt span_facts(1)])
    then have "int (f64_mag x) < 2 ^ 63 * int f64_unit"
      using lt by (simp add: f64_eq_scaled span_facts f64_abs_facts)
    then have "f64_mag x < 2 ^ 63 * f64_unit"  by (metis of_nat_less_iff of_nat_mult of_nat_numeral of_nat_power)
    then have "f64_mag x div f64_unit < 2 ^ 63" by (simp add: less_mult_imp_div_less)
    then have "in_i64 (f64_whole x)" by (auto simp: f64_whole_scaled in_i64_def)
    with fin have w: "f64_as_i64 x = f64_whole x" by (rule f64_as_i64_whole)
    note i = f64_of_int_exact [OF f64_of_int_whole [OF fin]]
    have "f64_scaled x = f64_whole x * int f64_unit" using eq fin i by (simp add: f64_eq_scaled w)
    then have "f64_mag x = nat \<bar>f64_whole x\<bar> * f64_unit" by (simp add: f64_mag_scaled abs_mult nat_mult_distrib)
    with fin w show ?thesis by simp
  qed
  have a: "f64_is_finite a" "f64_as_i64 a = f64_whole a" "f64_mag a = nat \<bar>f64_whole a\<bar> * f64_unit"
    using in_range [of a] True by simp_all
  have b: "f64_is_finite b" "f64_as_i64 b = f64_whole b" "f64_mag b = nat \<bar>f64_whole b\<bar> * f64_unit"
    using in_range [of b] True by simp_all
  let ?r = "i64_rem (f64_whole a) (f64_whole b)"
  have nz: "f64_mag b \<noteq> 0" using True b by auto
  note rem = f64_rem_mag [OF a(1) b(1) nz]
  have r: "nat \<bar>?r\<bar> = nat \<bar>f64_whole a\<bar> mod nat \<bar>f64_whole b\<bar>"
  proof -
    have "0 \<le> \<bar>f64_whole a\<bar> mod \<bar>f64_whole b\<bar>" using True b by simp
    then show ?thesis
      by (cases "f64_whole a = 0") (simp_all add: i64_rem_def abs_mult nat_mod_distrib)
  qed
  then have mag: "f64_mag (f64_rem a b) = nat \<bar>?r\<bar> * f64_unit"
    using rem(3) a(3) b(3) by (simp add: mod_mult_mult2)
  have "f64_exact (f64_mag (f64_rem a b))"
    using rem(1) bits_mag_exact by (simp add: f64_mag_def f64_is_finite_def)
  then have ex: "f64_exact (nat \<bar>?r\<bar> * f64_unit)" by (simp only: mag)
  let ?c = "f64_copysign (f64_of_int ?r) a"
  note i = f64_of_int_exact [OF ex]
  have "f64_abs_bits ?c = f64_abs_bits (f64_of_int ?r)" "f64_sign ?c = f64_sign a"
    using f64_make_simps [OF f64_abs_bits_less] by (simp_all only: f64_copysign_def)
  then have "?c = f64_rem a b"
    using i rem mag by (intro f64_finite_eqI) (simp_all add: f64_mag_def f64_is_finite_def)
  then show ?thesis using True a(2) b(2) by (simp add: num_rem_def Let_def)
qed

section \<open>Narrowing wraps\<close>

text \<open>The signed 64-bit reading of an integer.\<close>

definition wrap_i64 :: "int \<Rightarrow> int" where
  "wrap_i64 n = (n + 2 ^ 63) mod 2 ^ 64 - 2 ^ 63"

lemma nat_dvd_of_int: "int (k :: nat) dvd n \<Longrightarrow> 0 \<le> n \<Longrightarrow> k dvd nat n"
  by (metis int_dvd_int_iff int_nat_eq)

lemma wrap_mod_low:
  assumes "(n :: int) mod 2 ^ 64 < 2 ^ 63" shows "wrap_i64 n = n mod 2 ^ 64"
proof -
  have "(n + 2 ^ 63) mod 2 ^ 64 = (n mod 2 ^ 64 + 2 ^ 63) mod 2 ^ 64" by (simp only: mod_add_left_eq)
  also have "\<dots> = n mod 2 ^ 64 + 2 ^ 63"
    using assms pos_mod_sign [of "2 ^ 64" n] by (intro mod_pos_pos_trivial) auto
  finally show ?thesis by (simp add: wrap_i64_def)
qed

lemma wrap_mod_high:
  assumes "2 ^ 63 \<le> (n :: int) mod 2 ^ 64" shows "wrap_i64 n = n mod 2 ^ 64 - 2 ^ 64"
proof -
  have "(n + 2 ^ 63) mod 2 ^ 64 = (n mod 2 ^ 64 + 2 ^ 63 - 2 ^ 64) mod 2 ^ 64"
    by (simp only: mod_add_left_eq minus_mod_self2)
  also have "\<dots> = n mod 2 ^ 64 - 2 ^ 63"
    using assms pos_mod_bound [of "2 ^ 64" n] by (subst mod_pos_pos_trivial) auto
  finally show ?thesis by (simp only: wrap_i64_def) simp
qed

lemma f64_exact_wide:
  assumes "n < 2 ^ 64" "2 ^ 11 dvd n" shows "f64_exact (n * f64_unit)"
proof (rule f64_exact_units [where q = "n div 2 ^ 11" and j = 11])
  show "n = n div 2 ^ 11 * 2 ^ 11" using assms(2) by simp
  show "n div 2 ^ 11 < 2 ^ 53" using assms(1) by (simp add: less_mult_imp_div_less)
  have "(2::nat) ^ 64 < 2 ^ 1024" by (rule power_strict_increasing) simp_all
  with assms(1) show "n < 2 ^ 1024" by (rule less_trans)
qed

lemma wrap_euclid:
  assumes f: "f64_is_finite t" and s: "f64_scaled t = w * int f64_unit"
    and big: "2 ^ 63 \<le> \<bar>w\<bar>"
  shows "f64_is_finite (f64_rem_euclid t U64_SPAN)"
    "f64_scaled (f64_rem_euclid t U64_SPAN) = (w mod 2 ^ 64) * int f64_unit"
    "2 ^ 11 dvd w"
proof -
  let ?r = "f64_rem t U64_SPAN"
  have mag: "f64_mag t = nat \<bar>w\<bar> * f64_unit" using s by (simp add: f64_mag_scaled abs_mult nat_mult_distrib)
  have "f64_exact (nat \<bar>w\<bar> * f64_unit)"
    using f bits_mag_exact by (simp flip: mag add: f64_mag_def f64_is_finite_def)
  moreover have "2 ^ 63 \<le> nat \<bar>w\<bar>" using big by (simp add: le_nat_iff)
  ultimately have "2 ^ (63 - 52) dvd nat \<bar>w\<bar>" by (rule f64_exact_units_dvd)
  then have d: "2 ^ 11 dvd nat \<bar>w\<bar>" by simp
  then have "int (2 ^ 11) dvd int (nat \<bar>w\<bar>)" by (simp only: int_dvd_int_iff)
  then show dvd: "2 ^ 11 dvd w" by simp
  note rem = f64_rem_mag [OF f span_facts(5)]
  have nz: "f64_mag U64_SPAN \<noteq> 0" by (simp add: span_facts)
  note rem = rem [OF nz]
  have rmag: "f64_mag ?r = (nat \<bar>w\<bar> mod 2 ^ 64) * f64_unit"
    by (simp only: rem(3) mag span_facts mod_mult_mult2)
  have rabs: "int (nat \<bar>w\<bar> mod 2 ^ 64) = \<bar>w\<bar> mod 2 ^ 64" by (simp add: zmod_int)
  have neg: "f64_sign t \<longleftrightarrow> w < 0"
  proof -
    have "w \<noteq> 0" using big by auto
    moreover have "f64_sign t \<Longrightarrow> w \<le> 0" using s by (auto simp: f64_scaled_def) (smt (verit) f64_unit_pos(1) mult_pos_pos of_nat_0_less_iff of_nat_less_0_iff)
    moreover have "\<not> f64_sign t \<Longrightarrow> 0 \<le> w" using s by (auto simp: f64_scaled_def) (smt (verit) f64_unit_pos(1) mult_neg_pos of_nat_0_less_iff of_nat_less_0_iff)
    ultimately show ?thesis by fastforce
  qed
  have rs: "f64_scaled ?r = (if w < 0 then - (\<bar>w\<bar> mod 2 ^ 64) else \<bar>w\<bar> mod 2 ^ 64) * int f64_unit"
    using rem(2) rmag neg by (simp add: f64_scaled_def zmod_int)
  have lt: "f64_lt ?r 0 \<longleftrightarrow> w < 0 \<and> \<bar>w\<bar> mod 2 ^ 64 \<noteq> 0"
  proof -
    have "f64_lt ?r 0 \<longleftrightarrow> f64_scaled ?r < 0" using rem(1) by (simp add: f64_eq_scaled f64_zero_facts)
    moreover have "0 \<le> \<bar>w\<bar> mod 2 ^ 64" by simp
    ultimately show ?thesis using f64_unit_pos(1) by (auto simp: rs mult_less_0_iff)
  qed
  show "f64_is_finite (f64_rem_euclid t U64_SPAN)" "f64_scaled (f64_rem_euclid t U64_SPAN) = (w mod 2 ^ 64) * int f64_unit"
  proof (atomize (full), cases "w < 0 \<and> \<bar>w\<bar> mod 2 ^ 64 \<noteq> 0")
    case False
    then have "w mod 2 ^ 64 = (if w < 0 then - (\<bar>w\<bar> mod 2 ^ 64) else \<bar>w\<bar> mod 2 ^ 64)"
      by (auto simp: zmod_zminus1_eq_if split: if_splits)
    moreover have "\<not> f64_lt ?r 0" unfolding lt using False .
    then have "f64_rem_euclid t U64_SPAN = ?r" by (simp only: f64_rem_euclid_def Let_def if_False)
    ultimately show "f64_is_finite (f64_rem_euclid t U64_SPAN) \<and>
       f64_scaled (f64_rem_euclid t U64_SPAN) = (w mod 2 ^ 64) * int f64_unit"
      using rem(1) rs by (simp only:)
  next
    case True
    let ?n = "\<bar>w\<bar> mod 2 ^ 64"
    have "w mod 2 ^ 64 = 2 ^ 64 - ?n" using True zmod_zminus1_eq_if [of "- w" "2 ^ 64"] by (auto split: if_splits)
    have e: "f64_rem_euclid t U64_SPAN = f64_add ?r (f64_abs U64_SPAN)"
    proof -
      have "f64_lt ?r 0" unfolding lt using True .
      then show ?thesis by (simp only: f64_rem_euclid_def Let_def if_True)
    qed
    have sum: "f64_scaled ?r + f64_scaled (f64_abs U64_SPAN) = (w mod 2 ^ 64) * int f64_unit"
    proof -
      have "f64_scaled ?r = (- ?n) * int f64_unit" using True by (simp only: rs if_True)
      moreover have "f64_scaled (f64_abs U64_SPAN) = 2 ^ 64 * int f64_unit"
        by (simp add: f64_abs_facts span_facts)
      ultimately show ?thesis
        by (simp only: \<open>w mod 2 ^ 64 = 2 ^ 64 - ?n\<close> left_diff_distrib minus_mult_left [symmetric])
    qed
    have "nat (w mod 2 ^ 64) < 2 ^ 64" by (simp add: nat_less_iff)
    moreover have "2 ^ 11 dvd nat (w mod 2 ^ 64)"
    proof -
      have "int (2 ^ 11) dvd w mod 2 ^ 64" using dvd by (simp add: dvd_mod_iff)
      then show ?thesis by (rule nat_dvd_of_int) simp
    qed
    ultimately have "f64_exact (nat (w mod 2 ^ 64) * f64_unit)" by (rule f64_exact_wide)
    then have "f64_exact (nat \<bar>f64_scaled ?r + f64_scaled (f64_abs U64_SPAN)\<bar>)"
      by (simp add: sum abs_mult nat_mult_distrib)
    note s = f64_add_exact [OF rem(1) f64_abs_facts(1) [OF span_facts(5)] this]
    show "f64_is_finite (f64_rem_euclid t U64_SPAN) \<and>
       f64_scaled (f64_rem_euclid t U64_SPAN) = (w mod 2 ^ 64) * int f64_unit"
      unfolding e using s(1) s(2) [unfolded sum] by (rule conjI)
  qed
qed

text \<open>
  C24. Narrowing a number for a bitwise operator gives its integer part modulo \<open>2^64\<close> in the
  signed range, however large the number is, and zero for an infinity or a NaN. So all 64
  low bits of the integer part survive.
\<close>

theorem num_to_wrapped_i64_wraps:
  "num_to_wrapped_i64 v = (if f64_is_finite v then wrap_i64 (f64_whole v) else 0)"
proof (cases "f64_is_finite v")
  case False
  then show ?thesis by (simp add: num_to_wrapped_i64_def)
next
  case True
  let ?t = "f64_trunc v" let ?w = "f64_whole v"
  note t = f64_trunc_exact [OF True]
  have tw: "f64_whole ?t = ?w" by (rule f64_whole_of_scaled [OF t(4)])
  have u: "0 < int f64_unit" by simp
  have lo: "f64_le (f64_neg I64_SPAN) ?t \<longleftrightarrow> - (2 ^ 63) \<le> ?w"
  proof -
    have "f64_le (f64_neg I64_SPAN) ?t \<longleftrightarrow> - (2 ^ 63) * int f64_unit \<le> ?w * int f64_unit"
      using t(1) by (simp add: f64_eq_scaled f64_neg_scaled span_facts t(4))
    then show ?thesis by (simp only: mult_le_cancel_right_pos [OF u])
  qed
  have hi: "f64_lt ?t I64_SPAN \<longleftrightarrow> ?w < 2 ^ 63"
    using t(1) by (simp add: f64_eq_scaled span_facts t(4) mult_less_cancel_right_pos [OF u])
  show ?thesis
  proof (cases "in_i64 ?w")
    case small: True
    then have "num_to_wrapped_i64 v = f64_as_i64 ?t"
      using True lo hi by (simp add: num_to_wrapped_i64_def in_i64_def)
    also have "\<dots> = ?w" using f64_as_i64_whole [OF t(1)] small by (simp add: tw)
    also have "\<dots> = wrap_i64 ?w" using small by (simp add: wrap_i64_def in_i64_def)
    finally show ?thesis using True by simp
  next
    case big: False
    let ?m = "f64_rem_euclid ?t U64_SPAN"
    let ?n = "?w mod 2 ^ 64"
    have "2 ^ 63 \<le> \<bar>?w\<bar>" using big by (auto simp: in_i64_def)
    note m = wrap_euclid [OF t(1) t(4) this]
    have ge: "f64_le I64_SPAN ?m \<longleftrightarrow> 2 ^ 63 \<le> ?n"
      using m(1) by (simp add: f64_eq_scaled span_facts m(2) mult_le_cancel_right_pos [OF u])
    have res: "num_to_wrapped_i64 v = (if 2 ^ 63 \<le> ?n then f64_as_i64 (f64_sub ?m U64_SPAN) else f64_as_i64 ?m)"
      using True lo hi big ge by (auto simp: num_to_wrapped_i64_def in_i64_def Let_def)
    show ?thesis
    proof (cases "2 ^ 63 \<le> ?n")
      case False
      moreover have "f64_whole ?m = ?n" by (rule f64_whole_of_scaled [OF m(2)])
      ultimately have "num_to_wrapped_i64 v = ?n"
        using f64_as_i64_whole [OF m(1)] by (simp add: res in_i64_def)
      also have "\<dots> = wrap_i64 ?w" by (rule wrap_mod_low [symmetric]) (use False in linarith)
      finally show ?thesis using True by simp
    next
      case ge: True
      have sub: "f64_scaled ?m - f64_scaled U64_SPAN = (?n - 2 ^ 64) * int f64_unit"
        by (simp add: m(2) span_facts left_diff_distrib)
      have "nat (2 ^ 64 - ?n) < 2 ^ 64" using ge by (simp add: nat_less_iff)
      moreover have "2 ^ 11 dvd nat (2 ^ 64 - ?n)"
      proof -
        have "int (2 ^ 11) dvd 2 ^ 64 - ?n" using m(3) by (simp add: dvd_mod_iff)
        then show ?thesis by (rule nat_dvd_of_int) simp
      qed
      ultimately have "f64_exact (nat (2 ^ 64 - ?n) * f64_unit)" by (rule f64_exact_wide)
      moreover have "nat \<bar>f64_scaled ?m - f64_scaled U64_SPAN\<bar> = nat (2 ^ 64 - ?n) * f64_unit"
      proof -
        have "\<bar>?n - 2 ^ 64\<bar> = 2 ^ 64 - ?n" using pos_mod_bound [of "2 ^ 64" ?w] by simp
        then show ?thesis by (simp add: sub abs_mult nat_mult_distrib)
      qed
      ultimately have ex: "f64_exact (nat \<bar>f64_scaled ?m - f64_scaled U64_SPAN\<bar>)" by simp
      note s = f64_sub_exact [OF m(1) span_facts(5) ex]
      have "f64_whole (f64_sub ?m U64_SPAN) = ?n - 2 ^ 64"
        by (rule f64_whole_of_scaled) (simp only: s(2) sub)
      then have "num_to_wrapped_i64 v = ?n - 2 ^ 64"
        using f64_as_i64_whole [OF s(1)] ge pos_mod_bound [of "2 ^ 64" ?w] by (simp add: res in_i64_def)
      also have "\<dots> = wrap_i64 ?w" by (rule wrap_mod_high [symmetric]) (rule ge)
      finally show ?thesis using True by simp
    qed
  qed
qed

section \<open>Big integers\<close>

text \<open>What \<open>num-bigint\<close> documents of its quotient and remainder.\<close>

definition truncates :: "(int \<Rightarrow> int \<Rightarrow> int) \<Rightarrow> (int \<Rightarrow> int \<Rightarrow> int) \<Rightarrow> bool" where
  "truncates tdiv tmod \<longleftrightarrow>
     (\<forall>a b. b \<noteq> 0 \<longrightarrow> a = tdiv a b * b + tmod a b \<and> \<bar>tmod a b\<bar> < \<bar>b\<bar> \<and> 0 \<le> tmod a b * a)"

text \<open>
  C26. The floor division of big integers rounds towards minus infinity whatever the signs
  of its operands, and refuses a zero divisor.
\<close>

theorem big_floordiv_floors:
  assumes "truncates tdiv tmod"
  shows "big_floordiv tdiv tmod a b = (if b = 0 then Inl DivisionByZero else Inr (a div b))"
proof (cases "b = 0")
  case True
  then show ?thesis by (simp add: big_floordiv_def)
next
  case False
  let ?q = "tdiv a b" let ?r = "tmod a b"
  have a: "a = ?q * b + ?r" and r: "\<bar>?r\<bar> < \<bar>b\<bar>"
    using assms False by (simp_all add: truncates_def)
  have "a div b = (if ?r \<noteq> 0 \<and> (?r < 0) \<noteq> (b < 0) then ?q - 1 else ?q)"
  proof (cases "?r \<noteq> 0 \<and> (?r < 0) \<noteq> (b < 0)")
    case True
    then have "a = (?q - 1) * b + (?r + b)" using a by (simp add: algebra_simps)
    moreover have "0 \<le> ?r + b \<and> ?r + b < b \<or> b < ?r + b \<and> ?r + b \<le> 0" using True r by auto
    ultimately have "a div b = ?q - 1"
      by (auto intro: int_div_pos_eq int_div_neg_eq simp: mult.commute)
    then show ?thesis using True by simp
  next
    case F: False
    then have "0 \<le> ?r \<and> ?r < b \<or> b < ?r \<and> ?r \<le> 0" using r False by auto
    then have "a div b = ?q"
      using a by (auto intro: int_div_pos_eq int_div_neg_eq simp: mult.commute)
    then show ?thesis using F by simp
  qed
  then show ?thesis using False by (simp add: big_floordiv_def Let_def)
qed

theorem big_floordiv_floors_witness:
  "big_floordiv (\<lambda>a b. sgn a * sgn b * (\<bar>a\<bar> div \<bar>b\<bar>)) i64_rem (- 7) 2 = Inr (- 4)"
proof -
  have "truncates (\<lambda>a b. sgn a * sgn b * (\<bar>a\<bar> div \<bar>b\<bar>)) i64_rem"
    unfolding truncates_def
  proof (intro allI impI)
    fix a b :: int
    assume b: "b \<noteq> 0"
    have "sgn a * sgn b * (\<bar>a\<bar> div \<bar>b\<bar>) * b + i64_rem a b =
        sgn a * (\<bar>a\<bar> div \<bar>b\<bar> * (b * sgn b) + \<bar>a\<bar> mod \<bar>b\<bar>)"
      by (simp only: i64_rem_def distrib_left mult.assoc mult.commute mult.left_commute)
    also have "\<dots> = sgn a * \<bar>a\<bar>" by (simp only: abs_sgn [symmetric] div_mult_mod_eq)
    also have "\<dots> = a" by (rule sgn_mult_abs)
    finally have "a = sgn a * sgn b * (\<bar>a\<bar> div \<bar>b\<bar>) * b + i64_rem a b" by (rule sym)
    moreover have "\<bar>i64_rem a b\<bar> < \<bar>b\<bar>"
      using b by (simp add: i64_rem_def abs_mult abs_sgn_eq)
    moreover have "0 \<le> i64_rem a b * a"
    proof -
      have "i64_rem a b * a = (\<bar>a\<bar> mod \<bar>b\<bar>) * \<bar>a\<bar>" by (simp add: i64_rem_def abs_sgn mult.commute)
      then show ?thesis using b by simp
    qed
    ultimately show "a = sgn a * sgn b * (\<bar>a\<bar> div \<bar>b\<bar>) * b + i64_rem a b \<and>
        \<bar>i64_rem a b\<bar> < \<bar>b\<bar> \<and> 0 \<le> i64_rem a b * a" by blast
  qed
  from big_floordiv_floors [OF this, of "- 7" 2] show ?thesis by simp
qed

end
