(* ===== verification/Values.thy ===== *)
theory Values
  imports Numbers
begin

unbundle bit_operations_syntax

text \<open>
  The NaN boxed \<open>Value\<close> of \<open>src/vm/value.rs\<close>: a number is its own double, and the quiet NaN
  patterns no arithmetic produces hold \<open>nil\<close>, the booleans and the addresses of heap objects.
  A pointer is the 64 bits of its address.
\<close>

section \<open>The bits\<close>

type_synonym value_bits = "64 word"
type_synonym address = "64 word"

definition QNAN :: "64 word" where "QNAN = 0x7ffc000000000000"
definition SIGN_BIT :: "64 word" where "SIGN_BIT = 0x8000000000000000"
definition TAG_NIL :: "64 word" where "TAG_NIL = 1"
definition TAG_FALSE :: "64 word" where "TAG_FALSE = 2"
definition TAG_TRUE :: "64 word" where "TAG_TRUE = 3"
definition NIL_VAL :: "64 word" where "NIL_VAL = QNAN OR TAG_NIL"
definition FALSE_VAL :: "64 word" where "FALSE_VAL = QNAN OR TAG_FALSE"
definition TRUE_VAL :: "64 word" where "TRUE_VAL = QNAN OR TAG_TRUE"
definition PTR_MASK :: "64 word" where "PTR_MASK = 0x0000ffffffffffff"

definition value_nil :: value_bits where
  "value_nil = NIL_VAL"

definition value_bool :: "bool \<Rightarrow> value_bits" where
  "value_bool b = (if b then TRUE_VAL else FALSE_VAL)"

definition value_number :: "f64 \<Rightarrow> value_bits" where
  "value_number n = (if f64_is_nan n then 0x7ff8000000000000 else n)"

definition value_obj :: "address \<Rightarrow> value_bits" where
  "value_obj ptr = SIGN_BIT OR QNAN OR ptr"

definition is_number :: "value_bits \<Rightarrow> bool" where
  "is_number v \<longleftrightarrow> v AND QNAN \<noteq> QNAN"

definition is_nil :: "value_bits \<Rightarrow> bool" where
  "is_nil v \<longleftrightarrow> v = NIL_VAL"

definition is_bool :: "value_bits \<Rightarrow> bool" where
  "is_bool v \<longleftrightarrow> v = TRUE_VAL \<or> v = FALSE_VAL"

definition is_obj :: "value_bits \<Rightarrow> bool" where
  "is_obj v \<longleftrightarrow> v AND (QNAN OR SIGN_BIT) = QNAN OR SIGN_BIT"

definition as_number :: "value_bits \<Rightarrow> f64" where
  "as_number v = v"

definition as_bool :: "value_bits \<Rightarrow> bool" where
  "as_bool v \<longleftrightarrow> v = TRUE_VAL"

definition as_obj :: "value_bits \<Rightarrow> address" where
  "as_obj v = v AND PTR_MASK"

text \<open>Zero of either sign, or NaN.\<close>

definition number_is_falsey :: "f64 \<Rightarrow> bool" where
  "number_is_falsey n \<longleftrightarrow> f64_eq n 0 \<or> f64_is_nan n"

section \<open>The constants\<close>

lemmas tag_defs = QNAN_def SIGN_BIT_def TAG_NIL_def TAG_FALSE_def TAG_TRUE_def NIL_VAL_def
  FALSE_VAL_def TRUE_VAL_def PTR_MASK_def

lemma tag_values:
  "NIL_VAL = 0x7ffc000000000001" "FALSE_VAL = 0x7ffc000000000002" "TRUE_VAL = 0x7ffc000000000003"
  by (simp_all add: tag_defs)

lemma singletons_not_number [simp]:
  "\<not> is_number NIL_VAL" "\<not> is_number FALSE_VAL" "\<not> is_number TRUE_VAL"
  by (simp_all add: is_number_def tag_values QNAN_def)

lemma singletons_not_obj [simp]: "\<not> is_obj NIL_VAL" "\<not> is_obj FALSE_VAL" "\<not> is_obj TRUE_VAL"
  by (simp_all add: is_obj_def tag_values QNAN_def SIGN_BIT_def)

lemma singletons_distinct [simp]:
  "NIL_VAL \<noteq> TRUE_VAL" "NIL_VAL \<noteq> FALSE_VAL" "TRUE_VAL \<noteq> FALSE_VAL"
  "TRUE_VAL \<noteq> NIL_VAL" "FALSE_VAL \<noteq> NIL_VAL" "FALSE_VAL \<noteq> TRUE_VAL"
  by (simp_all add: tag_values)

lemma obj_not_number: "is_obj v \<Longrightarrow> \<not> is_number v"
proof -
  assume "is_obj v"
  then have "v AND (QNAN OR SIGN_BIT) = QNAN OR SIGN_BIT" by (simp add: is_obj_def)
  then have "(v AND (QNAN OR SIGN_BIT)) AND QNAN = (QNAN OR SIGN_BIT) AND QNAN" by simp
  then have "v AND QNAN = QNAN" by (simp add: tag_defs and.assoc)
  then show ?thesis by (simp add: is_number_def)
qed

lemma abs_bits_mask: "f64_abs_bits x = unat (x AND mask 63)"
proof -
  have "unat (x AND mask 63) = take_bit 63 (unat x)"
    unfolding take_bit_eq_mask [symmetric] by (rule unsigned_take_bit_eq)
  then show ?thesis by (simp only: f64_abs_bits_def take_bit_eq_mod)
qed

lemma qnan_is_nan: "x AND QNAN = QNAN \<Longrightarrow> f64_is_nan x"
proof -
  assume x: "x AND QNAN = QNAN"
  have "mask 63 AND QNAN = QNAN" by (simp add: QNAN_def mask_eq_exp_minus_1)
  then have "(x AND mask 63) AND QNAN = QNAN" using x by (simp add: and.assoc)
  then have "QNAN \<le> x AND mask 63" by (metis word_and_le2 and.commute word_and_le1)
  then have "unat QNAN \<le> f64_abs_bits x" by (simp add: abs_bits_mask word_le_nat_alt)
  then show ?thesis by (simp add: f64_is_nan_def f64_inf_bits_def QNAN_def)
qed

lemma number_value_number: "is_number (value_number n)"
  using qnan_is_nan [of n] by (auto simp: is_number_def value_number_def QNAN_def)

lemma value_obj_obj: "is_obj (value_obj p)"
  unfolding is_obj_def value_obj_def
  by (simp add: bit_eq_iff bit_and_iff bit_or_iff) blast

text \<open>An address fits when it has no bit above the low 48.\<close>

definition fits :: "address \<Rightarrow> bool" where
  "fits p \<longleftrightarrow> p AND NOT PTR_MASK = 0"

lemma as_obj_value_obj: "fits p \<Longrightarrow> as_obj (value_obj p) = p"
proof -
  assume "fits p"
  have "p = p AND (PTR_MASK OR NOT PTR_MASK)" by (simp only: bit.disj_cancel_right and.right_neutral)
  also have "\<dots> = (p AND PTR_MASK) OR (p AND NOT PTR_MASK)" by (rule bit.conj_disj_distrib)
  also have "\<dots> = p AND PTR_MASK"
    using \<open>fits p\<close> by (simp only: fits_def or.right_neutral)
  finally have "p AND PTR_MASK = p" by (rule sym)
  moreover have "(SIGN_BIT OR QNAN) AND PTR_MASK = 0" by (simp add: tag_defs)
  moreover have "((SIGN_BIT OR QNAN) OR p) AND PTR_MASK =
      ((SIGN_BIT OR QNAN) AND PTR_MASK) OR (p AND PTR_MASK)"
    by (rule bit.conj_disj_distrib2)
  ultimately have "((SIGN_BIT OR QNAN) OR p) AND PTR_MASK = p" by (simp only: or.left_neutral)
  then show ?thesis by (simp only: as_obj_def value_obj_def or.assoc)
qed

lemma fits_as_obj: "fits (as_obj v)"
  by (simp add: fits_def as_obj_def and.assoc)

text \<open>An object value is determined by its address, if it has no bit but tag and address.\<close>

lemma value_obj_as_obj:
  "is_obj v \<Longrightarrow> v AND NOT (PTR_MASK OR QNAN OR SIGN_BIT) = 0 \<Longrightarrow> value_obj (as_obj v) = v"
  unfolding is_obj_def value_obj_def as_obj_def
  by (simp add: bit_eq_iff bit_and_iff bit_or_iff bit_not_iff) (metis bit_imp_le_length)

section \<open>What the bits stand for\<close>

text \<open>
  The abstract values, how the constructors store them and how the tests and accessors,
  asked in the order \<open>type_name\<close> asks them, read them back.
\<close>

datatype datum = Number f64 | Nil | Boolean bool | Object address

primrec box :: "datum \<Rightarrow> value_bits" where
  "box (Number n) = value_number n"
| "box Nil = value_nil"
| "box (Boolean b) = value_bool b"
| "box (Object p) = value_obj p"

definition unbox :: "value_bits \<Rightarrow> datum option" where
  "unbox v =
     (if is_number v then Some (Number (as_number v))
      else if is_nil v then Some Nil
      else if is_bool v then Some (Boolean (as_bool v))
      else if is_obj v then Some (Object (as_obj v))
      else None)"

text \<open>A NaN is stored as the one canonical NaN; an address must fit.\<close>

primrec storable :: "datum \<Rightarrow> bool" where
  "storable (Number n) \<longleftrightarrow> f64_is_nan n \<longrightarrow> n = f64_nan"
| "storable Nil \<longleftrightarrow> True"
| "storable (Boolean b) \<longleftrightarrow> True"
| "storable (Object p) \<longleftrightarrow> fits p"

definition tests_true :: "value_bits \<Rightarrow> nat" where
  "tests_true v = length (filter id [is_number v, is_nil v, is_bool v, is_obj v])"

lemma one_test: "tests_true v \<le> 1"
  by (auto simp: tests_true_def is_nil_def is_bool_def dest: obj_not_number)



end
