(* ===== verification/List_Storage.thy ===== *)
theory List_Storage
  imports Values
begin

text \<open>
  The hand made vector of \<open>src/vm/list.rs\<close>: two elements inside the object, a heap buffer once
  they do not fit, and 32 bit length and capacity. Raw memory is modelled as it is: a buffer is
  a list of cells, a cell not written yet is \<open>None\<close>, and an access outside the buffer, a read
  of such a cell and a reallocation with the wrong layout are undefined, which the model
  gives as \<open>None\<close>, as it does a panic. An allocation is taken to succeed.
\<close>

section \<open>Raw memory\<close>

type_synonym buffer = "value_bits option list"

definition read_cell :: "buffer \<Rightarrow> nat \<Rightarrow> value_bits option" where
  "read_cell b i = (if i < length b then b ! i else None)"

definition write_cell :: "buffer \<Rightarrow> nat \<Rightarrow> value_bits \<Rightarrow> buffer option" where
  "write_cell b i v = (if i < length b then Some (b[i := Some v]) else None)"

primrec write_all :: "buffer \<Rightarrow> nat \<Rightarrow> value_bits list \<Rightarrow> buffer option" where
  "write_all b i [] = Some b"
| "write_all b i (v # vs) = do { b' \<leftarrow> write_cell b i v; write_all b' (i + 1) vs }"

text \<open>\<open>std::ptr::copy\<close> inside one buffer, which may overlap.\<close>

definition copy_within :: "buffer \<Rightarrow> nat \<Rightarrow> nat \<Rightarrow> nat \<Rightarrow> buffer option" where
  "copy_within b src dst n =
     (if src + n \<le> length b \<and> dst + n \<le> length b
      then Some (take dst b @ take n (drop src b) @ drop (dst + n) b) else None)"

text \<open>The cells that \<open>read\<close> finds written, from the start.\<close>

definition read_prefix :: "buffer \<Rightarrow> nat \<Rightarrow> value_bits list option" where
  "read_prefix b n = (if n \<le> length b then all_some (take n b) else None)"

section \<open>The storage\<close>

definition INLINE_CAP :: nat where "INLINE_CAP = 2"

record list_storage =
  ptr :: "buffer option"
  len :: nat
  cap :: nat
  inline_buf :: buffer

definition list_new :: list_storage where
  "list_new = \<lparr>ptr = None, len = 0, cap = 0, inline_buf = replicate INLINE_CAP (Some value_nil)\<rparr>"

definition data :: "list_storage \<Rightarrow> buffer" where
  "data s = (case ptr s of None \<Rightarrow> inline_buf s | Some b \<Rightarrow> b)"

definition with_data :: "list_storage \<Rightarrow> buffer \<Rightarrow> list_storage" where
  "with_data s b = (case ptr s of None \<Rightarrow> s\<lparr>inline_buf := b\<rparr> | Some _ \<Rightarrow> s\<lparr>ptr := Some b\<rparr>)"

definition effective_cap :: "list_storage \<Rightarrow> nat" where
  "effective_cap s = (case ptr s of None \<Rightarrow> INLINE_CAP | Some _ \<Rightarrow> cap s)"

text \<open>\<open>Layout::array\<close> of 8 byte elements, whose size has to stay below \<open>isize::MAX\<close>.\<close>

definition layout_for :: "nat \<Rightarrow> unit panics" where
  "layout_for n = assert_that (n * 8 \<le> 2 ^ 63 - 1)"

text \<open>
  A fresh buffer takes the elements over from the object; an old one is reallocated, with the
  layout that \<open>cap\<close> gives.
\<close>

definition grow_to :: "nat \<Rightarrow> list_storage \<Rightarrow> list_storage panics" where
  "grow_to new_cap s =
     do {
       layout_for new_cap;
       b \<leftarrow> (case ptr s of
               None \<Rightarrow>
                 (if len s \<le> length (inline_buf s) \<and> len s \<le> new_cap
                  then Some (take (len s) (inline_buf s) @ replicate (new_cap - len s) None) else None)
             | Some old \<Rightarrow>
                 (if cap s = length old
                  then Some (take new_cap old @ replicate (new_cap - length old) None) else None));
       Some (s\<lparr>ptr := Some b, cap := as_u32 new_cap\<rparr>)
     }"

definition with_capacity :: "nat \<Rightarrow> list_storage panics" where
  "with_capacity n = (if INLINE_CAP < n then grow_to n list_new else Some list_new)"

definition from_elem :: "value_bits \<Rightarrow> nat \<Rightarrow> list_storage panics" where
  "from_elem v count =
     do {
       s \<leftarrow> with_capacity count;
       b \<leftarrow> write_all (data s) 0 (replicate count v);
       Some ((with_data s b)\<lparr>len := as_u32 count\<rparr>)
     }"

definition saturating_mul :: "nat \<Rightarrow> nat \<Rightarrow> nat" where
  "saturating_mul a b = min (a * b) (2 ^ 64 - 1)"

definition repeat_slice :: "value_bits list \<Rightarrow> nat \<Rightarrow> list_storage panics" where
  "repeat_slice vs count =
     (let total_len = saturating_mul (length vs) count in
      do {
        s \<leftarrow> with_capacity total_len;
        if length vs = 1 then from_elem (hd vs) count
        else do {
          b \<leftarrow> write_all (data s) 0 (concat (replicate count vs));
          Some ((with_data s b)\<lparr>len := as_u32 total_len\<rparr>)
        }
      })"

definition list_len :: "list_storage \<Rightarrow> nat" where
  "list_len s = len s"

definition list_is_empty :: "list_storage \<Rightarrow> bool" where
  "list_is_empty s \<longleftrightarrow> len s = 0"

definition capacity :: "list_storage \<Rightarrow> nat" where
  "capacity s = effective_cap s"

definition grow_for_push :: "list_storage \<Rightarrow> list_storage panics" where
  "grow_for_push s =
     (case ptr s of
        None \<Rightarrow> grow_to (INLINE_CAP * 2) s
      | Some _ \<Rightarrow> do { assert_that (cap s * 2 < 2 ^ 64); grow_to (cap s * 2) s })"

definition reserve :: "nat \<Rightarrow> list_storage \<Rightarrow> list_storage panics" where
  "reserve additional s =
     do {
       assert_that (len s + additional < 2 ^ 64);
       let needed = len s + additional;
       if effective_cap s < needed
       then grow_to (max (max needed (saturating_mul (effective_cap s) 2)) (INLINE_CAP * 2)) s
       else Some s
     }"

definition list_push :: "value_bits \<Rightarrow> list_storage \<Rightarrow> list_storage panics" where
  "list_push v s =
     do {
       s1 \<leftarrow> (if len s = effective_cap s then grow_for_push s else Some s);
       b \<leftarrow> write_cell (data s1) (len s1) v;
       Some ((with_data s1 b)\<lparr>len := as_u32 (len s1 + 1)\<rparr>)
     }"

definition list_pop :: "list_storage \<Rightarrow> (value_bits option \<times> list_storage) panics" where
  "list_pop s =
     (if len s = 0 then Some (None, s)
      else do {
        let s1 = s\<lparr>len := len s - 1\<rparr>;
        v \<leftarrow> read_cell (data s1) (len s1);
        Some (Some v, s1)
      })"

definition list_insert :: "nat \<Rightarrow> value_bits \<Rightarrow> list_storage \<Rightarrow> list_storage panics" where
  "list_insert i v s =
     do {
       assert_that (i \<le> len s);
       s1 \<leftarrow> (if len s = effective_cap s then grow_for_push s else Some s);
       b \<leftarrow> copy_within (data s1) i (i + 1) (len s1 - i);
       b' \<leftarrow> write_cell b i v;
       Some ((with_data s1 b')\<lparr>len := as_u32 (len s1 + 1)\<rparr>)
     }"

definition list_remove :: "nat \<Rightarrow> list_storage \<Rightarrow> (value_bits \<times> list_storage) panics" where
  "list_remove i s =
     do {
       assert_that (i < len s);
       v \<leftarrow> read_cell (data s) i;
       b \<leftarrow> copy_within (data s) (i + 1) i (len s - i - 1);
       Some (v, (with_data s b)\<lparr>len := len s - 1\<rparr>)
     }"

definition list_clear :: "list_storage \<Rightarrow> list_storage" where
  "list_clear s = s\<lparr>len := 0\<rparr>"

definition list_truncate :: "nat \<Rightarrow> list_storage \<Rightarrow> list_storage" where
  "list_truncate n s = (if n < len s then s\<lparr>len := as_u32 n\<rparr> else s)"

definition extend_from_slice :: "value_bits list \<Rightarrow> list_storage \<Rightarrow> list_storage panics" where
  "extend_from_slice vs s =
     do {
       s1 \<leftarrow> reserve (length vs) s;
       b \<leftarrow> write_all (data s1) (len s1) vs;
       Some ((with_data s1 b)\<lparr>len := as_u32 (len s1 + as_u32 (length vs))\<rparr>)
     }"

text \<open>The slice that \<open>deref\<close> makes of the elements.\<close>

definition deref :: "list_storage \<Rightarrow> value_bits list panics" where
  "deref s = read_prefix (data s) (len s)"

text \<open>The bounds of a range, as \<open>RangeBounds\<close> gives them.\<close>

datatype bound = Included nat | Excluded nat | Unbounded

definition range_start :: "bound \<Rightarrow> nat" where
  "range_start b = (case b of Included n \<Rightarrow> n | Excluded n \<Rightarrow> n + 1 | Unbounded \<Rightarrow> 0)"

definition range_end :: "bound \<Rightarrow> list_storage \<Rightarrow> nat" where
  "range_end b s = (case b of Included n \<Rightarrow> n + 1 | Excluded n \<Rightarrow> n | Unbounded \<Rightarrow> len s)"

definition list_drain ::
  "bound \<Rightarrow> bound \<Rightarrow> list_storage \<Rightarrow> (value_bits list \<times> list_storage) panics" where
  "list_drain lo hi s =
     (let a = range_start lo; e = range_end hi s in
      do {
        assert_that (a \<le> e \<and> e \<le> len s);
        whole \<leftarrow> deref s;
        removed \<leftarrow> slice whole a e;
        b \<leftarrow> copy_within (data s) e a (len s - e);
        Some (removed, (with_data s b)\<lparr>len := len s - as_u32 (e - a)\<rparr>)
      })"

definition list_clone :: "list_storage \<Rightarrow> list_storage panics" where
  "list_clone s =
     do {
       out \<leftarrow> with_capacity (len s);
       vs \<leftarrow> deref s;
       extend_from_slice vs out
     }"

text \<open>An iterator is the values it yields and the lower bound of its size hint.\<close>

primrec push_each :: "value_bits list \<Rightarrow> list_storage \<Rightarrow> list_storage panics" where
  "push_each [] s = Some s"
| "push_each (v # vs) s = do { s' \<leftarrow> list_push v s; push_each vs s' }"

definition list_extend :: "nat \<Rightarrow> value_bits list \<Rightarrow> list_storage \<Rightarrow> list_storage panics" where
  "list_extend hint vs s = do { s1 \<leftarrow> reserve hint s; push_each vs s1 }"

definition list_from_iter :: "nat \<Rightarrow> value_bits list \<Rightarrow> list_storage panics" where
  "list_from_iter hint vs = list_extend hint vs list_new"

definition list_from_slice :: "value_bits list \<Rightarrow> list_storage panics" where
  "list_from_slice vs = do { out \<leftarrow> with_capacity (length vs); extend_from_slice vs out }"

text \<open>\<open>get\<close> and \<open>get_mut\<close> of the slice.\<close>

definition list_at :: "nat \<Rightarrow> list_storage \<Rightarrow> value_bits option panics" where
  "list_at i s = do { vs \<leftarrow> deref s; Some (if i < length vs then Some (vs ! i) else None) }"

definition list_put :: "nat \<Rightarrow> value_bits \<Rightarrow> list_storage \<Rightarrow> (bool \<times> list_storage) panics" where
  "list_put i v s =
     (if i < len s
      then do { b \<leftarrow> write_cell (data s) i v; Some (True, with_data s b) }
      else Some (False, s))"

end
