(* ===== verification/List_Facts.thy ===== *)
theory List_Facts
  imports List_Storage
begin

text \<open>
  The storage refines the list of its values: each operation returns, without undefined
  behaviour or panic, what the operation of lists gives, as long as the list stays within
  \<open>2^31\<close> elements, and past that bound the capacity wraps.
\<close>

section \<open>Raw memory\<close>

lemma write_all_eq:
  "i + length vs \<le> length b \<Longrightarrow>
     write_all b i vs = Some (take i b @ map Some vs @ drop (i + length vs) b)"
proof (induction vs arbitrary: b i)
  case Nil
  then show ?case by simp
next
  case (Cons v vs)
  let ?b = "b[i := Some v]"
  have "write_all b i (v # vs) = write_all ?b (i + 1) vs"
    using Cons.prems by (simp add: write_cell_def)
  also have "\<dots> = Some (take (i + 1) ?b @ map Some vs @ drop (i + 1 + length vs) ?b)"
    by (rule Cons.IH) (use Cons.prems in simp)
  also have "take (i + 1) ?b = take i b @ [Some v]"
    using Cons.prems by (simp add: take_Suc_conv_app_nth)
  finally show ?case using Cons.prems by simp
qed

lemma read_prefix_eq: "take n b = map Some vs \<Longrightarrow> length vs = n \<Longrightarrow> read_prefix b n = Some vs"
proof -
  assume *: "take n b = map Some vs" "length vs = n"
  then have "n \<le> length b" by (metis length_map length_take min.absorb_iff2 min.commute)
  moreover have "all_some (map Some vs) = Some vs" by (rule all_some_id) simp
  ultimately show ?thesis using * by (simp add: read_prefix_def)
qed

section \<open>The values a storage holds\<close>

definition shape :: "list_storage \<Rightarrow> bool" where
  "shape s \<longleftrightarrow> length (inline_buf s) = INLINE_CAP \<and>
     (case ptr s of None \<Rightarrow> True
      | Some b \<Rightarrow> cap s = length b \<and> INLINE_CAP < cap s \<and> cap s < 2 ^ 32)"

definition stores :: "list_storage \<Rightarrow> value_bits list \<Rightarrow> bool" where
  "stores s vs \<longleftrightarrow> shape s \<and> len s = length vs \<and> take (len s) (data s) = map Some vs"

text \<open>The most elements the growth of the buffer is right for.\<close>

definition LIST_MAX :: nat where "LIST_MAX = 2 ^ 31"

lemma list_max_32: "2 * LIST_MAX = 2 ^ 32" by (simp add: LIST_MAX_def)

lemma stores_len: "stores s vs \<Longrightarrow> len s = length vs"
  by (simp add: stores_def)

lemma stores_take: "stores s vs \<Longrightarrow> take (length vs) (data s) = map Some vs"
  by (auto simp: stores_def)

lemma stores_cap:
  assumes "stores s vs"
  shows "effective_cap s = length (data s) \<and> length vs \<le> length (data s)"
proof
  show "effective_cap s = length (data s)"
    using assms by (auto simp: stores_def shape_def effective_cap_def data_def split: option.splits)
  have "length (take (length vs) (data s)) = length vs" using stores_take [OF assms] by simp
  then show "length vs \<le> length (data s)" by simp
qed

lemma stores_data: "stores s vs \<Longrightarrow> data s = map Some vs @ drop (length vs) (data s)"
  using append_take_drop_id [of "length vs" "data s"] by (simp add: stores_take)

lemma stores_unique: "stores s vs \<Longrightarrow> stores s ws \<Longrightarrow> vs = ws"
  using stores_len [of s vs] stores_len [of s ws] stores_take [of s vs] stores_take [of s ws]
  by (simp add: inj_map_eq_map)

lemma data_with_data [simp]: "data (with_data s b) = b"
  by (simp add: data_def with_data_def split: option.split)

lemma data_len [simp]: "data (s\<lparr>len := n\<rparr>) = data s"
  by (simp add: data_def split: option.split)

lemma with_data_len [simp]: "len (with_data s b) = len s"
  by (simp add: with_data_def split: option.split)

lemma shape_len [simp]: "shape (s\<lparr>len := n\<rparr>) = shape s"
  by (simp add: shape_def split: option.split)

lemma shape_with_data: "shape s \<Longrightarrow> length b = length (data s) \<Longrightarrow> shape (with_data s b)"
  by (auto simp: shape_def with_data_def data_def split: option.splits)

text \<open>Writing a new prefix of the same buffer.\<close>

lemma stores_write:
  assumes "stores s vs" "length b = length (data s)" "take (length ws) b = map Some ws"
    "length ws < 2 ^ 32"
  shows "stores ((with_data s b)\<lparr>len := as_u32 (length ws)\<rparr>) ws"
  using assms by (simp add: stores_def shape_with_data)

lemma stores_new: "stores list_new []"
  by (simp add: stores_def shape_def list_new_def)

lemma grow_to_stores:
  assumes "stores s vs" "length (data s) \<le> n" "INLINE_CAP < n" "n < 2 ^ 32"
  obtains s' where "grow_to n s = Some s'" "stores s' vs" "length (data s') = n"
proof -
  have n: "n * 8 \<le> 2 ^ 63 - 1" using assms(4) by simp
  have len: "len s = length vs" "length vs \<le> length (data s)"
    using assms(1) stores_len stores_cap by blast+
  note take = stores_take [OF assms(1)]
  show thesis
  proof (cases "ptr s")
    case None
    let ?b = "take (len s) (inline_buf s) @ replicate (n - len s) None"
    have i: "length (inline_buf s) = INLINE_CAP" "data s = inline_buf s"
      using assms(1) None by (simp_all add: stores_def shape_def data_def)
    then have "grow_to n s = Some (s\<lparr>ptr := Some ?b, cap := n\<rparr>)"
      using None n len assms by (simp add: grow_to_def layout_for_def)
    then show thesis
      by (rule that) (use i len take assms in \<open>simp_all add: stores_def shape_def data_def\<close>)
  next
    case (Some old)
    let ?b = "take n old @ replicate (n - length old) None"
    have i: "length (inline_buf s) = INLINE_CAP" "data s = old" "cap s = length old"
      using assms(1) Some by (simp_all add: stores_def shape_def data_def)
    then have "grow_to n s = Some (s\<lparr>ptr := Some ?b, cap := n\<rparr>)"
      using Some n assms by (simp add: grow_to_def layout_for_def)
    then show thesis
      by (rule that) (use i len take assms in \<open>simp_all add: stores_def shape_def data_def\<close>)
  qed
qed

lemma with_capacity_stores:
  assumes "n < 2 ^ 32"
  obtains s where "with_capacity n = Some s" "stores s []" "n \<le> length (data s)"
proof (cases "INLINE_CAP < n")
  case True
  obtain s where "grow_to n list_new = Some s" "stores s []" "length (data s) = n"
    using grow_to_stores [OF stores_new _ True assms] True
    by (auto simp: data_def list_new_def)
  then show thesis using that True by (simp add: with_capacity_def)
next
  case False
  then show thesis
    using that [of list_new] stores_new by (simp add: with_capacity_def data_def list_new_def)
qed

lemma reserve_stores:
  assumes "stores s vs" "length vs + n \<le> LIST_MAX"
  obtains s' where "reserve n s = Some s'" "stores s' vs" "length vs + n \<le> length (data s')"
proof -
  have len: "len s = length vs" "effective_cap s = length (data s)"
    using assms(1) stores_len stores_cap by blast+
  have lt: "len s + n < 2 ^ 64" using assms(2) len(1) by (simp add: LIST_MAX_def)
  show thesis
  proof (cases "effective_cap s < len s + n")
    case True
    let ?k = "max (max (len s + n) (saturating_mul (effective_cap s) 2)) (INLINE_CAP * 2)"
    have "effective_cap s * 2 < 2 ^ 32" using True assms(2) len(1) list_max_32 by simp
    then have k: "length (data s) \<le> ?k" "INLINE_CAP < ?k" "?k < 2 ^ 32" "len s + n \<le> ?k"
      using assms(2) len True by (auto simp: saturating_mul_def INLINE_CAP_def LIST_MAX_def)
    obtain s' where "grow_to ?k s = Some s'" "stores s' vs" "length (data s') = ?k"
      using grow_to_stores [OF assms(1) k(1-3)] by blast
    then show thesis using that True lt k(4) len by (simp add: reserve_def)
  next
    case False
    then show thesis using that [of s] assms(1) lt len by (simp add: reserve_def)
  qed
qed

text \<open>Room for one more element, as \<open>push\<close> and \<open>insert\<close> make it.\<close>

lemma grow_for_push_stores:
  assumes "stores s vs" "length vs < LIST_MAX"
  obtains s' where "(if len s = effective_cap s then grow_for_push s else Some s) = Some s'"
    "stores s' vs" "length vs < length (data s')"
proof (cases "len s = effective_cap s")
  case True
  have c: "effective_cap s = length (data s)" "length vs = length (data s)"
    using stores_cap [OF assms(1)] stores_len [OF assms(1)] True by auto
  have "\<exists>k. grow_for_push s = grow_to k s \<and> length (data s) < k \<and> INLINE_CAP < k \<and> k < 2 ^ 32"
  proof (cases "ptr s")
    case None
    then show ?thesis
      using c True stores_len [OF assms(1)]
      by (intro exI [of _ "INLINE_CAP * 2"]) (simp add: grow_for_push_def INLINE_CAP_def effective_cap_def)
  next
    case (Some b)
    then have "cap s = length (data s)" "INLINE_CAP < cap s"
      using assms(1) by (simp_all add: stores_def shape_def data_def)
    moreover have "cap s * 2 < 2 ^ 32" using calculation c assms(2) list_max_32 by simp
    moreover from this have "cap s * 2 < 2 ^ 64" by simp
    moreover have "0 < cap s" using calculation(2) by simp
    ultimately show ?thesis using Some by (intro exI [of _ "cap s * 2"]) (simp add: grow_for_push_def)
  qed
  then obtain k where k: "grow_for_push s = grow_to k s" "length (data s) < k" "INLINE_CAP < k" "k < 2 ^ 32"
    by blast
  show thesis
    by (rule grow_to_stores [OF assms(1) less_imp_le [OF k(2)] k(3,4)])
      (use that k c True in simp)
next
  case False
  then show thesis using that [of s] stores_cap [OF assms(1)] stores_len [OF assms(1)] assms(1) by simp
qed

section \<open>The operations\<close>

lemma list_push_stores:
  assumes "stores s vs" "length vs < LIST_MAX"
  obtains s' where "list_push v s = Some s'" "stores s' (vs @ [v])"
proof -
  obtain s1 where s1: "(if len s = effective_cap s then grow_for_push s else Some s) = Some s1"
    "stores s1 vs" "length vs < length (data s1)"
    using grow_for_push_stores [OF assms] .
  let ?b = "(data s1)[length vs := Some v]"
  have n: "length (vs @ [v]) < 2 ^ 32" using assms(2) by (simp add: LIST_MAX_def)
  have "take (length (vs @ [v])) ?b = map Some (vs @ [v])"
    using s1(3) stores_take [OF s1(2)] by (simp add: take_Suc_conv_app_nth)
  from stores_write [OF s1(2) _ this n]
  have st: "stores ((with_data s1 ?b)\<lparr>len := as_u32 (length (vs @ [v]))\<rparr>) (vs @ [v])" by simp
  have "list_push v s = Some ((with_data s1 ?b)\<lparr>len := as_u32 (length (vs @ [v]))\<rparr>)"
    using s1 by (simp add: list_push_def write_cell_def stores_len [OF s1(2)])
  then show thesis using st that by blast
qed

lemma list_pop_stores:
  assumes "stores s vs"
  obtains s' where "list_pop s = Some (if vs = [] then None else Some (last vs), s')"
    "stores s' (butlast vs)"
proof (cases vs rule: rev_cases)
  case Nil
  then show thesis using that [of s] assms stores_len [OF assms] by (simp add: list_pop_def)
next
  case (snoc ws v)
  have "data s = map Some ws @ Some v # drop (length vs) (data s)"
    using stores_data [OF assms] snoc by simp
  then have cell: "data s ! length ws = Some v" "length ws < length (data s)"
    "take (length ws) (data s) = map Some ws"
    by (metis length_map nth_append_length) (use stores_cap [OF assms] stores_take [OF assms] snoc in
      \<open>auto simp: take_Suc_conv_app_nth\<close>)
  then have "stores (s\<lparr>len := length ws\<rparr>) ws" using assms by (simp add: stores_def)
  then show thesis
    using that [of "s\<lparr>len := length ws\<rparr>"] cell stores_len [OF assms] snoc
    by (simp add: list_pop_def read_cell_def)
qed

lemma list_insert_stores:
  assumes "stores s vs" "length vs < LIST_MAX" "i \<le> length vs"
  obtains s' where "list_insert i v s = Some s'" "stores s' (take i vs @ v # drop i vs)"
proof -
  obtain s1 where s1: "(if len s = effective_cap s then grow_for_push s else Some s) = Some s1"
    "stores s1 vs" "length vs < length (data s1)"
    using grow_for_push_stores [OF assms(1,2)] .
  let ?ws = "take i vs @ v # drop i vs" and ?d = "data s1"
  let ?r = "drop (length vs) ?d"
  have d: "?d = map Some vs @ ?r" using stores_data [OF s1(2)] .
  let ?b = "take (i + 1) ?d @ map Some (drop i vs) @ drop (length vs + 1) ?d"
  have copy: "copy_within ?d i (i + 1) (length vs - i) = Some ?b"
    using assms(3) s1(3) stores_take [OF s1(2)]
    by (simp add: copy_within_def take_drop drop_map)
  let ?c = "?b[i := Some v]"
  have ti: "take (i + 1) ?d = take i (map Some vs) @ [?d ! i]"
    using assms(3) s1(3) stores_take [OF s1(2)]
    by (simp add: take_Suc_conv_app_nth) (metis min.absorb1 take_map take_take)
  then have c: "?c = map Some ?ws @ drop (length vs + 1) ?d"
    using assms(3) by (simp add: list_update_append take_map)
  then have len: "length ?c = length ?d" using s1(3) assms(3) by simp
  have n: "length ?ws < 2 ^ 32" using assms(2,3) by (simp add: LIST_MAX_def)
  have "take (length ?ws) ?c = map Some ?ws" unfolding c by simp
  from stores_write [OF s1(2) len this n]
  have st: "stores ((with_data s1 ?c)\<lparr>len := as_u32 (length ?ws)\<rparr>) ?ws" .
  have "i < length ?b" using assms(3) s1(3) by simp
  then have "list_insert i v s = Some ((with_data s1 ?c)\<lparr>len := as_u32 (length ?ws)\<rparr>)"
    using s1(1) copy assms(3) stores_len [OF s1(2)] stores_len [OF assms(1)]
    by (simp add: list_insert_def write_cell_def)
  then show thesis using st that by blast
qed

lemma list_remove_stores:
  assumes "stores s vs" "i < length vs"
  obtains s' where "list_remove i s = Some (vs ! i, s')" "stores s' (take i vs @ drop (i + 1) vs)"
proof -
  let ?ws = "take i vs @ drop (i + 1) vs" and ?d = "data s"
  let ?n = "length vs - i - 1"
  have d: "?d = map Some vs @ drop (length vs) ?d" using stores_data [OF assms(1)] .
  have cap: "length vs \<le> length ?d" using stores_cap [OF assms(1)] by blast
  have cell: "?d ! i = Some (vs ! i)" using assms(2) by (subst d) (simp add: nth_append)
  let ?b = "map Some ?ws @ drop (i + ?n) ?d"
  have p1: "take i ?d = map Some (take i vs)" using assms(2) by (subst d) (simp add: take_map)
  have p2: "take ?n (drop (i + 1) ?d) = map Some (drop (i + 1) vs)"
    using assms(2) by (subst d) (simp add: drop_map)
  have copy: "copy_within ?d (i + 1) i ?n = Some ?b"
    using assms(2) cap p1 p2 by (simp add: copy_within_def)
  have n: "length ?ws = length vs - 1" using assms(2) by simp
  have len: "length ?b = length ?d" using assms(2) cap by simp
  have shape: "shape (with_data s ?b)" using shape_with_data [OF _ len] assms(1) by (simp add: stores_def)
  have "stores ((with_data s ?b)\<lparr>len := length vs - 1\<rparr>) ?ws"
    using shape n unfolding stores_def by simp
  moreover have "list_remove i s = Some (vs ! i, (with_data s ?b)\<lparr>len := length vs - 1\<rparr>)"
    using assms(2) cell copy cap stores_len [OF assms(1)] by (simp add: list_remove_def read_cell_def)
  ultimately show thesis using that by blast
qed

lemma list_clear_stores: "stores s vs \<Longrightarrow> stores (list_clear s) []"
  by (simp add: stores_def list_clear_def)

lemma list_truncate_stores:
  assumes "stores s vs" "length vs < 2 ^ 32"
  shows "stores (list_truncate n s) (take n vs)"
proof (cases "n < length vs")
  case True
  then have "take n (data s) = map Some (take n vs)"
    using stores_take [OF assms(1)] by (metis min.strict_order_iff take_map take_take)
  then show ?thesis using assms True by (simp add: list_truncate_def stores_def)
next
  case False
  then show ?thesis using assms stores_len [OF assms(1)] by (simp add: list_truncate_def)
qed

lemma deref_stores: "stores s vs \<Longrightarrow> deref s = Some vs"
  by (simp add: deref_def stores_len read_prefix_eq [OF stores_take refl])

lemma extend_from_slice_stores:
  assumes "stores s vs" "length vs + length ws \<le> LIST_MAX"
  obtains s' where "extend_from_slice ws s = Some s'" "stores s' (vs @ ws)"
proof -
  obtain s1 where s1: "reserve (length ws) s = Some s1" "stores s1 vs"
    "length vs + length ws \<le> length (data s1)"
    using reserve_stores [OF assms] .
  let ?d = "data s1"
  let ?b = "map Some (vs @ ws) @ drop (length vs + length ws) ?d"
  have w: "write_all ?d (length vs) ws = Some ?b"
    using write_all_eq [OF s1(3)] stores_take [OF s1(2)] by simp
  have n: "length ws < 2 ^ 32" "length (vs @ ws) < 2 ^ 32" using assms(2) by (simp_all add: LIST_MAX_def)
  have "length ?b = length ?d" using s1(3) by simp
  from stores_write [OF s1(2) this _ n(2)]
  have "stores ((with_data s1 ?b)\<lparr>len := as_u32 (length (vs @ ws))\<rparr>) (vs @ ws)" by simp
  moreover have "extend_from_slice ws s = Some ((with_data s1 ?b)\<lparr>len := as_u32 (length (vs @ ws))\<rparr>)"
    using s1(1) w n(1) stores_len [OF s1(2)] by (simp add: extend_from_slice_def)
  ultimately show thesis using that by blast
qed

lemma list_drain_stores:
  assumes "stores s vs" "range_start lo \<le> range_end hi s" "range_end hi s \<le> length vs"
    "length vs < 2 ^ 32"
  obtains s' where "list_drain lo hi s =
      Some (take (range_end hi s - range_start lo) (drop (range_start lo) vs), s')"
    "stores s' (take (range_start lo) vs @ drop (range_end hi s) vs)"
proof -
  let ?a = "range_start lo" and ?e = "range_end hi s"
  let ?ws = "take ?a vs @ drop ?e vs" and ?d = "data s"
  let ?n = "length vs - ?e"
  have d: "?d = map Some vs @ drop (length vs) ?d" using stores_data [OF assms(1)] .
  have cap: "length vs \<le> length ?d" using stores_cap [OF assms(1)] by blast
  let ?b = "map Some ?ws @ drop (?a + ?n) ?d"
  have p1: "take ?a ?d = map Some (take ?a vs)" using assms(2,3) by (subst d) (simp add: take_map)
  have p2: "take ?n (drop ?e ?d) = map Some (drop ?e vs)"
    using assms(3) by (subst d) (simp add: drop_map)
  have copy: "copy_within ?d ?e ?a ?n = Some ?b"
    using assms(2,3) cap p1 p2 by (simp add: copy_within_def)
  have n: "length ?ws = length vs - (?e - ?a)" using assms(2,3) by simp
  have len: "length ?b = length ?d" using assms(2,3) cap by simp
  have shape: "shape (with_data s ?b)" using shape_with_data [OF _ len] assms(1) by (simp add: stores_def)
  have "stores ((with_data s ?b)\<lparr>len := length vs - (?e - ?a)\<rparr>) ?ws"
    using shape n unfolding stores_def by simp
  moreover have "?e - ?a < 2 ^ 32" using assms(3,4) by linarith
  then have "list_drain lo hi s = Some (take (?e - ?a) (drop ?a vs),
      (with_data s ?b)\<lparr>len := length vs - (?e - ?a)\<rparr>)"
    using assms(2,3) copy stores_len [OF assms(1)] deref_stores [OF assms(1)]
    by (simp add: list_drain_def Let_def)
  ultimately show thesis using that by blast
qed

lemma list_from_slice_stores:
  assumes "length vs \<le> LIST_MAX"
  obtains s where "list_from_slice vs = Some s" "stores s vs"
proof -
  obtain out where out: "with_capacity (length vs) = Some out" "stores out []"
    using with_capacity_stores [of "length vs"] assms by (auto simp: LIST_MAX_def)
  obtain s where "extend_from_slice vs out = Some s" "stores s vs"
    using extend_from_slice_stores [OF out(2), of vs] assms by auto
  then show thesis using that out(1) by (simp add: list_from_slice_def)
qed

lemma list_clone_stores:
  assumes "stores s vs" "length vs \<le> LIST_MAX"
  obtains s' where "list_clone s = Some s'" "stores s' vs"
  using list_from_slice_stores [OF assms(2)] deref_stores [OF assms(1)] stores_len [OF assms(1)]
  by (auto simp: list_clone_def list_from_slice_def)

text \<open>Filling a fresh storage that has the capacity.\<close>

lemma fill_stores:
  assumes "stores s []" "length vs \<le> length (data s)" "length vs < 2 ^ 32"
  obtains b where "write_all (data s) 0 vs = Some b"
    "stores ((with_data s b)\<lparr>len := as_u32 (length vs)\<rparr>) vs"
proof -
  have w: "write_all (data s) 0 vs = Some (map Some vs @ drop (length vs) (data s))"
    using write_all_eq [of 0 vs "data s"] assms(2) by simp
  have "stores ((with_data s (map Some vs @ drop (length vs) (data s)))\<lparr>len := as_u32 (length vs)\<rparr>) vs"
    by (rule stores_write [OF assms(1)]) (use assms in simp_all)
  with w show thesis using that by blast
qed

lemma from_elem_stores:
  assumes "n < 2 ^ 32"
  obtains s where "from_elem v n = Some s" "stores s (replicate n v)"
proof -
  obtain s where s: "with_capacity n = Some s" "stores s []" "n \<le> length (data s)"
    using with_capacity_stores [OF assms] .
  have n: "length (replicate n v) \<le> length (data s)" "length (replicate n v) < 2 ^ 32"
    using s(3) assms by simp_all
  obtain b where b: "write_all (data s) 0 (replicate n v) = Some b"
    "stores ((with_data s b)\<lparr>len := as_u32 n\<rparr>) (replicate n v)"
    using fill_stores [OF s(2) n] by auto
  then show thesis using that s(1) by (simp add: from_elem_def)
qed

lemma length_concat_replicate: "length (concat (replicate n xs)) = length xs * n"
  by (induction n) simp_all

lemma repeat_slice_stores:
  assumes "length vs * n < 2 ^ 32"
  obtains s where "repeat_slice vs n = Some s" "stores s (concat (replicate n vs))"
proof -
  let ?ws = "concat (replicate n vs)"
  have t: "saturating_mul (length vs) n = length ?ws"
    using assms by (simp add: saturating_mul_def length_concat_replicate)
  have n: "length ?ws < 2 ^ 32" using assms by (simp add: length_concat_replicate)
  obtain s where s: "with_capacity (length ?ws) = Some s" "stores s []" "length ?ws \<le> length (data s)"
    using with_capacity_stores [OF n] .
  show thesis
  proof (cases "length vs = 1")
    case True
    then obtain v where v: "vs = [v]" by (cases vs) auto
    then have "?ws = replicate n v" by (induction n) simp_all
    moreover obtain s' where "from_elem v n = Some s'" "stores s' (replicate n v)"
      using from_elem_stores [of n v] assms v by auto
    ultimately show thesis using that v t s(1) by (simp add: repeat_slice_def)
  next
    case False
    obtain b where "write_all (data s) 0 ?ws = Some b"
      "stores ((with_data s b)\<lparr>len := as_u32 (length ?ws)\<rparr>) ?ws"
      using fill_stores [OF s(2,3) n] .
    then show thesis using that False t s(1) by (simp add: repeat_slice_def Let_def)
  qed
qed

lemma list_at_stores:
  "stores s vs \<Longrightarrow> list_at i s = Some (if i < length vs then Some (vs ! i) else None)"
  by (simp add: list_at_def deref_stores)

lemma list_put_stores:
  assumes "stores s vs"
  obtains s' where "list_put i v s = Some (i < length vs, s')" "stores s' (vs[i := v])"
proof (cases "i < length vs")
  case True
  let ?b = "(data s)[i := Some v]"
  have i: "i < length (data s)" using True stores_cap [OF assms] by simp
  have "take (length vs) ?b = map Some (vs[i := v])"
    using stores_take [OF assms] by (simp add: take_update_swap map_update)
  then have "stores (with_data s ?b) (vs[i := v])"
    using assms by (simp add: stores_def shape_with_data)
  then show thesis
    using that [of "with_data s ?b"] True i stores_len [OF assms]
    by (simp add: list_put_def write_cell_def)
next
  case False
  then have "list_put i v s = Some (i < length vs, s)" "vs[i := v] = vs"
    using stores_len [OF assms] by (simp_all add: list_put_def list_update_beyond)
  then show thesis using that [of s] assms by simp
qed

section \<open>Sequences\<close>

text \<open>
  What the virtual machine relies on when it holds a list: an abstraction to the list of
  values, room for so many elements, and the operations that grow it.
\<close>

locale sequence =
  fixes holds :: "'s \<Rightarrow> 'v list \<Rightarrow> bool"
    and empty :: 's
    and push :: "'v \<Rightarrow> 's \<Rightarrow> 's option"
    and pop :: "'s \<Rightarrow> ('v option \<times> 's) option"
    and extend :: "'v list \<Rightarrow> 's \<Rightarrow> 's option"
    and limit :: nat
  assumes holds_empty: "holds empty []"
    and holds_push: "holds s vs \<Longrightarrow> length vs < limit \<Longrightarrow> \<exists>s'. push v s = Some s' \<and> holds s' (vs @ [v])"
    and holds_pop: "holds s vs \<Longrightarrow>
      \<exists>s'. pop s = Some (if vs = [] then None else Some (last vs), s') \<and> holds s' (butlast vs)"
    and holds_extend: "holds s vs \<Longrightarrow> length vs + length ws \<le> limit \<Longrightarrow>
      \<exists>s'. extend ws s = Some s' \<and> holds s' (vs @ ws)"
begin

primrec push_list :: "'v list \<Rightarrow> 's \<Rightarrow> 's option" where
  "push_list [] s = Some s"
| "push_list (v # vs) s = Option.bind (push v s) (push_list vs)"

lemma push_list_holds:
  "holds s vs \<Longrightarrow> length vs + length ws \<le> limit \<Longrightarrow>
     \<exists>s'. push_list ws s = Some s' \<and> holds s' (vs @ ws)"
proof (induction ws arbitrary: s vs)
  case Nil
  then show ?case by simp
next
  case (Cons w ws)
  obtain s1 where s1: "push w s = Some s1" "holds s1 (vs @ [w])"
    using holds_push [OF Cons.prems(1)] Cons.prems(2) by fastforce
  then show ?case using Cons.IH [OF s1(2)] Cons.prems(2) by auto
qed

text \<open>Pushing one by one and extending at once hold the same values.\<close>

lemma push_list_extend:
  "holds s vs \<Longrightarrow> length vs + length ws \<le> limit \<Longrightarrow>
     \<exists>a b. push_list ws s = Some a \<and> extend ws s = Some b \<and> holds a (vs @ ws) \<and> holds b (vs @ ws)"
  using push_list_holds [of s vs ws] holds_extend [of s vs ws] by blast

lemma pop_push:
  "holds s vs \<Longrightarrow> length vs < limit \<Longrightarrow>
     \<exists>a b. push v s = Some a \<and> pop a = Some (Some v, b) \<and> holds b vs"
  using holds_push [of s vs v] holds_pop [of _ "vs @ [v]"] by fastforce

end

interpretation ls: sequence stores list_new list_push list_pop extend_from_slice LIST_MAX
proof
  show "stores list_new []" by (rule stores_new)
next
  fix s vs v
  assume "stores s vs" "length vs < LIST_MAX"
  then show "\<exists>s'. list_push v s = Some s' \<and> stores s' (vs @ [v])"
    by (rule list_push_stores) blast
next
  fix s vs
  assume "stores s vs"
  then show "\<exists>s'. list_pop s = Some (if vs = [] then None else Some (last vs), s') \<and> stores s' (butlast vs)"
    by (rule list_pop_stores) blast
next
  fix s and vs ws :: "value_bits list"
  assume "stores s vs" "length vs + length ws \<le> LIST_MAX"
  then show "\<exists>s'. extend_from_slice ws s = Some s' \<and> stores s' (vs @ ws)"
    by (rule extend_from_slice_stores) blast
qed

lemma push_each_list: "push_each vs s = ls.push_list vs s"
  by (induction vs arbitrary: s) (auto cong: Option.bind_cong)

lemma list_extend_stores:
  assumes "stores s vs" "length vs + length ws \<le> LIST_MAX" "hint \<le> length ws"
  obtains s' where "list_extend hint ws s = Some s'" "stores s' (vs @ ws)"
proof -
  have "length vs + hint \<le> LIST_MAX" using assms(2,3) by simp
  then obtain s1 where "reserve hint s = Some s1" "stores s1 vs"
    using reserve_stores [OF assms(1)] by metis
  moreover obtain s' where "ls.push_list ws s1 = Some s'" "stores s' (vs @ ws)"
    using ls.push_list_holds [OF calculation(2) assms(2)] by blast
  ultimately show thesis using that by (simp add: list_extend_def push_each_list)
qed

section \<open>Properties\<close>

lemma list_max_room: "8 < LIST_MAX" by (simp add: LIST_MAX_def)

text \<open>
  C21. Adding to a storage adds to the list of its values: \<open>push\<close> and \<open>extend\<close> at the end,
  \<open>insert\<close> before the element at its index, whether the values fit in the object, move to
  their first heap buffer or to a larger one. No cell is read before it is written and none
  outside the buffer is touched.
\<close>

theorem list_adds:
  assumes "stores s vs" "length vs + length ws < LIST_MAX" "i \<le> length vs"
  shows "\<exists>a b c. list_push v s = Some a \<and> stores a (vs @ [v]) \<and>
      list_insert i v s = Some b \<and> stores b (take i vs @ v # drop i vs) \<and>
      extend_from_slice ws s = Some c \<and> stores c (vs @ ws)"
proof -
  have room: "length vs < LIST_MAX" "length vs + length ws \<le> LIST_MAX" using assms(2) by simp_all
  obtain a where "list_push v s = Some a" "stores a (vs @ [v])"
    using list_push_stores [OF assms(1) room(1)] .
  moreover obtain b where "list_insert i v s = Some b" "stores b (take i vs @ v # drop i vs)"
    using list_insert_stores [OF assms(1) room(1) assms(3)] .
  moreover obtain c where "extend_from_slice ws s = Some c" "stores c (vs @ ws)"
    using extend_from_slice_stores [OF assms(1) room(2)] .
  ultimately show ?thesis by blast
qed

theorem list_adds_witness:
  "\<exists>a b c. list_push 7 list_new = Some a \<and> stores a [7] \<and>
      list_insert 0 7 list_new = Some b \<and> stores b [7] \<and>
      extend_from_slice [1, 2, 3] list_new = Some c \<and> stores c [1, 2, 3]"
  using list_adds [OF stores_new, of "[1, 2, 3]" 0 7] list_max_room by simp

text \<open>
  C22. Taking from a storage takes from the list of its values and hands back what it took:
  the last one, the one at an index, or a range; what is left keeps its order. An index or a
  range outside the list panics, and an empty list pops nothing.
\<close>

theorem list_takes:
  assumes "stores s vs" "length vs < 2 ^ 32"
  shows "(\<exists>a. list_pop s = Some (if vs = [] then None else Some (last vs), a) \<and> stores a (butlast vs)) \<and>
    (if i < length vs
     then \<exists>b. list_remove i s = Some (vs ! i, b) \<and> stores b (take i vs @ drop (i + 1) vs)
     else list_remove i s = None) \<and>
    (if m \<le> n \<and> n \<le> length vs
     then \<exists>c. list_drain (Included m) (Excluded n) s = Some (take (n - m) (drop m vs), c) \<and>
          stores c (take m vs @ drop n vs)
     else list_drain (Included m) (Excluded n) s = None) \<and>
    stores (list_truncate n s) (take n vs) \<and> stores (list_clear s) []"
proof (intro conjI)
  show "\<exists>a. list_pop s = Some (if vs = [] then None else Some (last vs), a) \<and> stores a (butlast vs)"
    using list_pop_stores [OF assms(1)] by metis
  show "if i < length vs
     then \<exists>b. list_remove i s = Some (vs ! i, b) \<and> stores b (take i vs @ drop (i + 1) vs)
     else list_remove i s = None"
  proof (cases "i < length vs")
    case True
    then show ?thesis using list_remove_stores [OF assms(1) True] by (metis (full_types))
  next
    case False
    then show ?thesis using stores_len [OF assms(1)] by (simp add: list_remove_def)
  qed
  show "if m \<le> n \<and> n \<le> length vs
     then \<exists>c. list_drain (Included m) (Excluded n) s = Some (take (n - m) (drop m vs), c) \<and>
          stores c (take m vs @ drop n vs)
     else list_drain (Included m) (Excluded n) s = None"
  proof (cases "m \<le> n \<and> n \<le> length vs")
    case True
    then obtain c where "list_drain (Included m) (Excluded n) s = Some (take (n - m) (drop m vs), c)"
      "stores c (take m vs @ drop n vs)"
      using list_drain_stores [OF assms(1) _ _ assms(2), of "Included m" "Excluded n"]
      unfolding range_start_def range_end_def bound.case by blast
    then show ?thesis using True by simp
  next
    case False
    then show ?thesis
      using stores_len [OF assms(1)] by (auto simp: list_drain_def range_start_def range_end_def)
  qed
  show "stores (list_truncate n s) (take n vs)" by (rule list_truncate_stores [OF assms])
  show "stores (list_clear s) []" by (rule list_clear_stores [OF assms(1)])
qed

theorem list_takes_witness:
  "(\<exists>a. list_pop list_new = Some (None, a) \<and> stores a []) \<and>
   list_remove 0 list_new = None \<and>
   (\<exists>c. list_drain (Included 0) (Excluded 0) list_new = Some ([], c) \<and> stores c []) \<and>
   stores (list_truncate 0 list_new) [] \<and> stores (list_clear list_new) []"
  using list_takes [OF stores_new, of 0 0 0] by simp

text \<open>
  C37. A storage built from a repeated value, a repeated slice or a slice holds exactly those
  values, in order, and a clone holds the values of the original.
\<close>

theorem list_builds:
  assumes "length vs * n < LIST_MAX" "length vs < LIST_MAX" "n < LIST_MAX" "stores s vs"
  shows "\<exists>a b c d. from_elem v n = Some a \<and> stores a (replicate n v) \<and>
      repeat_slice vs n = Some b \<and> stores b (concat (replicate n vs)) \<and>
      list_from_slice vs = Some c \<and> stores c vs \<and> list_clone s = Some d \<and> stores d vs"
proof -
  have max: "LIST_MAX < 2 ^ 32" by (simp add: LIST_MAX_def)
  have "n < 2 ^ 32" "length vs * n < 2 ^ 32"
    using less_trans [OF assms(3) max] less_trans [OF assms(1) max] by blast+
  note room = this less_imp_le [OF assms(2)]
  obtain a where "from_elem v n = Some a" "stores a (replicate n v)"
    using from_elem_stores [OF room(1)] .
  moreover obtain b where "repeat_slice vs n = Some b" "stores b (concat (replicate n vs))"
    using repeat_slice_stores [OF room(2)] .
  moreover obtain c where "list_from_slice vs = Some c" "stores c vs"
    using list_from_slice_stores [OF room(3)] .
  moreover obtain d where "list_clone s = Some d" "stores d vs"
    using list_clone_stores [OF assms(4) room(3)] .
  ultimately show ?thesis by blast
qed

theorem list_builds_witness:
  "\<exists>a b c d. from_elem 5 3 = Some a \<and> stores a [5, 5, 5] \<and>
      repeat_slice [] 3 = Some b \<and> stores b [] \<and>
      list_from_slice [] = Some c \<and> stores c [] \<and> list_clone list_new = Some d \<and> stores d []"
  using list_builds [of "[]" 3 list_new 5] stores_new list_max_room
  by (simp add: numeral_eq_Suc)



text \<open>
  C39. Appending the values of a slice at once and pushing them one by one, as \<open>extend\<close> does
  after its reservation, leave storages with the same values, and popping what was pushed
  gives back the values there were.
\<close>

theorem list_push_extend_agree:
  assumes "stores s vs" "length vs + length ws < LIST_MAX"
  shows "\<exists>a b c. push_each ws s = Some a \<and> extend_from_slice ws s = Some b \<and>
      stores a (vs @ ws) \<and> stores b (vs @ ws) \<and>
      list_push v s = Some c \<and> (\<exists>d. list_pop c = Some (Some v, d) \<and> stores d vs)"
  using ls.push_list_extend [OF assms(1), of ws] ls.pop_push [OF assms(1), of v] assms(2)
  by (auto simp: push_each_list)

theorem list_push_extend_agree_witness:
  "\<exists>a b c. push_each [1, 2, 3] list_new = Some a \<and> extend_from_slice [1, 2, 3] list_new = Some b \<and>
      stores a [1, 2, 3] \<and> stores b [1, 2, 3] \<and>
      list_push 4 list_new = Some c \<and> (\<exists>d. list_pop c = Some (Some 4, d) \<and> stores d [])"
  using list_push_extend_agree [OF stores_new, of "[1, 2, 3]" 4] list_max_room by simp

text \<open>
  C40. The bound is real. A heap buffer full with \<open>2^31\<close> values doubles to \<open>2^32\<close> cells, and
  the 32 bit field records a capacity of zero: the storage is no longer in shape, and the
  next reservation asks the allocator to move a buffer under a layout it does not have.
\<close>

theorem list_capacity_wraps:
  assumes "stores s vs" "length vs = LIST_MAX" "ptr s = Some b" "length b = LIST_MAX"
  shows "\<exists>s'. list_push v s = Some s' \<and> cap s' = 0 \<and> \<not> shape s' \<and> reserve 1 s' = None"
proof -
  have cap: "cap s = LIST_MAX" "data s = b" "len s = LIST_MAX"
    using assms by (simp_all add: stores_def shape_def data_def)
  let ?n = "LIST_MAX * 2"
  have n: "?n = 2 ^ 32" using list_max_32 by simp
  have pos: "0 < LIST_MAX" using list_max_room by simp
  let ?c = "b @ replicate LIST_MAX None"
  have "layout_for ?n = Some ()" unfolding n by (simp add: layout_for_def)
  then have grow: "grow_to ?n s = Some (s\<lparr>ptr := Some ?c, cap := as_u32 ?n\<rparr>)"
    using assms(3,4) cap by (simp add: grow_to_def)
  have zero: "as_u32 ?n = 0" unfolding n by (simp add: as_u32_def)
  have "?n < 2 ^ 64" unfolding n by simp
  then have g: "grow_for_push s = Some (s\<lparr>ptr := Some ?c, cap := 0\<rparr>)"
    using grow assms(3) cap zero by (simp add: grow_for_push_def)
  have eff: "effective_cap s = LIST_MAX" using assms(3) cap by (simp add: effective_cap_def)
  let ?s = "s\<lparr>ptr := Some (?c[LIST_MAX := Some v]), cap := 0, len := as_u32 (LIST_MAX + 1)\<rparr>"
  have push: "list_push v s = Some ?s"
    using g cap eff assms(4) pos by (simp add: list_push_def write_cell_def data_def with_data_def)
  have "\<not> shape ?s" by (simp add: shape_def)
  moreover have "reserve 1 ?s = None"
    using assms(4) pos list_max_room by (simp add: reserve_def grow_to_def effective_cap_def)
  ultimately show ?thesis using push by (intro exI [of _ ?s]) simp
qed

definition full_storage :: list_storage where
  "full_storage = \<lparr>ptr = Some (replicate LIST_MAX (Some value_nil)), len = LIST_MAX, cap = LIST_MAX,
     inline_buf = replicate INLINE_CAP (Some value_nil)\<rparr>"

lemma full_storage_stores: "stores full_storage (replicate LIST_MAX value_nil)"
proof -
  have "INLINE_CAP < LIST_MAX" "LIST_MAX < 2 ^ 32" by (simp_all add: INLINE_CAP_def LIST_MAX_def)
  then show ?thesis by (simp add: stores_def shape_def data_def full_storage_def)
qed

theorem list_capacity_wraps_witness:
  "\<exists>s'. list_push value_nil full_storage = Some s' \<and> cap s' = 0 \<and> \<not> shape s' \<and> reserve 1 s' = None"
  by (rule list_capacity_wraps [where b = "replicate LIST_MAX (Some value_nil)", OF full_storage_stores])
    (simp_all add: full_storage_def)

end
