(* ===== verification/Chunk.thy ===== *)
theory Chunk
  imports Prelude
begin

text \<open>
  The bytecode of \<open>src/vm/chunk.rs\<close>: the instructions, the chunk a function compiles to with its
  side tables, and the questions asked of an instruction.
  A register and every other \<open>u8\<close> is a natural number below 256, a constant index (\<open>u16\<close>) one
  below 65536 and a jump offset (\<open>i16\<close>) an integer. What the inline caches of a chunk hold is
  no part of the program and is left out.
\<close>

section \<open>Instructions\<close>

text \<open>
  The source keeps one flat enumeration. Its instructions on two registers, on one, and on a
  register and a number of the constant pool differ in the operation alone, so each of these
  groups is one constructor here with the operation as an operand.
\<close>

datatype (plugins only: code) binary_op =
    OAdd | OSub | OMul | ODiv | OPow | OFloor | OMod | OConcat
  | OBitAnd | OBitOr | OBitXor | OBitShl | OBitShr | OBitUshr
  | OEq | ONeq | OLt | OLe | OGt | OGe

datatype (plugins only: code) unary_op = ONeg | ONot | OBitNot

datatype (plugins only: code) imm_op =
    OAddImm | OSubImm | OMulImm | OLtImm | OLeImm | OGtImm | OGeImm | OEqImm | ONeqImm

datatype (plugins only: code) instr =
    ILoadConst nat nat | ILoadNil nat | ILoadBool nat bool | IMove nat nat
  | IBinary binary_op nat nat nat | IUnary unary_op nat nat | IImm imm_op nat nat nat
  | IJmp int | IJmpIfFalse nat int | IJmpIfTrue nat int
  | ICall nat nat nat | IReturn nat | IPrint nat
  | IGetGlobal nat nat | ISetGlobal nat nat | IAssignGlobal nat nat
  | IClosure nat nat | IGetUpval nat nat | ISetUpval nat nat | ICloseUpvalues nat
  | IMakeList nat nat nat | IMakeDict nat nat nat
  | IMakeClass nat nat "nat option" | IDeclareField nat nat | ISetFieldDefault nat nat nat
  | ISetFieldInit nat nat | ISetMethod nat nat nat | IDeclareStatic nat nat nat | IFinalizeClass nat
  | IGetField nat nat nat | ISetField nat nat nat
  | IInvoke nat nat nat nat | IInvokeSuper nat nat nat nat | ICallSuperCtor nat nat nat
  | IImport nat nat nat | IImportAll nat bool | IMakePromoted nat nat nat
  | IGetIndex nat nat nat | ISetIndex nat nat nat | IGetSlice nat nat nat nat | IMakeRange nat nat nat
  | IUsingJump nat nat
  | IRaise nat | IPushCatch "nat option" int | IPopCatch
  | ICheckParamType nat nat


section \<open>What an instruction names\<close>

text \<open>\<open>kind::recorded\<close> and \<open>Operand::of\<close>: the registers whose kinds are recorded, by operand.\<close>

datatype operand = OperandA | OperandB | OperandSrc | OperandObj | OperandFunc

primrec recorded :: "instr \<Rightarrow> operand list" where
  "recorded (ILoadConst dst c) = []"
| "recorded (ILoadNil dst) = []"
| "recorded (ILoadBool dst b) = []"
| "recorded (IMove dst src) = []"
| "recorded (IBinary op dst a b) = (if op \<in> {OConcat, OEq, ONeq} then [] else [OperandA, OperandB])"
| "recorded (IUnary op dst src) = (if op = ONot then [] else [OperandSrc])"
| "recorded (IImm op dst a c) = (if op \<in> {OEqImm, ONeqImm} then [] else [OperandA])"
| "recorded (IJmp off) = []"
| "recorded (IJmpIfFalse cond off) = []"
| "recorded (IJmpIfTrue cond off) = []"
| "recorded (ICall dst func num_args) = [OperandFunc]"
| "recorded (IReturn src) = []"
| "recorded (IPrint src) = []"
| "recorded (IGetGlobal dst name) = []"
| "recorded (ISetGlobal name src) = []"
| "recorded (IAssignGlobal name src) = []"
| "recorded (IClosure dst proto) = []"
| "recorded (IGetUpval dst ix) = []"
| "recorded (ISetUpval ix src) = []"
| "recorded (ICloseUpvalues from_reg) = []"
| "recorded (IMakeList dst start count) = []"
| "recorded (IMakeDict dst start count) = []"
| "recorded (IMakeClass dst name superclass) = []"
| "recorded (IDeclareField class name) = []"
| "recorded (ISetFieldDefault class name v) = []"
| "recorded (ISetFieldInit class src) = []"
| "recorded (ISetMethod class name src) = []"
| "recorded (IDeclareStatic class name src) = []"
| "recorded (IFinalizeClass class) = []"
| "recorded (IGetField dst obj name) = [OperandObj]"
| "recorded (ISetField obj name src) = [OperandObj]"
| "recorded (IInvoke dst obj method num_args) = [OperandObj]"
| "recorded (IInvokeSuper dst superclass method num_args) = []"
| "recorded (ICallSuperCtor dst superclass num_args) = []"
| "recorded (IImport dst path importer) = []"
| "recorded (IImportAll m exported) = []"
| "recorded (IMakePromoted dst m name) = []"
| "recorded (IGetIndex dst obj ix) = [OperandObj]"
| "recorded (ISetIndex obj ix src) = [OperandObj]"
| "recorded (IGetSlice dst obj lo hi) = []"
| "recorded (IMakeRange dst lower upper) = []"
| "recorded (IUsingJump subject table) = []"
| "recorded (IRaise src) = []"
| "recorded (IPushCatch var off) = []"
| "recorded IPopCatch = []"
| "recorded (ICheckParamType r check) = []"

definition operand_of :: "operand \<Rightarrow> instr \<Rightarrow> nat panics" where
  "operand_of p i =
     (case p of
        OperandA \<Rightarrow>
          (case i of
             IBinary op dst a b \<Rightarrow> if op \<in> {OConcat, OEq, ONeq} then None else Some a
           | IImm op dst a c \<Rightarrow> if op \<in> {OEqImm, ONeqImm} then None else Some a
           | _ \<Rightarrow> None)
      | OperandB \<Rightarrow>
          (case i of
             IBinary op dst a b \<Rightarrow> if op \<in> {OConcat, OEq, ONeq} then None else Some b
           | _ \<Rightarrow> None)
      | OperandSrc \<Rightarrow> (case i of IUnary op dst src \<Rightarrow> if op = ONot then None else Some src | _ \<Rightarrow> None)
      | OperandObj \<Rightarrow>
          (case i of
             IGetIndex dst obj ix \<Rightarrow> Some obj
           | ISetIndex obj ix src \<Rightarrow> Some obj
           | IGetField dst obj name \<Rightarrow> Some obj
           | ISetField obj name src \<Rightarrow> Some obj
           | IInvoke dst obj method num_args \<Rightarrow> Some obj
           | _ \<Rightarrow> None)
      | OperandFunc \<Rightarrow> (case i of ICall dst func num_args \<Rightarrow> Some func | _ \<Rightarrow> None))"

text \<open>
  Every register an instruction reads or writes is below \<open>n\<close>: the arguments of a call follow
  the callee, a method call takes one more for the receiver, a dict two runs of registers.
\<close>

primrec regs_below :: "nat \<Rightarrow> instr \<Rightarrow> bool" where
  "regs_below n (ILoadConst dst c) = (dst < n)"
| "regs_below n (ILoadNil dst) = (dst < n)"
| "regs_below n (ILoadBool dst b) = (dst < n)"
| "regs_below n (IMove dst src) = (dst < n \<and> src < n)"
| "regs_below n (IBinary op dst a b) = (dst < n \<and> a < n \<and> b < n)"
| "regs_below n (IUnary op dst src) = (dst < n \<and> src < n)"
| "regs_below n (IImm op dst a c) = (dst < n \<and> a < n)"
| "regs_below n (IJmp off) = True"
| "regs_below n (IJmpIfFalse cond off) = (cond < n)"
| "regs_below n (IJmpIfTrue cond off) = (cond < n)"
| "regs_below n (ICall dst func num_args) = (dst < n \<and> func + num_args < n)"
| "regs_below n (IReturn src) = (src < n)"
| "regs_below n (IPrint src) = (src < n)"
| "regs_below n (IGetGlobal dst name) = (dst < n)"
| "regs_below n (ISetGlobal name src) = (src < n)"
| "regs_below n (IAssignGlobal name src) = (src < n)"
| "regs_below n (IClosure dst proto) = (dst < n)"
| "regs_below n (IGetUpval dst ix) = (dst < n)"
| "regs_below n (ISetUpval ix src) = (src < n)"
| "regs_below n (ICloseUpvalues from_reg) = (from_reg \<le> n)"
| "regs_below n (IMakeList dst start count) = (dst < n \<and> start + count \<le> n)"
| "regs_below n (IMakeDict dst start count) = (dst < n \<and> start + 2 * count \<le> n)"
| "regs_below n (IMakeClass dst name superclass) = (dst < n \<and> pred_option (\<lambda>r. r < n) superclass)"
| "regs_below n (IDeclareField class name) = (class < n)"
| "regs_below n (ISetFieldDefault class name v) = (class < n)"
| "regs_below n (ISetFieldInit class src) = (class < n \<and> src < n)"
| "regs_below n (ISetMethod class name src) = (class < n \<and> src < n)"
| "regs_below n (IDeclareStatic class name src) = (class < n \<and> src < n)"
| "regs_below n (IFinalizeClass class) = (class < n)"
| "regs_below n (IGetField dst obj name) = (dst < n \<and> obj < n)"
| "regs_below n (ISetField obj name src) = (obj < n \<and> src < n)"
| "regs_below n (IInvoke dst obj method num_args) = (dst < n \<and> obj + 1 + num_args < n)"
| "regs_below n (IInvokeSuper dst superclass method num_args) = (dst < n \<and> superclass + 1 + num_args < n)"
| "regs_below n (ICallSuperCtor dst superclass num_args) = (dst < n \<and> superclass + 1 + num_args < n)"
| "regs_below n (IImport dst path importer) = (dst < n)"
| "regs_below n (IImportAll m exported) = (m < n)"
| "regs_below n (IMakePromoted dst m name) = (dst < n \<and> m < n)"
| "regs_below n (IGetIndex dst obj ix) = (dst < n \<and> obj < n \<and> ix < n)"
| "regs_below n (ISetIndex obj ix src) = (obj < n \<and> ix < n \<and> src < n)"
| "regs_below n (IGetSlice dst obj lo hi) = (dst < n \<and> obj < n \<and> lo < n \<and> hi < n)"
| "regs_below n (IMakeRange dst lower upper) = (dst < n \<and> lower < n \<and> upper < n)"
| "regs_below n (IUsingJump subject table) = (subject < n)"
| "regs_below n (IRaise src) = (src < n)"
| "regs_below n (IPushCatch var off) = pred_option (\<lambda>r. r < n) var"
| "regs_below n IPopCatch = True"
| "regs_below n (ICheckParamType r check) = (r < n)"

lemma within_mono: "regs_below m i \<Longrightarrow> m \<le> n \<Longrightarrow> regs_below n i"
  by (cases i) (auto split: option.splits simp: pred_option_def)

text \<open>The offset of a jump, from the instruction after it, and the same jump to another place.\<close>

primrec jump_offset :: "instr \<Rightarrow> int option" where
  "jump_offset (ILoadConst dst c) = None"
| "jump_offset (ILoadNil dst) = None"
| "jump_offset (ILoadBool dst b) = None"
| "jump_offset (IMove dst src) = None"
| "jump_offset (IBinary op dst a b) = None"
| "jump_offset (IUnary op dst src) = None"
| "jump_offset (IImm op dst a c) = None"
| "jump_offset (IJmp off) = Some off"
| "jump_offset (IJmpIfFalse cond off) = Some off"
| "jump_offset (IJmpIfTrue cond off) = Some off"
| "jump_offset (ICall dst func num_args) = None"
| "jump_offset (IReturn src) = None"
| "jump_offset (IPrint src) = None"
| "jump_offset (IGetGlobal dst name) = None"
| "jump_offset (ISetGlobal name src) = None"
| "jump_offset (IAssignGlobal name src) = None"
| "jump_offset (IClosure dst proto) = None"
| "jump_offset (IGetUpval dst ix) = None"
| "jump_offset (ISetUpval ix src) = None"
| "jump_offset (ICloseUpvalues from_reg) = None"
| "jump_offset (IMakeList dst start count) = None"
| "jump_offset (IMakeDict dst start count) = None"
| "jump_offset (IMakeClass dst name superclass) = None"
| "jump_offset (IDeclareField class name) = None"
| "jump_offset (ISetFieldDefault class name v) = None"
| "jump_offset (ISetFieldInit class src) = None"
| "jump_offset (ISetMethod class name src) = None"
| "jump_offset (IDeclareStatic class name src) = None"
| "jump_offset (IFinalizeClass class) = None"
| "jump_offset (IGetField dst obj name) = None"
| "jump_offset (ISetField obj name src) = None"
| "jump_offset (IInvoke dst obj method num_args) = None"
| "jump_offset (IInvokeSuper dst superclass method num_args) = None"
| "jump_offset (ICallSuperCtor dst superclass num_args) = None"
| "jump_offset (IImport dst path importer) = None"
| "jump_offset (IImportAll m exported) = None"
| "jump_offset (IMakePromoted dst m name) = None"
| "jump_offset (IGetIndex dst obj ix) = None"
| "jump_offset (ISetIndex obj ix src) = None"
| "jump_offset (IGetSlice dst obj lo hi) = None"
| "jump_offset (IMakeRange dst lower upper) = None"
| "jump_offset (IUsingJump subject table) = None"
| "jump_offset (IRaise src) = None"
| "jump_offset (IPushCatch var off) = Some off"
| "jump_offset IPopCatch = None"
| "jump_offset (ICheckParamType r check) = None"

primrec with_offset :: "int \<Rightarrow> instr \<Rightarrow> instr" where
  "with_offset new (ILoadConst dst c) = ILoadConst dst c"
| "with_offset new (ILoadNil dst) = ILoadNil dst"
| "with_offset new (ILoadBool dst b) = ILoadBool dst b"
| "with_offset new (IMove dst src) = IMove dst src"
| "with_offset new (IBinary op dst a b) = IBinary op dst a b"
| "with_offset new (IUnary op dst src) = IUnary op dst src"
| "with_offset new (IImm op dst a c) = IImm op dst a c"
| "with_offset new (IJmp off) = IJmp new"
| "with_offset new (IJmpIfFalse cond off) = IJmpIfFalse cond new"
| "with_offset new (IJmpIfTrue cond off) = IJmpIfTrue cond new"
| "with_offset new (ICall dst func num_args) = ICall dst func num_args"
| "with_offset new (IReturn src) = IReturn src"
| "with_offset new (IPrint src) = IPrint src"
| "with_offset new (IGetGlobal dst name) = IGetGlobal dst name"
| "with_offset new (ISetGlobal name src) = ISetGlobal name src"
| "with_offset new (IAssignGlobal name src) = IAssignGlobal name src"
| "with_offset new (IClosure dst proto) = IClosure dst proto"
| "with_offset new (IGetUpval dst ix) = IGetUpval dst ix"
| "with_offset new (ISetUpval ix src) = ISetUpval ix src"
| "with_offset new (ICloseUpvalues from_reg) = ICloseUpvalues from_reg"
| "with_offset new (IMakeList dst start count) = IMakeList dst start count"
| "with_offset new (IMakeDict dst start count) = IMakeDict dst start count"
| "with_offset new (IMakeClass dst name superclass) = IMakeClass dst name superclass"
| "with_offset new (IDeclareField class name) = IDeclareField class name"
| "with_offset new (ISetFieldDefault class name v) = ISetFieldDefault class name v"
| "with_offset new (ISetFieldInit class src) = ISetFieldInit class src"
| "with_offset new (ISetMethod class name src) = ISetMethod class name src"
| "with_offset new (IDeclareStatic class name src) = IDeclareStatic class name src"
| "with_offset new (IFinalizeClass class) = IFinalizeClass class"
| "with_offset new (IGetField dst obj name) = IGetField dst obj name"
| "with_offset new (ISetField obj name src) = ISetField obj name src"
| "with_offset new (IInvoke dst obj method num_args) = IInvoke dst obj method num_args"
| "with_offset new (IInvokeSuper dst superclass method num_args) = IInvokeSuper dst superclass method num_args"
| "with_offset new (ICallSuperCtor dst superclass num_args) = ICallSuperCtor dst superclass num_args"
| "with_offset new (IImport dst path importer) = IImport dst path importer"
| "with_offset new (IImportAll m exported) = IImportAll m exported"
| "with_offset new (IMakePromoted dst m name) = IMakePromoted dst m name"
| "with_offset new (IGetIndex dst obj ix) = IGetIndex dst obj ix"
| "with_offset new (ISetIndex obj ix src) = ISetIndex obj ix src"
| "with_offset new (IGetSlice dst obj lo hi) = IGetSlice dst obj lo hi"
| "with_offset new (IMakeRange dst lower upper) = IMakeRange dst lower upper"
| "with_offset new (IUsingJump subject table) = IUsingJump subject table"
| "with_offset new (IRaise src) = IRaise src"
| "with_offset new (IPushCatch var off) = IPushCatch var new"
| "with_offset new IPopCatch = IPopCatch"
| "with_offset new (ICheckParamType r check) = ICheckParamType r check"

lemma with_offset_within [simp]: "regs_below n (with_offset off i) = regs_below n i"
  by (cases i) simp_all

lemma jump_offset_with [simp]:
  "jump_offset (with_offset off i) = map_option (\<lambda>_. off) (jump_offset i)"
  by (cases i) simp_all

lemma with_offset_with [simp]: "with_offset a (with_offset b i) = with_offset a i"
  by (cases i) simp_all

text \<open>
  The constants and the upvalues an instruction refers to by index; of a constant, what the
  virtual machine takes it to be: a name, a number, a function prototype, or any value.
\<close>

datatype const_use = UName | UNumber | UProto | UAny

primrec const_uses :: "instr \<Rightarrow> (nat \<times> const_use) list" where
  "const_uses (ILoadConst dst c) = [(c, UAny)]"
| "const_uses (ILoadNil dst) = []"
| "const_uses (ILoadBool dst b) = []"
| "const_uses (IMove dst src) = []"
| "const_uses (IBinary op dst a b) = []"
| "const_uses (IUnary op dst src) = []"
| "const_uses (IImm op dst a c) = [(c, UNumber)]"
| "const_uses (IJmp off) = []"
| "const_uses (IJmpIfFalse cond off) = []"
| "const_uses (IJmpIfTrue cond off) = []"
| "const_uses (ICall dst func num_args) = []"
| "const_uses (IReturn src) = []"
| "const_uses (IPrint src) = []"
| "const_uses (IGetGlobal dst name) = [(name, UName)]"
| "const_uses (ISetGlobal name src) = [(name, UName)]"
| "const_uses (IAssignGlobal name src) = [(name, UName)]"
| "const_uses (IClosure dst proto) = [(proto, UProto)]"
| "const_uses (IGetUpval dst ix) = []"
| "const_uses (ISetUpval ix src) = []"
| "const_uses (ICloseUpvalues from_reg) = []"
| "const_uses (IMakeList dst start count) = []"
| "const_uses (IMakeDict dst start count) = []"
| "const_uses (IMakeClass dst name superclass) = [(name, UName)]"
| "const_uses (IDeclareField class name) = [(name, UName)]"
| "const_uses (ISetFieldDefault class name v) = [(name, UName), (v, UAny)]"
| "const_uses (ISetFieldInit class src) = []"
| "const_uses (ISetMethod class name src) = [(name, UName)]"
| "const_uses (IDeclareStatic class name src) = [(name, UName)]"
| "const_uses (IFinalizeClass class) = []"
| "const_uses (IGetField dst obj name) = [(name, UName)]"
| "const_uses (ISetField obj name src) = [(name, UName)]"
| "const_uses (IInvoke dst obj method num_args) = [(method, UName)]"
| "const_uses (IInvokeSuper dst superclass method num_args) = [(method, UName)]"
| "const_uses (ICallSuperCtor dst superclass num_args) = []"
| "const_uses (IImport dst path importer) = [(path, UName), (importer, UName)]"
| "const_uses (IImportAll m exported) = []"
| "const_uses (IMakePromoted dst m name) = [(name, UName)]"
| "const_uses (IGetIndex dst obj ix) = []"
| "const_uses (ISetIndex obj ix src) = []"
| "const_uses (IGetSlice dst obj lo hi) = []"
| "const_uses (IMakeRange dst lower upper) = []"
| "const_uses (IUsingJump subject table) = []"
| "const_uses (IRaise src) = []"
| "const_uses (IPushCatch var off) = []"
| "const_uses IPopCatch = []"
| "const_uses (ICheckParamType r check) = []"

primrec upvalue_ref :: "instr \<Rightarrow> nat option" where
  "upvalue_ref (ILoadConst dst c) = None"
| "upvalue_ref (ILoadNil dst) = None"
| "upvalue_ref (ILoadBool dst b) = None"
| "upvalue_ref (IMove dst src) = None"
| "upvalue_ref (IBinary op dst a b) = None"
| "upvalue_ref (IUnary op dst src) = None"
| "upvalue_ref (IImm op dst a c) = None"
| "upvalue_ref (IJmp off) = None"
| "upvalue_ref (IJmpIfFalse cond off) = None"
| "upvalue_ref (IJmpIfTrue cond off) = None"
| "upvalue_ref (ICall dst func num_args) = None"
| "upvalue_ref (IReturn src) = None"
| "upvalue_ref (IPrint src) = None"
| "upvalue_ref (IGetGlobal dst name) = None"
| "upvalue_ref (ISetGlobal name src) = None"
| "upvalue_ref (IAssignGlobal name src) = None"
| "upvalue_ref (IClosure dst proto) = None"
| "upvalue_ref (IGetUpval dst ix) = Some ix"
| "upvalue_ref (ISetUpval ix src) = Some ix"
| "upvalue_ref (ICloseUpvalues from_reg) = None"
| "upvalue_ref (IMakeList dst start count) = None"
| "upvalue_ref (IMakeDict dst start count) = None"
| "upvalue_ref (IMakeClass dst name superclass) = None"
| "upvalue_ref (IDeclareField class name) = None"
| "upvalue_ref (ISetFieldDefault class name v) = None"
| "upvalue_ref (ISetFieldInit class src) = None"
| "upvalue_ref (ISetMethod class name src) = None"
| "upvalue_ref (IDeclareStatic class name src) = None"
| "upvalue_ref (IFinalizeClass class) = None"
| "upvalue_ref (IGetField dst obj name) = None"
| "upvalue_ref (ISetField obj name src) = None"
| "upvalue_ref (IInvoke dst obj method num_args) = None"
| "upvalue_ref (IInvokeSuper dst superclass method num_args) = None"
| "upvalue_ref (ICallSuperCtor dst superclass num_args) = None"
| "upvalue_ref (IImport dst path importer) = None"
| "upvalue_ref (IImportAll m exported) = None"
| "upvalue_ref (IMakePromoted dst m name) = None"
| "upvalue_ref (IGetIndex dst obj ix) = None"
| "upvalue_ref (ISetIndex obj ix src) = None"
| "upvalue_ref (IGetSlice dst obj lo hi) = None"
| "upvalue_ref (IMakeRange dst lower upper) = None"
| "upvalue_ref (IUsingJump subject table) = None"
| "upvalue_ref (IRaise src) = None"
| "upvalue_ref (IPushCatch var off) = None"
| "upvalue_ref IPopCatch = None"
| "upvalue_ref (ICheckParamType r check) = None"

lemma with_offset_refs [simp]:
  "const_uses (with_offset off i) = const_uses i"
  "upvalue_ref (with_offset off i) = upvalue_ref i"
  by (cases i; simp)+

section \<open>The chunk\<close>

text \<open>A case label of a \<open>using\<close> statement that is known when it is compiled.\<close>

datatype jump_key = JNil | JBool bool | JNumber "64 word" | JStr ustring | JEqInstance

datatype param_type =
    PtBool | PtInt | PtNumber | PtBigInt | PtString | PtBytes | PtList | PtDict | PtRange | PtFile
  | PtFunction | PtClass | PtCallable | PtIterable | PtInstance nat | PtCaptured nat nat

record param_type_check =
  param_name :: ustring
  position_of :: nat
  nullable :: bool
  param_types :: "param_type list"

text \<open>The type of the constants is left open: it is the value of the virtual machine.\<close>

record 'k chunk =
  code :: "instr list"
  constants :: "'k list"
  jump_tables :: "(jump_key \<rightharpoonup> nat) list"
  code_lines :: "nat list"
  param_checks :: "param_type_check list"

definition chunk_new :: "'k chunk" where
  "chunk_new = \<lparr>code = [], constants = [], jump_tables = [], code_lines = [], param_checks = []\<rparr>"

definition chunk_add_constant :: "'k \<Rightarrow> 'k chunk \<Rightarrow> nat \<times> 'k chunk" where
  "chunk_add_constant v c =
     (as_u16 (length (constants c)), c\<lparr>constants := constants c @ [v]\<rparr>)"

definition chunk_add_param_check :: "param_type_check \<Rightarrow> 'k chunk \<Rightarrow> nat \<times> 'k chunk" where
  "chunk_add_param_check check c =
     (as_u16 (length (param_checks c)), c\<lparr>param_checks := param_checks c @ [check]\<rparr>)"

definition chunk_add_jump_table :: "'k chunk \<Rightarrow> nat \<times> 'k chunk" where
  "chunk_add_jump_table c =
     (as_u16 (length (jump_tables c)), c\<lparr>jump_tables := jump_tables c @ [Map.empty]\<rparr>)"

definition chunk_emit :: "instr \<Rightarrow> 'k chunk \<Rightarrow> nat \<times> 'k chunk" where
  "chunk_emit i c = (length (code c), c\<lparr>code := code c @ [i]\<rparr>)"

text \<open>
  \<open>catch_resume\<close>: where an error raised at an instruction resumes. Every \<open>PushCatch\<close>, in
  order, claims the instructions after it up to the one before its resume point.
\<close>

definition push_catch_resume :: "nat \<Rightarrow> instr \<Rightarrow> nat option" where
  "push_catch_resume at i =
     (case i of IPushCatch var off \<Rightarrow> Some (nat ((int at + 1 + off) mod 2 ^ 64)) | _ \<Rightarrow> None)"

fun catch_regions :: "nat \<Rightarrow> instr list \<Rightarrow> (nat \<Rightarrow> nat) \<Rightarrow> nat \<Rightarrow> nat" where
  "catch_regions at [] out = out"
| "catch_regions at (i # is) out =
     catch_regions (at + 1) is
       (case push_catch_resume at i of
          None \<Rightarrow> out
        | Some resume \<Rightarrow> (\<lambda>ip. if at + 1 \<le> ip \<and> ip < resume - 1 then as_u32 resume else out ip))"

definition catch_resume :: "'k chunk \<Rightarrow> nat \<Rightarrow> nat option" where
  "catch_resume c ip =
     (if ip < length (code c) then
        (let r = catch_regions 0 (code c) (\<lambda>_. 2 ^ 32 - 1) ip
         in if r \<noteq> 2 ^ 32 - 1 then Some r else None)
      else None)"

section \<open>Parameter types in messages\<close>

text \<open>\<open>ParamType::label\<close> and \<open>describe_param_types\<close>; \<open>name_of\<close> reads a class name from the pool.\<close>

definition param_label :: "(nat \<Rightarrow> ustring) \<Rightarrow> param_type \<Rightarrow> ustring" where
  "param_label name_of t =
     (case t of
        PtBool \<Rightarrow> str ''a bool''
      | PtInt \<Rightarrow> str ''an int''
      | PtNumber \<Rightarrow> str ''a number''
      | PtBigInt \<Rightarrow> str ''a bigint''
      | PtString \<Rightarrow> str ''a string''
      | PtBytes \<Rightarrow> str ''bytes''
      | PtList \<Rightarrow> str ''a list''
      | PtDict \<Rightarrow> str ''a dict''
      | PtRange \<Rightarrow> str ''a range''
      | PtFile \<Rightarrow> str ''a file''
      | PtFunction \<Rightarrow> str ''a function''
      | PtClass \<Rightarrow> str ''a type''
      | PtCallable \<Rightarrow> str ''a callable''
      | PtIterable \<Rightarrow> str ''an iterable''
      | PtInstance n \<Rightarrow> str ''a '' @ name_of n
      | PtCaptured u n \<Rightarrow> str ''a '' @ name_of n)"

fun join_commas :: "ustring list \<Rightarrow> ustring" where
  "join_commas [] = []"
| "join_commas [x] = x"
| "join_commas (x # y # xs) = x @ str '', '' @ join_commas (y # xs)"

definition describe_param_types :: "(nat \<Rightarrow> ustring) \<Rightarrow> param_type list \<Rightarrow> ustring" where
  "describe_param_types name_of types =
     (case map (param_label name_of) types of
        [] \<Rightarrow> str ''a value''
      | [one] \<Rightarrow> one
      | [a, b] \<Rightarrow> a @ str '' or '' @ b
      | a # b # c # rest \<Rightarrow>
          join_commas (butlast (a # b # c # rest)) @ str '', or '' @ last (a # b # c # rest))"

end
