(* ===== verification/Codegen_State.thy ===== *)
theory Codegen_State
  imports Chunk Parser_State Lower
begin

text \<open>
  The state of the code generator of \<open>src/compiler/compiler.rs\<close> and the operations every rule is
  made of: emitting and patching instructions, the constant pool, registers, names and errors.
  The function being compiled is \<open>cur\<close> and the ones around it, innermost first, are \<open>outer\<close>,
  so that the source's \<open>scopes\<close> is \<open>rev outer @ [cur]\<close> and is never empty.
  An operation takes the state last and returns it updated, with its result first when it
  has one. One that can panic gives a \<open>run\<close>, whose left side says why.
\<close>

section \<open>Panics\<close>

text \<open>
  \<open>Overflow\<close> is arithmetic on \<open>u8\<close> past 255 in a build with overflow checks, \<open>Jump_Too_Far\<close> an
  offset that does not fit in \<open>i16\<close>. \<open>Invalid\<close> is every panic on a tree that the parser and
  the lowering should not produce, and \<open>Out_Of_Fuel\<close> the end of the recursion bound, which is no
  behaviour of the code.
\<close>

datatype stop = Overflow | Jump_Too_Far | Invalid | Out_Of_Fuel

type_synonym 'a run = "stop + 'a"

definition seq :: "'a run \<Rightarrow> ('a \<Rightarrow> 'b run) \<Rightarrow> 'b run" where
  "seq m k = (case m of Inl p \<Rightarrow> Inl p | Inr x \<Rightarrow> k x)"

definition or_invalid :: "'a option \<Rightarrow> 'a run" where
  "or_invalid x = (case x of Some y \<Rightarrow> Inr y | None \<Rightarrow> Inl Invalid)"

primrec each :: "('a \<Rightarrow> 's \<Rightarrow> 's run) \<Rightarrow> 'a list \<Rightarrow> 's \<Rightarrow> 's run" where
  "each f [] s = Inr s"
| "each f (x # xs) s = seq (f x s) (each f xs)"

primrec collect :: "('a \<Rightarrow> 's \<Rightarrow> ('b \<times> 's) run) \<Rightarrow> 'a list \<Rightarrow> 's \<Rightarrow> ('b list \<times> 's) run" where
  "collect f [] s = Inr ([], s)"
| "collect f (x # xs) s =
     seq (f x s) (\<lambda>(y, s). seq (collect f xs s) (\<lambda>(ys, s). Inr (y # ys, s)))"

section \<open>Values and the heap\<close>

text \<open>
  A constant is a value: a number, nil, a boolean, or an object of the heap by its index. The
  compiler only allocates, in the old generation, and shares equal strings.
\<close>

datatype const = KNil | KBool bool | KNumber f64 | KObj nat

datatype upvalue = UpLocal nat | UpUpvalue nat

record obj_function =
  fn_name :: ustring
  arity :: nat
  variadic :: bool
  num_registers :: nat
  fn_chunk :: "const chunk"
  fn_upvalues :: "upvalue list"
  fn_source_path :: ustring
  globals_module :: "const option"
  fn_is_method :: bool
  owning_class_name :: "ustring option"

datatype obj = OString ustring | OBigInt int | OFunction obj_function

record heap =
  objects :: "obj list"
  interned :: "ustring \<rightharpoonup> const"

definition alloc_old :: "obj \<Rightarrow> heap \<Rightarrow> const \<times> heap" where
  "alloc_old ob h = (KObj (length (objects h)), h\<lparr>objects := objects h @ [ob]\<rparr>)"

definition alloc_string_old :: "ustring \<Rightarrow> heap \<Rightarrow> const \<times> heap" where
  "alloc_string_old t h =
     (case interned h t of
        Some existing \<Rightarrow> (existing, h)
      | None \<Rightarrow>
          let (v, h) = alloc_old (OString t) h
          in (v, h\<lparr>interned := (interned h)(t \<mapsto> v)\<rparr>))"

section \<open>The state\<close>

record local_var =
  lname :: ustring
  lreg :: nat
  lconst :: bool
  depth :: nat
  captured :: bool

record loop_context =
  continue_target :: nat
  break_jumps :: "nat list"
  body_mark :: nat
  continue_locales :: "nat list"
  loop_catches :: nat

record function_scope =
  chunk :: "const chunk"
  next_reg :: nat
  max_reg :: nat
  locals :: "local_var list"
  scope_depth :: nat
  upvalues :: "upvalue list"
  loops :: "loop_context list"
  open_catches :: nat
  declared_functions :: "(ustring \<times> nat) list"
  current_line :: nat
  overflow_reported :: bool

definition function_scope_new :: function_scope where
  "function_scope_new =
     \<lparr>chunk = chunk_new, next_reg = 0, max_reg = 0, locals = [], scope_depth = 0, upvalues = [],
      loops = [], open_catches = 0, declared_functions = [], current_line = 0,
      overflow_reported = False\<rparr>"

text \<open>
  The last two fields do not change: whether the build checks arithmetic for overflow, and the
  derived \<open>Debug\<close> of an expression, which one error message prints.
\<close>

record compiler =
  cur :: function_scope
  outer :: "function_scope list"
  heap_of :: heap
  is_repl :: bool
  source_path :: ustring
  module :: "const option"
  c_errors :: "parser_error list"
  overflow_checks :: bool
  debug_kind :: "expr_kind \<Rightarrow> ustring"

definition on_cur :: "(function_scope \<Rightarrow> function_scope) \<Rightarrow> compiler \<Rightarrow> compiler" where
  "on_cur f s = s\<lparr>cur := f (cur s)\<rparr>"

definition at_module_top_level :: "compiler \<Rightarrow> bool" where
  "at_module_top_level s \<longleftrightarrow> outer s = [] \<and> scope_depth (cur s) = 0"

text \<open>\<open>a + b\<close> on \<open>u8\<close>: a panic in a build that checks, and otherwise the low eight bits.\<close>

definition u8_add :: "compiler \<Rightarrow> nat \<Rightarrow> nat \<Rightarrow> nat run" where
  "u8_add s a b =
     (if a + b < 256 then Inr (a + b)
      else if overflow_checks s then Inl Overflow
      else Inr ((a + b) mod 256))"

definition saturating_inc :: "nat \<Rightarrow> nat" where
  "saturating_inc r = min (r + 1) 255"

section \<open>Emitting\<close>

definition emit :: "instr \<Rightarrow> compiler \<Rightarrow> nat \<times> compiler" where
  "emit i s =
     (let ln = current_line (cur s);
          (ix, c) = chunk_emit i (chunk (cur s));
          c = c\<lparr>code_lines := code_lines c @ [ln]\<rparr>
      in (ix, on_cur (chunk_update (\<lambda>_. c)) s))"

abbreviation emits :: "instr \<Rightarrow> compiler \<Rightarrow> compiler" where
  "emits i s \<equiv> snd (emit i s)"

definition code_len :: "compiler \<Rightarrow> nat" where
  "code_len s = length (code (chunk (cur s)))"

definition add_constant :: "const \<Rightarrow> compiler \<Rightarrow> nat \<times> compiler" where
  "add_constant v s =
     (let (ix, c) = chunk_add_constant v (chunk (cur s)) in (ix, on_cur (chunk_update (\<lambda>_. c)) s))"

definition add_param_check :: "param_type_check \<Rightarrow> compiler \<Rightarrow> nat \<times> compiler" where
  "add_param_check check s =
     (let (ix, c) = chunk_add_param_check check (chunk (cur s))
      in (ix, on_cur (chunk_update (\<lambda>_. c)) s))"

definition add_jump_table :: "compiler \<Rightarrow> nat \<times> compiler" where
  "add_jump_table s =
     (let (ix, c) = chunk_add_jump_table (chunk (cur s)) in (ix, on_cur (chunk_update (\<lambda>_. c)) s))"

text \<open>A string, a big integer or a function is allocated and put into the constant pool.\<close>

definition string_constant :: "ustring \<Rightarrow> compiler \<Rightarrow> nat \<times> compiler" where
  "string_constant t s =
     (let (v, h) = alloc_string_old t (heap_of s) in add_constant v (s\<lparr>heap_of := h\<rparr>))"

definition object_constant :: "obj \<Rightarrow> compiler \<Rightarrow> nat \<times> compiler" where
  "object_constant ob s =
     (let (v, h) = alloc_old ob (heap_of s) in add_constant v (s\<lparr>heap_of := h\<rparr>))"

definition set_line :: "nat \<Rightarrow> compiler \<Rightarrow> compiler" where
  "set_line ln s = on_cur (current_line_update (\<lambda>_. as_u32 ln)) s"

section \<open>Errors\<close>

definition quoted :: "ustring \<Rightarrow> ustring" where
  "quoted t = [0x27] @ t @ [0x27]"

definition report_error_on :: "ustring \<Rightarrow> token \<Rightarrow> compiler \<Rightarrow> compiler" where
  "report_error_on msg t s = s\<lparr>c_errors := c_errors s @ [parser_error_new msg t]\<rparr>"

definition report_error_here :: "ustring \<Rightarrow> compiler \<Rightarrow> compiler" where
  "report_error_here msg s =
     s\<lparr>c_errors := c_errors s @
        [\<lparr>err_message = msg, line_number = current_line (cur s), offset = 1, err_span = None\<rparr>]\<rparr>"

section \<open>Registers\<close>

definition alloc_reg :: "compiler \<Rightarrow> nat \<times> compiler" where
  "alloc_reg s =
     (let r = next_reg (cur s)
      in if r = 255 then
           (r,
            if overflow_reported (cur s) then s
            else report_error_here
              (str ''expression too complex: this function needs more than '' @ show_nat 255 @
                str '' live registers at once'')
              (on_cur (overflow_reported_update (\<lambda>_. True)) s))
         else
           (r, on_cur (\<lambda>sc. sc\<lparr>next_reg := r + 1, max_reg := max (max_reg sc) (r + 1)\<rparr>) s))"

definition free_regs_to :: "nat \<Rightarrow> compiler \<Rightarrow> compiler" where
  "free_regs_to mark s =
     on_cur (\<lambda>sc. sc\<lparr>next_reg := mark,
       max_reg := (if mark > max_reg sc then mark else max_reg sc)\<rparr>) s"

definition error_reg :: "compiler \<Rightarrow> nat \<times> compiler" where
  "error_reg s = (let (dst, s) = alloc_reg s in (dst, emits (ILoadNil dst) s))"

text \<open>\<open>if src != dst\<close>, a \<open>Move\<close> between the two.\<close>

definition move_to :: "nat \<Rightarrow> nat \<Rightarrow> compiler \<Rightarrow> compiler" where
  "move_to dst src s = (if src \<noteq> dst then emits (IMove dst src) s else s)"

definition checked_arg_count :: "nat \<Rightarrow> token option \<Rightarrow> compiler \<Rightarrow> nat \<times> compiler" where
  "checked_arg_count num_args t s =
     (if num_args + 1 < 256 then (num_args + 1, s)
      else
        let msg = str ''too many arguments in a single call (max 255)''
        in (num_args, case t of Some t \<Rightarrow> report_error_on msg t s | None \<Rightarrow> report_error_here msg s))"

definition check_private_access :: "ustring \<Rightarrow> bool \<Rightarrow> token \<Rightarrow> compiler \<Rightarrow> compiler" where
  "check_private_access name privileged t s =
     (if (name \<noteq> [] \<and> hd name = cp CHR ''_'') \<and> \<not> privileged then
        report_error_on
          (quoted name @ str '' is private and can only be accessed via '' @ quoted (str ''self'') @
             str '' or '' @ quoted (str ''parent'')) t s
      else s)"

section \<open>Jumps\<close>

definition to_i16 :: "int \<Rightarrow> int run" where
  "to_i16 x = (if - (2 ^ 15) \<le> x \<and> x < 2 ^ 15 then Inr x else Inl Jump_Too_Far)"

definition emit_jump_if_false :: "nat \<Rightarrow> compiler \<Rightarrow> nat \<times> compiler" where
  "emit_jump_if_false cond s = emit (IJmpIfFalse cond 0) s"

definition emit_jump_if_true :: "nat \<Rightarrow> compiler \<Rightarrow> nat \<times> compiler" where
  "emit_jump_if_true cond s = emit (IJmpIfTrue cond 0) s"

definition emit_jump :: "compiler \<Rightarrow> nat \<times> compiler" where
  "emit_jump s = emit (IJmp 0) s"

definition patch_jump :: "nat \<Rightarrow> compiler \<Rightarrow> compiler run" where
  "patch_jump jump_at s =
     seq (to_i16 (int (code_len s) - (int jump_at + 1)))
       (\<lambda>off.
          if jump_at < code_len s \<and> jump_offset (code (chunk (cur s)) ! jump_at) \<noteq> None then
            Inr (on_cur (chunk_update
              (code_update (\<lambda>cs. cs[jump_at := with_offset off (cs ! jump_at)]))) s)
          else Inl Invalid)"

definition emit_loop :: "nat \<Rightarrow> compiler \<Rightarrow> (nat \<times> compiler) run" where
  "emit_loop loop_start s =
     seq (to_i16 (int loop_start - (int (code_len s) + 1))) (\<lambda>off. Inr (emit (IJmp off) s))"

text \<open>The handlers that a \<open>break\<close> or \<open>continue\<close> leaves are popped, one each.\<close>

definition leave_loop_catches :: "compiler \<Rightarrow> compiler" where
  "leave_loop_catches s =
     (let since = (if loops (cur s) = [] then 0 else loop_catches (last (loops (cur s))))
      in ((emits IPopCatch) ^^ (open_catches (cur s) - since)) s)"

text \<open>\<open>jump_tables[table_idx].insert(key, target)\<close>.\<close>

definition table_insert :: "nat \<Rightarrow> jump_key \<Rightarrow> nat \<Rightarrow> compiler \<Rightarrow> compiler run" where
  "table_insert table_idx key target s =
     (let ts = jump_tables (chunk (cur s))
      in if table_idx < length ts then
           Inr (on_cur (chunk_update
             (jump_tables_update (\<lambda>_. ts[table_idx := (ts ! table_idx)(key \<mapsto> target)]))) s)
         else Inl Invalid)"

section \<open>Names\<close>

definition name_of_kind :: "token_kind \<Rightarrow> ustring option" where
  "name_of_kind k =
     (case k of TkIdentifier n \<Rightarrow> Some n | TkDecorator n \<Rightarrow> Some n | TkLiteral n \<Rightarrow> Some n | _ \<Rightarrow> None)"

definition identifier_name :: "token \<Rightarrow> ustring run" where
  "identifier_name t = or_invalid (name_of_kind (kind t))"

definition push_local :: "ustring \<Rightarrow> nat \<Rightarrow> bool \<Rightarrow> nat \<Rightarrow> compiler \<Rightarrow> compiler" where
  "push_local name r is_const d s =
     on_cur (locals_update (\<lambda>ls. ls @
       [\<lparr>lname = name, lreg = r, lconst = is_const, depth = d, captured = False\<rparr>])) s"

definition add_upvalue :: "upvalue \<Rightarrow> function_scope \<Rightarrow> nat \<times> function_scope" where
  "add_upvalue u sc =
     (case position (\<lambda>d. d = u) (upvalues sc) of
        Some pos \<Rightarrow> (pos mod 256, sc)
      | None \<Rightarrow> (length (upvalues sc) mod 256, sc\<lparr>upvalues := upvalues sc @ [u]\<rparr>))"

text \<open>
  A name that the enclosing function has as a local is captured from its register; one from
  further out is threaded through every function on the way.
\<close>

fun resolve_upvalue ::
  "ustring \<Rightarrow> function_scope \<Rightarrow> function_scope list \<Rightarrow>
    nat option \<times> function_scope \<times> function_scope list" where
  "resolve_upvalue name sc [] = (None, sc, [])"
| "resolve_upvalue name sc (e # es) =
     (case rposition (\<lambda>l. lname l = name) (locals e) of
        Some pos \<Rightarrow>
          let e' = e\<lparr>locals := (locals e)[pos := (locals e ! pos)\<lparr>captured := True\<rparr>]\<rparr>;
              (ix, sc) = add_upvalue (UpLocal (lreg (locals e ! pos))) sc
          in (Some ix, sc, e' # es)
      | None \<Rightarrow>
          (case resolve_upvalue name e es of
             (Some up, e, es) \<Rightarrow>
               let (ix, sc) = add_upvalue (UpUpvalue up) sc in (Some ix, sc, e # es)
           | (None, e, es) \<Rightarrow> (None, sc, e # es)))"

definition capture :: "ustring \<Rightarrow> compiler \<Rightarrow> nat option \<times> compiler" where
  "capture name s =
     (case resolve_upvalue name (cur s) (outer s) of
        (ix, sc, es) \<Rightarrow> (ix, s\<lparr>cur := sc, outer := es\<rparr>))"

datatype var_loc = VLocal nat bool | VUpvalue nat | VGlobal

definition resolve_variable :: "ustring \<Rightarrow> compiler \<Rightarrow> var_loc \<times> compiler" where
  "resolve_variable name s =
     (case find (\<lambda>l. lname l = name) (rev (locals (cur s))) of
        Some l \<Rightarrow> (VLocal (lreg l) (lconst l), s)
      | None \<Rightarrow>
          (case capture name s of
             (Some ix, s) \<Rightarrow> (VUpvalue ix, s)
           | (None, s) \<Rightarrow> (VGlobal, s)))"

definition locals_captured_from :: "nat \<Rightarrow> compiler \<Rightarrow> bool" where
  "locals_captured_from from_reg s =
     list_ex (\<lambda>l. from_reg \<le> lreg l \<and> captured l) (locals (cur s))"

text \<open>The local of this name that was declared last, if it is of the current depth.\<close>

definition declared_here :: "ustring \<Rightarrow> compiler \<Rightarrow> local_var option" where
  "declared_here name s =
     find (\<lambda>l. lname l = name)
       (takeWhile (\<lambda>l. depth l = scope_depth (cur s)) (rev (locals (cur s))))"

section \<open>Parameter types\<close>

definition ast_type_to_param_type :: "type_kind \<Rightarrow> compiler \<Rightarrow> (param_type \<times> compiler) run" where
  "ast_type_to_param_type t s =
     (case t of
        TyAny \<Rightarrow> Inl Invalid
      | TyBool \<Rightarrow> Inr (PtBool, s)
      | TyInt \<Rightarrow> Inr (PtInt, s)
      | TyNumber \<Rightarrow> Inr (PtNumber, s)
      | TyBigInt \<Rightarrow> Inr (PtBigInt, s)
      | TyString \<Rightarrow> Inr (PtString, s)
      | TyBytes \<Rightarrow> Inr (PtBytes, s)
      | TyList \<Rightarrow> Inr (PtList, s)
      | TyDict \<Rightarrow> Inr (PtDict, s)
      | TyRange \<Rightarrow> Inr (PtRange, s)
      | TyFile \<Rightarrow> Inr (PtFile, s)
      | TyFunction \<Rightarrow> Inr (PtFunction, s)
      | TyType \<Rightarrow> Inr (PtClass, s)
      | TyCallable \<Rightarrow> Inr (PtCallable, s)
      | TyIterable \<Rightarrow> Inr (PtIterable, s)
      | TyInstance t \<Rightarrow>
          seq (identifier_name t) (\<lambda>name.
            let (upvalue, s) = capture name s;
                (name_const, s) = string_constant name s
            in Inr (case upvalue of
                      Some u \<Rightarrow> (PtCaptured u name_const, s)
                    | None \<Rightarrow> (PtInstance name_const, s))))"

definition emit_param_type_check ::
  "nat option \<Rightarrow> nat \<Rightarrow> expr \<Rightarrow> nat \<Rightarrow> compiler \<Rightarrow> compiler run" where
  "emit_param_type_check variadic_tail_idx i param r s =
     (if variadic_tail_idx = Some i then Inr s
      else
        (case ekind param of
           EArgument name type_hint \<Rightarrow>
             (case ekind type_hint of
                ETypeHint types is_nullable \<Rightarrow>
                  if list_ex (\<lambda>t. ty t = TyAny) types then Inr s
                  else
                    seq (collect (\<lambda>t. ast_type_to_param_type (ty t)) types s) (\<lambda>(pts, s).
                    seq (identifier_name name) (\<lambda>pname.
                      let check = \<lparr>param_name = pname, position_of = i + 1, nullable = is_nullable,
                                   param_types = pts\<rparr>;
                          (check_idx, s) = add_param_check check s;
                          s = set_line (line name) s
                      in Inr (emits (ICheckParamType r check_idx) s)))
              | _ \<Rightarrow> Inl Invalid)
         | _ \<Rightarrow> Inl Invalid))"

fun emit_param_type_checks ::
  "nat option \<Rightarrow> nat \<Rightarrow> expr list \<Rightarrow> nat list \<Rightarrow> compiler \<Rightarrow> compiler run" where
  "emit_param_type_checks tail i (p # ps) (r # rs) s =
     seq (emit_param_type_check tail i p r s) (emit_param_type_checks tail (i + 1) ps rs)"
| "emit_param_type_checks tail i ps rs s = Inr s"

end
