(* ===== verification/Codegen_Tree.thy ===== *)
theory Codegen_Tree
  imports Codegen_State
begin

text \<open>
  What the code generator asks of the tree before it compiles it: whether a statement can fall
  through, which literals are known, which instruction an operator is, and the fields that a
  constructor assigns.
\<close>

section \<open>Falling through\<close>

lemma last_stmt_size:
  "skind st = SBlock ss \<Longrightarrow> ss \<noteq> [] \<Longrightarrow> size (last ss) < size st"
proof -
  have "ss \<noteq> [] \<Longrightarrow> size (last ss) < Suc (size_list size ss)" by (induction ss) auto
  then show "skind st = SBlock ss \<Longrightarrow> ss \<noteq> [] \<Longrightarrow> size (last ss) < size st" by (cases st) simp
qed

lemma branch_size:
  "skind st = SIf c t (Some e) \<Longrightarrow> size t < size st \<and> size e < size st"
  by (cases st) simp

lemma operand_size:
  "ekind x = EGrouping e \<Longrightarrow> size e < size x"
  "ekind x = EUnary op e ln \<Longrightarrow> size e < size x"
  by (cases x; simp)+

function stmt_never_falls_through :: "stmt \<Rightarrow> bool" where
  "stmt_never_falls_through st =
     (case skind st of
        SReturn k e \<Rightarrow> True
      | SRaise e \<Rightarrow> True
      | SBreak k \<Rightarrow> True
      | SContinue k \<Rightarrow> True
      | SBlock stmts \<Rightarrow> if stmts = [] then False else stmt_never_falls_through (last stmts)
      | SIf c then_b (Some else_b) \<Rightarrow>
          stmt_never_falls_through then_b \<and> stmt_never_falls_through else_b
      | _ \<Rightarrow> False)"
  by pat_completeness auto
termination by (relation "measure size") (auto dest: last_stmt_size branch_size)

declare stmt_never_falls_through.simps [simp del]

section \<open>Literals and operators\<close>

definition expr_as_jump_key :: "expr \<Rightarrow> jump_key option" where
  "expr_as_jump_key e =
     (case ekind e of
        ENil \<Rightarrow> Some JNil
      | EBool b \<Rightarrow> Some (JBool b)
      | EInteger i \<Rightarrow> Some (JNumber (f64_of_int i))
      | EFloat f \<Rightarrow> Some (JNumber f)
      | ELiteral t \<Rightarrow> Some (JStr t)
      | _ \<Rightarrow> None)"

definition literal_as_f64 :: "expr \<Rightarrow> f64 option" where
  "literal_as_f64 e =
     (case ekind e of EInteger i \<Rightarrow> Some (f64_of_int i) | EFloat f \<Rightarrow> Some f | _ \<Rightarrow> None)"

definition imm_arith_ctor :: "token_kind \<Rightarrow> imm_op option" where
  "imm_arith_ctor op =
     (case op of
        TkSym SyPlus \<Rightarrow> Some OAddImm
      | TkSym SyMinus \<Rightarrow> Some OSubImm
      | TkSym SyMultiply \<Rightarrow> Some OMulImm
      | _ \<Rightarrow> None)"

definition imm_logical_ctor :: "token_kind \<Rightarrow> imm_op option" where
  "imm_logical_ctor op =
     (case op of
        TkSym SyLess \<Rightarrow> Some OLtImm
      | TkSym SyLessEq \<Rightarrow> Some OLeImm
      | TkSym SyGreater \<Rightarrow> Some OGtImm
      | TkSym SyGreaterEq \<Rightarrow> Some OGeImm
      | TkSym SyEqualEq \<Rightarrow> Some OEqImm
      | TkSym SyBangEq \<Rightarrow> Some ONeqImm
      | _ \<Rightarrow> None)"

definition unary_instr :: "token_kind \<Rightarrow> unary_op option" where
  "unary_instr op =
     (case op of
        TkSym SyMinus \<Rightarrow> Some ONeg
      | TkSym SyBang \<Rightarrow> Some ONot
      | TkSym SyTilde \<Rightarrow> Some OBitNot
      | _ \<Rightarrow> None)"

definition binary_instr :: "token_kind \<Rightarrow> binary_op option" where
  "binary_instr op =
     (case op of
        TkSym SyPlus \<Rightarrow> Some OAdd
      | TkSym SyMinus \<Rightarrow> Some OSub
      | TkSym SyMultiply \<Rightarrow> Some OMul
      | TkSym SyDivide \<Rightarrow> Some ODiv
      | TkSym SyPow \<Rightarrow> Some OPow
      | TkSym SyPercent \<Rightarrow> Some OMod
      | TkSym SyFloor \<Rightarrow> Some OFloor
      | TkSym SyAmp \<Rightarrow> Some OBitAnd
      | TkSym SyBar \<Rightarrow> Some OBitOr
      | TkSym SyXor \<Rightarrow> Some OBitXor
      | TkSym SyLshift \<Rightarrow> Some OBitShl
      | TkSym SyRshift \<Rightarrow> Some OBitShr
      | TkSym SyUrshift \<Rightarrow> Some OBitUshr
      | _ \<Rightarrow> None)"

definition logical_instr :: "token_kind \<Rightarrow> binary_op option" where
  "logical_instr op =
     (case op of
        TkSym SyEqualEq \<Rightarrow> Some OEq
      | TkSym SyBangEq \<Rightarrow> Some ONeq
      | TkSym SyLess \<Rightarrow> Some OLt
      | TkSym SyLessEq \<Rightarrow> Some OLe
      | TkSym SyGreater \<Rightarrow> Some OGt
      | TkSym SyGreaterEq \<Rightarrow> Some OGe
      | _ \<Rightarrow> None)"

text \<open>The value a field default stands for, if it is a literal; a string is allocated.\<close>

function literal_default :: "expr \<Rightarrow> heap \<Rightarrow> const option \<times> heap" where
  "literal_default e h =
     (case ekind e of
        ENil \<Rightarrow> (Some KNil, h)
      | EBool b \<Rightarrow> (Some (KBool b), h)
      | EInteger i \<Rightarrow> (Some (KNumber (f64_of_int i)), h)
      | EFloat f \<Rightarrow> (Some (KNumber f), h)
      | ELiteral t \<Rightarrow> (case alloc_string_old t h of (v, h) \<Rightarrow> (Some v, h))
      | EGrouping inner \<Rightarrow> literal_default inner h
      | EUnary op inner ln \<Rightarrow>
          if op = TkSym SyMinus then
            (case literal_default inner h of
               (Some (KNumber f), h) \<Rightarrow> (Some (KNumber (f64_neg f)), h)
             | (_, h) \<Rightarrow> (None, h))
          else (None, h)
      | _ \<Rightarrow> (None, h))"
  by pat_completeness auto
termination by (relation "measure (\<lambda>(e, h). size e)") (auto dest: operand_size)

declare literal_default.simps [simp del]

section \<open>Fields assigned through \<open>self\<close>\<close>

text \<open>
  The names that \<open>self.NAME = value\<close> assigns, in the order they are met, each once.
\<close>

definition through :: "('s \<Rightarrow> 's run) list \<Rightarrow> 's \<Rightarrow> 's run" where
  "through fs s = each (\<lambda>f. f) fs s"

definition through_opt :: "('s \<Rightarrow> 's run) option \<Rightarrow> 's \<Rightarrow> 's run" where
  "through_opt f s = (case f of Some f \<Rightarrow> f s | None \<Rightarrow> Inr s)"

definition add_self_field :: "expr \<Rightarrow> token \<Rightarrow> ustring list \<Rightarrow> ustring list" where
  "add_self_field target field out =
     (case ekind target of
        ESelf k \<Rightarrow>
          (case kind field of
             TkIdentifier n \<Rightarrow> if n \<in> set out then out else out @ [n]
           | _ \<Rightarrow> out)
      | _ \<Rightarrow> out)"

primrec
      collect_self_fields_expr :: "expr \<Rightarrow> ustring list \<Rightarrow> ustring list run"
  and self_fields_ekind :: "expr_kind \<Rightarrow> ustring list \<Rightarrow> ustring list run"
  and self_fields_segment :: "segment \<Rightarrow> ustring list \<Rightarrow> ustring list run"
  and self_fields_labels :: "when_arm \<Rightarrow> (ustring list \<Rightarrow> ustring list run) \<times> (ustring list \<Rightarrow> ustring list run)"
  and collect_self_fields_stmt :: "stmt \<Rightarrow> ustring list \<Rightarrow> ustring list run"
  and self_fields_skind :: "stmt_kind \<Rightarrow> ustring list \<Rightarrow> ustring list run"
  and collect_self_fields_decl :: "decl \<Rightarrow> ustring list \<Rightarrow> ustring list run"
  and self_fields_dkind :: "decl_kind \<Rightarrow> ustring list \<Rightarrow> ustring list run" where
  "collect_self_fields_expr (Expr k s) out = self_fields_ekind k out"

| "self_fields_ekind (ECompoundAssign t op v ln) out = Inl Invalid"
| "self_fields_ekind (EUpdate t op ln) out = Inl Invalid"
| "self_fields_ekind (EInterpolation segments) out = Inl Invalid"
| "self_fields_ekind (EShorthand name) out = Inl Invalid"
| "self_fields_ekind (ESet target field value) out =
     seq (collect_self_fields_expr target (add_self_field target field out))
       (collect_self_fields_expr value)"
| "self_fields_ekind (EUnary op e ln) out = collect_self_fields_expr e out"
| "self_fields_ekind (EGrouping e) out = collect_self_fields_expr e out"
| "self_fields_ekind (EBinary a op b ln) out =
     seq (collect_self_fields_expr a out) (collect_self_fields_expr b)"
| "self_fields_ekind (ELogical a op b ln) out =
     seq (collect_self_fields_expr a out) (collect_self_fields_expr b)"
| "self_fields_ekind (ECircuit a op b) out =
     seq (collect_self_fields_expr a out) (collect_self_fields_expr b)"
| "self_fields_ekind (ERange a b ln) out =
     seq (collect_self_fields_expr a out) (collect_self_fields_expr b)"
| "self_fields_ekind (EIndex a b ln) out =
     seq (collect_self_fields_expr a out) (collect_self_fields_expr b)"
| "self_fields_ekind (EAssign a b) out =
     seq (collect_self_fields_expr a out) (collect_self_fields_expr b)"
| "self_fields_ekind (ECondition a b c) out =
     seq (collect_self_fields_expr a out)
       (\<lambda>out. seq (collect_self_fields_expr b out) (collect_self_fields_expr c))"
| "self_fields_ekind (ESlice a b c ln) out =
     seq (collect_self_fields_expr a out)
       (\<lambda>out. seq (collect_self_fields_expr b out) (collect_self_fields_expr c))"
| "self_fields_ekind (ECall callee args ln) out =
     seq (collect_self_fields_expr callee out) (through (map collect_self_fields_expr args))"
| "self_fields_ekind (EGet obj field) out = collect_self_fields_expr obj out"
| "self_fields_ekind (EList items) out = through (map collect_self_fields_expr items) out"
| "self_fields_ekind (EDict keys values) out =
     seq (through (map collect_self_fields_expr keys) out)
       (through (map collect_self_fields_expr values))"
| "self_fields_ekind (EAnonymous d) out = collect_self_fields_decl d out"
| "self_fields_ekind ENil out = Inr out"
| "self_fields_ekind (EBool b) out = Inr out"
| "self_fields_ekind (EInteger i) out = Inr out"
| "self_fields_ekind (EFloat f) out = Inr out"
| "self_fields_ekind (EBigNumber n) out = Inr out"
| "self_fields_ekind (ELiteral t) out = Inr out"
| "self_fields_ekind (EIdentifier t) out = Inr out"
| "self_fields_ekind (EParent t) out = Inr out"
| "self_fields_ekind (ESelf t) out = Inr out"
| "self_fields_ekind (ETypeHint ts may_be_nil) out = Inr out"
| "self_fields_ekind (EArgument t h) out = Inr out"

| "self_fields_segment (Text t) out = Inr out"
| "self_fields_segment (Value e) out = Inr out"

| "self_fields_labels (WhenArm ls body s) =
     (through (map collect_self_fields_expr ls), collect_self_fields_stmt body)"

| "collect_self_fields_stmt (Stmt k s) out = self_fields_skind k out"

| "self_fields_skind (SFor k v i b) out = Inl Invalid"
| "self_fields_skind (SIter i c xs b) out = Inl Invalid"
| "self_fields_skind (SDoWhile b c) out = Inl Invalid"
| "self_fields_skind (SEcho e) out = collect_self_fields_expr e out"
| "self_fields_skind (SExpression e) out = collect_self_fields_expr e out"
| "self_fields_skind (SRaise e) out = collect_self_fields_expr e out"
| "self_fields_skind (SReturn k e) out = collect_self_fields_expr e out"
| "self_fields_skind (SIf cond then_b else_b) out =
     seq (collect_self_fields_expr cond out) (\<lambda>out.
     seq (collect_self_fields_stmt then_b out)
       (through_opt (map_option collect_self_fields_stmt else_b)))"
| "self_fields_skind (SWhile cond body) out =
     seq (collect_self_fields_expr cond out) (collect_self_fields_stmt body)"
| "self_fields_skind (SAssert e msg) out =
     seq (collect_self_fields_expr e out) (through_opt (map_option collect_self_fields_expr msg))"
| "self_fields_skind (SUsing subject arms dflt) out =
     seq (collect_self_fields_expr subject out) (\<lambda>out.
     seq (through (map fst (map self_fields_labels arms)) out) (\<lambda>out.
     seq (through (map snd (map self_fields_labels arms)) out)
       (through_opt (map_option collect_self_fields_stmt dflt))))"
| "self_fields_skind (SCatch body catch_body name) out =
     seq (collect_self_fields_stmt body out)
       (through_opt (map_option collect_self_fields_stmt catch_body))"
| "self_fields_skind (SBlock stmts) out = through (map collect_self_fields_stmt stmts) out"
| "self_fields_skind (SDecl d) out = collect_self_fields_decl d out"
| "self_fields_skind (SVar t init hint c) out = collect_self_fields_expr init out"
| "self_fields_skind (SVarList list) out = through (map collect_self_fields_stmt list) out"
| "self_fields_skind SNone out = Inr out"
| "self_fields_skind SFixContinue out = Inr out"
| "self_fields_skind (SContinue t) out = Inr out"
| "self_fields_skind (SBreak t) out = Inr out"
| "self_fields_skind (SImport p ts n es al ex) out = Inr out"
| "self_fields_skind (STrivia t) out = Inr out"

| "collect_self_fields_decl (Decl k s) out = self_fields_dkind k out"

| "self_fields_dkind (DStmt s) out = collect_self_fields_stmt s out"
| "self_fields_dkind (DFunction t ps body v) out = collect_self_fields_stmt body out"
| "self_fields_dkind (DMethod t ps body v st) out = Inr out"
| "self_fields_dkind (DProperty t v h st c) out = Inr out"
| "self_fields_dkind (DClass t c ps ms ex) out = Inr out"
| "self_fields_dkind (DTrivia t) out = Inr out"

end
