(* ===== verification/Codegen_Expr.thy ===== *)
theory Codegen_Expr
  imports Codegen_Tree
begin

text \<open>
  The expressions of \<open>src/compiler/compiler.rs\<close>, with the functions and methods they can
  contain. The recursion is open: a definition takes the rules for smaller trees as a
  \<open>generator\<close>, and \<open>Codegen\<close> ties the knot. An expression gives the register of its result.
\<close>

record generator =
  g_expr :: "expr \<Rightarrow> compiler \<Rightarrow> (nat \<times> compiler) run"
  g_stmt :: "stmt \<Rightarrow> compiler \<Rightarrow> compiler run"
  g_decl :: "decl \<Rightarrow> compiler \<Rightarrow> compiler run"

section \<open>Registers of results\<close>

text \<open>\<open>self.free_regs_to(r + 1)\<close>.\<close>

definition free_after :: "nat \<Rightarrow> compiler \<Rightarrow> compiler run" where
  "free_after r s = seq (u8_add s r 1) (\<lambda>mark. Inr (free_regs_to mark s))"

text \<open>A register that was free at \<open>mark\<close> is taken over for the result, any other is left alone.\<close>

definition result_reg :: "nat \<Rightarrow> nat \<Rightarrow> compiler \<Rightarrow> nat \<times> compiler" where
  "result_reg mark r s = (if mark \<le> r then (r, s) else alloc_reg s)"

definition fresh_copy :: "nat \<Rightarrow> nat \<Rightarrow> compiler \<Rightarrow> nat \<times> compiler" where
  "fresh_copy mark r s =
     (if mark \<le> r then (r, s)
      else let (fresh, s) = alloc_reg s in (fresh, emits (IMove fresh r) s))"

section \<open>Functions\<close>

definition param_name_of :: "expr \<Rightarrow> ustring run" where
  "param_name_of p = (case ekind p of EArgument t h \<Rightarrow> identifier_name t | _ \<Rightarrow> Inl Invalid)"

primrec param_names :: "expr list \<Rightarrow> ustring list run" where
  "param_names [] = Inr []"
| "param_names (p # ps) =
     seq (param_name_of p) (\<lambda>n. seq (param_names ps) (\<lambda>ns. Inr (n # ns)))"

definition push_scope :: "compiler \<Rightarrow> compiler" where
  "push_scope s = s\<lparr>cur := function_scope_new, outer := cur s # outer s\<rparr>"

primrec bind_params :: "ustring list \<Rightarrow> compiler \<Rightarrow> nat list \<times> compiler" where
  "bind_params [] s = ([], s)"
| "bind_params (n # ns) s =
     (let (r, s) = alloc_reg s;
          (rs, s) = bind_params ns (push_local n r False 0 s)
      in (r # rs, s))"

definition variadic_tail :: "bool \<Rightarrow> expr list \<Rightarrow> nat option" where
  "variadic_tail is_variadic params = (if is_variadic then Some (length params - 1) else None)"

text \<open>The unconditional \<open>return nil\<close> at the end, and the function's own state taken off.\<close>

definition return_nil :: "compiler \<Rightarrow> nat \<times> compiler" where
  "return_nil s =
     (let (nil_reg, s) = alloc_reg s;
          s = emits (ILoadNil nil_reg) s;
          s = emits (IReturn nil_reg) s
      in (nil_reg, s))"

definition close_function :: "compiler \<Rightarrow> (function_scope \<times> compiler) run" where
  "close_function s =
     (let (nil_reg, s) = return_nil s
      in case outer s of
           [] \<Rightarrow> Inl Invalid
         | e # es \<Rightarrow> Inr (cur s, s\<lparr>cur := e, outer := es\<rparr>))"

definition function_of ::
  "ustring \<Rightarrow> nat \<Rightarrow> bool \<Rightarrow> bool \<Rightarrow> ustring option \<Rightarrow> function_scope \<Rightarrow> compiler \<Rightarrow> obj_function" where
  "function_of name n is_variadic method owner finished s =
     \<lparr>fn_name = name, arity = n, variadic = is_variadic, num_registers = max_reg finished,
      fn_chunk = chunk finished, fn_upvalues = upvalues finished, fn_source_path = source_path s,
      globals_module = module s, fn_is_method = method, owning_class_name = owner\<rparr>"

definition compile_function_prototype ::
  "generator \<Rightarrow> token \<Rightarrow> expr list \<Rightarrow> stmt \<Rightarrow> bool \<Rightarrow> bool \<Rightarrow> compiler \<Rightarrow> (obj_function \<times> compiler) run" where
  "compile_function_prototype g t params body is_variadic method s =
     seq (identifier_name t) (\<lambda>name.
     seq (param_names params) (\<lambda>names.
     if is_variadic \<and> names = [] then Inl Invalid
     else
       let (regs, s) = bind_params names (push_scope s)
       in seq (emit_param_type_checks (variadic_tail is_variadic params) 0 params regs s) (\<lambda>s.
          seq (g_stmt g body s) (\<lambda>s.
          seq (close_function s) (\<lambda>(finished, s).
          Inr (function_of name (length names mod 256) is_variadic method None finished s, s))))))"

text \<open>A method reserves register 0 for the receiver, which a static one does not name.\<close>

definition compile_method_prototype ::
  "generator \<Rightarrow> token \<Rightarrow> expr list \<Rightarrow> stmt \<Rightarrow> bool \<Rightarrow> bool \<Rightarrow> ustring \<Rightarrow> compiler \<Rightarrow>
    (obj_function \<times> compiler) run" where
  "compile_method_prototype g t params body is_variadic is_static class_name s =
     seq (identifier_name t) (\<lambda>name.
     seq (param_names params) (\<lambda>names.
     if is_variadic \<and> names = [] then Inl Invalid
     else
       let (self_reg, s) = alloc_reg (push_scope s);
           s = (if is_static then s else push_local (str ''self'') self_reg True 0 s);
           (regs, s) = bind_params names s
       in seq (emit_param_type_checks (variadic_tail is_variadic params) 0 params regs s) (\<lambda>s.
          seq (g_stmt g body s) (\<lambda>s.
          seq (close_function s) (\<lambda>(finished, s).
          Inr (function_of name ((length names + 1) mod 256) is_variadic True (Some class_name)
                 finished s, s))))))"

text \<open>A prototype goes to the heap and its value to the constant pool.\<close>

definition closure :: "obj_function \<Rightarrow> compiler \<Rightarrow> nat \<times> compiler" where
  "closure f s =
     (let (const_idx, s) = object_constant (OFunction f) s;
          (dst, s) = alloc_reg s;
          s = emits (IClosure dst const_idx) s
      in (dst, s))"

section \<open>Method calls\<close>

definition compile_self_reg :: "token \<Rightarrow> compiler \<Rightarrow> nat \<times> compiler" where
  "compile_self_reg keyword s =
     (case resolve_variable (str ''self'') s of
        (VLocal r is_const, s) \<Rightarrow> (r, s)
      | (VUpvalue ix, s) \<Rightarrow> let (dst, s) = alloc_reg s in (dst, emits (IGetUpval dst ix) s)
      | (VGlobal, s) \<Rightarrow>
          let word = (if kind keyword = TkKw KwParent then str ''parent'' else str ''self'')
          in error_reg (report_error_on (quoted word @ str '' used outside of a method'') keyword s))"

definition compile_receiver :: "generator \<Rightarrow> expr \<Rightarrow> compiler \<Rightarrow> (nat \<times> compiler) run" where
  "compile_receiver g e s =
     (case ekind e of EParent keyword \<Rightarrow> Inr (compile_self_reg keyword s) | _ \<Rightarrow> g_expr g e s)"

text \<open>The arguments of a call, in the registers after \<open>base\<close>; the result is how many there are.\<close>

primrec compile_args ::
  "generator \<Rightarrow> nat \<Rightarrow> token option \<Rightarrow> expr list \<Rightarrow> nat \<Rightarrow> compiler \<Rightarrow> (nat \<times> compiler) run" where
  "compile_args g base t [] num_args s = Inr (num_args, s)"
| "compile_args g base t (arg # args) num_args s =
     seq (u8_add s base 1) (\<lambda>first.
     seq (u8_add s first num_args) (\<lambda>expected.
     seq (g_expr g arg s) (\<lambda>(arg_reg, s).
     let s = move_to expected arg_reg s
     in seq (free_after expected s) (\<lambda>s.
        let (num_args, s) = checked_arg_count num_args t s
        in compile_args g base t args num_args s))))"

definition is_self :: "expr \<Rightarrow> bool" where
  "is_self e = (case ekind e of ESelf k \<Rightarrow> True | _ \<Rightarrow> False)"

definition is_parent :: "expr \<Rightarrow> bool" where
  "is_parent e = (case ekind e of EParent k \<Rightarrow> True | _ \<Rightarrow> False)"

definition compile_invoke ::
  "generator \<Rightarrow> expr \<Rightarrow> token \<Rightarrow> expr list \<Rightarrow> compiler \<Rightarrow> (nat \<times> compiler) run" where
  "compile_invoke g obj method args s =
     seq (identifier_name method) (\<lambda>method_name.
     let s = check_private_access method_name (is_self obj) method s;
         (obj_reg, s) = alloc_reg s
     in seq (compile_receiver g obj s) (\<lambda>(raw, s).
        let s = move_to obj_reg raw s
        in seq (free_after obj_reg s) (\<lambda>s.
           let (self_slot, s) = alloc_reg s;
               s = emits (IMove self_slot obj_reg) s
           in seq (compile_args g self_slot (Some method) args 0 s) (\<lambda>(num_args, s).
              let (method_const, s) = string_constant method_name s;
                  s = set_line (line method) s;
                  s = emits (IInvoke obj_reg obj_reg method_const num_args) s
              in seq (free_after obj_reg s) (\<lambda>s. Inr (obj_reg, s))))))"

text \<open>
  What both forms of a call through \<open>parent\<close> begin with: the superclass in the register of the
  call, the current receiver after it, then the arguments.
\<close>

definition raw_superclass :: "token \<Rightarrow> compiler \<Rightarrow> nat \<times> compiler" where
  "raw_superclass keyword s =
     (case resolve_variable (str ''@superclass'') s of
        (VLocal r is_const, s) \<Rightarrow> (r, s)
      | (VUpvalue ix, s) \<Rightarrow> let (dst, s) = alloc_reg s in (dst, emits (IGetUpval dst ix) s)
      | (VGlobal, s) \<Rightarrow>
          error_reg (report_error_on
            (quoted (str ''parent'') @ str '' used in a class with no superclass'') keyword s))"

definition compile_super_args ::
  "generator \<Rightarrow> token \<Rightarrow> token option \<Rightarrow> expr list \<Rightarrow> compiler \<Rightarrow> (nat \<times> nat \<times> compiler) run" where
  "compile_super_args g keyword t args s =
     (let (call_reg, s) = alloc_reg s;
          (raw_super, s) = raw_superclass keyword s;
          s = move_to call_reg raw_super s
      in seq (free_after call_reg s) (\<lambda>s.
         let (self_slot, s) = alloc_reg s;
             (self_reg, s) = compile_self_reg keyword s;
             s = emits (IMove self_slot self_reg) s
         in seq (free_after self_slot s) (\<lambda>s.
            seq (compile_args g self_slot t args 0 s) (\<lambda>(num_args, s). Inr (call_reg, num_args, s)))))"

definition compile_invoke_super ::
  "generator \<Rightarrow> token \<Rightarrow> token \<Rightarrow> expr list \<Rightarrow> compiler \<Rightarrow> (nat \<times> compiler) run" where
  "compile_invoke_super g keyword method args s =
     seq (compile_super_args g keyword (Some method) args s) (\<lambda>(call_reg, num_args, s).
     seq (identifier_name method) (\<lambda>method_name.
     let (method_const, s) = string_constant method_name s;
         s = set_line (line method) s;
         s = emits (IInvokeSuper call_reg call_reg method_const num_args) s
     in seq (free_after call_reg s) (\<lambda>s. Inr (call_reg, s))))"

definition compile_super_ctor_call ::
  "generator \<Rightarrow> token \<Rightarrow> expr list \<Rightarrow> compiler \<Rightarrow> (nat \<times> compiler) run" where
  "compile_super_ctor_call g keyword args s =
     seq (compile_super_args g keyword None args s) (\<lambda>(call_reg, num_args, s).
     let s = emits (ICallSuperCtor call_reg call_reg num_args) s
     in seq (free_after call_reg s) (\<lambda>s. Inr (call_reg, s)))"

section \<open>List and dict literals\<close>

definition LIST_LITERAL_CHUNK_SIZE :: nat where "LIST_LITERAL_CHUNK_SIZE = 64"
definition DICT_LITERAL_CHUNK_SIZE :: nat where "DICT_LITERAL_CHUNK_SIZE = 48"

text \<open>One register after the other, whatever the element needed on the way.\<close>

definition compile_element :: "generator \<Rightarrow> expr \<Rightarrow> compiler \<Rightarrow> compiler run" where
  "compile_element g e s =
     (let (expected, s) = alloc_reg s
      in seq (g_expr g e s) (\<lambda>(r, s).
         let s = move_to expected r s;
             s = free_regs_to (saturating_inc expected) s
         in Inr s))"

definition compile_list_chunk :: "generator \<Rightarrow> expr list \<Rightarrow> compiler \<Rightarrow> (nat \<times> compiler) run" where
  "compile_list_chunk g elements s =
     (let (dst, s) = alloc_reg s;
          start = next_reg (cur s)
      in seq (each (compile_element g) elements s) (\<lambda>s.
         let s = emits (IMakeList dst start (length elements)) s;
             s = free_regs_to (saturating_inc dst) s
         in Inr (dst, s)))"

definition compile_dict_chunk ::
  "generator \<Rightarrow> expr list \<Rightarrow> expr list \<Rightarrow> compiler \<Rightarrow> (nat \<times> compiler) run" where
  "compile_dict_chunk g keys values s =
     (let (dst, s) = alloc_reg s;
          start = next_reg (cur s);
          count = length keys mod 256
      in seq (each (compile_element g) keys s) (\<lambda>s.
         seq (each (compile_element g) values s) (\<lambda>s.
         let s = emits (IMakeDict dst start count) s;
             s = free_regs_to (saturating_inc dst) s
         in Inr (dst, s))))"

definition emit_extend_call :: "nat \<Rightarrow> nat \<Rightarrow> compiler \<Rightarrow> compiler" where
  "emit_extend_call receiver_reg arg_reg s =
     (let (name_const, s) = string_constant (str ''extend'') s;
          (obj_reg, s) = alloc_reg s;
          s = emits (IMove obj_reg receiver_reg) s;
          (self_slot, s) = alloc_reg s;
          s = emits (IMove self_slot obj_reg) s;
          (arg_slot, s) = alloc_reg s;
          s = move_to arg_slot arg_reg s;
          s = emits (IInvoke obj_reg obj_reg name_const 1) s
      in s)"

function chunks :: "nat \<Rightarrow> 'a list \<Rightarrow> 'a list list" where
  "chunks n xs = (if xs = [] \<or> n = 0 then [] else take n xs # chunks n (drop n xs))"
  by pat_completeness auto
termination by (relation "measure (\<lambda>(n, xs). length xs)") auto

declare chunks.simps [simp del]

definition extend_with_chunk ::
  "nat \<Rightarrow> (compiler \<Rightarrow> (nat \<times> compiler) run) \<Rightarrow> compiler \<Rightarrow> compiler run" where
  "extend_with_chunk result build_chunk s =
     (let chunk_mark = next_reg (cur s)
      in seq (build_chunk s) (\<lambda>(chunk_reg, s).
         let s = emit_extend_call result chunk_reg s;
             s = free_regs_to chunk_mark s
         in Inr s))"

definition compile_list_literal :: "generator \<Rightarrow> expr list \<Rightarrow> compiler \<Rightarrow> (nat \<times> compiler) run" where
  "compile_list_literal g elements s =
     (if length elements \<le> LIST_LITERAL_CHUNK_SIZE then compile_list_chunk g elements s
      else
        let (result, s) = alloc_reg s;
            s = emits (IMakeList result result 0) s
        in seq (each (\<lambda>part. extend_with_chunk result (compile_list_chunk g part))
                  (chunks LIST_LITERAL_CHUNK_SIZE elements) s)
             (\<lambda>s. let s = free_regs_to (saturating_inc result) s in Inr (result, s)))"

function compile_dict_chunks ::
  "generator \<Rightarrow> nat \<Rightarrow> expr list \<Rightarrow> expr list \<Rightarrow> nat \<Rightarrow> compiler \<Rightarrow> compiler run" where
  "compile_dict_chunks g result keys values ix s =
     (if ix < length keys then
        let to = min (ix + DICT_LITERAL_CHUNK_SIZE) (length keys)
        in seq (or_invalid (slice keys ix to)) (\<lambda>ks.
           seq (or_invalid (slice values ix to)) (\<lambda>vs.
           seq (extend_with_chunk result (compile_dict_chunk g ks vs) s)
             (compile_dict_chunks g result keys values to)))
      else Inr s)"
  by pat_completeness auto
termination
  by (relation "measure (\<lambda>(g, result, keys, values, ix, s). length keys - ix)")
    (auto simp: DICT_LITERAL_CHUNK_SIZE_def)

declare compile_dict_chunks.simps [simp del]

definition compile_dict_literal ::
  "generator \<Rightarrow> expr list \<Rightarrow> expr list \<Rightarrow> compiler \<Rightarrow> (nat \<times> compiler) run" where
  "compile_dict_literal g keys values s =
     (if overflow_checks s \<and> length keys \<noteq> length values then Inl Invalid
      else if length keys \<le> DICT_LITERAL_CHUNK_SIZE then compile_dict_chunk g keys values s
      else
        let (result, s) = alloc_reg s;
            s = emits (IMakeDict result result 0) s
        in seq (compile_dict_chunks g result keys values 0 s)
             (\<lambda>s. let s = free_regs_to (saturating_inc result) s in Inr (result, s)))"

section \<open>Expressions\<close>

definition load_pooled :: "(compiler \<Rightarrow> nat \<times> compiler) \<Rightarrow> compiler \<Rightarrow> nat \<times> compiler" where
  "load_pooled pool s =
     (let (dst, s) = alloc_reg s;
          (const_idx, s) = pool s;
          s = emits (ILoadConst dst const_idx) s
      in (dst, s))"

definition compile_identifier :: "token \<Rightarrow> compiler \<Rightarrow> (nat \<times> compiler) run" where
  "compile_identifier t s =
     seq (identifier_name t) (\<lambda>name.
       case resolve_variable name s of
         (VLocal r is_const, s) \<Rightarrow> Inr (r, s)
       | (VUpvalue ix, s) \<Rightarrow>
           let (dst, s) = alloc_reg s;
               s = emits (IGetUpval dst ix) s
           in Inr (dst, s)
       | (VGlobal, s) \<Rightarrow>
           let (dst, s) = alloc_reg s;
               (name_const, s) = string_constant name s;
               s = set_line (line t) s;
               s = emits (IGetGlobal dst name_const) s
           in Inr (dst, s))"

definition compile_unary ::
  "generator \<Rightarrow> token_kind \<Rightarrow> expr \<Rightarrow> nat \<Rightarrow> compiler \<Rightarrow> (nat \<times> compiler) run" where
  "compile_unary g op e ln s =
     (let mark = next_reg (cur s)
      in seq (g_expr g e s) (\<lambda>(src, s).
         let (dst, s) = result_reg mark src s
         in seq (or_invalid (unary_instr op)) (\<lambda>instr.
            let s = set_line ln s;
                s = emits (IUnary instr dst src) s
            in Inr (dst, s))))"

text \<open>An operator with a literal number on its right takes it from the constant pool.\<close>

definition compile_imm ::
  "generator \<Rightarrow> expr \<Rightarrow> imm_op \<Rightarrow> f64 \<Rightarrow> nat \<Rightarrow> compiler \<Rightarrow> (nat \<times> compiler) run" where
  "compile_imm g lhs instr imm ln s =
     (let mark = next_reg (cur s)
      in seq (g_expr g lhs s) (\<lambda>(a, s).
         let (dst, s) = result_reg mark a s;
             (imm_const, s) = add_constant (KNumber imm) s;
             s = set_line ln s;
             s = emits (IImm instr dst a imm_const) s
         in seq (free_after dst s) (\<lambda>s. Inr (dst, s))))"

definition compile_operator ::
  "generator \<Rightarrow> expr \<Rightarrow> binary_op option \<Rightarrow> expr \<Rightarrow> nat \<Rightarrow> compiler \<Rightarrow> (nat \<times> compiler) run" where
  "compile_operator g lhs op rhs ln s =
     (let mark = next_reg (cur s)
      in seq (g_expr g lhs s) (\<lambda>(a, s).
         let (dst, s) = result_reg mark a s;
             rhs_mark = next_reg (cur s)
         in seq (g_expr g rhs s) (\<lambda>(b, s).
            seq (or_invalid op) (\<lambda>instr.
            let s = set_line ln s;
                s = emits (IBinary instr dst a b) s
            in seq (u8_add s dst 1) (\<lambda>after_dst.
               let s = free_regs_to (max rhs_mark after_dst) s in Inr (dst, s))))))"

definition compile_binary ::
  "generator \<Rightarrow> expr \<Rightarrow> token_kind \<Rightarrow> expr \<Rightarrow> nat \<Rightarrow> compiler \<Rightarrow> (nat \<times> compiler) run" where
  "compile_binary g lhs op rhs ln s =
     (case (literal_as_f64 rhs, imm_arith_ctor op) of
        (Some imm, Some instr) \<Rightarrow> compile_imm g lhs instr imm ln s
      | _ \<Rightarrow> compile_operator g lhs (binary_instr op) rhs ln s)"

definition compile_logical ::
  "generator \<Rightarrow> expr \<Rightarrow> token_kind \<Rightarrow> expr \<Rightarrow> nat \<Rightarrow> compiler \<Rightarrow> (nat \<times> compiler) run" where
  "compile_logical g lhs op rhs ln s =
     (case (literal_as_f64 rhs, imm_logical_ctor op) of
        (Some imm, Some instr) \<Rightarrow> compile_imm g lhs instr imm ln s
      | _ \<Rightarrow> compile_operator g lhs (logical_instr op) rhs ln s)"

definition short_circuit :: "token_kind \<Rightarrow> nat \<Rightarrow> compiler \<Rightarrow> (nat \<times> compiler) run" where
  "short_circuit op result s =
     (if op = TkKw KwAnd then Inr (emit_jump_if_false result s)
      else if op = TkKw KwOr then Inr (emit_jump_if_true result s)
      else Inl Invalid)"

definition compile_circuit ::
  "generator \<Rightarrow> expr \<Rightarrow> token_kind \<Rightarrow> expr \<Rightarrow> compiler \<Rightarrow> (nat \<times> compiler) run" where
  "compile_circuit g lhs op rhs s =
     (let result = next_reg (cur s)
      in seq (g_expr g lhs s) (\<lambda>(lhs_val, s).
         let s = move_to result lhs_val s
         in seq (free_after result s) (\<lambda>s.
            seq (short_circuit op result s) (\<lambda>(short_circuit_jump, s).
            seq (g_expr g rhs s) (\<lambda>(rhs_val, s).
            let s = move_to result rhs_val s
            in seq (free_after result s) (\<lambda>s.
               seq (patch_jump short_circuit_jump s) (\<lambda>s. Inr (result, s))))))))"

definition compile_condition ::
  "generator \<Rightarrow> expr \<Rightarrow> expr \<Rightarrow> expr \<Rightarrow> compiler \<Rightarrow> (nat \<times> compiler) run" where
  "compile_condition g condition truth falsey s =
     (let mark = next_reg (cur s)
      in seq (g_expr g condition s) (\<lambda>(cond_reg, s).
         let (then_jump, s) = emit_jump_if_false cond_reg s;
             s = free_regs_to mark s
         in seq (g_expr g truth s) (\<lambda>(then_val, s).
            let s = move_to mark then_val s;
                (else_jump, s) = emit_jump s;
                s = free_regs_to mark s
            in seq (patch_jump then_jump s) (\<lambda>s.
               seq (g_expr g falsey s) (\<lambda>(else_val, s).
               let s = move_to mark else_val s
               in seq (patch_jump else_jump s) (\<lambda>s.
                  seq (free_after mark s) (\<lambda>s. Inr (mark, s))))))))"

definition compile_assign_index ::
  "generator \<Rightarrow> expr \<Rightarrow> expr \<Rightarrow> nat \<Rightarrow> expr \<Rightarrow> compiler \<Rightarrow> (nat \<times> compiler) run" where
  "compile_assign_index g obj ix ln value s =
     seq (g_expr g obj s) (\<lambda>(obj_reg, s).
     seq (g_expr g ix s) (\<lambda>(idx_reg, s).
     seq (g_expr g value s) (\<lambda>(value_reg, s).
     let s = set_line ln s;
         s = emits (ISetIndex obj_reg idx_reg value_reg) s
     in Inr (value_reg, s))))"

definition compile_assign_name ::
  "generator \<Rightarrow> token \<Rightarrow> expr \<Rightarrow> compiler \<Rightarrow> (nat \<times> compiler) run" where
  "compile_assign_name g t value s =
     seq (identifier_name t) (\<lambda>name.
       case resolve_variable name s of
         (VLocal dst is_const, s) \<Rightarrow>
           if is_const then
             let s = report_error_on (str ''cannot assign to constant '' @ quoted name) t s
             in g_expr g value s
           else
             seq (g_expr g value s) (\<lambda>(value_reg, s).
               if value_reg \<noteq> dst then
                 let s = emits (IMove dst value_reg) s;
                     s = free_regs_to value_reg s
                 in Inr (dst, s)
               else Inr (dst, s))
       | (VUpvalue ix, s) \<Rightarrow>
           seq (g_expr g value s) (\<lambda>(value_reg, s).
           let s = emits (ISetUpval ix value_reg) s
           in Inr (value_reg, s))
       | (VGlobal, s) \<Rightarrow>
           seq (g_expr g value s) (\<lambda>(value_reg, s).
           let (name_const, s) = string_constant name s;
               s = emits (if scope_depth (cur s) > 0 then IAssignGlobal name_const value_reg
                          else ISetGlobal name_const value_reg) s
           in Inr (value_reg, s)))"

definition compile_assign :: "generator \<Rightarrow> expr \<Rightarrow> expr \<Rightarrow> compiler \<Rightarrow> (nat \<times> compiler) run" where
  "compile_assign g target value s =
     (case ekind target of
        EIndex obj ix ln \<Rightarrow> compile_assign_index g obj ix ln value s
      | EIdentifier t \<Rightarrow> compile_assign_name g t value s
      | other \<Rightarrow>
          Inr (error_reg
            (report_error_here (str ''unsupported assignment target: '' @ debug_kind s other) s)))"

definition compile_call ::
  "generator \<Rightarrow> expr \<Rightarrow> expr list \<Rightarrow> nat \<Rightarrow> compiler \<Rightarrow> (nat \<times> compiler) run" where
  "compile_call g callee args ln s =
     (case ekind callee of
        EGet obj method \<Rightarrow>
          (case ekind obj of
             EParent keyword \<Rightarrow> compile_invoke_super g keyword method args s
           | _ \<Rightarrow> compile_invoke g obj method args s)
      | EParent keyword \<Rightarrow> compile_super_ctor_call g keyword args s
      | _ \<Rightarrow>
          let mark = next_reg (cur s)
          in seq (g_expr g callee s) (\<lambda>(raw_func_reg, s).
             let (func_reg, s) = fresh_copy mark raw_func_reg s
             in seq (compile_args g func_reg None args 0 s) (\<lambda>(num_args, s).
                let s = set_line ln s;
                    s = emits (ICall func_reg func_reg num_args) s
                in seq (free_after func_reg s) (\<lambda>s. Inr (func_reg, s)))))"

definition compile_anonymous :: "generator \<Rightarrow> decl \<Rightarrow> compiler \<Rightarrow> (nat \<times> compiler) run" where
  "compile_anonymous g d s =
     (case dkind d of
        DFunction t params body is_variadic \<Rightarrow>
          seq (compile_function_prototype g t params body is_variadic False s) (\<lambda>(f, s).
          Inr (closure f s))
      | _ \<Rightarrow> Inl Invalid)"

definition compile_get :: "generator \<Rightarrow> expr \<Rightarrow> token \<Rightarrow> compiler \<Rightarrow> (nat \<times> compiler) run" where
  "compile_get g obj field s =
     seq (identifier_name field) (\<lambda>field_name.
     let s = check_private_access field_name (is_self obj \<or> is_parent obj) field s
     in seq (compile_receiver g obj s) (\<lambda>(obj_reg, s).
        let (dst, s) = alloc_reg s;
            (fname_const, s) = string_constant field_name s;
            s = set_line (line field) s;
            s = emits (IGetField dst obj_reg fname_const) s
        in Inr (dst, s)))"

definition compile_set ::
  "generator \<Rightarrow> expr \<Rightarrow> token \<Rightarrow> expr \<Rightarrow> compiler \<Rightarrow> (nat \<times> compiler) run" where
  "compile_set g obj field value s =
     seq (identifier_name field) (\<lambda>field_name.
     let s = check_private_access field_name (is_self obj \<or> is_parent obj) field s
     in seq (compile_receiver g obj s) (\<lambda>(obj_reg, s).
        seq (g_expr g value s) (\<lambda>(value_reg, s).
        let (fname_const, s) = string_constant field_name s;
            s = set_line (line field) s;
            s = emits (ISetField obj_reg fname_const value_reg) s
        in Inr (value_reg, s))))"

text \<open>An index and a range: two operands, of which the first gives the result register.\<close>

definition compile_pair ::
  "generator \<Rightarrow> (nat \<Rightarrow> nat \<Rightarrow> nat \<Rightarrow> instr) \<Rightarrow> expr \<Rightarrow> expr \<Rightarrow> nat \<Rightarrow> compiler \<Rightarrow>
    (nat \<times> compiler) run" where
  "compile_pair g instr obj ix ln s =
     (let mark = next_reg (cur s)
      in seq (g_expr g obj s) (\<lambda>(obj_reg, s).
         let (dst, s) = result_reg mark obj_reg s;
             idx_mark = next_reg (cur s)
         in seq (g_expr g ix s) (\<lambda>(idx_reg, s).
            let s = set_line ln s;
                s = emits (instr dst obj_reg idx_reg) s
            in seq (u8_add s dst 1) (\<lambda>after_dst.
               let s = free_regs_to (max idx_mark after_dst) s in Inr (dst, s)))))"

definition compile_slice ::
  "generator \<Rightarrow> expr \<Rightarrow> expr \<Rightarrow> expr \<Rightarrow> nat \<Rightarrow> compiler \<Rightarrow> (nat \<times> compiler) run" where
  "compile_slice g obj lo hi ln s =
     (let mark = next_reg (cur s)
      in seq (g_expr g obj s) (\<lambda>(obj_reg, s).
         let (dst, s) = result_reg mark obj_reg s;
             operand_mark = next_reg (cur s)
         in seq (g_expr g lo s) (\<lambda>(lo_reg, s).
            seq (g_expr g hi s) (\<lambda>(hi_reg, s).
            let s = set_line ln s;
                s = emits (IGetSlice dst obj_reg lo_reg hi_reg) s
            in seq (u8_add s dst 1) (\<lambda>after_dst.
               let s = free_regs_to (max operand_mark after_dst) s in Inr (dst, s))))))"

definition compile_expression :: "generator \<Rightarrow> expr \<Rightarrow> compiler \<Rightarrow> (nat \<times> compiler) run" where
  "compile_expression g e s =
     (case ekind e of
        ENil \<Rightarrow> let (dst, s) = alloc_reg s; s = emits (ILoadNil dst) s in Inr (dst, s)
      | EBool b \<Rightarrow> let (dst, s) = alloc_reg s; s = emits (ILoadBool dst b) s in Inr (dst, s)
      | EInteger i \<Rightarrow> Inr (load_pooled (add_constant (KNumber (f64_of_int i))) s)
      | EFloat f \<Rightarrow> Inr (load_pooled (add_constant (KNumber f)) s)
      | ELiteral t \<Rightarrow> Inr (load_pooled (string_constant t) s)
      | EBigNumber n \<Rightarrow> Inr (load_pooled (object_constant (OBigInt n)) s)
      | EIdentifier t \<Rightarrow> compile_identifier t s
      | EUnary op a ln \<Rightarrow> compile_unary g op a ln s
      | EBinary lhs op rhs ln \<Rightarrow> compile_binary g lhs op rhs ln s
      | ELogical lhs op rhs ln \<Rightarrow> compile_logical g lhs op rhs ln s
      | ECircuit lhs op rhs \<Rightarrow> compile_circuit g lhs op rhs s
      | EGrouping a \<Rightarrow> g_expr g a s
      | ECondition c t f \<Rightarrow> compile_condition g c t f s
      | EAssign target value \<Rightarrow> compile_assign g target value s
      | ECall callee args ln \<Rightarrow> compile_call g callee args ln s
      | EAnonymous d \<Rightarrow> compile_anonymous g d s
      | EList elements \<Rightarrow> compile_list_literal g elements s
      | EDict keys values \<Rightarrow> compile_dict_literal g keys values s
      | ESelf keyword \<Rightarrow> Inr (compile_self_reg keyword s)
      | EParent keyword \<Rightarrow>
          Inr (error_reg (report_error_on
            (quoted (str ''parent'') @ str '' must be followed by '' @ quoted (str ''.member'') @
              str '' or '' @ quoted (str ''.member(...)'')) keyword s))
      | EGet obj field \<Rightarrow> compile_get g obj field s
      | ESet obj field value \<Rightarrow> compile_set g obj field value s
      | EIndex obj ix ln \<Rightarrow> compile_pair g IGetIndex obj ix ln s
      | ESlice obj lo hi ln \<Rightarrow> compile_slice g obj lo hi ln s
      | ERange lower upper ln \<Rightarrow> compile_pair g IMakeRange lower upper ln s
      | ECompoundAssign t op v ln \<Rightarrow> Inl Invalid
      | EUpdate t op ln \<Rightarrow> Inl Invalid
      | EInterpolation segments \<Rightarrow> Inl Invalid
      | EShorthand name \<Rightarrow> Inl Invalid
      | _ \<Rightarrow> Inl Invalid)"

end
