(* ===== verification/Codegen.thy ===== *)
theory Codegen
  imports Codegen_Expr
begin

text \<open>
  The declarations and statements of \<open>src/compiler/compiler.rs\<close>, the knot that ties the
  generator, and the compilation of a program.
\<close>

section \<open>Functions as declarations\<close>

definition nil_local :: "ustring \<Rightarrow> nat \<Rightarrow> compiler \<Rightarrow> nat \<times> compiler" where
  "nil_local name d s =
     (let (r, s) = alloc_reg s;
          s = emits (ILoadNil r) s;
          s = push_local name r False d s
      in (r, s))"

definition function_name_token :: "stmt \<Rightarrow> token option" where
  "function_name_token st =
     (case skind st of
        SDecl d \<Rightarrow> (case dkind d of DFunction t ps body v \<Rightarrow> Some t | _ \<Rightarrow> None)
      | _ \<Rightarrow> None)"

primrec hoist_from :: "nat \<Rightarrow> ustring list \<Rightarrow> stmt list \<Rightarrow> compiler \<Rightarrow> compiler run" where
  "hoist_from d reserved [] s = Inr s"
| "hoist_from d reserved (st # sts) s =
     (case function_name_token st of
        None \<Rightarrow> hoist_from d reserved sts s
      | Some t \<Rightarrow>
          seq (identifier_name t) (\<lambda>name.
            if name \<in> set reserved then hoist_from d reserved sts s
            else
              let (r, s) = nil_local name d s
              in hoist_from d (reserved @ [name]) sts s))"

definition hoist_function_decls :: "stmt list \<Rightarrow> compiler \<Rightarrow> compiler run" where
  "hoist_function_decls statements s = hoist_from (scope_depth (cur s)) [] statements s"

definition declare_function :: "ustring \<Rightarrow> token \<Rightarrow> compiler \<Rightarrow> compiler" where
  "declare_function name t s =
     (if is_repl s then s
      else
        let d = scope_depth (cur s)
        in if (name, d) \<in> set (declared_functions (cur s)) then
             report_error_on
               (str ''multiple declaration for function '' @ quoted name @ str '' found'') t s
           else on_cur (declared_functions_update (\<lambda>fs. fs @ [(name, d)])) s)"

definition function_slot :: "ustring \<Rightarrow> compiler \<Rightarrow> nat option \<times> compiler" where
  "function_slot name s =
     (if at_module_top_level s then (None, s)
      else
        (case declared_here name s of
           Some l \<Rightarrow> (Some (lreg l), s)
         | None \<Rightarrow> let (r, s) = nil_local name (scope_depth (cur s)) s in (Some r, s)))"

definition compile_function_decl ::
  "generator \<Rightarrow> token \<Rightarrow> expr list \<Rightarrow> stmt \<Rightarrow> bool \<Rightarrow> compiler \<Rightarrow> compiler run" where
  "compile_function_decl g t params body is_variadic s =
     seq (identifier_name t) (\<lambda>name.
     let s = declare_function name t s;
         (local_reg, s) = function_slot name s
     in seq (compile_function_prototype g t params body is_variadic False s) (\<lambda>(f, s).
        let (const_idx, s) = object_constant (OFunction f) s
        in case local_reg of
             Some dst \<Rightarrow> let s = emits (IClosure dst const_idx) s in Inr s
           | None \<Rightarrow>
               let mark = next_reg (cur s);
                   (dst, s) = alloc_reg s;
                   s = emits (IClosure dst const_idx) s;
                   (name_const, s) = string_constant name s;
                   s = emits (ISetGlobal name_const dst) s;
                   s = free_regs_to mark s
               in Inr s))"

section \<open>Classes\<close>

text \<open>The end of a block or a class: its locals go, and what closures captured of them is closed.\<close>

definition end_scope :: "nat \<Rightarrow> nat \<Rightarrow> compiler \<Rightarrow> compiler" where
  "end_scope mark locals_mark s =
     (let any_captured = list_ex captured (drop locals_mark (locals (cur s)));
          s = on_cur (locals_update (take locals_mark)) s;
          s = (if any_captured then emits (ICloseUpvalues mark) s else s)
      in free_regs_to mark s)"

text \<open>The name and the initial value of a property declaration.\<close>

definition property :: "decl \<Rightarrow> (token \<times> expr \<times> bool) option" where
  "property d =
     (case dkind d of DProperty t value h is_static c \<Rightarrow> Some (t, value, is_static) | _ \<Rightarrow> None)"

definition is_own_field :: "decl \<Rightarrow> bool" where
  "is_own_field d = (case property d of Some (t, value, is_static) \<Rightarrow> \<not> is_static | None \<Rightarrow> False)"

definition init_field :: "generator \<Rightarrow> nat \<Rightarrow> decl \<Rightarrow> compiler \<Rightarrow> compiler run" where
  "init_field g self_reg d s =
     (case property d of
        None \<Rightarrow> Inr s
      | Some (fname, value, is_static) \<Rightarrow>
          let mark = next_reg (cur s)
          in seq (g_expr g value s) (\<lambda>(value_reg, s).
             seq (identifier_name fname) (\<lambda>name.
             let (fname_const, s) = string_constant name s;
                 s = emits (ISetField self_reg fname_const value_reg) s;
                 s = free_regs_to mark s
             in Inr s)))"

definition compile_field_initializer ::
  "generator \<Rightarrow> token \<Rightarrow> decl list \<Rightarrow> compiler \<Rightarrow> (obj_function \<times> compiler) run" where
  "compile_field_initializer g class_token own_fields s =
     (let (self_reg, s) = alloc_reg (push_scope s);
          s = push_local (str ''self'') self_reg True 0 s
      in seq (each (init_field g self_reg) own_fields s) (\<lambda>s.
         seq (close_function s) (\<lambda>(finished, s).
         seq (identifier_name class_token) (\<lambda>class_name.
         Inr (function_of (str ''@'' @ class_name @ str ''_init_fields'') 1 False True
                (Some class_name) finished s, s)))))"

definition declare_field :: "nat \<Rightarrow> ustring \<Rightarrow> compiler \<Rightarrow> compiler" where
  "declare_field class name s =
     (let (fname_const, s) = string_constant name s;
          s = emits (IDeclareField class fname_const) s
      in s)"

primrec property_names :: "decl list \<Rightarrow> ustring list run" where
  "property_names [] = Inr []"
| "property_names (d # ds) =
     (case property d of
        None \<Rightarrow> property_names ds
      | Some (t, value, is_static) \<Rightarrow>
          seq (identifier_name t) (\<lambda>n. seq (property_names ds) (\<lambda>ns. Inr (n # ns))))"

text \<open>The fields that the constructors assign through \<open>self\<close> without declaring them.\<close>

definition constructor_fields :: "decl \<Rightarrow> ustring list \<Rightarrow> ustring list run" where
  "constructor_fields d out =
     (if is_method (str ''@new'') d then
        (case dkind d of
           DMethod t ps body v is_static \<Rightarrow>
             if is_static then Inr out else collect_self_fields_stmt body out
         | _ \<Rightarrow> Inr out)
      else Inr out)"

text \<open>
  The literal defaults that the fields open with are given to the class; the result is the
  fields from the first other one on.
\<close>

primrec default_fields :: "nat \<Rightarrow> decl list \<Rightarrow> compiler \<Rightarrow> (decl list \<times> compiler) run" where
  "default_fields class [] s = Inr ([], s)"
| "default_fields class (d # ds) s =
     (case property d of
        None \<Rightarrow> Inr (d # ds, s)
      | Some (fname, value, is_static) \<Rightarrow>
          (case literal_default value (heap_of s) of
             (None, h) \<Rightarrow> Inr (d # ds, s\<lparr>heap_of := h\<rparr>)
           | (Some literal, h) \<Rightarrow>
               seq (identifier_name fname) (\<lambda>name.
               let s = s\<lparr>heap_of := h\<rparr>;
                   (name_const, s) = string_constant name s;
                   (value_const, s) = add_constant literal s;
                   s = emits (ISetFieldDefault class name_const value_const) s
               in default_fields class ds s)))"

definition install_field_init :: "generator \<Rightarrow> token \<Rightarrow> nat \<Rightarrow> decl list \<Rightarrow> compiler \<Rightarrow> compiler run" where
  "install_field_init g name class computed s =
     (if computed = [] then Inr s
      else
        seq (compile_field_initializer g name computed s) (\<lambda>(f, s).
        let (freg, s) = closure f s;
            s = emits (ISetFieldInit class freg) s;
            s = free_regs_to freg s
        in Inr s))"

definition static_field :: "generator \<Rightarrow> nat \<Rightarrow> decl \<Rightarrow> compiler \<Rightarrow> compiler run" where
  "static_field g class d s =
     (case property d of
        Some (pname, value, True) \<Rightarrow>
          let mark = next_reg (cur s)
          in seq (g_expr g value s) (\<lambda>(vreg, s).
             seq (identifier_name pname) (\<lambda>name.
             let (pname_const, s) = string_constant name s;
                 s = emits (IDeclareStatic class pname_const vreg) s;
                 s = free_regs_to mark s
             in Inr s))
      | _ \<Rightarrow> Inr s)"

primrec check_method_names :: "ustring \<Rightarrow> ustring list \<Rightarrow> decl list \<Rightarrow> compiler \<Rightarrow> compiler run" where
  "check_method_names class_name seen [] s = Inr s"
| "check_method_names class_name seen (m # ms) s =
     (case dkind m of
        DMethod t ps body v is_static \<Rightarrow>
          seq (identifier_name t) (\<lambda>n.
            if n \<in> set seen then
              let s = report_error_on
                    (str ''multiple declaration for method '' @ quoted n @ str '' found in class '' @
                      quoted class_name) t s
              in check_method_names class_name seen ms s
            else check_method_names class_name (seen @ [n]) ms s)
      | _ \<Rightarrow> check_method_names class_name seen ms s)"

definition install_method :: "generator \<Rightarrow> ustring \<Rightarrow> nat \<Rightarrow> decl \<Rightarrow> compiler \<Rightarrow> compiler run" where
  "install_method g class_name class m s =
     (case dkind m of
        DMethod t params body is_variadic is_static \<Rightarrow>
          seq (compile_method_prototype g t params body is_variadic is_static class_name s) (\<lambda>(f, s).
          let (mreg, s) = closure f s
          in seq (identifier_name t) (\<lambda>name.
             let (mname_const, s) = string_constant name s;
                 s = emits (if is_static then IDeclareStatic class mname_const mreg
                            else ISetMethod class mname_const mreg) s;
                 s = free_regs_to mreg s
             in Inr s))
      | _ \<Rightarrow> Inr s)"

definition optional_expr ::
  "generator \<Rightarrow> expr option \<Rightarrow> compiler \<Rightarrow> (nat option \<times> compiler) run" where
  "optional_expr g e s =
     (case e of
        None \<Rightarrow> Inr (None, s)
      | Some e \<Rightarrow> seq (g_expr g e s) (\<lambda>(r, s). Inr (Some r, s)))"

definition push_superclass :: "nat option \<Rightarrow> compiler \<Rightarrow> compiler" where
  "push_superclass r s =
     (case r of
        None \<Rightarrow> s
      | Some sreg \<Rightarrow> push_local (str ''@superclass'') sreg True (scope_depth (cur s)) s)"

text \<open>The fields of a class: declared, given their literal defaults, the rest left to compute.\<close>

definition class_fields ::
  "generator \<Rightarrow> token \<Rightarrow> nat \<Rightarrow> decl list \<Rightarrow> decl list \<Rightarrow> compiler \<Rightarrow> compiler run" where
  "class_fields g name class properties methods s =
     (let own_fields = filter is_own_field properties
      in seq (property_names own_fields) (\<lambda>explicit_names.
         let s = fold (declare_field class) explicit_names s
         in seq (each constructor_fields methods []) (\<lambda>assigned.
            let implicit_names = filter (\<lambda>n. n \<notin> set explicit_names) assigned;
                s = fold (declare_field class) implicit_names s
            in seq (default_fields class own_fields s) (\<lambda>(computed, s).
               install_field_init g name class computed s))))"

definition compile_class ::
  "generator \<Rightarrow> token \<Rightarrow> expr option \<Rightarrow> decl list \<Rightarrow> decl list \<Rightarrow> compiler \<Rightarrow> compiler run" where
  "compile_class g name superclass properties methods s =
     seq (identifier_name name) (\<lambda>class_name.
     let mark = next_reg (cur s)
     in seq (optional_expr g superclass s) (\<lambda>(superclass_reg, s).
        let (dst, s) = alloc_reg s;
            (name_const, s) = string_constant class_name s;
            s = set_line (line name) s;
            s = emits (IMakeClass dst name_const superclass_reg) s;
            locals_mark = length (locals (cur s));
            s = push_superclass superclass_reg s
        in seq (class_fields g name dst properties methods s) (\<lambda>s.
           seq (each (static_field g dst) properties s) (\<lambda>s.
           seq (check_method_names class_name [] methods s) (\<lambda>s.
           seq (each (install_method g class_name dst) methods s) (\<lambda>s.
           let s = emits (IFinalizeClass dst) s;
               s = emits (ISetGlobal name_const dst) s;
               s = end_scope mark locals_mark s
           in Inr s))))))"

primrec check_extension_methods :: "decl list \<Rightarrow> compiler \<Rightarrow> compiler run" where
  "check_extension_methods [] s = Inr s"
| "check_extension_methods (m # ms) s =
     (case dkind m of
        DMethod t ps body v is_static \<Rightarrow>
          if is_static then check_extension_methods ms s
          else
            seq (identifier_name t) (\<lambda>n.
              let s = report_error_on
                    (str ''extension method '' @ quoted n @
                      str '' must be declared '' @ quoted (str ''static'') @
                      str '' and receive the instance explicitly as their own first parameter if desired'')
                    t s
              in check_extension_methods ms s)
      | _ \<Rightarrow> check_extension_methods ms s)"

definition extend_method :: "generator \<Rightarrow> nat \<Rightarrow> decl \<Rightarrow> compiler \<Rightarrow> compiler run" where
  "extend_method g target_reg m s =
     (case dkind m of
        DMethod t params body is_variadic is_static \<Rightarrow>
          seq (compile_function_prototype g t params body is_variadic True s) (\<lambda>(f, s).
          let (mreg, s) = closure f s
          in seq (identifier_name t) (\<lambda>name.
             let (mname_const, s) = string_constant name s;
                 s = emits (ISetMethod target_reg mname_const mreg) s;
                 s = free_regs_to mreg s
             in Inr s))
      | _ \<Rightarrow> Inr s)"

definition compile_extension_decl ::
  "generator \<Rightarrow> token \<Rightarrow> expr option \<Rightarrow> decl list \<Rightarrow> decl list \<Rightarrow> compiler \<Rightarrow> compiler run" where
  "compile_extension_decl g name target properties methods s =
     seq (identifier_name name) (\<lambda>ext_name.
     seq (or_invalid target) (\<lambda>target_expr.
     let s = (if properties = [] then s
              else
                report_error_on
                  (str ''extension '' @ quoted ext_name @
                    str '' can only declare static methods but not fields'') name s)
     in seq (check_extension_methods methods s) (\<lambda>s.
        let mark = next_reg (cur s)
        in seq (g_expr g target_expr s) (\<lambda>(target_reg, s).
           seq (each (extend_method g target_reg) methods s) (\<lambda>s.
           let s = free_regs_to mark s in Inr s)))))"

definition compile_class_decl ::
  "generator \<Rightarrow> token \<Rightarrow> expr option \<Rightarrow> decl list \<Rightarrow> decl list \<Rightarrow> bool \<Rightarrow> compiler \<Rightarrow> compiler run" where
  "compile_class_decl g name superclass properties methods is_extension s =
     (if is_extension then compile_extension_decl g name superclass properties methods s
      else compile_class g name superclass properties methods s)"

section \<open>\<open>using\<close>\<close>

definition const_keys :: "when_arm \<Rightarrow> jump_key list" where
  "const_keys arm = List.map_filter expr_as_jump_key (labels arm)"

definition dynamic_labels :: "when_arm \<Rightarrow> expr list" where
  "dynamic_labels arm = filter (\<lambda>l. expr_as_jump_key l = None) (labels arm)"

text \<open>One label compared with the subject; the result is the jump taken when they are equal.\<close>

definition check_label :: "generator \<Rightarrow> nat \<Rightarrow> expr \<Rightarrow> compiler \<Rightarrow> (nat \<times> compiler) run" where
  "check_label g subj label s =
     (let mark = next_reg (cur s)
      in seq (g_expr g label s) (\<lambda>(label_reg, s).
         let (eq_reg, s) = alloc_reg s;
             s = emits (IBinary OEq eq_reg subj label_reg) s;
             (jump_site, s) = emit_jump_if_true eq_reg s;
             s = free_regs_to mark s
         in Inr (jump_site, s)))"

text \<open>
  The place an instance with \<open>@eq\<close> is sent to, where it meets every label in order; the
  jumps of each arm are added to the ones it has.
\<close>

definition eq_instance_section ::
  "generator \<Rightarrow> nat \<Rightarrow> nat \<Rightarrow> when_arm list \<Rightarrow> nat list list \<Rightarrow> compiler \<Rightarrow>
    (nat list list \<times> compiler) run" where
  "eq_instance_section g subj table_idx arms dyn_jumps s =
     (if list_ex (\<lambda>arm. const_keys arm \<noteq> []) arms then
        let (skip, s) = emit_jump s
        in seq (table_insert table_idx JEqInstance (code_len s) s) (\<lambda>s.
           seq (collect (\<lambda>arm. collect (check_label g subj) (labels arm)) arms s) (\<lambda>(eq_jumps, s).
           seq (patch_jump skip s) (\<lambda>s.
           Inr (map2 (@) dyn_jumps eq_jumps, s))))
      else Inr (dyn_jumps, s))"

definition compile_arm ::
  "generator \<Rightarrow> nat \<Rightarrow> when_arm \<times> nat list \<Rightarrow> compiler \<Rightarrow> (nat \<times> compiler) run" where
  "compile_arm g table_idx arm_jumps s =
     (case arm_jumps of (arm, dyn_jumps) \<Rightarrow>
        let group_start = code_len s
        in seq (each (\<lambda>key. table_insert table_idx key group_start) (const_keys arm) s) (\<lambda>s.
           seq (each patch_jump dyn_jumps s) (\<lambda>s.
           seq (g_stmt g (arm_body arm) s) (\<lambda>s. Inr (emit_jump s)))))"

definition compile_using ::
  "generator \<Rightarrow> expr \<Rightarrow> when_arm list \<Rightarrow> stmt option \<Rightarrow> compiler \<Rightarrow> compiler run" where
  "compile_using g subject arms dflt s =
     (let stmt_mark = next_reg (cur s)
      in seq (g_expr g subject s) (\<lambda>(raw_subject, s).
         let (subj, s) = fresh_copy stmt_mark raw_subject s
         in seq (free_after subj s) (\<lambda>s.
            let (table_idx, s) = add_jump_table s;
                s = emits (IUsingJump subj table_idx) s
            in seq (collect (\<lambda>arm. collect (check_label g subj) (dynamic_labels arm)) arms s)
                 (\<lambda>(dyn_jumps, s).
               seq (eq_instance_section g subj table_idx arms dyn_jumps s) (\<lambda>(arm_jumps, s).
               seq (through_opt (map_option (g_stmt g) dflt) s) (\<lambda>s.
               let (after_default_jump, s) = emit_jump s
               in seq (collect (compile_arm g table_idx) (zip arms arm_jumps) s) (\<lambda>(end_jumps, s).
                  seq (patch_jump after_default_jump s) (\<lambda>s.
                  seq (each patch_jump end_jumps s) (\<lambda>s.
                  let s = free_regs_to stmt_mark s in Inr s)))))))))"

section \<open>Errors raised and caught\<close>

definition compile_raise :: "generator \<Rightarrow> expr \<Rightarrow> compiler \<Rightarrow> compiler run" where
  "compile_raise g e s = seq (g_expr g e s) (\<lambda>(r, s). let s = emits (IRaise r) s in Inr s)"

definition assert_message ::
  "generator \<Rightarrow> nat \<Rightarrow> expr option \<Rightarrow> compiler \<Rightarrow> compiler run" where
  "assert_message g expected_msg_reg message s =
     (case message of
        Some m \<Rightarrow>
          seq (g_expr g m s) (\<lambda>(mreg, s). let s = move_to expected_msg_reg mreg s in Inr s)
      | None \<Rightarrow>
          let (default_const, s) = string_constant (str ''Assertion failed'') s;
              s = emits (ILoadConst expected_msg_reg default_const) s
          in Inr s)"

definition compile_assert :: "generator \<Rightarrow> expr \<Rightarrow> expr option \<Rightarrow> compiler \<Rightarrow> compiler run" where
  "compile_assert g condition message s =
     (let mark = next_reg (cur s)
      in seq (g_expr g condition s) (\<lambda>(cond_reg, s).
         let (skip, s) = emit_jump_if_true cond_reg s;
             s = free_regs_to mark s;
             (class_reg, s) = alloc_reg s;
             (class_name_const, s) = string_constant (str ''AssertError'') s;
             s = emits (IGetGlobal class_reg class_name_const) s
         in seq (u8_add s class_reg 1) (\<lambda>expected_msg_reg.
            seq (assert_message g expected_msg_reg message s) (\<lambda>s.
            seq (free_after expected_msg_reg s) (\<lambda>s.
            let s = emits (ICall class_reg class_reg 1) s;
                s = emits (IRaise class_reg) s;
                s = free_regs_to mark s
            in patch_jump skip s)))))"

definition catch_variable ::
  "expr option \<Rightarrow> compiler \<Rightarrow> ((nat \<times> ustring) option \<times> compiler) run" where
  "catch_variable var_expr s =
     (case var_expr of
        None \<Rightarrow> Inr (None, s)
      | Some e \<Rightarrow>
          (case ekind e of
             EIdentifier t \<Rightarrow>
               seq (identifier_name t) (\<lambda>name.
               let (r, s) = nil_local name (scope_depth (cur s)) s in Inr (Some (r, name), s))
           | _ \<Rightarrow> Inl Invalid))"

definition catch_global :: "(nat \<times> ustring) option \<Rightarrow> compiler \<Rightarrow> compiler" where
  "catch_global var_reg s =
     (case var_reg of
        Some (r, name) \<Rightarrow>
          if is_repl s \<and> scope_depth (cur s) = 0 then
            let (name_const, s) = string_constant name s;
                s = emits (ISetGlobal name_const r) s
            in s
          else s
      | None \<Rightarrow> s)"

definition catch_error_block ::
  "generator \<Rightarrow> (nat \<times> ustring) option \<Rightarrow> stmt \<Rightarrow> compiler \<Rightarrow> compiler run" where
  "catch_error_block g var_reg err_stmt s =
     seq (or_invalid var_reg) (\<lambda>(r, name).
     let mark = next_reg (cur s);
         (nil_reg, s) = alloc_reg s;
         s = emits (ILoadNil nil_reg) s;
         (cond_reg, s) = alloc_reg s;
         s = emits (IBinary ONeq cond_reg r nil_reg) s;
         (skip, s) = emit_jump_if_false cond_reg s;
         s = free_regs_to mark s
     in seq (g_stmt g err_stmt s) (patch_jump skip))"

definition compile_catch ::
  "generator \<Rightarrow> stmt \<Rightarrow> stmt option \<Rightarrow> expr option \<Rightarrow> compiler \<Rightarrow> compiler run" where
  "compile_catch g body error_block var_expr s =
     seq (catch_variable var_expr s) (\<lambda>(var_reg, s).
     let (push_at, s) = emit (IPushCatch (map_option fst var_reg) 0) s;
         s = on_cur (open_catches_update (\<lambda>n. n + 1)) s
     in seq (g_stmt g body s) (\<lambda>s.
        let s = on_cur (open_catches_update (\<lambda>n. n - 1)) s;
            s = emits IPopCatch s
        in seq (patch_jump push_at s) (\<lambda>s.
           let s = catch_global var_reg s
           in through_opt (map_option (catch_error_block g var_reg) error_block) s)))"

section \<open>Imports\<close>

text \<open>An import rebinds a name of the same scope, it does not declare it twice.\<close>

definition rebind :: "ustring \<Rightarrow> nat \<Rightarrow> nat \<Rightarrow> local_var list \<Rightarrow> local_var list option" where
  "rebind name d r ls =
     (case position (\<lambda>l. lname l = name) (takeWhile (\<lambda>l. depth l = d) (rev ls)) of
        Some i \<Rightarrow> Some (let p = length ls - 1 - i in ls[p := (ls ! p)\<lparr>lreg := r\<rparr>])
      | None \<Rightarrow> None)"

definition declare_import_binding :: "ustring \<Rightarrow> nat \<Rightarrow> bool \<Rightarrow> compiler \<Rightarrow> compiler" where
  "declare_import_binding name value_reg exported s =
     (if (is_repl s \<and> scope_depth (cur s) = 0) \<or> exported then
        let (name_const, s) = string_constant name s;
            s = emits (ISetGlobal name_const value_reg) s
        in s
      else
        (case rebind name (scope_depth (cur s)) value_reg (locals (cur s)) of
           Some ls \<Rightarrow> on_cur (locals_update (\<lambda>_. ls)) s
         | None \<Rightarrow> push_local name value_reg True (scope_depth (cur s)) s))"

definition import_element :: "nat \<Rightarrow> bool \<Rightarrow> expr \<Rightarrow> compiler \<Rightarrow> compiler run" where
  "import_element mod_reg exported element s =
     (case ekind element of
        EIdentifier t \<Rightarrow>
          seq (identifier_name t) (\<lambda>field_name.
          let (dst, s) = alloc_reg s;
              (fname_const, s) = string_constant field_name s;
              s = set_line (line t) s;
              s = emits (IGetField dst mod_reg fname_const) s;
              s = declare_import_binding field_name dst exported s
          in Inr s)
      | _ \<Rightarrow> Inl Invalid)"

definition compile_import ::
  "ustring \<Rightarrow> expr \<Rightarrow> expr list \<Rightarrow> bool \<Rightarrow> bool \<Rightarrow> compiler \<Rightarrow> compiler run" where
  "compile_import path name elements imports_all exported s =
     (let (path_const, s) = string_constant path s;
          (importer_const, s) = string_constant (source_path s) s;
          (mod_reg, s) = alloc_reg s;
          s = emits (IImport mod_reg path_const importer_const) s
      in if imports_all then
           let s = emits (IImportAll mod_reg exported) s;
               s = free_regs_to mod_reg s
           in Inr s
         else if elements \<noteq> [] then each (import_element mod_reg exported) elements s
         else
           (case ekind name of
              EIdentifier t \<Rightarrow>
                seq (identifier_name t) (\<lambda>bind_name.
                let (name_const, s) = string_constant bind_name s;
                    (dst, s) = alloc_reg s;
                    s = emits (IMakePromoted dst mod_reg name_const) s;
                    s = declare_import_binding bind_name dst exported s
                in Inr s)
            | _ \<Rightarrow> Inl Invalid))"

section \<open>Loops\<close>

definition on_last_loop :: "(loop_context \<Rightarrow> loop_context) \<Rightarrow> compiler \<Rightarrow> compiler" where
  "on_last_loop f s = on_cur (loops_update (\<lambda>ls. butlast ls @ [f (last ls)])) s"

definition compile_while :: "generator \<Rightarrow> expr \<Rightarrow> stmt \<Rightarrow> compiler \<Rightarrow> compiler run" where
  "compile_while g condition body s =
     (let loop_start = code_len s;
          mark = next_reg (cur s)
      in seq (g_expr g condition s) (\<lambda>(cond_reg, s).
         let (exit_jump, s) = emit_jump_if_false cond_reg s;
             s = free_regs_to mark s;
             s = on_cur (loops_update (\<lambda>ls. ls @
                   [\<lparr>continue_target = loop_start, break_jumps = [], body_mark = mark,
                     continue_locales = [], loop_catches = open_catches (cur s)\<rparr>])) s
         in seq (g_stmt g body s) (\<lambda>s.
            seq (emit_loop loop_start s) (\<lambda>(back, s).
            seq (patch_jump exit_jump s) (\<lambda>s.
            if loops (cur s) = [] then Inl Invalid
            else each patch_jump (break_jumps (last (loops (cur s))))
                   (on_cur (loops_update butlast) s))))))"

text \<open>What a \<open>break\<close> and a \<open>continue\<close> undo before they jump.\<close>

definition leave_loop_body :: "compiler \<Rightarrow> compiler" where
  "leave_loop_body s =
     (let mark = body_mark (last (loops (cur s)));
          s = (if locals_captured_from mark s then emits (ICloseUpvalues mark) s else s)
      in leave_loop_catches s)"

definition compile_break :: "token \<Rightarrow> compiler \<Rightarrow> compiler" where
  "compile_break keyword s =
     (if loops (cur s) = [] then
        report_error_on (quoted (str ''break'') @ str '' used outside of a loop'') keyword s
      else
        let s = leave_loop_body s;
            (jump_at, s) = emit_jump s
        in on_last_loop (break_jumps_update (\<lambda>js. js @ [jump_at])) s)"

definition compile_continue :: "token \<Rightarrow> compiler \<Rightarrow> compiler run" where
  "compile_continue keyword s =
     (if loops (cur s) = [] then
        Inr (report_error_on (quoted (str ''continue'') @ str '' used outside of a loop'') keyword s)
      else
        let target = continue_target (last (loops (cur s)));
            s = leave_loop_body s
        in seq (emit_loop target s)
             (\<lambda>(at, s). Inr (on_last_loop (continue_locales_update (\<lambda>js. js @ [at])) s)))"

definition fix_continue :: "compiler \<Rightarrow> compiler run" where
  "fix_continue s =
     (if loops (cur s) = [] then Inl Invalid
      else each patch_jump (continue_locales (last (loops (cur s)))) s)"

section \<open>Statements and declarations\<close>

definition compile_expression_statement :: "generator \<Rightarrow> expr \<Rightarrow> compiler \<Rightarrow> compiler run" where
  "compile_expression_statement g e s =
     (let mark = next_reg (cur s)
      in seq (g_expr g e s) (\<lambda>(val_reg, s').
         if is_repl s \<and> scope_depth (cur s) = 0 then
           let (nil_reg, s) = alloc_reg s';
               s = emits (ILoadNil nil_reg) s;
               (cond_reg, s) = alloc_reg s;
               s = emits (IBinary ONeq cond_reg val_reg nil_reg) s;
               (skip, s) = emit_jump_if_false cond_reg s;
               s = emits (IPrint val_reg) s
           in seq (patch_jump skip s) (\<lambda>s. let s = free_regs_to mark s in Inr s)
         else let s = free_regs_to mark s' in Inr s))"

definition compile_echo :: "generator \<Rightarrow> expr \<Rightarrow> compiler \<Rightarrow> compiler run" where
  "compile_echo g e s =
     (let mark = next_reg (cur s)
      in seq (g_expr g e s) (\<lambda>(r, s).
         let s = emits (IPrint r) s;
             s = free_regs_to mark s
         in Inr s))"

definition compile_block :: "generator \<Rightarrow> stmt list \<Rightarrow> compiler \<Rightarrow> compiler run" where
  "compile_block g statements s =
     (let mark = next_reg (cur s);
          locals_mark = length (locals (cur s));
          s = on_cur (scope_depth_update (\<lambda>d. d + 1)) s
      in seq (hoist_function_decls statements s) (\<lambda>s.
         seq (each (g_stmt g) statements s) (\<lambda>s.
         let s = on_cur (scope_depth_update (\<lambda>d. d - 1)) s;
             s = end_scope mark locals_mark s
         in Inr s)))"

definition compile_if ::
  "generator \<Rightarrow> expr \<Rightarrow> stmt \<Rightarrow> stmt option \<Rightarrow> compiler \<Rightarrow> compiler run" where
  "compile_if g condition then_branch else_branch s =
     (let mark = next_reg (cur s)
      in seq (g_expr g condition s) (\<lambda>(cond_reg, s).
         let (then_jump, s) = emit_jump_if_false cond_reg s;
             s = free_regs_to mark s
         in seq (g_stmt g then_branch s) (\<lambda>s.
            case else_branch of
              None \<Rightarrow> patch_jump then_jump s
            | Some else_stmt \<Rightarrow>
                let (else_jump, s) =
                      (if stmt_never_falls_through then_branch then (None, s)
                       else map_prod Some id (emit_jump s))
                in seq (patch_jump then_jump s) (\<lambda>s.
                   seq (g_stmt g else_stmt s) (\<lambda>s.
                   case else_jump of None \<Rightarrow> Inr s | Some j \<Rightarrow> patch_jump j s)))))"

definition compile_var ::
  "generator \<Rightarrow> token \<Rightarrow> expr \<Rightarrow> bool \<Rightarrow> compiler \<Rightarrow> compiler run" where
  "compile_var g t initializer is_const s =
     seq (identifier_name t) (\<lambda>name.
     if at_module_top_level s then
       seq (g_expr g initializer s) (\<lambda>(src, s).
       let (name_const, s) = string_constant name s;
           s = emits (ISetGlobal name_const src) s
       in Inr s)
     else
       let s = (if declared_here name s = None then s
                else report_error_on (quoted name @ str '' is already declared in this scope'') t s);
           mark = next_reg (cur s)
       in seq (g_expr g initializer s) (\<lambda>(raw_reg, s).
          let (r, s) = fresh_copy mark raw_reg s;
              s = push_local name r is_const (scope_depth (cur s)) s
          in Inr s))"

definition compile_statement :: "generator \<Rightarrow> stmt \<Rightarrow> compiler \<Rightarrow> compiler run" where
  "compile_statement g st s =
     (case skind st of
        SExpression e \<Rightarrow> compile_expression_statement g e s
      | SEcho e \<Rightarrow> compile_echo g e s
      | SBlock statements \<Rightarrow> compile_block g statements s
      | SIf c then_branch else_branch \<Rightarrow> compile_if g c then_branch else_branch s
      | SWhile c body \<Rightarrow> compile_while g c body s
      | SBreak keyword \<Rightarrow> Inr (compile_break keyword s)
      | SContinue keyword \<Rightarrow> compile_continue keyword s
      | SFixContinue \<Rightarrow> fix_continue s
      | SDecl d \<Rightarrow> g_decl g d s
      | SVarList list \<Rightarrow> each (g_stmt g) list s
      | SVar t initializer type_hint is_const \<Rightarrow> compile_var g t initializer is_const s
      | SReturn keyword value \<Rightarrow>
          seq (g_expr g value s) (\<lambda>(r, s). let s = emits (IReturn r) s in Inr s)
      | SUsing subject arms dflt \<Rightarrow> compile_using g subject arms dflt s
      | SRaise e \<Rightarrow> compile_raise g e s
      | SAssert c message \<Rightarrow> compile_assert g c message s
      | SCatch body error_block var_expr \<Rightarrow> compile_catch g body error_block var_expr s
      | SImport path path_tokens name elements imports_all exported \<Rightarrow>
          compile_import path name elements imports_all exported s
      | SFor key value iterable body \<Rightarrow> Inl Invalid
      | SIter initializer c steps body \<Rightarrow> Inl Invalid
      | SDoWhile body c \<Rightarrow> Inl Invalid
      | SNone \<Rightarrow> Inr s
      | STrivia t \<Rightarrow> Inr s)"

definition compile_declaration :: "generator \<Rightarrow> decl \<Rightarrow> compiler \<Rightarrow> compiler run" where
  "compile_declaration g d s =
     (case dkind d of
        DStmt st \<Rightarrow> g_stmt g st s
      | DFunction t params body is_variadic \<Rightarrow> compile_function_decl g t params body is_variadic s
      | DClass name superclass properties methods is_extension \<Rightarrow>
          compile_class_decl g name superclass properties methods is_extension s
      | _ \<Rightarrow> Inr s)"

primrec generator_at :: "nat \<Rightarrow> generator" where
  "generator_at 0 =
     \<lparr>g_expr = (\<lambda>e s. Inl Out_Of_Fuel), g_stmt = (\<lambda>st s. Inl Out_Of_Fuel),
      g_decl = (\<lambda>d s. Inl Out_Of_Fuel)\<rparr>"
| "generator_at (Suc n) =
     (let g = generator_at n
      in \<lparr>g_expr = compile_expression g, g_stmt = compile_statement g,
          g_decl = compile_declaration g\<rparr>)"

section \<open>A program\<close>

definition compiler_new ::
  "const chunk \<Rightarrow> heap \<Rightarrow> ustring \<Rightarrow> bool \<Rightarrow> const option \<Rightarrow> bool \<Rightarrow> (expr_kind \<Rightarrow> ustring) \<Rightarrow> compiler" where
  "compiler_new c h path repl m checks debug =
     snd (string_constant (str ''@new'')
       \<lparr>cur = function_scope_new\<lparr>chunk := c\<rparr>, outer = [], heap_of = h, is_repl = repl,
        source_path = path, module = m, c_errors = [], overflow_checks = checks,
        debug_kind = debug\<rparr>)"

definition is_return :: "instr \<Rightarrow> bool" where
  "is_return i = (case i of IReturn r \<Rightarrow> True | _ \<Rightarrow> False)"

definition finalize :: "compiler \<Rightarrow> obj_function \<times> compiler" where
  "finalize s =
     (let s = (if code (chunk (cur s)) \<noteq> [] \<and> is_return (last (code (chunk (cur s)))) then s
               else snd (return_nil s))
      in (\<lparr>fn_name = (if is_repl s then str ''@.repl'' else str ''@.script''), arity = 0,
           variadic = False, num_registers = max_reg (cur s), fn_chunk = chunk (cur s),
           fn_upvalues = [], fn_source_path = source_path s, globals_module = module s,
           fn_is_method = False, owning_class_name = None\<rparr>, s))"

text \<open>
  \<open>Compiler::new(..).compile()\<close>: the errors, or the function of the whole program with the heap
  that its constants refer to. The fuel is a bound on the depth of the lowered tree.
\<close>

definition compile_program ::
  "nat \<Rightarrow> decl list \<Rightarrow> compiler \<Rightarrow> (parser_error list + obj_function \<times> heap) run" where
  "compile_program fuel decls s =
     seq (each (g_decl (generator_at fuel)) decls s) (\<lambda>s.
       if c_errors s \<noteq> [] then Inr (Inl (c_errors s))
       else case finalize s of (f, s) \<Rightarrow> Inr (Inr (f, heap_of s)))"

definition compile_source ::
  "(f64 \<Rightarrow> ustring) \<Rightarrow> decl list \<Rightarrow> compiler \<Rightarrow> (parser_error list + obj_function \<times> heap) run" where
  "compile_source sf decls s =
     seq (or_invalid (lower_program sf decls)) (\<lambda>lowered.
     compile_program (Suc (size_list size lowered)) lowered s)"

end
