(* ===== verification/Codegen_Facts.thy ===== *)
theory Codegen_Facts
  imports Codegen "HOL-Library.Sublist"
begin

text \<open>
  What every step of the code generator keeps: the code of each function refers to registers,
  constants, upvalues, tables and places in the code that exist; and what it only adds to.
  A specification says that a run ends with a result that satisfies it, or in one of the panics
  that are left: the rules below run a definition through the specifications of what it calls.
\<close>

section \<open>Runs\<close>

text \<open>
  The result satisfies \<open>Q\<close>, or a limit of the format is hit. \<open>Invalid\<close> is allowed unless the
  tree is known to be \<open>strict\<close>ly one the parser makes.
\<close>

definition meets :: "bool \<Rightarrow> 'a run \<Rightarrow> ('a \<Rightarrow> bool) \<Rightarrow> bool" where
  "meets strict m Q =
     (case m of
        Inl p \<Rightarrow> p = Overflow \<or> p = Jump_Too_Far \<or> p = Invalid \<and> \<not> strict
      | Inr x \<Rightarrow> Q x)"

lemma meets_Inr: "Q x \<Longrightarrow> meets b (Inr x) Q"
  by (simp add: meets_def)

lemma meets_Inr2: "(case x of (r, s) \<Rightarrow> P r s) \<Longrightarrow> (\<And>r s. P r s \<Longrightarrow> Q (r, s)) \<Longrightarrow> meets b (Inr x) Q"
  by (auto simp: meets_def)

lemma meets_Invalid: "\<not> b \<Longrightarrow> meets b (Inl Invalid) Q"
  by (simp add: meets_def)

lemma meets_seq: "meets b m (\<lambda>x. meets b (k x) Q) \<Longrightarrow> meets b (seq m k) Q"
  by (auto simp: meets_def seq_def split: sum.splits)

lemma meets_pair: "meets b (f x y) Q \<Longrightarrow> meets b (case (x, y) of (x, y) \<Rightarrow> f x y) Q"
  by simp

lemma meets_if:
  "(c \<Longrightarrow> meets b m Q) \<Longrightarrow> (\<not> c \<Longrightarrow> meets b n Q) \<Longrightarrow> meets b (if c then m else n) Q"
  by simp

lemma meets_option:
  "(x = None \<Longrightarrow> meets b m Q) \<Longrightarrow> (\<And>y. x = Some y \<Longrightarrow> meets b (f y) Q) \<Longrightarrow>
     meets b (case x of None \<Rightarrow> m | Some y \<Rightarrow> f y) Q"
  by (cases x) simp_all

lemma meets_let: "meets b (f x) Q \<Longrightarrow> meets b (Let x f) Q"
  by simp

lemma meets_then: "meets b m P \<Longrightarrow> (\<And>x. P x \<Longrightarrow> Q x) \<Longrightarrow> meets b m Q"
  by (auto simp: meets_def split: sum.splits)

lemma meets_then2: "meets b m (\<lambda>(x, s). P x s) \<Longrightarrow> (\<And>x s. P x s \<Longrightarrow> Q (x, s)) \<Longrightarrow> meets b m Q"
  by (rule meets_then, assumption) auto

lemma meets_then3:
  "meets b m (\<lambda>(x, y, s). P x y s) \<Longrightarrow> (\<And>x y s. P x y s \<Longrightarrow> Q (x, y, s)) \<Longrightarrow> meets b m Q"
  by (rule meets_then, assumption) auto

lemma meets_or_invalid: "(b \<Longrightarrow> x \<noteq> None) \<Longrightarrow> (\<And>y. x = Some y \<Longrightarrow> Q y) \<Longrightarrow> meets b (or_invalid x) Q"
  by (cases x) (auto simp: meets_def or_invalid_def)

lemma meets_name:
  "(b \<Longrightarrow> name_of_kind (kind t) \<noteq> None) \<Longrightarrow> (\<And>n. name_of_kind (kind t) = Some n \<Longrightarrow> Q n) \<Longrightarrow>
     meets b (identifier_name t) Q"
  unfolding identifier_name_def by (rule meets_or_invalid)

section \<open>What code may refer to\<close>

text \<open>What a closure captures is a register or an upvalue of the function around it.\<close>

definition captures_ok :: "bool \<Rightarrow> nat \<Rightarrow> nat \<Rightarrow> upvalue list \<Rightarrow> bool" where
  "captures_ok clean m n us \<longleftrightarrow>
     (\<forall>u \<in> set us. case u of UpLocal r \<Rightarrow> clean \<longrightarrow> r < m | UpUpvalue i \<Rightarrow> i < n)"

text \<open>A value of the constant pool is what an instruction takes it to be.\<close>

definition const_fits :: "bool \<Rightarrow> obj list \<Rightarrow> nat \<Rightarrow> nat \<Rightarrow> const_use \<Rightarrow> const \<Rightarrow> bool" where
  "const_fits clean obs m n u v =
     (case u of
        UAny \<Rightarrow> True
      | UNumber \<Rightarrow> \<exists>x. v = KNumber x
      | UName \<Rightarrow> \<exists>j t. v = KObj j \<and> j < length obs \<and> obs ! j = OString t
      | UProto \<Rightarrow> \<exists>j f. v = KObj j \<and> j < length obs \<and> obs ! j = OFunction f \<and>
          captures_ok clean m n (fn_upvalues f))"

text \<open>
  An index into the pool is in range, and names a value of the right sort as long as the pool
  has no more than \<open>2 ^ 16\<close> values: past that the index has wrapped.
\<close>

definition pooled_in ::
  "bool \<Rightarrow> obj list \<Rightarrow> nat \<Rightarrow> nat \<Rightarrow> const list \<Rightarrow> const_use \<Rightarrow> nat \<Rightarrow> bool" where
  "pooled_in clean obs m n ks u ix \<longleftrightarrow>
     ix < length ks \<and> (length ks \<le> 2 ^ 16 \<longrightarrow> const_fits clean obs m n u (ks ! ix))"

definition param_ok :: "bool \<Rightarrow> obj list \<Rightarrow> nat \<Rightarrow> nat \<Rightarrow> const list \<Rightarrow> param_type \<Rightarrow> bool" where
  "param_ok clean obs m n ks t =
     (case t of
        PtInstance ix \<Rightarrow> pooled_in clean obs m n ks UName ix
      | PtCaptured u ix \<Rightarrow> u < n \<and> pooled_in clean obs m n ks UName ix
      | _ \<Rightarrow> True)"

definition instr_ok :: "bool \<Rightarrow> obj list \<Rightarrow> nat \<Rightarrow> nat \<Rightarrow> const chunk \<Rightarrow> instr \<Rightarrow> bool" where
  "instr_ok clean obs m n c i \<longleftrightarrow>
     (clean \<longrightarrow> regs_below m i) \<and>
     (\<forall>u. upvalue_ref i = Some u \<longrightarrow> u < n) \<and>
     (\<forall>(ix, u) \<in> set (const_uses i). pooled_in clean obs m n (constants c) u ix) \<and>
     (case i of
        IUsingJump r t \<Rightarrow> t < length (jump_tables c)
      | ICheckParamType r t \<Rightarrow> t < length (param_checks c)
      | _ \<Rightarrow> True)"

definition jump_within :: "nat \<Rightarrow> nat \<Rightarrow> instr \<Rightarrow> bool" where
  "jump_within len at i \<longleftrightarrow>
     (\<forall>off. jump_offset i = Some off \<longrightarrow> 0 \<le> int at + 1 + off \<and> int at + 1 + off \<le> int len)"

text \<open>Of a chunk of \<open>len\<close> instructions: its jumps lead to no place past the end.\<close>

definition chunk_ok :: "bool \<Rightarrow> obj list \<Rightarrow> nat \<Rightarrow> nat \<Rightarrow> nat \<Rightarrow> const chunk \<Rightarrow> bool" where
  "chunk_ok clean obs m n len c \<longleftrightarrow>
     length (code_lines c) = length (code c) \<and>
     (\<forall>i \<in> set (code c). instr_ok clean obs m n c i) \<and>
     (\<forall>at < length (code c). jump_within len at (code c ! at)) \<and>
     (\<forall>t \<in> set (jump_tables c). \<forall>k target. t k = Some target \<longrightarrow> target \<le> len) \<and>
     (\<forall>check \<in> set (param_checks c). \<forall>t \<in> set (param_types check).
        param_ok clean obs m n (constants c) t)"

text \<open>A finished function: it ends in a return, and no jump leads past its last instruction.\<close>

definition function_ok :: "bool \<Rightarrow> obj list \<Rightarrow> obj_function \<Rightarrow> bool" where
  "function_ok clean obs f \<longleftrightarrow>
     code (fn_chunk f) \<noteq> [] \<and> is_return (last (code (fn_chunk f))) \<and> num_registers f < 256 \<and>
     chunk_ok clean obs (num_registers f) (length (fn_upvalues f))
       (length (code (fn_chunk f)) - 1) (fn_chunk f)"

definition heap_ok :: "bool \<Rightarrow> heap \<Rightarrow> bool" where
  "heap_ok clean h \<longleftrightarrow>
     (\<forall>f. OFunction f \<in> set (objects h) \<longrightarrow> function_ok clean (objects h) f) \<and>
     (\<forall>t v. interned h t = Some v \<longrightarrow>
        (\<exists>j. v = KObj j \<and> j < length (objects h) \<and> objects h ! j = OString t))"

section \<open>What a state may be\<close>

definition patchable :: "instr list \<Rightarrow> nat \<Rightarrow> bool" where
  "patchable cs at \<longleftrightarrow> at < length cs \<and> jump_offset (cs ! at) \<noteq> None"

definition loop_ok :: "bool \<Rightarrow> nat \<Rightarrow> instr list \<Rightarrow> loop_context \<Rightarrow> bool" where
  "loop_ok clean m cs l \<longleftrightarrow>
     continue_target l \<le> length cs \<and> body_mark l < 256 \<and> (clean \<longrightarrow> body_mark l \<le> m) \<and>
     (\<forall>at \<in> set (break_jumps l) \<union> set (continue_locales l). patchable cs at)"

text \<open>
  The registers a function may name. An instruction can come a little before the allocator
  has counted its register in, so a definition may reserve some below \<open>k\<close> for a while.
\<close>

definition lim :: "nat \<Rightarrow> function_scope \<Rightarrow> nat" where
  "lim k sc = max (max_reg sc) k"

lemma lim_frame [simp]:
  "lim k (chunk_update f1 sc) = lim k sc" "lim k (next_reg_update f2 sc) = lim k sc"
  "lim k (locals_update f3 sc) = lim k sc" "lim k (scope_depth_update f4 sc) = lim k sc"
  "lim k (upvalues_update f5 sc) = lim k sc" "lim k (loops_update f6 sc) = lim k sc"
  "lim k (open_catches_update f7 sc) = lim k sc" "lim k (declared_functions_update f8 sc) = lim k sc"
  "lim k (current_line_update f9 sc) = lim k sc" "lim k (overflow_reported_update f10 sc) = lim k sc"
  by (simp_all add: lim_def)

definition scope_ok :: "bool \<Rightarrow> obj list \<Rightarrow> nat \<Rightarrow> function_scope \<Rightarrow> bool" where
  "scope_ok clean obs k sc \<longleftrightarrow>
     chunk_ok clean obs (lim k sc) (length (upvalues sc)) (length (code (chunk sc))) (chunk sc) \<and>
     next_reg sc < 256 \<and> max_reg sc < 256 \<and>
     (clean \<longrightarrow> \<not> overflow_reported sc \<and> next_reg sc \<le> max_reg sc \<and> (\<forall>l \<in> set (locals sc). lreg l < lim k sc)) \<and>
     (\<forall>l \<in> set (locals sc). lreg l < 256) \<and>
     (\<forall>l \<in> set (loops sc). loop_ok clean (lim k sc) (code (chunk sc)) l)"

text \<open>The scopes, innermost first, each with what it has reserved.\<close>

fun chain_ok :: "bool \<Rightarrow> nat list \<Rightarrow> function_scope list \<Rightarrow> bool" where
  "chain_ok clean (k # k' # ks) (sc # e # es) \<longleftrightarrow>
     captures_ok clean (lim k' e) (length (upvalues e)) (upvalues sc) \<and>
     chain_ok clean (k' # ks) (e # es)"
| "chain_ok clean [k] [sc] \<longleftrightarrow> upvalues sc = []"
| "chain_ok clean ks scs \<longleftrightarrow> False"

text \<open>No error so far, in a build that checks arithmetic for overflow.\<close>

definition clean :: "compiler \<Rightarrow> bool" where
  "clean s \<longleftrightarrow> overflow_checks s \<and> c_errors s = []"

definition valid :: "nat list \<Rightarrow> compiler \<Rightarrow> bool" where
  "valid ks s \<longleftrightarrow>
     list_all2 (scope_ok (clean s) (objects (heap_of s))) ks (cur s # outer s) \<and>
     chain_ok (clean s) ks (cur s # outer s) \<and> heap_ok (clean s) (heap_of s)"

section \<open>What a step may change\<close>

text \<open>A scope that is not the current one: variables of it may be captured meanwhile.\<close>

definition frozen :: "function_scope \<Rightarrow> function_scope \<Rightarrow> bool" where
  "frozen e e' \<longleftrightarrow>
     chunk e' = chunk e \<and> next_reg e' = next_reg e \<and> max_reg e' = max_reg e \<and> loops e' = loops e \<and>
     overflow_reported e' = overflow_reported e \<and>
     map lreg (locals e') = map lreg (locals e) \<and> prefix (upvalues e) (upvalues e')"

text \<open>The current one: code, constants and upvalues are added, and a jump stays one.\<close>

definition grown :: "function_scope \<Rightarrow> function_scope \<Rightarrow> bool" where
  "grown sc sc' \<longleftrightarrow>
     length (code (chunk sc)) \<le> length (code (chunk sc')) \<and>
     (\<forall>at. patchable (code (chunk sc)) at \<longrightarrow> patchable (code (chunk sc')) at) \<and>
     prefix (constants (chunk sc)) (constants (chunk sc')) \<and>
     length (jump_tables (chunk sc)) \<le> length (jump_tables (chunk sc')) \<and>
     length (param_checks (chunk sc)) \<le> length (param_checks (chunk sc')) \<and>
     max_reg sc \<le> max_reg sc' \<and> prefix (upvalues sc) (upvalues sc')"

definition grows :: "compiler \<Rightarrow> compiler \<Rightarrow> bool" where
  "grows s s' \<longleftrightarrow>
     overflow_checks s' = overflow_checks s \<and> prefix (c_errors s) (c_errors s') \<and>
     prefix (objects (heap_of s)) (objects (heap_of s')) \<and>
     grown (cur s) (cur s') \<and> list_all2 frozen (outer s) (outer s')"

definition step :: "compiler \<Rightarrow> compiler \<Rightarrow> bool" where
  "step s s' \<longleftrightarrow> grows s s' \<and> length (loops (cur s')) = length (loops (cur s))"

text \<open>What a definition knows of the numbers it has at hand, and keeps knowing.\<close>

definition limit :: "nat list \<Rightarrow> compiler \<Rightarrow> nat" where
  "limit ks s = lim (hd ks) (cur s)"

definition reg :: "nat list \<Rightarrow> nat \<Rightarrow> compiler \<Rightarrow> bool" where
  "reg ks r s \<longleftrightarrow> (clean s \<longrightarrow> r < limit ks s)"

definition marked :: "nat list \<Rightarrow> nat \<Rightarrow> compiler \<Rightarrow> bool" where
  "marked ks r s \<longleftrightarrow> (clean s \<longrightarrow> r \<le> limit ks s)"

definition jump_at :: "nat \<Rightarrow> compiler \<Rightarrow> bool" where
  "jump_at at s \<longleftrightarrow> patchable (code (chunk (cur s))) at"

definition place :: "nat \<Rightarrow> compiler \<Rightarrow> bool" where
  "place at s \<longleftrightarrow> at \<le> code_len s"

definition pooled :: "nat list \<Rightarrow> const_use \<Rightarrow> nat \<Rightarrow> compiler \<Rightarrow> bool" where
  "pooled ks u ix s \<longleftrightarrow>
     pooled_in (clean s) (objects (heap_of s)) (limit ks s) (length (upvalues (cur s)))
       (constants (chunk (cur s))) u ix"

definition table :: "nat \<Rightarrow> compiler \<Rightarrow> bool" where
  "table ix s \<longleftrightarrow> ix < length (jump_tables (chunk (cur s)))"

definition upval :: "nat \<Rightarrow> compiler \<Rightarrow> bool" where
  "upval ix s \<longleftrightarrow> ix < length (upvalues (cur s))"

text \<open>An instruction that the current function may contain.\<close>

definition emittable :: "nat list \<Rightarrow> instr \<Rightarrow> compiler \<Rightarrow> bool" where
  "emittable ks i s \<longleftrightarrow>
     instr_ok (clean s) (objects (heap_of s)) (limit ks s) (length (upvalues (cur s)))
       (chunk (cur s)) i"

section \<open>Monotonicity\<close>

lemma captures_ok_mono:
  "captures_ok c m n us \<Longrightarrow> (c' \<longrightarrow> c) \<Longrightarrow> m \<le> m' \<Longrightarrow> n \<le> n' \<Longrightarrow> captures_ok c' m' n' us"
  by (fastforce simp: captures_ok_def split: upvalue.splits)

lemma prefix_nth: "prefix xs ys \<Longrightarrow> i < length xs \<Longrightarrow> ys ! i = xs ! i"
  by (auto simp: prefix_def nth_append)

lemma const_fits_mono:
  assumes "const_fits c obs m n u v" "c' \<longrightarrow> c" "prefix obs obs'" "m \<le> m'" "n \<le> n'"
  shows "const_fits c' obs' m' n' u v"
proof (cases u)
  case UName
  then show ?thesis using assms prefix_length_le [OF assms(3)]
    by (auto simp: const_fits_def prefix_nth)
next
  case UProto
  then obtain j f where "v = KObj j" "j < length obs" "obs ! j = OFunction f"
    "captures_ok c m n (fn_upvalues f)"
    using assms(1) by (auto simp: const_fits_def)
  then show ?thesis
    using UProto assms captures_ok_mono [of c m n "fn_upvalues f" c' m' n'] prefix_length_le [OF assms(3)]
    by (auto simp: const_fits_def prefix_nth)
qed (use assms in \<open>auto simp: const_fits_def\<close>)

lemma pooled_in_mono:
  assumes "pooled_in c obs m n ks u ix" "c' \<longrightarrow> c" "prefix obs obs'" "m \<le> m'" "n \<le> n'" "prefix ks ks'"
  shows "pooled_in c' obs' m' n' ks' u ix"
  using assms const_fits_mono [OF _ assms(2-5), of u "ks ! ix"] prefix_length_le [OF assms(6)]
  by (auto simp: pooled_in_def prefix_nth)

lemma param_ok_mono:
  assumes "param_ok c obs m n ks t" "c' \<longrightarrow> c" "prefix obs obs'" "m \<le> m'" "n \<le> n'" "prefix ks ks'"
  shows "param_ok c' obs' m' n' ks' t"
  using assms pooled_in_mono [OF _ assms(2-6)] by (auto simp: param_ok_def split: param_type.splits)

lemma instr_ok_mono:
  assumes "instr_ok c obs m n k i" "c' \<longrightarrow> c" "prefix obs obs'" "m \<le> m'" "n \<le> n'"
    "prefix (constants k) (constants k')" "length (jump_tables k) \<le> length (jump_tables k')"
    "length (param_checks k) \<le> length (param_checks k')"
  shows "instr_ok c' obs' m' n' k' i"
  unfolding instr_ok_def
proof (intro conjI)
  show "c' \<longrightarrow> regs_below m' i" using assms(1,2,4) within_mono by (auto simp: instr_ok_def)
  show "\<forall>u. upvalue_ref i = Some u \<longrightarrow> u < n'" using assms(1,5) by (auto simp: instr_ok_def)
  show "\<forall>(ix, u)\<in>set (const_uses i). pooled_in c' obs' m' n' (constants k') u ix"
    using assms(1) pooled_in_mono [OF _ assms(2-6)] by (fastforce simp: instr_ok_def)
  show "case i of IUsingJump r t \<Rightarrow> t < length (jump_tables k')
      | ICheckParamType r t \<Rightarrow> t < length (param_checks k') | _ \<Rightarrow> True"
    using assms(1,7,8) by (cases i) (auto simp: instr_ok_def)
qed

lemma jump_within_mono: "jump_within len at i \<Longrightarrow> len \<le> len' \<Longrightarrow> jump_within len' at i"
  by (fastforce simp: jump_within_def)

text \<open>A chunk is left alone while the heap, the registers and the upvalues around it grow.\<close>

lemma chunk_ok_mono:
  assumes "chunk_ok c obs m n len k" "c' \<longrightarrow> c" "prefix obs obs'" "m \<le> m'" "n \<le> n'"
  shows "chunk_ok c' obs' m' n' len k"
  using assms(1) instr_ok_mono [OF _ assms(2-5), of k _ k] param_ok_mono [OF _ assms(2-5), of "constants k" _ "constants k"]
  by (fastforce simp: chunk_ok_def)

lemma function_ok_mono:
  "function_ok c obs f \<Longrightarrow> (c' \<longrightarrow> c) \<Longrightarrow> prefix obs obs' \<Longrightarrow> function_ok c' obs' f"
  by (auto simp: function_ok_def intro: chunk_ok_mono)

lemma lim_mono: "k \<le> k' \<Longrightarrow> lim k sc \<le> lim k' sc"
  by (simp add: lim_def)

lemma scope_ok_mono:
  assumes "scope_ok c obs k sc" "c' \<longrightarrow> c" "prefix obs obs'" "k \<le> k'"
  shows "scope_ok c' obs' k' sc"
  using assms lim_mono [OF assms(4), of sc]
  by (fastforce simp: scope_ok_def loop_ok_def intro: chunk_ok_mono)

lemma chain_ok_mono: "chain_ok c ks scs \<Longrightarrow> (c' \<longrightarrow> c) \<Longrightarrow> chain_ok c' ks scs"
  by (induction c ks scs rule: chain_ok.induct) (auto intro: captures_ok_mono)

lemma frozen_refl [simp]: "frozen e e"
  by (simp add: frozen_def)

lemma frozen_trans: "frozen a b \<Longrightarrow> frozen b c \<Longrightarrow> frozen a c"
  by (auto simp: frozen_def intro: prefix_order.trans)

lemma grown_refl [simp]: "grown sc sc"
  by (simp add: grown_def)

lemma grown_trans: "grown a b \<Longrightarrow> grown b c \<Longrightarrow> grown a c"
  by (auto simp: grown_def intro: prefix_order.trans)

lemma frozen_grown: "frozen e e' \<Longrightarrow> grown e e'"
  by (simp add: grown_def frozen_def)

lemma grows_refl [simp]: "grows s s"
  by (simp add: grows_def list.rel_refl)

lemma grows_trans: "grows s t \<Longrightarrow> grows t u \<Longrightarrow> grows s u"
  by (auto simp: grows_def intro: prefix_order.trans grown_trans list_all2_trans [OF frozen_trans])

lemma step_refl [simp]: "step s s"
  by (simp add: step_def)

lemma step_trans: "step s t \<Longrightarrow> step t u \<Longrightarrow> step s u"
  by (auto simp: step_def intro: grows_trans)

lemma step_grows: "step s t \<Longrightarrow> grows s t"
  by (simp add: step_def)

lemma grows_clean: "grows s t \<Longrightarrow> clean t \<Longrightarrow> clean s"
  by (auto simp: grows_def clean_def)

lemma limit_mono: "grows s t \<Longrightarrow> limit ks s \<le> limit ks t"
  by (auto simp: grows_def grown_def limit_def lim_def)

lemma reg_mono: "grows s t \<Longrightarrow> reg ks r s \<Longrightarrow> reg ks r t"
  using grows_clean [of s t] limit_mono [of s t ks] by (auto simp: reg_def)

lemma marked_mono: "grows s t \<Longrightarrow> marked ks r s \<Longrightarrow> marked ks r t"
  using grows_clean [of s t] limit_mono [of s t ks] by (auto simp: marked_def)

lemma jump_at_mono: "grows s t \<Longrightarrow> jump_at r s \<Longrightarrow> jump_at r t"
  by (simp add: jump_at_def grows_def grown_def)

lemma place_mono: "grows s t \<Longrightarrow> place r s \<Longrightarrow> place r t"
  by (simp add: place_def grows_def grown_def code_len_def)

lemma table_mono: "grows s t \<Longrightarrow> table r s \<Longrightarrow> table r t"
  by (simp add: table_def grows_def grown_def)

lemma upval_mono: "grows s t \<Longrightarrow> upval r s \<Longrightarrow> upval r t"
  using prefix_length_le [of "upvalues (cur s)" "upvalues (cur t)"]
  by (simp add: upval_def grows_def grown_def)

lemma pooled_mono: "grows s t \<Longrightarrow> pooled ks u r s \<Longrightarrow> pooled ks u r t"
  unfolding pooled_def
  by (erule pooled_in_mono)
    (use grows_clean [of s t] limit_mono [of s t ks] prefix_length_le [of "upvalues (cur s)" "upvalues (cur t)"] in
      \<open>auto simp: grows_def grown_def\<close>)

lemma emittable_mono: "grows s t \<Longrightarrow> emittable ks i s \<Longrightarrow> emittable ks i t"
  unfolding emittable_def
  by (erule instr_ok_mono)
    (use grows_clean [of s t] limit_mono [of s t ks] prefix_length_le [of "upvalues (cur s)" "upvalues (cur t)"] in
      \<open>auto simp: grows_def grown_def\<close>)

lemmas kept = reg_mono marked_mono jump_at_mono place_mono table_mono upval_mono pooled_mono
  reg_mono [OF step_grows] marked_mono [OF step_grows] jump_at_mono [OF step_grows]
  place_mono [OF step_grows] table_mono [OF step_grows] upval_mono [OF step_grows]
  pooled_mono [OF step_grows]

lemma reg_marked: "reg ks r s \<Longrightarrow> marked ks r s"
  by (auto simp: reg_def marked_def)

lemma marked_reg: "marked ks m s \<Longrightarrow> r < m \<Longrightarrow> reg ks r s"
  by (auto simp: reg_def marked_def)

lemma valid_cur:
  "valid ks s \<Longrightarrow> scope_ok (clean s) (objects (heap_of s)) (hd ks) (cur s)" "valid ks s \<Longrightarrow> ks \<noteq> []"
  by (cases ks; simp add: valid_def)+

lemma next_marked: "valid ks s \<Longrightarrow> marked ks (next_reg (cur s)) s" "valid ks s \<Longrightarrow> next_reg (cur s) < 256"
  using valid_cur(1) [of ks s] by (auto simp: scope_ok_def marked_def limit_def lim_def)

section \<open>Changes of the current scope\<close>

lemma clean_on_cur [simp]: "clean (on_cur f s) = clean s"
  by (simp add: clean_def on_cur_def)

lemma on_cur_simps [simp]:
  "cur (on_cur f s) = f (cur s)" "outer (on_cur f s) = outer s" "heap_of (on_cur f s) = heap_of s"
  "c_errors (on_cur f s) = c_errors s" "overflow_checks (on_cur f s) = overflow_checks s"
  "is_repl (on_cur f s) = is_repl s" "source_path (on_cur f s) = source_path s"
  "module (on_cur f s) = module s" "debug_kind (on_cur f s) = debug_kind s"
  by (simp_all add: on_cur_def)

lemma chain_ok_cur:
  "upvalues sc' = upvalues sc \<Longrightarrow> chain_ok c ks (sc' # es) = chain_ok c ks (sc # es)"
  by (cases ks; cases "tl ks"; cases es) simp_all

lemma valid_on_cur:
  assumes "valid ks s" "upvalues (f (cur s)) = upvalues (cur s)"
    "scope_ok (clean s) (objects (heap_of s)) (hd ks) (cur s) \<Longrightarrow>
       scope_ok (clean s) (objects (heap_of s)) (hd ks) (f (cur s))"
  shows "valid ks (on_cur f s)"
  using assms chain_ok_cur [OF assms(2)] by (cases ks) (simp_all add: valid_def)

lemma step_on_cur:
  "grown (cur s) (f (cur s)) \<Longrightarrow> length (loops (f (cur s))) = length (loops (cur s)) \<Longrightarrow> step s (on_cur f s)"
  by (simp add: step_def grows_def list.rel_refl)

section \<open>Emitting\<close>

lemma emits_on_cur:
  "emits i s = on_cur (\<lambda>sc. sc\<lparr>chunk := (chunk sc)\<lparr>code := code (chunk sc) @ [i],
     code_lines := code_lines (chunk sc) @ [current_line sc]\<rparr>\<rparr>) s"
  by (simp add: emit_def chunk_emit_def Let_def on_cur_def)

lemma emit_index [simp]: "fst (emit i s) = code_len s"
  by (simp add: emit_def chunk_emit_def Let_def code_len_def)

lemma patchable_append: "patchable cs at \<Longrightarrow> patchable (cs @ ds) at"
  by (auto simp: patchable_def nth_append)

lemma emittable_iff:
  "emittable ks i s \<longleftrightarrow>
     (clean s \<longrightarrow> regs_below (limit ks s) i) \<and>
     (\<forall>u. upvalue_ref i = Some u \<longrightarrow> upval u s) \<and>
     (\<forall>(ix, u) \<in> set (const_uses i). pooled ks u ix s) \<and>
     (case i of
        IUsingJump r t \<Rightarrow> table t s
      | ICheckParamType r t \<Rightarrow> t < length (param_checks (chunk (cur s)))
      | _ \<Rightarrow> True)"
  by (simp add: emittable_def instr_ok_def upval_def pooled_def table_def split: instr.split)

lemma chunk_ok_emit:
  assumes "chunk_ok c obs m n (length (code k)) k" "instr_ok c obs m n k i"
    "jump_within (length (code k) + 1) (length (code k)) i"
  shows "chunk_ok c obs m n (length (code k) + 1)
    (k\<lparr>code := code k @ [i], code_lines := code_lines k @ [ln]\<rparr>)"
proof -
  let ?k = "k\<lparr>code := code k @ [i], code_lines := code_lines k @ [ln]\<rparr>"
  have "instr_ok c obs m n ?k j" if "instr_ok c obs m n k j" for j
    by (rule instr_ok_mono [OF that]) simp_all
  moreover have "jump_within (length (code k) + 1) at ((code k @ [i]) ! at)"
    if "at < length (code k) + 1" for at
    using that assms(1,3) jump_within_mono [of "length (code k)" at "code k ! at" "length (code k) + 1"]
    by (auto simp: chunk_ok_def nth_append less_Suc_eq)
  ultimately show ?thesis using assms by (fastforce simp: chunk_ok_def)
qed

lemma emits_ok:
  assumes "valid ks s" "emittable ks i s" "jump_within (code_len s + 1) (code_len s) i"
  shows "valid ks (emits i s)" "step s (emits i s)"
proof -
  show "valid ks (emits i s)" unfolding emits_on_cur
    by (rule valid_on_cur [OF assms(1)])
      (use assms chunk_ok_emit in \<open>auto simp: scope_ok_def loop_ok_def emittable_def code_len_def limit_def lim_def
         intro: patchable_append\<close>)
  show "step s (emits i s)" unfolding emits_on_cur
    by (rule step_on_cur) (auto simp: grown_def intro: patchable_append)
qed

lemma emits_simps [simp]:
  "next_reg (cur (emits i s)) = next_reg (cur s)" "max_reg (cur (emits i s)) = max_reg (cur s)"
  "locals (cur (emits i s)) = locals (cur s)" "loops (cur (emits i s)) = loops (cur s)"
  "scope_depth (cur (emits i s)) = scope_depth (cur s)" "upvalues (cur (emits i s)) = upvalues (cur s)"
  "outer (emits i s) = outer s" "c_errors (emits i s) = c_errors s" "clean (emits i s) = clean s"
  "heap_of (emits i s) = heap_of s" "is_repl (emits i s) = is_repl s"
  "code (chunk (cur (emits i s))) = code (chunk (cur s)) @ [i]" "code_len (emits i s) = code_len s + 1"
  "open_catches (cur (emits i s)) = open_catches (cur s)"
  by (simp_all add: emits_on_cur code_len_def)

lemma jump_within_plain: "jump_offset i = None \<Longrightarrow> jump_within len at i"
  by (simp add: jump_within_def)

lemma jump_within_zero: "jump_offset i = Some 0 \<Longrightarrow> at < len \<Longrightarrow> jump_within len at i"
  by (simp add: jump_within_def)

text \<open>The registers that are free stay the same.\<close>

definition same_regs :: "compiler \<Rightarrow> compiler \<Rightarrow> bool" where
  "same_regs s s' \<longleftrightarrow> next_reg (cur s') = next_reg (cur s) \<and> locals (cur s') = locals (cur s) \<and>
     loops (cur s') = loops (cur s) \<and> (clean s' \<longrightarrow> clean s)"

lemma emits_rule:
  assumes "valid ks s" "emittable ks i s" "jump_offset i = None"
    "\<And>s'. valid ks s' \<Longrightarrow> step s s' \<Longrightarrow> same_regs s s' \<Longrightarrow> meets b (f s') Q"
  shows "meets b (Let (emits i s) f) Q"
  using assms(4) [OF emits_ok [OF assms(1,2) jump_within_plain [OF assms(3)]]]
  by (simp add: same_regs_def)

lemma emit_jump_rule:
  assumes "valid ks s" "emittable ks i s" "jump_offset i = Some 0"
    "\<And>at s'. valid ks s' \<Longrightarrow> step s s' \<Longrightarrow> same_regs s s' \<Longrightarrow> jump_at at s' \<Longrightarrow> meets b (f at s') Q"
  shows "meets b (Let (emit i s) (\<lambda>(at, s). f at s)) Q"
proof -
  have "jump_at (code_len s) (emits i s)"
    using assms(3) by (simp add: jump_at_def patchable_def code_len_def)
  then show ?thesis
    using assms(4) [OF emits_ok [OF assms(1,2) jump_within_zero [OF assms(3)]], of "code_len s"]
    by (simp add: same_regs_def split_beta Let_def)
qed

section \<open>Registers, lines and errors\<close>

lemma same_regs_refl [simp]: "same_regs s s"
  by (simp add: same_regs_def)

lemma set_line_ok [simp]:
  "valid ks s \<Longrightarrow> valid ks (set_line ln s)" "step s (set_line ln s)" "same_regs s (set_line ln s)"
  unfolding set_line_def
  by (rule valid_on_cur; simp add: scope_ok_def) (auto intro: step_on_cur simp: grown_def same_regs_def)

lemma set_line_rule:
  assumes "valid ks s" "\<And>s'. valid ks s' \<Longrightarrow> step s s' \<Longrightarrow> same_regs s s' \<Longrightarrow> meets b (f s') Q"
  shows "meets b (Let (set_line ln s) f) Q"
  using assms by simp

lemma valid_unclean:
  assumes "valid ks s" "cur s' = cur s" "outer s' = outer s" "heap_of s' = heap_of s" "clean s' \<longrightarrow> clean s"
  shows "valid ks s'"
proof -
  have "list_all2 (scope_ok (clean s') (objects (heap_of s))) ks (cur s # outer s)"
    using assms(1) unfolding valid_def
    by (auto elim!: list_all2_mono scope_ok_mono simp: assms(5))
  moreover have "heap_ok (clean s') (heap_of s)"
    using assms(1,5) function_ok_mono [of "clean s" "objects (heap_of s)" _ "clean s'" "objects (heap_of s)"]
    by (auto simp: valid_def heap_ok_def)
  ultimately show ?thesis
    using assms chain_ok_mono [of "clean s" ks "cur s # outer s" "clean s'"] by (auto simp: valid_def)
qed

lemma report_ok [simp]:
  "\<not> clean (report_error_on m t s)" "\<not> clean (report_error_here m s)"
  "valid ks s \<Longrightarrow> valid ks (report_error_on m t s)" "valid ks s \<Longrightarrow> valid ks (report_error_here m s)"
  "step s (report_error_on m t s)" "step s (report_error_here m s)"
  "same_regs s (report_error_on m t s)" "same_regs s (report_error_here m s)"
proof -
  show c: "\<not> clean (report_error_on m t s)" "\<not> clean (report_error_here m s)"
    by (simp_all add: clean_def report_error_on_def report_error_here_def)
  show "valid ks s \<Longrightarrow> valid ks (report_error_on m t s)" "valid ks s \<Longrightarrow> valid ks (report_error_here m s)"
    using c by (auto elim!: valid_unclean simp: report_error_on_def report_error_here_def)
  show "step s (report_error_on m t s)" "step s (report_error_here m s)"
    by (simp_all add: step_def grows_def report_error_on_def report_error_here_def list.rel_refl)
  show "same_regs s (report_error_on m t s)" "same_regs s (report_error_here m s)"
    using c by (simp_all add: same_regs_def) (simp_all add: report_error_on_def report_error_here_def)
qed

lemma report_rule:
  assumes "valid ks s"
    "\<And>s'. valid ks s' \<Longrightarrow> step s s' \<Longrightarrow> same_regs s s' \<Longrightarrow> \<not> clean s' \<Longrightarrow> meets b (f s') Q"
  shows "meets b (Let (report_error_on m t s) f) Q" "meets b (Let (report_error_here m s) f) Q"
  using assms by simp_all

lemma report_if_rule:
  assumes "valid ks s" "\<And>s'. valid ks s' \<Longrightarrow> step s s' \<Longrightarrow> same_regs s s' \<Longrightarrow> meets b (f s') Q"
  shows "meets b (Let (if c then s else report_error_on m t s) f) Q"
  using assms by simp

lemma private_rule:
  assumes "valid ks s" "\<And>s'. valid ks s' \<Longrightarrow> step s s' \<Longrightarrow> same_regs s s' \<Longrightarrow> meets b (f s') Q"
  shows "meets b (Let (check_private_access n p t s) f) Q"
  using assms by (simp add: check_private_access_def)

definition same_scope :: "compiler \<Rightarrow> compiler \<Rightarrow> bool" where
  "same_scope s s' \<longleftrightarrow> locals (cur s') = locals (cur s) \<and> loops (cur s') = loops (cur s)"

definition take_reg :: "compiler \<Rightarrow> compiler" where
  "take_reg s = on_cur (\<lambda>sc. sc\<lparr>next_reg := next_reg sc + 1, max_reg := max (max_reg sc) (next_reg sc + 1)\<rparr>) s"

lemma take_reg_ok:
  assumes "valid ks s" "next_reg (cur s) \<noteq> 255"
  shows "valid ks (take_reg s)" "step s (take_reg s)" "same_scope s (take_reg s)"
    "reg ks (next_reg (cur s)) (take_reg s)" "next_reg (cur (take_reg s)) = next_reg (cur s) + 1"
proof -
  show "valid ks (take_reg s)" unfolding take_reg_def
    by (rule valid_on_cur [OF assms(1)])
      (use assms(2) in \<open>auto simp: scope_ok_def loop_ok_def lim_def intro: chunk_ok_mono\<close>)
  show "step s (take_reg s)" unfolding take_reg_def by (rule step_on_cur) (simp_all add: grown_def)
qed (auto simp: take_reg_def same_scope_def reg_def limit_def lim_def)

definition flag_overflow :: "compiler \<Rightarrow> compiler" where
  "flag_overflow s = on_cur (overflow_reported_update (\<lambda>_. True)) s"

lemma flag_overflow_ok:
  assumes "valid ks s"
  shows "valid ks (report_error_here m (flag_overflow s))" "step s (report_error_here m (flag_overflow s))"
    "same_scope s (report_error_here m (flag_overflow s))"
proof -
  have "valid ks (report_error_here m s)" using assms by simp
  then have "valid ks (flag_overflow (report_error_here m s))" unfolding flag_overflow_def
    by (rule valid_on_cur) (auto simp: scope_ok_def report_ok)
  then show "valid ks (report_error_here m (flag_overflow s))"
    by (rule valid_unclean) (simp_all add: flag_overflow_def report_error_here_def on_cur_def clean_def)
  have "step s (flag_overflow s)" unfolding flag_overflow_def by (rule step_on_cur) (simp_all add: grown_def)
  then show "step s (report_error_here m (flag_overflow s))" by (rule step_trans) simp
qed (simp add: same_scope_def flag_overflow_def report_error_here_def)

lemma alloc_reg_cases:
  obtains (fresh) "next_reg (cur s) \<noteq> 255" "alloc_reg s = (next_reg (cur s), take_reg s)"
  | (again) "next_reg (cur s) = 255" "overflow_reported (cur s)" "alloc_reg s = (255, s)"
  | (over) m where "alloc_reg s = (255, report_error_here m (flag_overflow s))"
proof (cases "next_reg (cur s) = 255")
  case True
  then show thesis
    using that(2) that(3) [of "str ''expression too complex: this function needs more than '' @
      show_nat 255 @ str '' live registers at once''"]
    by (cases "overflow_reported (cur s)") (simp_all add: alloc_reg_def flag_overflow_def Let_def)
next
  case False
  then show thesis using that(1) by (simp add: alloc_reg_def take_reg_def Let_def on_cur_def)
qed

lemma alloc_reg_ok:
  assumes "valid ks s" "alloc_reg s = (r, s')"
  shows "valid ks s'" "step s s'" "same_scope s s'" "r < 256" "reg ks r s'"
    "clean s' \<Longrightarrow> r = next_reg (cur s) \<and> next_reg (cur s') = r + 1"
  using assms(1) take_reg_ok [OF assms(1)] flag_overflow_ok [OF assms(1)] valid_cur(1) [OF assms(1)]
    next_marked(2) [OF assms(1)]
  by (cases rule: alloc_reg_cases [of s]; use assms(2) in
      \<open>simp add: same_scope_def reg_def scope_ok_def report_ok; fastforce?\<close>)+

lemma alloc_rule:
  assumes "valid ks s"
    "\<And>r s'. valid ks s' \<Longrightarrow> step s s' \<Longrightarrow> same_scope s s' \<Longrightarrow> r < 256 \<Longrightarrow> reg ks r s' \<Longrightarrow>
       (clean s' \<Longrightarrow> r = next_reg (cur s) \<and> next_reg (cur s') = r + 1) \<Longrightarrow> meets b (f r s') Q"
  shows "meets b (Let (alloc_reg s) (\<lambda>(r, s). f r s)) Q"
  using assms alloc_reg_ok [OF assms(1)] by (cases "alloc_reg s") auto

lemma free_regs_to_ok:
  assumes "valid ks s" "m < 256"
  shows "valid ks (free_regs_to m s)" "step s (free_regs_to m s)" "same_scope s (free_regs_to m s)"
    "marked ks m (free_regs_to m s)" "next_reg (cur (free_regs_to m s)) = m"
proof -
  show "valid ks (free_regs_to m s)" unfolding free_regs_to_def
    by (rule valid_on_cur [OF assms(1)])
      (use assms(2) in \<open>auto simp: scope_ok_def loop_ok_def lim_def intro: chunk_ok_mono\<close>)
  show "step s (free_regs_to m s)" unfolding free_regs_to_def
    by (rule step_on_cur) (auto simp: grown_def)
qed (auto simp: free_regs_to_def same_scope_def marked_def limit_def lim_def)

lemma free_regs_rule:
  assumes "valid ks s" "m < 256"
    "\<And>s'. valid ks s' \<Longrightarrow> step s s' \<Longrightarrow> same_scope s s' \<Longrightarrow> marked ks m s' \<Longrightarrow> next_reg (cur s') = m \<Longrightarrow>
       meets b (f s') Q"
  shows "meets b (Let (free_regs_to m s) f) Q"
  using assms(3) [OF free_regs_to_ok [OF assms(1,2)]] by simp

lemma u8_add_rule:
  assumes "\<And>r. r < 256 \<Longrightarrow> (clean s \<Longrightarrow> r = x + y) \<Longrightarrow> Q r"
  shows "meets b (u8_add s x y) Q"
  using assms [of "x + y"] assms [of "(x + y) mod 256"] by (auto simp: u8_add_def meets_def clean_def)

lemma free_after_rule:
  assumes "valid ks s"
    "\<And>s'. valid ks s' \<Longrightarrow> step s s' \<Longrightarrow> same_scope s s' \<Longrightarrow> reg ks r s' \<Longrightarrow>
       (clean s' \<Longrightarrow> next_reg (cur s') = r + 1) \<Longrightarrow> Q s'"
  shows "meets b (free_after r s) Q"
  unfolding free_after_def
proof (intro meets_seq u8_add_rule meets_Inr)
  fix m :: nat assume m: "m < 256" "clean s \<Longrightarrow> m = r + 1"
  note f = free_regs_to_ok [OF assms(1) m(1)]
  have "clean (free_regs_to m s) \<Longrightarrow> m = r + 1" using m(2) grows_clean [OF step_grows [OF f(2)]] by blast
  then show "Q (free_regs_to m s)" using f by (intro assms(2)) (auto simp: reg_def marked_def)
qed

lemma move_to_rule:
  assumes "valid ks s" "reg ks dst s" "reg ks src s"
    "\<And>s'. valid ks s' \<Longrightarrow> step s s' \<Longrightarrow> same_regs s s' \<Longrightarrow> meets b (f s') Q"
  shows "meets b (Let (move_to dst src s) f) Q"
proof -
  have "emittable ks (IMove dst src) s" using assms(2,3) by (simp add: emittable_iff reg_def)
  then show ?thesis
    using assms(1,4) emits_ok [OF assms(1) _ jump_within_plain, of "IMove dst src"]
    by (simp add: move_to_def same_regs_def)
qed

text \<open>A register that is moved to before the allocator has counted it in.\<close>

lemma valid_reserve: "valid (k # ks) s \<Longrightarrow> k \<le> k' \<Longrightarrow> valid (k' # ks) s"
proof -
  assume v: "valid (k # ks) s" and k: "k \<le> k'"
  have "scope_ok (clean s) (objects (heap_of s)) k' (cur s)"
    using v k by (auto simp: valid_def intro: scope_ok_mono)
  moreover have "chain_ok (clean s) (k' # ks) (cur s # outer s)"
    using v by (cases ks; cases "outer s") (auto simp: valid_def)
  ultimately show ?thesis using v by (simp add: valid_def)
qed

lemma limit_Cons [simp]: "limit (k # ks) s = max (max_reg (cur s)) k"
  by (simp add: limit_def lim_def)

text \<open>What was reserved is given back once the allocator has counted it in.\<close>

lemma valid_release:
  assumes "valid (max k m # ks) s" "clean s \<Longrightarrow> m \<le> max_reg (cur s)"
  shows "valid (k # ks) s"
proof -
  have eq: "clean s \<Longrightarrow> lim (max k m) (cur s) = lim k (cur s)" using assms(2) by (simp add: lim_def)
  have ch: "chunk_ok c obs a n l x" if "chunk_ok c obs b n l x" "c \<longrightarrow> a = b" for c obs a b n l x
  proof (cases c)
    case False
    then have "captures_ok c a n us = captures_ok c b n us" for us
      by (auto simp: captures_ok_def split: upvalue.splits)
    then have "const_fits c obs a n u v = const_fits c obs b n u v" for u v
      by (cases u) (simp_all add: const_fits_def)
    then have p: "pooled_in c obs a n ks u ix = pooled_in c obs b n ks u ix" for ks u ix
      by (simp add: pooled_in_def)
    have "param_ok c obs a n ks t = param_ok c obs b n ks t" for ks t
      by (cases t) (simp_all add: param_ok_def p)
    then show ?thesis using that False p by (simp add: chunk_ok_def instr_ok_def)
  qed (use that in simp)
  have "scope_ok (clean s) (objects (heap_of s)) k (cur s)"
    using assms(1) eq ch [of "clean s" _ "lim (max k m) (cur s)" _ _ _ "lim k (cur s)"]
    by (auto simp: valid_def scope_ok_def loop_ok_def)
  moreover have "chain_ok (clean s) (k # ks) (cur s # outer s)"
    using assms(1) by (cases ks; cases "outer s") (auto simp: valid_def)
  ultimately show ?thesis using assms(1) by (simp add: valid_def)
qed

lemma reg_reserve: "reg (k # ks) r s \<Longrightarrow> reg (max k m # ks) r s"
  by (auto simp: reg_def)

lemma reg_release: "reg (max k m # ks) r s \<Longrightarrow> (clean s \<Longrightarrow> m \<le> max_reg (cur s)) \<Longrightarrow> reg (k # ks) r s"
  by (auto simp: reg_def max_def split: if_splits)

lemma marked_reserve: "marked (k # ks) r s \<Longrightarrow> marked (max k m # ks) r s"
  by (auto simp: marked_def)

lemma move_free_rule:
  assumes "valid ks s" "dst < 256" "reg ks src s"
    "\<And>s'. valid ks s' \<Longrightarrow> step s s' \<Longrightarrow> same_scope s s' \<Longrightarrow> reg ks dst s' \<Longrightarrow>
       (clean s' \<Longrightarrow> next_reg (cur s') = dst + 1) \<Longrightarrow> meets b (f s') Q"
  shows "meets b (Let (move_to dst src s) (\<lambda>s. seq (free_after dst s) f)) Q"
proof -
  obtain k ks' where ks: "ks = k # ks'" using assms(1) by (cases ks) (auto simp: valid_def)
  let ?ks = "max k (dst + 1) # ks'"
  have v: "valid ?ks s" using assms(1) valid_reserve unfolding ks by fastforce
  have "reg ?ks src s" using assms(3) unfolding ks by (rule reg_reserve)
  then show ?thesis
  proof (intro move_to_rule [OF v] meets_seq)
    show "reg ?ks dst s" by (auto simp: reg_def)
    fix s' assume s': "valid ?ks s'" "step s s'" "same_regs s s'"
    show "meets b (free_after dst s') (\<lambda>x. meets b (f x) Q)"
    proof (rule free_after_rule [OF s'(1)])
      fix t assume t: "valid ?ks t" "step s' t" "same_scope s' t" "reg ?ks dst t"
        "clean t \<Longrightarrow> next_reg (cur t) = dst + 1"
      have m: "clean t \<Longrightarrow> dst + 1 \<le> max_reg (cur t)"
        using t(5) valid_cur(1) [OF t(1)] by (auto simp: scope_ok_def)
      show "meets b (f t) Q"
      proof (rule assms(4))
        show "valid ks t" unfolding ks by (rule valid_release [OF t(1) m])
        show "step s t" using s'(2) t(2) by (rule step_trans)
        show "same_scope s t" using s'(3) t(3) by (simp add: same_regs_def same_scope_def)
        show "reg ks dst t" using m unfolding ks reg_def by auto
      qed (rule t(5))
    qed
  qed
qed

section \<open>The heap and the constant pool\<close>

definition heap_grows :: "bool \<Rightarrow> heap \<Rightarrow> heap \<Rightarrow> bool" where
  "heap_grows c h h' \<longleftrightarrow> heap_ok c h' \<and> prefix (objects h) (objects h')"

lemma heap_ok_grow:
  assumes "heap_ok c h" "\<And>f. ob = OFunction f \<Longrightarrow> function_ok c (objects h) f"
    "\<And>t v. m t = Some v \<Longrightarrow> interned h t = Some v \<or> v = KObj (length (objects h)) \<and> ob = OString t"
  shows "heap_ok c (h\<lparr>objects := objects h @ [ob], interned := m\<rparr>)"
proof -
  have f: "function_ok c (objects h @ [ob]) f" if "function_ok c (objects h) f" for f
    using that by (rule function_ok_mono) simp_all
  show ?thesis
    using assms(1,2) assms(3) f by (fastforce simp: heap_ok_def nth_append)
qed

lemma alloc_string_ok:
  assumes "heap_ok c h" "alloc_string_old t h = (v, h')"
  shows "heap_grows c h h'" "const_fits c (objects h') m n UName v"
proof -
  have "heap_grows c h h' \<and> const_fits c (objects h') m n UName v"
  proof (cases "interned h t")
    case None
    then have h: "h' = h\<lparr>objects := objects h @ [OString t], interned := (interned h)(t \<mapsto> v)\<rparr>"
      "v = KObj (length (objects h))"
      using assms(2) by (auto simp: alloc_string_old_def alloc_old_def Let_def)
    have "heap_ok c h'" unfolding h(1)
      by (rule heap_ok_grow [OF assms(1)]) (auto simp: h(2) split: if_splits)
    then show ?thesis using h by (simp add: heap_grows_def const_fits_def)
  next
    case (Some w)
    then show ?thesis
      using assms by (fastforce simp: alloc_string_old_def heap_grows_def heap_ok_def const_fits_def)
  qed
  then show "heap_grows c h h'" "const_fits c (objects h') m n UName v" by simp_all
qed

lemma valid_heap:
  assumes "valid ks s" "heap_grows (clean s) (heap_of s) h"
  shows "valid ks (s\<lparr>heap_of := h\<rparr>)" "step s (s\<lparr>heap_of := h\<rparr>)" "same_regs s (s\<lparr>heap_of := h\<rparr>)"
proof -
  have c: "clean (s\<lparr>heap_of := h\<rparr>) = clean s" by (simp add: clean_def)
  have "list_all2 (scope_ok (clean s) (objects h)) ks (cur s # outer s)"
    using assms unfolding valid_def heap_grows_def
    by (auto elim!: list_all2_mono scope_ok_mono)
  then show "valid ks (s\<lparr>heap_of := h\<rparr>)" using assms c by (simp add: valid_def heap_grows_def)
  show "step s (s\<lparr>heap_of := h\<rparr>)" "same_regs s (s\<lparr>heap_of := h\<rparr>)"
    using assms(2) c by (simp_all add: step_def grows_def heap_grows_def list.rel_refl same_regs_def)
qed

lemma chunk_ok_constant:
  "chunk_ok c obs m n len k \<Longrightarrow> chunk_ok c obs m n len (k\<lparr>constants := constants k @ [v]\<rparr>)"
  using instr_ok_mono [of c obs m n k _ c obs m n "k\<lparr>constants := constants k @ [v]\<rparr>"]
    param_ok_mono [of c obs m n "constants k" _ c obs m n "constants k @ [v]"]
  by (fastforce simp: chunk_ok_def)

lemma add_constant_eq:
  "add_constant v s =
     (as_u16 (length (constants (chunk (cur s)))),
      on_cur (\<lambda>sc. sc\<lparr>chunk := (chunk sc)\<lparr>constants := constants (chunk sc) @ [v]\<rparr>\<rparr>) s)"
  by (simp add: add_constant_def chunk_add_constant_def Let_def on_cur_def)

lemma add_constant_ok:
  assumes "valid ks s" "add_constant v s = (ix, s')"
    "const_fits (clean s) (objects (heap_of s)) (limit ks s) (length (upvalues (cur s))) u v"
  shows "valid ks s'" "step s s'" "same_regs s s'" "pooled ks u ix s'"
proof -
  let ?f = "\<lambda>sc. sc\<lparr>chunk := (chunk sc)\<lparr>constants := constants (chunk sc) @ [v]\<rparr>\<rparr>"
  have s': "s' = on_cur ?f s" "ix = as_u16 (length (constants (chunk (cur s))))"
    using assms(2) by (simp_all add: add_constant_eq)
  show "valid ks s'" unfolding s'
    by (rule valid_on_cur [OF assms(1)]) (auto simp: scope_ok_def intro: chunk_ok_constant)
  show "step s s'" unfolding s' by (rule step_on_cur) (simp_all add: grown_def)
  show "same_regs s s'" unfolding s' by (simp add: same_regs_def)
  have "limit ks s' = limit ks s" unfolding s' by (simp add: limit_def)
  then show "pooled ks u ix s'"
    using assms(3) unfolding s'
    by (auto simp: pooled_def pooled_in_def as_u16_def nth_append less_Suc_eq_le
        intro: order.trans [OF mod_less_eq_dividend])
qed

lemma add_constant_rule:
  assumes "valid ks s" "const_fits True (objects (heap_of s)) 0 0 u v"
    "\<And>ix s'. valid ks s' \<Longrightarrow> step s s' \<Longrightarrow> same_regs s s' \<Longrightarrow> pooled ks u ix s' \<Longrightarrow> meets b (f ix s') Q"
  shows "meets b (Let (add_constant v s) (\<lambda>(ix, s). f ix s)) Q"
proof -
  have "const_fits (clean s) (objects (heap_of s)) (limit ks s) (length (upvalues (cur s))) u v"
    using assms(2) by (rule const_fits_mono) simp_all
  then show ?thesis
    using assms(3) add_constant_ok [OF assms(1), of v] by (cases "add_constant v s") auto
qed

lemma string_constant_ok:
  assumes "valid ks s" "string_constant t s = (ix, s')"
  shows "valid ks s'" "step s s'" "same_regs s s'" "pooled ks UName ix s'"
proof -
  obtain v h where al: "alloc_string_old t (heap_of s) = (v, h)" by (cases "alloc_string_old t (heap_of s)")
  have "heap_ok (clean s) (heap_of s)" using assms(1) by (simp add: valid_def)
  note al_ok = alloc_string_ok [OF this al]
  note v = valid_heap [OF assms(1) al_ok(1)]
  have c: "clean (s\<lparr>heap_of := h\<rparr>) = clean s" by (simp add: clean_def)
  have ac: "add_constant v (s\<lparr>heap_of := h\<rparr>) = (ix, s')"
    using assms(2) al by (simp add: string_constant_def)
  have "const_fits (clean s) (objects h) (limit ks (s\<lparr>heap_of := h\<rparr>)) (length (upvalues (cur s))) UName v"
    using al_ok(2) by simp
  note a = add_constant_ok [OF v(1) ac, of UName, unfolded c, simplified, OF this]
  show "valid ks s'" "pooled ks UName ix s'" by (rule a)+
  show "step s s'" using v(2) a(2) by (rule step_trans)
  show "same_regs s s'" using v(3) a(3) by (simp add: same_regs_def)
qed

lemma string_constant_rule:
  assumes "valid ks s"
    "\<And>ix s'. valid ks s' \<Longrightarrow> step s s' \<Longrightarrow> same_regs s s' \<Longrightarrow> pooled ks UName ix s' \<Longrightarrow> meets b (f ix s') Q"
  shows "meets b (Let (string_constant t s) (\<lambda>(ix, s). f ix s)) Q"
  using assms string_constant_ok [OF assms(1), of t] by (cases "string_constant t s") auto

lemma object_constant_ok:
  assumes "valid ks s" "object_constant ob s = (ix, s')"
    "\<And>f. ob = OFunction f \<Longrightarrow> function_ok (clean s) (objects (heap_of s)) f \<and>
       captures_ok (clean s) (limit ks s) (length (upvalues (cur s))) (fn_upvalues f)"
  shows "valid ks s'" "step s s'" "same_regs s s'"
    "pooled ks (case ob of OFunction f \<Rightarrow> UProto | _ \<Rightarrow> UAny) ix s'"
proof -
  define h where "h = (heap_of s)\<lparr>objects := objects (heap_of s) @ [ob]\<rparr>"
  have ac: "add_constant (KObj (length (objects (heap_of s)))) (s\<lparr>heap_of := h\<rparr>) = (ix, s')"
    using assms(2) by (simp add: object_constant_def alloc_old_def h_def)
  have h: "h = (heap_of s)\<lparr>objects := objects (heap_of s) @ [ob], interned := interned (heap_of s)\<rparr>"
    by (simp add: h_def)
  have "heap_ok (clean s) h" unfolding h
    by (rule heap_ok_grow) (use assms(1,3) in \<open>auto simp: valid_def\<close>)
  then have "heap_grows (clean s) (heap_of s) h" by (simp add: heap_grows_def h_def)
  note v = valid_heap [OF assms(1) this]
  have c: "clean (s\<lparr>heap_of := h\<rparr>) = clean s" by (simp add: clean_def)
  have "const_fits (clean s) (objects h) (limit ks (s\<lparr>heap_of := h\<rparr>)) (length (upvalues (cur s)))
      (case ob of OFunction f \<Rightarrow> UProto | _ \<Rightarrow> UAny) (KObj (length (objects (heap_of s))))"
    using assms(3) by (cases ob) (simp_all add: const_fits_def h_def limit_def)
  note a = add_constant_ok [OF v(1) ac, of "case ob of OFunction f \<Rightarrow> UProto | _ \<Rightarrow> UAny", unfolded c, simplified, OF this]
  show "valid ks s'" "pooled ks (case ob of OFunction f \<Rightarrow> UProto | _ \<Rightarrow> UAny) ix s'" by (rule a)+
  show "step s s'" using v(2) a(2) by (rule step_trans)
  show "same_regs s s'" using v(3) a(3) by (simp add: same_regs_def)
qed

end
