(* ===== verification/Codegen_Jumps.thy ===== *)
theory Codegen_Jumps
  imports Codegen_Facts
begin

text \<open>
  The rules for the names a function sees, what it captures from the functions around it, its
  jumps and its jump tables.
\<close>

section \<open>Scopes that are not the current one\<close>

lemma frozen_lim: "frozen e e' \<Longrightarrow> lim k e' = lim k e"
  by (simp add: frozen_def lim_def)

lemma rposition_Some: "rposition p xs = Some i \<Longrightarrow> i < length xs"
  by (auto simp: rposition_def split: option.splits dest: position_Some)

lemma lreg_set:
  assumes "map lreg ls' = map lreg ls"
  shows "(\<forall>l \<in> set ls'. P (lreg l)) = (\<forall>l \<in> set ls. P (lreg l))"
proof -
  have e: "(\<forall>l \<in> set xs. P (lreg l)) = list_all P (map lreg xs)" for xs
    by (induction xs) simp_all
  show ?thesis unfolding e assms ..
qed

lemma scope_ok_frozen:
  assumes "scope_ok c obs k e" "frozen e e'"
  shows "scope_ok c obs k e'"
proof -
  have f: "chunk e' = chunk e" "next_reg e' = next_reg e" "max_reg e' = max_reg e" "loops e' = loops e"
    "overflow_reported e' = overflow_reported e" "map lreg (locals e') = map lreg (locals e)"
    "length (upvalues e) \<le> length (upvalues e')"
    using assms(2) by (simp_all add: frozen_def prefix_length_le)
  have "chunk_ok c obs (lim k e) (length (upvalues e')) (length (code (chunk e))) (chunk e)"
    using assms(1) f(7) by (auto simp: scope_ok_def intro: chunk_ok_mono)
  then show ?thesis
    using assms(1) unfolding scope_ok_def frozen_lim [OF assms(2)] f(1-5)
      lreg_set [OF f(6), of "\<lambda>r. r < lim k e"] lreg_set [OF f(6), of "\<lambda>r. r < 256"]
    by blast
qed

lemma add_upvalue_ok:
  assumes "add_upvalue u sc = (ix, sc')"
  shows "frozen sc sc'" "ix < length (upvalues sc')" "set (upvalues sc') \<subseteq> insert u (set (upvalues sc))"
    "locals sc' = locals sc"
proof -
  have "frozen sc sc' \<and> ix < length (upvalues sc') \<and>
    set (upvalues sc') \<subseteq> insert u (set (upvalues sc)) \<and> locals sc' = locals sc"
  proof (cases "position (\<lambda>d. d = u) (upvalues sc)")
    case (Some pos)
    then have "sc' = sc" "ix = pos mod 256" using assms by (simp_all add: add_upvalue_def)
    moreover have "pos mod 256 < length (upvalues sc)"
      using position_Some [OF Some] by (auto intro: le_less_trans [OF mod_less_eq_dividend])
    ultimately show ?thesis by auto
  next
    case None
    then have "sc' = sc\<lparr>upvalues := upvalues sc @ [u]\<rparr>" "ix = length (upvalues sc) mod 256"
      using assms by (auto simp: add_upvalue_def)
    moreover have "length (upvalues sc) mod 256 < Suc (length (upvalues sc))"
      by (rule le_less_trans [OF mod_less_eq_dividend]) simp
    ultimately show ?thesis by (auto simp: frozen_def)
  qed
  then show "frozen sc sc'" "ix < length (upvalues sc')" "locals sc' = locals sc"
    "set (upvalues sc') \<subseteq> insert u (set (upvalues sc))"
    by simp_all
qed

lemma captures_ok_insert:
  "captures_ok c m n us \<Longrightarrow> set us' \<subseteq> insert u (set us) \<Longrightarrow> captures_ok c m n [u] \<Longrightarrow> captures_ok c m n us'"
  by (fastforce simp: captures_ok_def)

lemma resolve_upvalue_ok:
  assumes "resolve_upvalue name sc es = (r, sc', es')" "list_all2 (scope_ok c obs) ks (sc # es)"
    "chain_ok c ks (sc # es)"
  shows "list_all2 frozen (sc # es) (sc' # es') \<and> chain_ok c ks (sc' # es') \<and>
    (\<forall>ix. r = Some ix \<longrightarrow> ix < length (upvalues sc')) \<and> locals sc' = locals sc"
  using assms
proof (induction name sc es arbitrary: ks r sc' es' rule: resolve_upvalue.induct)
  case (1 name sc)
  then show ?case by simp
next
  case (2 name sc e es)
  obtain k k' ks' where ks: "ks = k # k' # ks'"
    using "2.prems"(2) by (auto simp: list_all2_Cons2)
  have cap: "captures_ok c (lim k' e) (length (upvalues e)) (upvalues sc)" "chain_ok c (k' # ks') (e # es)"
    using "2.prems"(3) by (simp_all add: ks)
  have sok: "scope_ok c obs k' e" "list_all2 (scope_ok c obs) (k' # ks') (e # es)"
    using "2.prems"(2) by (simp_all add: ks)
  show ?case
  proof (cases "rposition (\<lambda>l. lname l = name) (locals e)")
    case (Some pos)
    then have pos: "pos < length (locals e)" by (rule rposition_Some)
    let ?l = "locals e ! pos"
    let ?e = "e\<lparr>locals := (locals e)[pos := ?l\<lparr>captured := True\<rparr>]\<rparr>"
    obtain ix where a: "add_upvalue (UpLocal (lreg ?l)) sc = (ix, sc')" "r = Some ix" "es' = ?e # es"
      using "2.prems"(1) Some by (auto simp: Let_def split: prod.splits)
    note u = add_upvalue_ok [OF a(1)]
    have fe: "frozen e ?e" using pos by (simp add: frozen_def map_update list_update_same_conv)
    have "captures_ok c (lim k' e) (length (upvalues e)) [UpLocal (lreg ?l)]"
      using sok(1) pos by (auto simp: captures_ok_def scope_ok_def)
    then have "captures_ok c (lim k' e) (length (upvalues e)) (upvalues sc')"
      using cap(1) u(3) captures_ok_insert by blast
    moreover have "chain_ok c (k' # ks') (?e # es)"
      using cap(2) chain_ok_cur [of ?e e c "k' # ks'" es] by simp
    ultimately show ?thesis
      using a u(1,2,4) fe frozen_lim [OF fe] by (simp add: ks list.rel_refl)
  next
    case None
    obtain up e2 es2 where r: "resolve_upvalue name e es = (up, e2, es2)"
      by (cases "resolve_upvalue name e es") auto
    note ih = "2.IH" [OF None r sok(2) cap(2)]
    then have fe: "frozen e e2" "list_all2 frozen es es2" "chain_ok c (k' # ks') (e2 # es2)"
      "\<forall>ix. up = Some ix \<longrightarrow> ix < length (upvalues e2)" by simp_all
    have mono: "length (upvalues e) \<le> length (upvalues e2)" using fe(1) by (simp add: frozen_def prefix_length_le)
    have cap2: "captures_ok c (lim k' e2) (length (upvalues e2)) (upvalues sc)"
      using cap(1) mono frozen_lim [OF fe(1)] captures_ok_mono by fastforce
    show ?thesis
    proof (cases up)
      case None
      then show ?thesis
        using "2.prems"(1) \<open>rposition _ _ = None\<close> r fe cap2 by (auto simp: ks)
    next
      case (Some i)
      then obtain ix where a: "add_upvalue (UpUpvalue i) sc = (ix, sc')" "r = Some ix" "es' = e2 # es2"
        using "2.prems"(1) \<open>rposition _ _ = None\<close> r by (auto simp: Let_def split: prod.splits)
      note u = add_upvalue_ok [OF a(1)]
      have "captures_ok c (lim k' e2) (length (upvalues e2)) [UpUpvalue i]"
        using fe(4) Some by (simp add: captures_ok_def)
      then have "captures_ok c (lim k' e2) (length (upvalues e2)) (upvalues sc')"
        using cap2 u(3) captures_ok_insert by blast
      then show ?thesis
        using a u(1,2,4) fe by (simp add: ks)
    qed
  qed
qed

lemma scopes_frozen:
  "list_all2 (scope_ok c obs) ks scs \<Longrightarrow> list_all2 frozen scs scs' \<Longrightarrow> list_all2 (scope_ok c obs) ks scs'"
proof (induction ks scs arbitrary: scs' rule: list_all2_induct)
  case (Cons k ks sc scs)
  then show ?case by (auto simp: list_all2_Cons1 intro: scope_ok_frozen)
qed simp

section \<open>Names\<close>

lemma capture_ok:
  assumes "valid ks s" "capture name s = (r, s')"
  shows "valid ks s'" "step s s'" "same_regs s s'" "\<forall>ix. r = Some ix \<longrightarrow> upval ix s'"
    "limit ks s' = limit ks s" "max_reg (cur s') = max_reg (cur s)"
proof -
  obtain sc es where u: "resolve_upvalue name (cur s) (outer s) = (r, sc, es)" "s' = s\<lparr>cur := sc, outer := es\<rparr>"
    using assms(2) by (auto simp: capture_def split: prod.splits)
  have c: "clean s' = clean s" by (simp add: u clean_def)
  have v: "list_all2 (scope_ok (clean s) (objects (heap_of s))) ks (cur s # outer s)"
    "chain_ok (clean s) ks (cur s # outer s)" "heap_ok (clean s) (heap_of s)"
    using assms(1) by (simp_all add: valid_def)
  note r = resolve_upvalue_ok [OF u(1) v(1,2)]
  show "valid ks s'" unfolding valid_def c
    using scopes_frozen [OF v(1), of "sc # es"] r v(3) by (simp add: u(2))
  have f: "frozen (cur s) sc" "list_all2 frozen (outer s) es" using r by simp_all
  show "step s s'" using f frozen_grown [OF f(1)]
    by (auto simp: step_def grows_def u(2) frozen_def)
  show "same_regs s s'" using f c r by (auto simp: same_regs_def u(2) frozen_def)
  show "\<forall>ix. r = Some ix \<longrightarrow> upval ix s'" using r by (simp add: upval_def u(2))
  show "limit ks s' = limit ks s" "max_reg (cur s') = max_reg (cur s)"
    using f(1) by (simp_all add: u(2) limit_def lim_def frozen_def)
qed

lemma local_ok:
  assumes "valid ks s" "l \<in> set (locals (cur s))"
  shows "lreg l < 256" "reg ks (lreg l) s"
  using valid_cur(1) [OF assms(1)] assms(2) by (auto simp: scope_ok_def reg_def limit_def)

lemma resolve_variable_cases:
  assumes "valid ks s" "resolve_variable name s = (v, s')"
  obtains (local) r is_const where "v = VLocal r is_const" "s' = s" "reg ks r s" "r < 256"
  | (captured) ix where "v = VUpvalue ix" "valid ks s'" "step s s'" "same_regs s s'" "upval ix s'"
  | (global) "v = VGlobal" "valid ks s'" "step s s'" "same_regs s s'"
proof (cases "find (\<lambda>l. lname l = name) (rev (locals (cur s)))")
  case (Some l)
  then have "l \<in> set (locals (cur s))" by (auto simp: find_Some_iff dest!: arg_cong [of _ _ set] intro: nth_mem)
      (metis length_rev nth_mem set_rev)
  then show thesis
    using that(1) [of "lreg l" "lconst l"] local_ok [OF assms(1)] assms(2) Some
    by (simp add: resolve_variable_def)
next
  case None
  obtain r s2 where c: "capture name s = (r, s2)" by (cases "capture name s")
  show thesis
    using that(2,3) capture_ok [OF assms(1) c] assms(2) None c
    by (cases r) (auto simp: resolve_variable_def)
qed

lemma capture_rule:
  assumes "valid ks s"
    "\<And>r s'. valid ks s' \<Longrightarrow> step s s' \<Longrightarrow> same_regs s s' \<Longrightarrow> (\<And>ix. r = Some ix \<Longrightarrow> upval ix s') \<Longrightarrow> meets b (f r s') Q"
  shows "meets b (Let (capture name s) (\<lambda>(r, s). f r s)) Q"
  using assms(2) capture_ok [OF assms(1)] by (cases "capture name s") simp

lemma resolve_rule:
  assumes "valid ks s"
    "\<And>r c. reg ks r s \<Longrightarrow> r < 256 \<Longrightarrow> meets b (f r c s) Q"
    "\<And>ix s'. valid ks s' \<Longrightarrow> step s s' \<Longrightarrow> same_regs s s' \<Longrightarrow> upval ix s' \<Longrightarrow> meets b (g ix s') Q"
    "\<And>s'. valid ks s' \<Longrightarrow> step s s' \<Longrightarrow> same_regs s s' \<Longrightarrow> meets b (h s') Q"
  shows "meets b (case resolve_variable name s of
      (VLocal r c, s) \<Rightarrow> f r c s | (VUpvalue ix, s) \<Rightarrow> g ix s | (VGlobal, s) \<Rightarrow> h s) Q"
proof -
  obtain v s' where v: "resolve_variable name s = (v, s')" by (cases "resolve_variable name s")
  show ?thesis using assms(2-4) by (cases rule: resolve_variable_cases [OF assms(1) v]) (simp_all add: v)
qed

lemma push_local_ok:
  assumes "valid ks s" "reg ks r s" "r < 256"
  shows "valid ks (push_local n r c d s)" "step s (push_local n r c d s)"
    "next_reg (cur (push_local n r c d s)) = next_reg (cur s)" "clean (push_local n r c d s) = clean s"
    "max_reg (cur (push_local n r c d s)) = max_reg (cur s)"
    "upvalues (cur (push_local n r c d s)) = upvalues (cur s)" "limit ks (push_local n r c d s) = limit ks s"
    "loops (cur (push_local n r c d s)) = loops (cur s)" "outer (push_local n r c d s) = outer s"
proof -
  show "valid ks (push_local n r c d s)" unfolding push_local_def
    by (rule valid_on_cur [OF assms(1)])
      (use assms(2,3) in \<open>auto simp: scope_ok_def reg_def limit_def\<close>)
  show "step s (push_local n r c d s)" unfolding push_local_def
    by (rule step_on_cur) (simp_all add: grown_def)
qed (simp_all add: push_local_def limit_def)

lemma push_local_rule:
  assumes "valid ks s" "reg ks r s" "r < 256"
    "\<And>s'. valid ks s' \<Longrightarrow> step s s' \<Longrightarrow> next_reg (cur s') = next_reg (cur s) \<Longrightarrow> meets b (f s') Q"
  shows "meets b (Let (push_local n r c d s) f) Q"
  using assms(4) push_local_ok [OF assms(1-3)] by simp

section \<open>Jumps\<close>

lemma instr_ok_with_offset [simp]: "instr_ok c obs m n k (with_offset off i) = instr_ok c obs m n k i"
  by (cases i) (simp_all add: instr_ok_def)

lemma patchable_update:
  "patchable cs at \<Longrightarrow> patchable (cs[j := with_offset off (cs ! j)]) at"
  by (cases "at = j") (auto simp: patchable_def)

lemma instr_ok_code [simp]:
  "instr_ok c obs m n (k\<lparr>code := cs\<rparr>) i = instr_ok c obs m n k i"
  by (cases i) (simp_all add: instr_ok_def)

lemma chunk_ok_patch:
  assumes "chunk_ok c obs m n len k" "0 \<le> int j + 1 + off" "int j + 1 + off \<le> int len"
  shows "chunk_ok c obs m n len (k\<lparr>code := (code k)[j := with_offset off (code k ! j)]\<rparr>)"
proof (cases "j < length (code k)")
  case True
  have "i \<in> set ((code k)[j := with_offset off (code k ! j)]) \<Longrightarrow> instr_ok c obs m n k i" for i
    using set_update_subset_insert [of "code k" j "with_offset off (code k ! j)"] assms(1) True
    by (auto simp: chunk_ok_def)
  moreover have "jump_within len at ((code k)[j := with_offset off (code k ! j)] ! at)"
    if "at < length (code k)" for at
    using that assms True by (auto simp: nth_list_update jump_within_def chunk_ok_def)
  ultimately show ?thesis using assms(1) by (simp add: chunk_ok_def)
qed (use assms(1) in \<open>simp add: list_update_beyond chunk_ok_def\<close>)

lemma code_patch:
  "chunk_update (code_update f) = (\<lambda>sc. sc\<lparr>chunk := (chunk sc)\<lparr>code := f (code (chunk sc))\<rparr>\<rparr>)"
  by (rule ext) simp

lemma patch_jump_rule:
  assumes "valid ks s" "jump_at j s"
    "\<And>s'. valid ks s' \<Longrightarrow> step s s' \<Longrightarrow> same_regs s s' \<Longrightarrow> Q s'"
  shows "meets b (patch_jump j s) Q"
proof -
  have j: "j < code_len s" "jump_offset (code (chunk (cur s)) ! j) \<noteq> None"
    using assms(2) by (simp_all add: jump_at_def patchable_def code_len_def)
  let ?off = "int (code_len s) - (int j + 1)"
  let ?f = "\<lambda>sc. sc\<lparr>chunk := (chunk sc)\<lparr>code := (code (chunk sc))[j := with_offset ?off (code (chunk sc) ! j)]\<rparr>\<rparr>"
  have v: "valid ks (on_cur ?f s)"
    by (rule valid_on_cur [OF assms(1)])
      (use j(1) in \<open>auto simp: scope_ok_def loop_ok_def code_len_def
        intro!: chunk_ok_patch [where off = ?off, unfolded code_len_def] patchable_update\<close>)
  have st: "step s (on_cur ?f s)"
    by (rule step_on_cur) (auto simp: grown_def intro: patchable_update)
  have "same_regs s (on_cur ?f s)" by (simp add: same_regs_def)
  then have "Q (on_cur ?f s)" using v st by (intro assms(3))
  then show ?thesis
    using j by (auto simp: patch_jump_def to_i16_def seq_def meets_def code_patch)
qed

lemma emit_loop_rule:
  assumes "valid ks s" "place t s"
    "\<And>at s'. valid ks s' \<Longrightarrow> step s s' \<Longrightarrow> same_regs s s' \<Longrightarrow> jump_at at s' \<Longrightarrow> Q (at, s')"
  shows "meets b (emit_loop t s) Q"
proof -
  let ?i = "IJmp (int t - (int (code_len s) + 1))"
  have e: "emittable ks ?i s" by (simp add: emittable_iff)
  have w: "jump_within (code_len s + 1) (code_len s) ?i" using assms(2) by (simp add: jump_within_def place_def)
  have "jump_at (code_len s) (emits ?i s)"
    by (simp add: jump_at_def patchable_def code_len_def)
  then have "Q (code_len s, emits ?i s)"
    using assms(3) [OF emits_ok [OF assms(1) e w], of "code_len s"] by (simp add: same_regs_def)
  moreover have "emit ?i s = (code_len s, emits ?i s)" by (simp add: prod_eq_iff)
  ultimately show ?thesis by (auto simp: emit_loop_def to_i16_def seq_def meets_def)
qed

lemma pop_catches_ok:
  assumes "valid ks s"
  shows "valid ks (((emits IPopCatch) ^^ n) s) \<and> step s (((emits IPopCatch) ^^ n) s) \<and>
    same_regs s (((emits IPopCatch) ^^ n) s)"
proof (induction n)
  case (Suc n)
  let ?t = "((emits IPopCatch) ^^ n) s"
  have v: "valid ks ?t" "step s ?t" "same_regs s ?t" using Suc.IH by simp_all
  have "emittable ks IPopCatch ?t" by (simp add: emittable_iff)
  note e = emits_ok [OF v(1) this jump_within_plain]
  show ?case using e v(3) step_trans [OF v(2)] by (simp add: same_regs_def)
qed (simp add: assms)

lemma leave_loop_catches_rule:
  assumes "valid ks s" "\<And>s'. valid ks s' \<Longrightarrow> step s s' \<Longrightarrow> same_regs s s' \<Longrightarrow> Q s'"
  shows "Q (leave_loop_catches s)"
  using assms(2) pop_catches_ok [OF assms(1)] by (simp add: leave_loop_catches_def Let_def)

section \<open>Tables and checks\<close>

lemma chunk_ok_table:
  assumes "chunk_ok c obs m n len k" "length (jump_tables k) \<le> length ts"
    "\<And>t j x. t \<in> set ts \<Longrightarrow> t j = Some x \<Longrightarrow> x \<le> len"
  shows "chunk_ok c obs m n len (k\<lparr>jump_tables := ts\<rparr>)"
proof -
  have "instr_ok c obs m n (k\<lparr>jump_tables := ts\<rparr>) i" if "instr_ok c obs m n k i" for i
    by (rule instr_ok_mono [OF that]) (use assms(2) in simp_all)
  then show ?thesis using assms by (fastforce simp: chunk_ok_def)
qed

lemma chunk_table: "chunk_ok c obs m n len k \<Longrightarrow> t \<in> set (jump_tables k) \<Longrightarrow> t j = Some x \<Longrightarrow> x \<le> len"
  by (auto simp: chunk_ok_def)

lemma add_jump_table_rule:
  assumes "valid ks s"
    "\<And>t s'. valid ks s' \<Longrightarrow> step s s' \<Longrightarrow> same_regs s s' \<Longrightarrow> table t s' \<Longrightarrow> meets b (f t s') Q"
  shows "meets b (Let (add_jump_table s) (\<lambda>(t, s). f t s)) Q"
proof -
  let ?f = "\<lambda>sc. sc\<lparr>chunk := (chunk sc)\<lparr>jump_tables := jump_tables (chunk sc) @ [Map.empty]\<rparr>\<rparr>"
  let ?ix = "as_u16 (length (jump_tables (chunk (cur s))))"
  have a: "add_jump_table s = (?ix, on_cur ?f s)"
    by (simp add: add_jump_table_def chunk_add_jump_table_def Let_def on_cur_def)
  have v: "valid ks (on_cur ?f s)"
    by (rule valid_on_cur [OF assms(1)])
      (auto simp: scope_ok_def intro!: chunk_ok_table intro: chunk_table)
  have st: "step s (on_cur ?f s)" by (rule step_on_cur) (simp_all add: grown_def)
  have "table ?ix (on_cur ?f s)"
    by (simp add: table_def as_u16_def le_less_trans [OF mod_less_eq_dividend])
  then show ?thesis using v st assms(2) by (simp add: a same_regs_def)
qed

lemma table_insert_rule:
  assumes "valid ks s" "table t s" "place x s"
    "\<And>s'. valid ks s' \<Longrightarrow> step s s' \<Longrightarrow> same_regs s s' \<Longrightarrow> Q s'"
  shows "meets b (table_insert t key x s) Q"
proof -
  let ?ts = "jump_tables (chunk (cur s))"
  let ?f = "chunk_update (jump_tables_update (\<lambda>_. ?ts[t := (?ts ! t)(key \<mapsto> x)]))"
  have t: "t < length ?ts" using assms(2) by (simp add: table_def)
  have ts: "y \<le> length (code (chunk (cur s)))"
    if "tb \<in> set (?ts[t := (?ts ! t)(key \<mapsto> x)])" "tb j = Some y"
      "chunk_ok c obs m n (length (code (chunk (cur s)))) (chunk (cur s))" for tb j y c obs m n
  proof -
    have "tb \<in> set ?ts \<or> tb = (?ts ! t)(key \<mapsto> x)"
      using set_update_subset_insert [of ?ts t "(?ts ! t)(key \<mapsto> x)"] that(1) by auto
    then show ?thesis
      using that(2) chunk_table [OF that(3)] nth_mem [OF t] assms(3)
      by (auto simp: place_def code_len_def split: if_splits)
  qed
  have f: "?f (cur s) = (cur s)\<lparr>chunk := (chunk (cur s))\<lparr>jump_tables := ?ts[t := (?ts ! t)(key \<mapsto> x)]\<rparr>\<rparr>"
    by simp
  have v: "valid ks (on_cur ?f s)"
  proof (rule valid_on_cur [OF assms(1)])
    assume sc: "scope_ok (clean s) (objects (heap_of s)) (hd ks) (cur s)"
    then have "chunk_ok (clean s) (objects (heap_of s)) (lim (hd ks) (cur s)) (length (upvalues (cur s)))
        (length (code (chunk (cur s)))) ((chunk (cur s))\<lparr>jump_tables := ?ts[t := (?ts ! t)(key \<mapsto> x)]\<rparr>)"
      by (intro chunk_ok_table) (auto simp: scope_ok_def intro: ts)
    then show "scope_ok (clean s) (objects (heap_of s)) (hd ks) (?f (cur s))"
      using sc unfolding f by (simp add: scope_ok_def)
  qed simp
  have st: "step s (on_cur ?f s)" by (rule step_on_cur) (simp_all add: grown_def)
  show ?thesis using v st assms(4) t by (simp add: table_insert_def meets_def same_regs_def Let_def)
qed

lemma add_param_check_rule:
  assumes "valid ks s"
    "\<And>t. t \<in> set (param_types check) \<Longrightarrow>
       param_ok (clean s) (objects (heap_of s)) (limit ks s) (length (upvalues (cur s))) (constants (chunk (cur s))) t"
    "\<And>ix s'. valid ks s' \<Longrightarrow> step s s' \<Longrightarrow> same_regs s s' \<Longrightarrow>
       ix < length (param_checks (chunk (cur s'))) \<Longrightarrow> meets b (f ix s') Q"
  shows "meets b (Let (add_param_check check s) (\<lambda>(ix, s). f ix s)) Q"
proof -
  let ?f = "\<lambda>sc. sc\<lparr>chunk := (chunk sc)\<lparr>param_checks := param_checks (chunk sc) @ [check]\<rparr>\<rparr>"
  let ?ix = "as_u16 (length (param_checks (chunk (cur s))))"
  have a: "add_param_check check s = (?ix, on_cur ?f s)"
    by (simp add: add_param_check_def chunk_add_param_check_def Let_def on_cur_def)
  have i: "instr_ok c obs m n (k\<lparr>param_checks := param_checks k @ [check]\<rparr>) i"
    if "instr_ok c obs m n k i" for c obs m n k i
    by (rule instr_ok_mono [OF that]) simp_all
  have v: "valid ks (on_cur ?f s)"
    by (rule valid_on_cur [OF assms(1)])
      (use assms(2) in \<open>auto simp: scope_ok_def chunk_ok_def limit_def intro: i\<close>)
  have st: "step s (on_cur ?f s)" by (rule step_on_cur) (simp_all add: grown_def)
  have "?ix < length (param_checks (chunk (cur (on_cur ?f s))))"
    by (simp add: as_u16_def le_less_trans [OF mod_less_eq_dividend])
  then show ?thesis using v st assms(3) by (simp add: a same_regs_def)
qed

end
