(* ===== verification/Codegen_Steps.thy ===== *)
theory Codegen_Steps
  imports Codegen_Jumps
begin

text \<open>
  What each instruction needs in order to be emitted, and the rules for the small definitions
  that the rules of the grammar share.
\<close>

section \<open>Instructions\<close>

lemma emittables:
  "reg ks dst s \<Longrightarrow> pooled ks UAny c s \<Longrightarrow>
     emittable ks (ILoadConst dst c) s"
  "reg ks dst s \<Longrightarrow> emittable ks (ILoadNil dst) s"
  "reg ks dst s \<Longrightarrow> emittable ks (ILoadBool dst w) s"
  "reg ks dst s \<Longrightarrow> reg ks src s \<Longrightarrow> emittable ks (IMove dst src) s"
  "reg ks dst s \<Longrightarrow> reg ks a s \<Longrightarrow> reg ks b s \<Longrightarrow>
     emittable ks (IBinary op dst a b) s"
  "reg ks dst s \<Longrightarrow> reg ks src s \<Longrightarrow>
     emittable ks (IUnary uop dst src) s"
  "reg ks dst s \<Longrightarrow> reg ks a s \<Longrightarrow> pooled ks UNumber c s \<Longrightarrow>
     emittable ks (IImm iop dst a c) s"
  "emittable ks (IJmp off) s"
  "reg ks cond s \<Longrightarrow> emittable ks (IJmpIfFalse cond off) s"
  "reg ks cond s \<Longrightarrow> emittable ks (IJmpIfTrue cond off) s"
  "reg ks dst s \<Longrightarrow> reg ks (func + num_args) s \<Longrightarrow>
     emittable ks (ICall dst func num_args) s"
  "reg ks src s \<Longrightarrow> emittable ks (IReturn src) s"
  "reg ks src s \<Longrightarrow> emittable ks (IPrint src) s"
  "reg ks dst s \<Longrightarrow> pooled ks UName name s \<Longrightarrow>
     emittable ks (IGetGlobal dst name) s"
  "reg ks src s \<Longrightarrow> pooled ks UName name s \<Longrightarrow>
     emittable ks (ISetGlobal name src) s"
  "reg ks src s \<Longrightarrow> pooled ks UName name s \<Longrightarrow>
     emittable ks (IAssignGlobal name src) s"
  "reg ks dst s \<Longrightarrow> pooled ks UProto proto s \<Longrightarrow>
     emittable ks (IClosure dst proto) s"
  "reg ks dst s \<Longrightarrow> upval ix s \<Longrightarrow> emittable ks (IGetUpval dst ix) s"
  "reg ks src s \<Longrightarrow> upval ix s \<Longrightarrow> emittable ks (ISetUpval ix src) s"
  "marked ks from_reg s \<Longrightarrow> emittable ks (ICloseUpvalues from_reg) s"
  "reg ks dst s \<Longrightarrow> marked ks (first + count) s \<Longrightarrow>
     emittable ks (IMakeList dst first count) s"
  "reg ks dst s \<Longrightarrow> marked ks (first + 2 * count) s \<Longrightarrow>
     emittable ks (IMakeDict dst first count) s"
  "reg ks cls s \<Longrightarrow> pooled ks UName name s \<Longrightarrow>
     emittable ks (IDeclareField cls name) s"
  "reg ks cls s \<Longrightarrow> pooled ks UName name s \<Longrightarrow> pooled ks UAny v s \<Longrightarrow>
     emittable ks (ISetFieldDefault cls name v) s"
  "reg ks cls s \<Longrightarrow> reg ks src s \<Longrightarrow>
     emittable ks (ISetFieldInit cls src) s"
  "reg ks cls s \<Longrightarrow> reg ks src s \<Longrightarrow> pooled ks UName name s \<Longrightarrow>
     emittable ks (ISetMethod cls name src) s"
  "reg ks cls s \<Longrightarrow> reg ks src s \<Longrightarrow> pooled ks UName name s \<Longrightarrow>
     emittable ks (IDeclareStatic cls name src) s"
  "reg ks cls s \<Longrightarrow> emittable ks (IFinalizeClass cls) s"
  "reg ks dst s \<Longrightarrow> reg ks obj s \<Longrightarrow> pooled ks UName name s \<Longrightarrow>
     emittable ks (IGetField dst obj name) s"
  "reg ks obj s \<Longrightarrow> reg ks src s \<Longrightarrow> pooled ks UName name s \<Longrightarrow>
     emittable ks (ISetField obj name src) s"
  "reg ks dst s \<Longrightarrow> reg ks (obj + 1 + num_args) s \<Longrightarrow> pooled ks UName method s \<Longrightarrow>
     emittable ks (IInvoke dst obj method num_args) s"
  "reg ks dst s \<Longrightarrow> reg ks (superclass + 1 + num_args) s \<Longrightarrow> pooled ks UName method s \<Longrightarrow>
     emittable ks (IInvokeSuper dst superclass method num_args) s"
  "reg ks dst s \<Longrightarrow> reg ks (superclass + 1 + num_args) s \<Longrightarrow>
     emittable ks (ICallSuperCtor dst superclass num_args) s"
  "reg ks dst s \<Longrightarrow> pooled ks UName path s \<Longrightarrow> pooled ks UName importer s \<Longrightarrow>
     emittable ks (IImport dst path importer) s"
  "reg ks m s \<Longrightarrow> emittable ks (IImportAll m exported) s"
  "reg ks dst s \<Longrightarrow> reg ks m s \<Longrightarrow> pooled ks UName name s \<Longrightarrow>
     emittable ks (IMakePromoted dst m name) s"
  "reg ks dst s \<Longrightarrow> reg ks obj s \<Longrightarrow> reg ks ix s \<Longrightarrow>
     emittable ks (IGetIndex dst obj ix) s"
  "reg ks obj s \<Longrightarrow> reg ks ix s \<Longrightarrow> reg ks src s \<Longrightarrow>
     emittable ks (ISetIndex obj ix src) s"
  "reg ks dst s \<Longrightarrow> reg ks obj s \<Longrightarrow> reg ks lo s \<Longrightarrow> reg ks hi s \<Longrightarrow>
     emittable ks (IGetSlice dst obj lo hi) s"
  "reg ks dst s \<Longrightarrow> reg ks lower s \<Longrightarrow> reg ks upper s \<Longrightarrow>
     emittable ks (IMakeRange dst lower upper) s"
  "reg ks subject s \<Longrightarrow> table tab s \<Longrightarrow>
     emittable ks (IUsingJump subject tab) s"
  "reg ks src s \<Longrightarrow> emittable ks (IRaise src) s"
  "emittable ks IPopCatch s"
  "reg ks r s \<Longrightarrow> check < length (param_checks (chunk (cur s))) \<Longrightarrow>
     emittable ks (ICheckParamType r check) s"
  by (auto simp: emittable_iff reg_def marked_def)

lemma emittable_class:
  "reg ks dst s \<Longrightarrow> pooled ks UName name s \<Longrightarrow> pred_option (\<lambda>r. reg ks r s) superclass \<Longrightarrow>
     emittable ks (IMakeClass dst name superclass) s"
  by (auto simp: emittable_iff reg_def pred_option_def)

lemma emittable_catch:
  "pred_option (\<lambda>r. reg ks r s) var \<Longrightarrow> emittable ks (IPushCatch var off) s"
  by (auto simp: emittable_iff reg_def pred_option_def)

lemma emittable_if:
  "emittable ks i s \<Longrightarrow> emittable ks j s \<Longrightarrow>
     emittable ks (if c then i else j) s"
  by simp

lemma jump_offset_if: "jump_offset i = x \<Longrightarrow> jump_offset j = x \<Longrightarrow> jump_offset (if c then i else j) = x"
  by simp

lemmas emit_intros = emittables emittable_class emittable_catch emittable_if jump_offset_if

section \<open>Results\<close>

text \<open>A register for the result, or only a state, from \<open>s\<close> on.\<close>

definition given :: "nat list \<Rightarrow> compiler \<Rightarrow> nat \<times> compiler \<Rightarrow> bool" where
  "given ks s = (\<lambda>(r, s'). valid ks s' \<and> step s s' \<and> reg ks r s' \<and> r < 256)"

definition moved :: "nat list \<Rightarrow> compiler \<Rightarrow> compiler \<Rightarrow> bool" where
  "moved ks s s' \<longleftrightarrow> valid ks s' \<and> step s s'"

lemma givenI: "valid ks s' \<Longrightarrow> step s s' \<Longrightarrow> reg ks r s' \<Longrightarrow> r < 256 \<Longrightarrow> given ks s (r, s')"
  by (simp add: given_def)

lemma movedI: "valid ks s' \<Longrightarrow> step s s' \<Longrightarrow> moved ks s s'"
  by (simp add: moved_def)

lemma given_emits:
  "valid ks s \<Longrightarrow> emittable ks i s \<Longrightarrow> jump_offset i = None \<Longrightarrow> step s0 s \<Longrightarrow> reg ks r s \<Longrightarrow> r < 256 \<Longrightarrow>
     given ks s0 (r, emits i s)"
  using emits_ok [OF _ _ jump_within_plain, of ks s i] reg_mono [OF step_grows, of s "emits i s" ks r]
  by (auto simp: given_def intro: step_trans)

lemma moved_emits:
  "valid ks s \<Longrightarrow> emittable ks i s \<Longrightarrow> jump_offset i = None \<Longrightarrow> step s0 s \<Longrightarrow> moved ks s0 (emits i s)"
  using emits_ok [OF _ _ jump_within_plain, of ks s i] by (auto simp: moved_def intro: step_trans)

lemma given_rule:
  "meets b m (given ks s) \<Longrightarrow>
     (\<And>r s'. valid ks s' \<Longrightarrow> step s s' \<Longrightarrow> reg ks r s' \<Longrightarrow> r < 256 \<Longrightarrow> Q (r, s')) \<Longrightarrow> meets b m Q"
  by (erule meets_then) (auto simp: given_def)

lemma moved_rule:
  "meets b m (moved ks s) \<Longrightarrow> (\<And>s'. valid ks s' \<Longrightarrow> step s s' \<Longrightarrow> Q s') \<Longrightarrow> meets b m Q"
  by (erule meets_then) (auto simp: moved_def)

text \<open>Definitions that cannot stop are run the same way.\<close>

lemma Inr_let: "Inr (Let x f) = Let x (\<lambda>y. Inr (f y))"
  by simp

lemma Inr_pair: "Inr (case p of (x, y) \<Rightarrow> f x y) = (case p of (x, y) \<Rightarrow> Inr (f x y))"
  by (simp add: split_beta)

lemmas pure_run = Inr_let Inr_pair

lemma let_given:
  "given ks s p \<Longrightarrow>
     (\<And>r s'. valid ks s' \<Longrightarrow> step s s' \<Longrightarrow> reg ks r s' \<Longrightarrow> r < 256 \<Longrightarrow> meets b (f r s') Q) \<Longrightarrow>
     meets b (Let p (\<lambda>(r, s). f r s)) Q"
  by (cases p) (simp add: given_def)

lemma let_moved:
  "moved ks s t \<Longrightarrow> (\<And>s'. valid ks s' \<Longrightarrow> step s s' \<Longrightarrow> meets b (f s') Q) \<Longrightarrow> meets b (Let t f) Q"
  by (simp add: moved_def)

lemma given_later: "given ks s p \<Longrightarrow> step s0 s \<Longrightarrow> given ks s0 p"
  by (auto simp: given_def intro: step_trans)

lemma moved_later: "moved ks s t \<Longrightarrow> step s0 s \<Longrightarrow> moved ks s0 t"
  by (auto simp: moved_def intro: step_trans)

lemma given_run: "meets True (Inr p) (given ks s) \<Longrightarrow> given ks s p"
  by (simp add: meets_def)

lemma moved_run: "meets True (Inr t) (moved ks s) \<Longrightarrow> moved ks s t"
  by (simp add: meets_def)

lemma step_clean: "step s t \<Longrightarrow> clean t \<Longrightarrow> clean s"
  using grows_clean step_grows by blast

text \<open>What holds stays so: a fact is found by going back over the steps since.\<close>

lemmas steady = reg_mono [OF step_grows] marked_mono [OF step_grows] jump_at_mono [OF step_grows]
  place_mono [OF step_grows] table_mono [OF step_grows] upval_mono [OF step_grows]
  pooled_mono [OF step_grows]

lemmas runs = meets_pair meets_seq meets_if emits_rule emit_jump_rule set_line_rule report_rule
  report_if_rule private_rule alloc_rule free_regs_rule free_after_rule move_to_rule
  add_constant_rule string_constant_rule capture_rule push_local_rule patch_jump_rule
  emit_loop_rule add_jump_table_rule table_insert_rule u8_add_rule meets_name meets_Inr given_emits moved_emits givenI movedI

lemma jump_if_rules:
  assumes "valid ks s" "reg ks r s"
    "\<And>at s'. valid ks s' \<Longrightarrow> step s s' \<Longrightarrow> same_regs s s' \<Longrightarrow> jump_at at s' \<Longrightarrow> meets b (f at s') Q"
  shows "meets b (Let (emit_jump_if_false r s) (\<lambda>(at, s). f at s)) Q"
    "meets b (Let (emit_jump_if_true r s) (\<lambda>(at, s). f at s)) Q"
  unfolding emit_jump_if_false_def emit_jump_if_true_def
  by (rule emit_jump_rule [OF assms(1)]; (rule emit_intros assms | simp)+)+

lemma jump_rule:
  assumes "valid ks s"
    "\<And>at s'. valid ks s' \<Longrightarrow> step s s' \<Longrightarrow> same_regs s s' \<Longrightarrow> jump_at at s' \<Longrightarrow> meets b (f at s') Q"
  shows "meets b (Let (emit_jump s) (\<lambda>(at, s). f at s)) Q"
  unfolding emit_jump_def
  by (rule emit_jump_rule [OF assms(1)]; (rule emit_intros assms | simp)+)

section \<open>Registers of results\<close>

lemma error_reg_given: "valid ks s \<Longrightarrow> given ks s (error_reg s)"
  by (rule given_run, unfold error_reg_def pure_run, intro runs)
    (assumption | erule steady step_trans | rule emit_intros | simp)+

lemma result_reg_given:
  "valid ks s \<Longrightarrow> reg ks r s \<Longrightarrow> r < 256 \<Longrightarrow> given ks s (result_reg m r s)"
  using alloc_reg_ok [of ks s] by (cases "alloc_reg s") (auto simp: result_reg_def given_def)

lemma fresh_copy_given:
  "valid ks s \<Longrightarrow> reg ks r s \<Longrightarrow> r < 256 \<Longrightarrow> given ks s (fresh_copy m r s)"
  by (rule given_run, unfold fresh_copy_def pure_run, unfold if_distrib [of Inr] pure_run, intro runs)
    (assumption | erule steady step_trans | rule emit_intros step_refl | simp)+

lemma load_pooled_given:
  assumes "valid ks s"
    "\<And>s b (f :: nat \<Rightarrow> compiler \<Rightarrow> (nat \<times> compiler) run) Q. valid ks s \<Longrightarrow>
       (\<And>ix s'. valid ks s' \<Longrightarrow> step s s' \<Longrightarrow> pooled ks UAny ix s' \<Longrightarrow> meets b (f ix s') Q) \<Longrightarrow>
       meets b (Let (pool s) (\<lambda>(ix, s). f ix s)) Q"
  shows "given ks s (load_pooled pool s)"
  by (rule given_run, unfold load_pooled_def pure_run, intro runs assms(2))
    (assumption | rule assms(1) | erule steady step_trans | rule emit_intros | simp)+

end
