(* ===== verification/Codegen_Input.thy ===== *)
theory Codegen_Input
  imports Codegen_Steps Lower_Facts
begin

text \<open>
  The trees the code generator takes: what it assumes of each node, where it panics otherwise.
\<close>

section \<open>Assumptions on a node\<close>

definition named_by :: "token \<Rightarrow> bool" where
  "named_by t \<longleftrightarrow> name_of_kind (kind t) \<noteq> None"

text \<open>Not a hint, a parameter, or a form that lowering takes away.\<close>

definition yields_value :: "expr \<Rightarrow> bool" where
  "yields_value e \<longleftrightarrow>
     (case ekind e of
        ETypeHint ts m \<Rightarrow> False | EArgument t h \<Rightarrow> False | ECompoundAssign t op v ln \<Rightarrow> False
      | EUpdate t op ln \<Rightarrow> False | EInterpolation xs \<Rightarrow> False | EShorthand t \<Rightarrow> False | _ \<Rightarrow> True)"

definition is_identifier_expr :: "expr \<Rightarrow> bool" where
  "is_identifier_expr e \<longleftrightarrow> (case ekind e of EIdentifier t \<Rightarrow> True | _ \<Rightarrow> False)"

definition is_parameter :: "expr \<Rightarrow> bool" where
  "is_parameter e \<longleftrightarrow> (case ekind e of EArgument t h \<Rightarrow> True | _ \<Rightarrow> False)"

definition is_type_hint :: "expr \<Rightarrow> bool" where
  "is_type_hint e \<longleftrightarrow> (case ekind e of ETypeHint ts m \<Rightarrow> True | _ \<Rightarrow> False)"

definition is_function_decl :: "decl \<Rightarrow> bool" where
  "is_function_decl d \<longleftrightarrow> (case dkind d of DFunction t ps body v \<Rightarrow> True | _ \<Rightarrow> False)"

text \<open>A statement without the mark for the jumps of \<open>continue\<close>, which only a loop's body has.\<close>

definition plain :: "stmt \<Rightarrow> bool" where
  "plain st \<longleftrightarrow>
     (case skind st of
        SFixContinue \<Rightarrow> False
      | SBlock xs \<Rightarrow> list_all (\<lambda>x. skind x \<noteq> SFixContinue) xs
      | _ \<Rightarrow> True)"

definition named_type :: "type_kind \<Rightarrow> bool" where
  "named_type t \<longleftrightarrow> (case t of TyInstance tok \<Rightarrow> named_by tok | _ \<Rightarrow> True)"

definition generable_ekind :: "expr_kind \<Rightarrow> bool" where
  "generable_ekind k \<longleftrightarrow>
     (case k of
        EUnary op a ln \<Rightarrow> unary_instr op \<noteq> None \<and> yields_value a
      | EBinary a op b ln \<Rightarrow> yields_value a \<and> yields_value b \<and> binary_instr op \<noteq> None
      | ELogical a op b ln \<Rightarrow> yields_value a \<and> yields_value b \<and> logical_instr op \<noteq> None
      | ECircuit a op b \<Rightarrow> yields_value a \<and> yields_value b \<and> op \<in> {TkKw KwAnd, TkKw KwOr}
      | EGrouping a \<Rightarrow> yields_value a
      | ERange a b ln \<Rightarrow> yields_value a \<and> yields_value b
      | EIdentifier t \<Rightarrow> named_by t
      | ECondition a b c \<Rightarrow> yields_value a \<and> yields_value b \<and> yields_value c
      | ECall a xs ln \<Rightarrow> yields_value a \<and> list_all yields_value xs
      | EGet a t \<Rightarrow> yields_value a \<and> named_by t
      | ESet a t b \<Rightarrow> yields_value a \<and> named_by t \<and> yields_value b
      | EIndex a b ln \<Rightarrow> yields_value a \<and> yields_value b
      | ESlice a b c ln \<Rightarrow> yields_value a \<and> yields_value b \<and> yields_value c
      | EList xs \<Rightarrow> list_all yields_value xs
      | EDict xs ys \<Rightarrow> list_all yields_value xs \<and> list_all yields_value ys \<and> length xs = length ys
      | EAssign a b \<Rightarrow> yields_value b
      | EAnonymous d \<Rightarrow> is_function_decl d
      | EArgument t h \<Rightarrow> named_by t \<and> is_type_hint h
      | ETypeHint ts m \<Rightarrow> list_all (\<lambda>t. named_type (ty t)) ts
      | ECompoundAssign t op v ln \<Rightarrow> False
      | EUpdate t op ln \<Rightarrow> False
      | EInterpolation xs \<Rightarrow> False
      | EShorthand t \<Rightarrow> False
      | _ \<Rightarrow> True)"

definition generable_skind :: "stmt_kind \<Rightarrow> bool" where
  "generable_skind k \<longleftrightarrow>
     (case k of
        SEcho a \<Rightarrow> yields_value a
      | SExpression a \<Rightarrow> yields_value a
      | SIf a s q \<Rightarrow> yields_value a \<and> plain s \<and> pred_option plain q
      | SWhile a s \<Rightarrow> yields_value a
      | SFor key t a s \<Rightarrow> False
      | SIter i c xs s \<Rightarrow> False
      | SDoWhile s a \<Rightarrow> False
      | SRaise a \<Rightarrow> yields_value a
      | SReturn t a \<Rightarrow> yields_value a
      | SAssert a q \<Rightarrow> yields_value a \<and> pred_option yields_value q
      | SUsing a arms q \<Rightarrow>
          yields_value a \<and> list_all (\<lambda>arm. list_all yields_value (labels arm) \<and> plain (arm_body arm)) arms \<and>
          pred_option plain q
      | SImport p ts name elements al ex \<Rightarrow>
          list_all is_identifier_expr elements \<and> (al \<or> elements \<noteq> [] \<or> is_identifier_expr name)
      | SCatch s q e \<Rightarrow>
          plain s \<and> pred_option plain q \<and> pred_option is_identifier_expr e \<and> (q \<noteq> None \<longrightarrow> e \<noteq> None)
      | SBlock xs \<Rightarrow> list_all (\<lambda>x. plain x \<or> skind x = SFixContinue) xs
      | SVar t a q c \<Rightarrow> named_by t \<and> yields_value a
      | SVarList xs \<Rightarrow> list_all plain xs
      | _ \<Rightarrow> True)"

definition generable_dkind :: "decl_kind \<Rightarrow> bool" where
  "generable_dkind k \<longleftrightarrow>
     (case k of
        DStmt s \<Rightarrow> plain s
      | DFunction t ps body v \<Rightarrow> named_by t \<and> list_all is_parameter ps \<and> (v \<longrightarrow> ps \<noteq> []) \<and> plain body
      | DMethod t ps body v st \<Rightarrow> named_by t \<and> list_all is_parameter ps \<and> (v \<longrightarrow> ps \<noteq> []) \<and> plain body
      | DProperty t a h st c \<Rightarrow> named_by t \<and> yields_value a
      | DClass t c ps ms ex \<Rightarrow> named_by t \<and> pred_option yields_value c \<and> (ex \<longrightarrow> c \<noteq> None)
      | DTrivia t \<Rightarrow> True)"

primrec generable :: "node \<Rightarrow> bool" where
  "generable (NExpr k) = generable_ekind k"
| "generable (NText t) = True"
| "generable (NStmt k) = generable_skind k"
| "generable (NDecl k) = generable_dkind k"

abbreviation good_expr :: "expr \<Rightarrow> bool" where
  "good_expr e \<equiv> nodes_expr generable e \<and> yields_value e"

abbreviation good_stmt :: "compiler \<Rightarrow> stmt \<Rightarrow> bool" where
  "good_stmt s st \<equiv> nodes_stmt generable st \<and> (plain st \<or> loops (cur s) \<noteq> [])"

abbreviation good_decl :: "decl \<Rightarrow> bool" where
  "good_decl d \<equiv> nodes_decl generable d"

lemmas good_defs = generable_ekind_def generable_skind_def generable_dkind_def

section \<open>Rules for what may be invalid\<close>

lemma meets_named:
  "b \<longrightarrow> named_by t \<Longrightarrow> (\<And>n. name_of_kind (kind t) = Some n \<Longrightarrow> Q n) \<Longrightarrow> meets b (identifier_name t) Q"
  by (rule meets_name) (auto simp: named_by_def)

lemma meets_opt: "b \<longrightarrow> x \<noteq> None \<Longrightarrow> (\<And>y. x = Some y \<Longrightarrow> Q y) \<Longrightarrow> meets b (or_invalid x) Q"
  by (rule meets_or_invalid) auto

lemma meets_run: "m = Inr x \<Longrightarrow> Q x \<Longrightarrow> meets b m Q"
  by (simp add: meets_def)

lemma meets_each:
  assumes "I s" "\<And>x s. x \<in> set xs \<Longrightarrow> I s \<Longrightarrow> meets b (f x s) I" "\<And>s. I s \<Longrightarrow> Q s"
  shows "meets b (each f xs s) Q"
  using assms(1,2)
proof (induction xs arbitrary: s)
  case (Cons x xs)
  show ?case unfolding each.simps
    by (rule meets_seq, rule meets_then [OF Cons.prems(2)]) (use Cons in auto)
qed (simp add: meets_def assms(3))

lemma moved_each:
  assumes "valid ks s" "\<And>x s'. x \<in> set xs \<Longrightarrow> valid ks s' \<Longrightarrow> step s s' \<Longrightarrow> meets b (f x s') (moved ks s')"
    "\<And>s'. valid ks s' \<Longrightarrow> step s s' \<Longrightarrow> Q s'"
  shows "meets b (each f xs s) Q"
  by (rule meets_each [of "moved ks s"])
    (use assms in \<open>auto simp: moved_def intro!: meets_then [OF assms(2)] elim: step_trans\<close>)

section \<open>Sizes\<close>

lemma member_size: "x \<in> set xs \<Longrightarrow> size x \<le> size_list size xs"
  by (rule size_list_estimation' [OF _ order.refl])

lemma expr_size: "size e = Suc (size (ekind e))"
  by (cases e) simp

lemma stmt_size: "size st = Suc (size (skind st))"
  by (cases st) simp

lemma decl_size: "size d = Suc (size (dkind d))"
  by (cases d) simp

lemma arm_size: "size arm = Suc (size_list size (labels arm) + size (arm_body arm))"
  by (cases arm) simp

lemmas tree_sizes = expr_size stmt_size decl_size arm_size

lemma nodes_kinds:
  "nodes_expr P e = nodes_ekind P (ekind e)" "nodes_stmt P st = nodes_skind P (skind st)"
  "nodes_decl P d = nodes_dkind P (dkind d)"
  "nodes_arm P arm = (list_all (nodes_expr P) (labels arm) \<and> nodes_stmt P (arm_body arm))"
  by (cases e, simp, cases st, simp, cases d, simp, cases arm, simp)

section \<open>Loops\<close>

lemma step_loops: "step s t \<Longrightarrow> loops (cur s) \<noteq> [] \<Longrightarrow> loops (cur t) \<noteq> []"
  by (auto simp: step_def)

lemma good_stmt_later: "good_stmt s st \<Longrightarrow> step s t \<Longrightarrow> good_stmt t st"
  using step_loops by blast

end
