(* ===== verification/Codegen_Rules.thy ===== *)
theory Codegen_Rules
  imports Codegen_Input
begin

text \<open>
  The rules of expressions, of functions and of calls, run through the rules of the definitions
  they are made of. What the recursion does on smaller trees is assumed in a locale.
\<close>

lemma result_reg_rule:
  assumes "valid ks s" "reg ks r s" "r < 256"
    "\<And>r s'. valid ks s' \<Longrightarrow> step s s' \<Longrightarrow> reg ks r s' \<Longrightarrow> r < 256 \<Longrightarrow> meets b (f r s') Q"
  shows "meets b (Let (result_reg m r s) (\<lambda>(r, s). f r s)) Q"
  by (rule let_given [OF result_reg_given [OF assms(1-3)]]) (rule assms(4))

lemma fresh_copy_rule:
  assumes "valid ks s" "reg ks r s" "r < 256"
    "\<And>r s'. valid ks s' \<Longrightarrow> step s s' \<Longrightarrow> reg ks r s' \<Longrightarrow> r < 256 \<Longrightarrow> meets b (f r s') Q"
  shows "meets b (Let (fresh_copy m r s) (\<lambda>(r, s). f r s)) Q"
  by (rule let_given [OF fresh_copy_given [OF assms(1-3)]]) (rule assms(4))

text \<open>What holds stays so: a fact is found by going back over the steps since.\<close>

lemma let_next: "meets b (f (next_reg (cur s))) Q \<Longrightarrow> meets b (Let (next_reg (cur s)) f) Q"
  by simp

lemma number_rule:
  assumes "valid ks s"
    "\<And>ix s'. valid ks s' \<Longrightarrow> step s s' \<Longrightarrow> same_regs s s' \<Longrightarrow> pooled ks UNumber ix s' \<Longrightarrow> meets b (f ix s') Q"
  shows "meets b (Let (add_constant (KNumber x) s) (\<lambda>(ix, s). f ix s)) Q"
  by (rule add_constant_rule [OF assms(1), of UNumber]) (simp_all add: const_fits_def assms(2))

lemma pooled_any: "pooled ks u ix s \<Longrightarrow> pooled ks UAny ix s"
  by (auto simp: pooled_def pooled_in_def const_fits_def)

lemma emittable_load: "reg ks dst s \<Longrightarrow> pooled ks u c s \<Longrightarrow> emittable ks (ILoadConst dst c) s"
  using emittables(1) [OF _ pooled_any] .

lemma error_later: "valid ks s \<Longrightarrow> step s0 s \<Longrightarrow> given ks s0 (error_reg s)"
  by (rule given_later [OF error_reg_given])

lemma compile_self_given: "valid ks s \<Longrightarrow> given ks s (compile_self_reg t s)"
proof (rule given_run)
  assume v: "valid ks s"
  have d: "Inr (compile_self_reg t s) =
      (case resolve_variable (str ''self'') s of
        (VLocal r is_const, s) \<Rightarrow> Inr (r, s)
      | (VUpvalue ix, s) \<Rightarrow> Let (alloc_reg s) (\<lambda>(dst, s). Inr (dst, emits (IGetUpval dst ix) s))
      | (VGlobal, s) \<Rightarrow>
          Inr (error_reg (report_error_on (quoted (if kind t = TkKw KwParent then str ''parent'' else str ''self'')
             @ str '' used outside of a method'') t s)))" for t s
    unfolding compile_self_reg_def by (auto split: prod.splits var_loc.splits)
  show "meets True (Inr (compile_self_reg t s)) (given ks s)"
    unfolding d
    by (intro runs resolve_rule [OF v] error_later)
      (assumption | rule v | erule steady step_trans | rule emit_intros step_refl | simp)+
qed

lemma raw_superclass_given: "valid ks s \<Longrightarrow> given ks s (raw_superclass t s)"
proof (rule given_run)
  assume v: "valid ks s"
  have d: "Inr (raw_superclass t s) =
      (case resolve_variable (str ''@superclass'') s of
        (VLocal r is_const, s) \<Rightarrow> Inr (r, s)
      | (VUpvalue ix, s) \<Rightarrow> Let (alloc_reg s) (\<lambda>(dst, s). Inr (dst, emits (IGetUpval dst ix) s))
      | (VGlobal, s) \<Rightarrow>
          Inr (error_reg (report_error_on (quoted (str ''parent'') @ str '' used in a class with no superclass'') t s)))"
    unfolding raw_superclass_def by (auto split: prod.splits var_loc.splits)
  show "meets True (Inr (raw_superclass t s)) (given ks s)"
    unfolding d
    by (intro runs resolve_rule [OF v] error_later)
      (assumption | rule v | erule steady step_trans | rule emit_intros step_refl | simp)+
qed

lemmas given_lets = let_given [OF compile_self_given] let_given [OF raw_superclass_given]
  result_reg_rule fresh_copy_rule

lemma arg_count_rule:
  assumes "valid ks s" "n < 256" "reg ks (base + n + 1) s"
    "\<And>n s'. valid ks s' \<Longrightarrow> step s s' \<Longrightarrow> n < 256 \<Longrightarrow> reg ks (base + n) s' \<Longrightarrow> meets b (f n s') Q"
  shows "meets b (Let (checked_arg_count n t s) (\<lambda>(n, s). f n s)) Q"
proof (cases "n + 1 < 256")
  case True
  then show ?thesis using assms(4) [OF assms(1), of "n + 1"] assms(3) by (simp add: checked_arg_count_def add.assoc)
next
  case False
  then show ?thesis
    using assms(4) [of "report_error_on m t s" n for m t] assms(4) [of "report_error_here m s" n for m] assms(1,2)
    by (simp add: checked_arg_count_def Let_def reg_def split: option.split)
qed

text \<open>The slot after a register, where the receiver of a call goes.\<close>

definition follows :: "nat \<Rightarrow> nat \<Rightarrow> compiler \<Rightarrow> bool" where
  "follows r slot s \<longleftrightarrow> (clean s \<longrightarrow> slot = r + 1)"

lemma follows_mono: "step s t \<Longrightarrow> follows r slot s \<Longrightarrow> follows r slot t"
  using step_clean by (auto simp: follows_def)

lemma move_slot_rule:
  assumes "valid ks s" "dst < 256" "reg ks src s"
    "\<And>slot s'. valid ks s' \<Longrightarrow> step s s' \<Longrightarrow> reg ks dst s' \<Longrightarrow> reg ks slot s' \<Longrightarrow> slot < 256 \<Longrightarrow>
       follows dst slot s' \<Longrightarrow> meets b (f slot s') Q"
  shows "meets b (Let (move_to dst src s) (\<lambda>s. seq (free_after dst s) (\<lambda>s.
    Let (alloc_reg s) (\<lambda>(slot, s). f slot s)))) Q"
proof (intro move_free_rule [OF assms(1-3)] alloc_rule)
  fix s1 slot s2
  assume s: "valid ks s2" "step s s1" "step s1 s2" "reg ks dst s1" "reg ks slot s2" "slot < 256"
    "clean s1 \<Longrightarrow> next_reg (cur s1) = dst + 1"
    "clean s2 \<Longrightarrow> slot = next_reg (cur s1) \<and> next_reg (cur s2) = slot + 1"
  show "meets b (f slot s2) Q"
    by (rule assms(4)) (use s step_clean [OF s(3)] in \<open>auto simp: follows_def intro: steady step_trans\<close>)
qed

lemma call_intros:
  "reg ks dst s \<Longrightarrow> reg ks (slot + m) s \<Longrightarrow> follows r slot s \<Longrightarrow> pooled ks UName name s \<Longrightarrow>
     emittable ks (IInvoke dst r name m) s"
  by (auto simp: emittable_iff reg_def follows_def)

text \<open>The callee of a call through \<open>parent\<close>, and the number of its arguments.\<close>

definition called :: "nat list \<Rightarrow> compiler \<Rightarrow> nat \<times> nat \<times> compiler \<Rightarrow> bool" where
  "called ks s = (\<lambda>(r, m, s'). valid ks s' \<and> step s s' \<and> r < 256 \<and> reg ks r s' \<and> reg ks (r + 1 + m) s')"

lemma calledI:
  "valid ks s' \<Longrightarrow> step s s' \<Longrightarrow> r < 256 \<Longrightarrow> reg ks r s' \<Longrightarrow> reg ks (slot + m) s' \<Longrightarrow> follows r slot s' \<Longrightarrow>
     called ks s (r, m, s')"
  by (auto simp: called_def reg_def follows_def)

lemma called_rule:
  "meets b x (called ks s) \<Longrightarrow>
     (\<And>r m s'. valid ks s' \<Longrightarrow> step s s' \<Longrightarrow> r < 256 \<Longrightarrow> reg ks r s' \<Longrightarrow> reg ks (r + 1 + m) s' \<Longrightarrow> Q (r, m, s')) \<Longrightarrow>
     meets b x Q"
  by (erule meets_then) (auto simp: called_def)

lemma meets_triple: "meets b (f x y z) Q \<Longrightarrow> meets b (case (x, y, z) of (x, y, z) \<Rightarrow> f x y z) Q"
  by simp

lemmas flow = steady follows_mono step_trans

text \<open>As many registers taken as there are elements, as long as there is no error.\<close>

definition advanced :: "nat list \<Rightarrow> compiler \<Rightarrow> nat \<Rightarrow> compiler \<Rightarrow> bool" where
  "advanced ks s k s' \<longleftrightarrow> valid ks s' \<and> step s s' \<and> (clean s' \<longrightarrow> next_reg (cur s') = next_reg (cur s) + k)"

lemma saturating_small [simp]: "saturating_inc r < 256"
  by (simp add: saturating_inc_def)

lemma advancedI:
  assumes "valid ks s1" "clean s1 \<Longrightarrow> r = next_reg (cur s) \<and> next_reg (cur s1) = r + 1" "step s s1"
    "step s1 t" "valid ks t" "next_reg (cur t) = saturating_inc r"
  shows "advanced ks s 1 t"
  using assms next_marked(2) [OF assms(1)] step_clean [OF assms(4)] step_trans [OF assms(3,4)]
  by (auto simp: advanced_def saturating_inc_def)

lemma advanced_trans: "advanced ks s 1 t \<Longrightarrow> advanced ks t k u \<Longrightarrow> advanced ks s (Suc k) u"
  using step_clean by (fastforce simp: advanced_def intro: step_trans)

lemma advanced_marked:
  assumes "valid ks t" "clean t \<longrightarrow> next_reg (cur t) = m" shows "marked ks m t"
  using next_marked(1) [OF assms(1)] assms(2) by (auto simp: marked_def)

lemma advanced_rule:
  assumes "meets b x (advanced ks s k)"
    "\<And>s'. valid ks s' \<Longrightarrow> step s s' \<Longrightarrow> marked ks (next_reg (cur s) + k) s' \<Longrightarrow>
       (clean s' \<longrightarrow> next_reg (cur s') = next_reg (cur s) + k) \<Longrightarrow> Q s'"
  shows "meets b x Q"
  using assms(1) by (rule meets_then) (use assms(2) advanced_marked in \<open>auto simp: advanced_def\<close>)

lemma chunks_subset: "c \<in> set (chunks k xs) \<Longrightarrow> set c \<subseteq> set xs"
proof (induction k xs rule: chunks.induct)
  case (1 k xs)
  show ?case
  proof (cases "xs = [] \<or> k = 0")
    case True
    then show ?thesis using "1.prems" by (simp add: chunks.simps [of k xs])
  next
    case False
    then have "c = take k xs \<or> c \<in> set (chunks k (drop k xs))"
      using "1.prems" by (simp add: chunks.simps [of k xs])
    then show ?thesis
      using "1.IH" [OF False] set_take_subset [of k xs] set_drop_subset [of k xs] by blast
  qed
qed

lemma emittable_empty:
  "reg ks r s \<Longrightarrow> emittable ks (IMakeList r r 0) s" "reg ks r s \<Longrightarrow> emittable ks (IMakeDict r r 0) s"
  by (auto simp: emittable_iff reg_def)

locale generating =
  fixes g :: generator and b :: bool and n :: nat
  assumes g_expr: "size e < n \<Longrightarrow> b \<longrightarrow> good_expr e \<Longrightarrow> valid ks s \<Longrightarrow> meets b (g_expr g e s) (given ks s)"
    and g_stmt: "size st < n \<Longrightarrow> b \<longrightarrow> good_stmt s st \<Longrightarrow> valid ks s \<Longrightarrow> meets b (g_stmt g st s) (moved ks s)"
    and g_decl: "size d < n \<Longrightarrow> b \<longrightarrow> good_decl d \<Longrightarrow> valid ks s \<Longrightarrow> meets b (g_decl g d s) (moved ks s)"
begin

lemma receiver_ok:
  "size obj < n \<Longrightarrow> b \<longrightarrow> good_expr obj \<Longrightarrow> valid ks s \<Longrightarrow> meets b (compile_receiver g obj s) (given ks s)"
  using g_expr [of obj ks s] compile_self_given [of ks s]
  by (auto simp: compile_receiver_def meets_def split: expr_kind.splits)

lemmas receiver = given_rule [OF receiver_ok]

lemmas subtrees = given_rule [OF g_expr] moved_rule [OF g_stmt] moved_rule [OF g_decl]

lemma compile_unary_ok:
  "size a < n \<Longrightarrow> b \<longrightarrow> good_expr a \<and> unary_instr op \<noteq> None \<Longrightarrow> valid ks s \<Longrightarrow>
     meets b (compile_unary g op a ln s) (given ks s)"
  unfolding compile_unary_def
  by (intro let_next runs subtrees given_lets meets_opt)
    (assumption | erule flow | rule emit_intros | simp)+

lemma compile_imm_ok:
  "size a < n \<Longrightarrow> b \<longrightarrow> good_expr a \<Longrightarrow> valid ks s \<Longrightarrow> meets b (compile_imm g a i x ln s) (given ks s)"
  unfolding compile_imm_def
  by (intro let_next number_rule runs subtrees given_lets)
    (assumption | erule flow | rule emit_intros | simp)+

lemma max_next: "valid ks s \<Longrightarrow> m < 256 \<Longrightarrow> max (next_reg (cur s)) m < 256"
  using next_marked(2) by simp

lemma compile_operator_ok:
  "size x < n \<Longrightarrow> size y < n \<Longrightarrow> b \<longrightarrow> good_expr x \<and> good_expr y \<and> op \<noteq> None \<Longrightarrow> valid ks s \<Longrightarrow>
     meets b (compile_operator g x op y ln s) (given ks s)"
  unfolding compile_operator_def
  by (intro let_next runs subtrees given_lets meets_opt)
    (assumption | erule (1) max_next | erule flow | rule emit_intros | simp)+

lemma compile_pair_ok:
  "size x < n \<Longrightarrow> size y < n \<Longrightarrow> b \<longrightarrow> good_expr x \<and> good_expr y \<Longrightarrow> valid ks s \<Longrightarrow>
     i = IGetIndex \<or> i = IMakeRange \<Longrightarrow> meets b (compile_pair g i x y ln s) (given ks s)"
  unfolding compile_pair_def
  by (erule disjE; hypsubst, intro let_next runs subtrees given_lets)
    (assumption | erule (1) max_next | erule flow | rule emit_intros | simp)+

lemma compile_slice_ok:
  "size x < n \<Longrightarrow> size y < n \<Longrightarrow> size z < n \<Longrightarrow> b \<longrightarrow> good_expr x \<and> good_expr y \<and> good_expr z \<Longrightarrow>
     valid ks s \<Longrightarrow> meets b (compile_slice g x y z ln s) (given ks s)"
  unfolding compile_slice_def
  by (intro let_next runs subtrees given_lets)
    (assumption | erule (1) max_next | erule flow | rule emit_intros | simp)+

lemma short_circuit_rule:
  assumes "valid ks s" "reg ks r s" "b \<longrightarrow> op \<in> {TkKw KwAnd, TkKw KwOr}"
    "\<And>at s'. valid ks s' \<Longrightarrow> step s s' \<Longrightarrow> jump_at at s' \<Longrightarrow> Q (at, s')"
  shows "meets b (short_circuit op r s) Q"
proof -
  have "meets b (Inr (emit_jump_if_false r s)) Q" "meets b (Inr (emit_jump_if_true r s)) Q"
    using jump_if_rules [OF assms(1,2), of b "\<lambda>at s. Inr (at, s)" Q] assms(4) by (simp_all add: meets_def)
  then show ?thesis using assms(3) by (auto simp: short_circuit_def meets_def)
qed

lemma compile_circuit_ok:
  "size x < n \<Longrightarrow> size y < n \<Longrightarrow> b \<longrightarrow> good_expr x \<and> good_expr y \<and> op \<in> {TkKw KwAnd, TkKw KwOr} \<Longrightarrow>
     valid ks s \<Longrightarrow> meets b (compile_circuit g x op y s) (given ks s)"
  unfolding compile_circuit_def
  by (intro let_next move_free_rule runs subtrees short_circuit_rule)
    (assumption | erule next_marked | erule flow | rule emit_intros | simp)+

lemma compile_assign_index_ok:
  "size x < n \<Longrightarrow> size y < n \<Longrightarrow> size z < n \<Longrightarrow> b \<longrightarrow> good_expr x \<and> good_expr y \<and> good_expr z \<Longrightarrow>
     valid ks s \<Longrightarrow> meets b (compile_assign_index g x y ln z s) (given ks s)"
  unfolding compile_assign_index_def
  by (intro runs subtrees) (assumption | erule flow | rule emit_intros | simp)+

lemma compile_args_ok:
  "\<forall>a \<in> set args. size a < n \<Longrightarrow> b \<longrightarrow> list_all good_expr args \<Longrightarrow> valid ks s \<Longrightarrow>
     reg ks (base + k) s \<Longrightarrow> k < 256 \<Longrightarrow>
     meets b (compile_args g base t args k s)
       (\<lambda>(m, s'). valid ks s' \<and> step s s' \<and> reg ks (base + m) s' \<and> m < 256)"
proof (induction args arbitrary: k s)
  case (Cons a args)
  show ?case unfolding compile_args.simps
  proof (rule meets_seq, rule u8_add_rule)
    fix r1 assume r1: "r1 < 256" "clean s \<Longrightarrow> r1 = base + 1"
    show "meets b (seq (u8_add s r1 k) (\<lambda>expected.
        seq (g_expr g a s) (\<lambda>(arg_reg, s). Let (move_to expected arg_reg s) (\<lambda>s.
        seq (free_after expected s) (\<lambda>s. let (k, s) = checked_arg_count k t s
          in compile_args g base t args k s)))))
        (\<lambda>(m, s'). valid ks s' \<and> step s s' \<and> reg ks (base + m) s' \<and> m < 256)"
    proof (rule meets_seq, rule u8_add_rule)
      fix r2 assume r2: "r2 < 256" "clean s \<Longrightarrow> r2 = r1 + k"
      have eq: "reg ks (base + k + 1) s'" if "reg ks r2 s'" "step s s1" "step s1 s'" for s1 s'
        using that r1(2) r2(2) step_clean by (fastforce simp: reg_def)
      have next_arg: "meets b (compile_args g base t args m s4)
          (\<lambda>(m, s'). valid ks s' \<and> step s s' \<and> reg ks (base + m) s' \<and> m < 256)"
        if "valid ks s4" "reg ks (base + m) s4" "m < 256" "step s s1" "step s1 s3" "step s3 s4" for m s4 s1 s3
      proof -
        have "step s s4" using that(4-6) by (blast intro: step_trans)
        then show ?thesis
          by (intro meets_then [OF Cons.IH [OF _ _ that(1-3)]])
            (use Cons.prems in \<open>auto intro: step_trans\<close>)
      qed
      show "meets b (seq (g_expr g a s) (\<lambda>(arg_reg, s). Let (move_to r2 arg_reg s) (\<lambda>s.
          seq (free_after r2 s) (\<lambda>s. let (k, s) = checked_arg_count k t s
            in compile_args g base t args k s))))
          (\<lambda>(m, s'). valid ks s' \<and> step s s' \<and> reg ks (base + m) s' \<and> m < 256)"
        by (intro meets_seq subtrees meets_pair move_free_rule arg_count_rule)
          (rule eq next_arg | assumption | (use Cons.prems r2 in simp; fail) | erule flow)+
    qed
  qed
qed (simp add: meets_def)

lemma arguments:
  assumes "\<forall>a \<in> set args. size a < n" "b \<longrightarrow> list_all good_expr args" "valid ks s" "reg ks base s"
    "\<And>m s'. valid ks s' \<Longrightarrow> step s s' \<Longrightarrow> reg ks (base + m) s' \<Longrightarrow> m < 256 \<Longrightarrow> Q (m, s')"
  shows "meets b (compile_args g base t args 0 s) Q"
  by (rule meets_then2 [OF compile_args_ok [where k = 0]]) (use assms in auto)

text \<open>The slot after a register, where the receiver of a call goes.\<close>

lemma compile_invoke_ok:
  "size obj < n \<Longrightarrow> \<forall>a \<in> set args. size a < n \<Longrightarrow>
     b \<longrightarrow> good_expr obj \<and> named_by t \<and> list_all good_expr args \<Longrightarrow> valid ks s \<Longrightarrow>
     meets b (compile_invoke g obj t args s) (given ks s)"
  unfolding compile_invoke_def
  by (intro meets_named move_slot_rule move_free_rule runs receiver arguments)
    (assumption | erule flow | rule call_intros emit_intros | simp)+

lemma super_args_ok:
  "\<forall>a \<in> set args. size a < n \<Longrightarrow> b \<longrightarrow> list_all good_expr args \<Longrightarrow> valid ks s \<Longrightarrow>
     meets b (compile_super_args g keyword t args s) (called ks s)"
  unfolding compile_super_args_def
  by (intro move_slot_rule move_free_rule runs given_lets arguments calledI)
    (assumption | erule flow | rule emit_intros | simp)+

lemmas super_args = called_rule [OF super_args_ok]

lemma compile_invoke_super_ok:
  "\<forall>a \<in> set args. size a < n \<Longrightarrow> b \<longrightarrow> named_by t \<and> list_all good_expr args \<Longrightarrow> valid ks s \<Longrightarrow>
     meets b (compile_invoke_super g keyword t args s) (given ks s)"
  unfolding compile_invoke_super_def
  by (intro meets_triple runs meets_named super_args)
    (assumption | erule flow | rule emit_intros | simp)+

lemma compile_super_ctor_call_ok:
  "\<forall>a \<in> set args. size a < n \<Longrightarrow> b \<longrightarrow> list_all good_expr args \<Longrightarrow> valid ks s \<Longrightarrow>
     meets b (compile_super_ctor_call g keyword args s) (given ks s)"
  unfolding compile_super_ctor_call_def
  by (intro meets_triple runs super_args) (assumption | erule flow | rule emit_intros | simp)+

lemma plain_call_ok:
  "size callee < n \<Longrightarrow> \<forall>a \<in> set args. size a < n \<Longrightarrow> b \<longrightarrow> good_expr callee \<and> list_all good_expr args \<Longrightarrow>
     valid ks s \<Longrightarrow>
     meets b (let mark = next_reg (cur s)
          in seq (g_expr g callee s) (\<lambda>(raw_func_reg, s).
             let (func_reg, s) = fresh_copy mark raw_func_reg s
             in seq (compile_args g func_reg None args 0 s) (\<lambda>(num_args, s).
                let s = set_line ln s;
                    s = emits (ICall func_reg func_reg num_args) s
                in seq (free_after func_reg s) (\<lambda>s. Inr (func_reg, s))))) (given ks s)"
  by (intro let_next runs given_lets subtrees arguments)
    (assumption | erule flow | rule emit_intros | simp)+

lemma compile_call_ok:
  assumes "size callee < n" "\<forall>a \<in> set args. size a < n" "b \<longrightarrow> good_expr callee \<and> list_all good_expr args"
    "valid ks s"
  shows "meets b (compile_call g callee args ln s) (given ks s)"
proof -
  have get: "size obj < n \<and> (b \<longrightarrow> good_expr obj \<and> named_by t)" if "ekind callee = EGet obj t" for obj t
    using assms(1,3) that by (auto simp: tree_sizes nodes_kinds good_defs)
  consider (invoked) obj t where "ekind callee = EGet obj t" | (parent) k where "ekind callee = EParent k"
    | (plain) "\<And>obj t. ekind callee \<noteq> EGet obj t" "\<And>k. ekind callee \<noteq> EParent k"
    by blast
  then show ?thesis
  proof cases
    case invoked
    show ?thesis
    proof (cases "\<exists>k. ekind obj = EParent k")
      case True
      then obtain k where "compile_call g callee args ln s = compile_invoke_super g k t args s"
        using invoked by (auto simp: compile_call_def)
      then show ?thesis using compile_invoke_super_ok get [OF invoked] assms by simp
    next
      case False
      then have "compile_call g callee args ln s = compile_invoke g obj t args s"
        using invoked by (simp add: compile_call_def split: expr_kind.split)
      then show ?thesis using compile_invoke_ok get [OF invoked] assms by simp
    qed
  next
    case parent
    then have "compile_call g callee args ln s = compile_super_ctor_call g k args s"
      by (simp add: compile_call_def)
    then show ?thesis using compile_super_ctor_call_ok assms by simp
  next
    case plain
    show ?thesis
      using plain_call_ok [OF assms(1-4), of ln] plain
      unfolding compile_call_def by (cases "ekind callee") (simp_all only: expr_kind.case simp_thms, blast+)
  qed
qed

lemma compile_get_ok:
  "size obj < n \<Longrightarrow> b \<longrightarrow> good_expr obj \<and> named_by t \<Longrightarrow> valid ks s \<Longrightarrow>
     meets b (compile_get g obj t s) (given ks s)"
  unfolding compile_get_def
  by (intro meets_named runs receiver) (assumption | erule flow | rule emit_intros | simp)+

lemma compile_set_ok:
  "size obj < n \<Longrightarrow> size v < n \<Longrightarrow> b \<longrightarrow> good_expr obj \<and> named_by t \<and> good_expr v \<Longrightarrow> valid ks s \<Longrightarrow>
     meets b (compile_set g obj t v s) (given ks s)"
  unfolding compile_set_def
  by (intro meets_named runs receiver subtrees) (assumption | erule flow | rule emit_intros | simp)+

lemma compile_identifier_ok:
  "b \<longrightarrow> named_by t \<Longrightarrow> valid ks s \<Longrightarrow> meets b (compile_identifier t s) (given ks s)"
  unfolding compile_identifier_def
  by (intro meets_named meets_seq resolve_rule runs)
    (assumption | erule flow | rule emit_intros step_refl | simp)+

lemma compile_assign_name_ok:
  "b \<longrightarrow> named_by t \<and> good_expr v \<Longrightarrow> size v < n \<Longrightarrow> valid ks s \<Longrightarrow>
     meets b (compile_assign_name g t v s) (given ks s)"
  unfolding compile_assign_name_def
  by (intro meets_named meets_seq resolve_rule runs subtrees)
    (assumption | erule flow | rule emit_intros step_refl | simp)+

lemma compile_assign_ok:
  assumes "size target < n" "size v < n" "b \<longrightarrow> nodes_expr generable target \<and> good_expr v" "valid ks s"
  shows "meets b (compile_assign g target v s) (given ks s)"
proof -
  consider (index) x y ln where "ekind target = EIndex x y ln" | (name) t where "ekind target = EIdentifier t"
    | (other) "\<And>x y ln. ekind target \<noteq> EIndex x y ln" "\<And>t. ekind target \<noteq> EIdentifier t"
    by blast
  then show ?thesis
  proof cases
    case index
    then have "size x < n \<and> size y < n \<and> (b \<longrightarrow> good_expr x \<and> good_expr y)"
      using assms(1,3) by (auto simp: tree_sizes nodes_kinds good_defs)
    then show ?thesis using compile_assign_index_ok assms index by (simp add: compile_assign_def)
  next
    case name
    then have "b \<longrightarrow> named_by t" using assms(3) by (auto simp: nodes_kinds good_defs)
    then show ?thesis using compile_assign_name_ok assms name by (simp add: compile_assign_def)
  next
    case other
    then have "compile_assign g target v s = Inr (error_reg
        (report_error_here (str ''unsupported assignment target: '' @ debug_kind s (ekind target)) s))"
      unfolding compile_assign_def by (cases "ekind target") (simp_all only: expr_kind.case simp_thms, blast+)
    then show ?thesis using error_later [OF _ report_ok(6)] report_ok(4) assms(4) by (simp add: meets_def)
  qed
qed

text \<open>The result register of a condition is written before the allocator counts it in.\<close>

lemma compile_condition_ok:
  assumes "size x < n" "size y < n" "size z < n" "b \<longrightarrow> good_expr x \<and> good_expr y \<and> good_expr z" "valid ks s"
  shows "meets b (compile_condition g x y z s) (given ks s)"
proof -
  obtain k ks' where ks: "ks = k # ks'" using assms(5) by (cases ks) (auto simp: valid_def)
  let ?m = "next_reg (cur s)"
  let ?ks = "max k (?m + 1) # ks'"
  have v: "valid ?ks s" using assms(5) valid_reserve unfolding ks by fastforce
  have m: "?m < 256" using next_marked(2) [OF v] .
  have r: "reg ?ks ?m t" for t by (auto simp: reg_def)
  have "meets b (compile_condition g x y z s)
    (\<lambda>(r, s'). r = ?m \<and> valid ?ks s' \<and> step s s' \<and> (clean s' \<longrightarrow> next_reg (cur s') = ?m + 1))"
    unfolding compile_condition_def Let_def [of "next_reg (cur s)"]
    by (intro runs subtrees jump_if_rules jump_rule)
      (rule v m r assms(1-3) | assumption | erule flow | (use assms(4) in simp; fail) | simp)+
  then show ?thesis
  proof (rule meets_then, goal_cases)
    case (1 p)
    obtain s' where p: "p = (?m, s')" "valid ?ks s'" "step s s'" "clean s' \<longrightarrow> next_reg (cur s') = ?m + 1"
      using 1 by (cases p) auto
    have "clean s' \<Longrightarrow> ?m + 1 \<le> max_reg (cur s')"
      using p(4) valid_cur(1) [OF p(2)] by (auto simp: scope_ok_def)
    then show ?case
      using valid_release [OF p(2)] p(3) m unfolding p(1) ks by (auto simp: given_def reg_def)
  qed
qed

section \<open>List and dict literals\<close>

lemma compile_element_ok:
  assumes "size e < n" "b \<longrightarrow> good_expr e" "valid ks s"
  shows "meets b (compile_element g e s) (advanced ks s 1)"
  unfolding compile_element_def
  apply (intro runs subtrees)
           apply (assumption | erule flow | rule assms | (use assms in \<open>simp add: saturating_inc_def\<close>; fail))+
  subgoal premises p by (rule advancedI [OF p(1,6,2)]) (insert p, (assumption | erule flow)+)
  done

lemma elements_ok:
  "\<forall>e \<in> set es. size e < n \<Longrightarrow> b \<longrightarrow> list_all good_expr es \<Longrightarrow> valid ks s \<Longrightarrow>
     meets b (each (compile_element g) es s) (advanced ks s (length es))"
proof (induction es arbitrary: s)
  case (Cons e es)
  show ?case unfolding each.simps
  proof (rule meets_seq, rule meets_then [OF compile_element_ok])
    fix s1 assume s1: "advanced ks s 1 s1"
    show "meets b (each (compile_element g) es s1) (advanced ks s (length (e # es)))"
      by (rule meets_then [OF Cons.IH]) (use Cons.prems s1 advanced_trans [OF s1] in \<open>auto simp: advanced_def\<close>)
  qed (use Cons.prems in auto)
qed (simp add: meets_def advanced_def)

lemmas elements = advanced_rule [OF elements_ok]

lemma compile_list_chunk_ok:
  assumes "\<forall>e \<in> set es. size e < n" "b \<longrightarrow> list_all good_expr es" "valid ks s"
  shows "meets b (compile_list_chunk g es s) (given ks s)"
  unfolding compile_list_chunk_def
  by (intro let_next runs elements)
    (assumption | rule assms saturating_small | erule flow | rule emit_intros | simp)+

lemma compile_dict_chunk_ok:
  assumes "\<forall>e \<in> set ks' \<union> set vs. size e < n" "b \<longrightarrow> list_all good_expr ks' \<and> list_all good_expr vs"
    "valid ks s" "clean s \<longrightarrow> length ks' = length vs" "length ks' < 256"
  shows "meets b (compile_dict_chunk g ks' vs s) (given ks s)"
proof -
  have dict: "emittable ks (IMakeDict dst first (length ks' mod 256)) t"
    if "reg ks dst t" "marked ks (next_reg (cur s2) + length vs) t"
      "clean s2 \<longrightarrow> next_reg (cur s2) = first + length ks'" "step s2 t" "step s t" for dst first t s2
    using that assms(4,5) step_clean [OF that(4)] step_clean [OF that(5)]
    by (auto simp: emittable_iff reg_def marked_def)
  show ?thesis
    unfolding compile_dict_chunk_def Let_def [of "length ks' mod 256"]
    by (intro let_next runs elements)
      (assumption | rule assms saturating_small dict | erule flow | (use assms in simp; fail) | simp)+
qed

lemma emit_extend_call_ok:
  assumes "valid ks s" "reg ks r s" "reg ks a s"
  shows "moved ks s (emit_extend_call r a s)"
proof (rule moved_run)
  show "meets True (Inr (emit_extend_call r a s)) (moved ks s)"
    unfolding emit_extend_call_def pure_run
    apply (intro runs)
                        apply (assumption | rule assms | erule flow | (rule emittables(4)) | (simp; fail))+
    subgoal premises p for c s1 r1 s2 s3 r2 s4 s5 r3 s6 s7
    proof -
      have "reg ks r1 s7" "reg ks r3 s7" "pooled ks UName c s7" by (insert p, (assumption | erule flow)+)
      moreover have "clean s7 \<Longrightarrow> r3 = r1 + 1 + 1"
      proof -
        assume c: "clean s7"
        have "clean s6" "clean s4" "clean s2" by (insert p c, (assumption | erule step_clean)+)
        then show "r3 = r1 + 1 + 1" using p by (simp add: same_regs_def)
      qed
      ultimately show ?thesis by (auto simp: emittable_iff reg_def)
    qed
    apply (assumption | rule assms | erule flow | (rule emittables(4)) | (simp; fail))+
    done
qed

lemma extend_with_chunk_ok:
  assumes "valid ks s" "reg ks r s" "meets b (build s) (given ks s)"
  shows "meets b (extend_with_chunk r build s) (moved ks s)"
  unfolding extend_with_chunk_def
  by (intro let_next runs given_rule [OF assms(3)] let_moved [OF emit_extend_call_ok])
    (assumption | rule assms next_marked(2) [OF assms(1)] | erule flow | simp)+

lemma compile_list_literal_ok:
  assumes "\<forall>e \<in> set es. size e < n" "b \<longrightarrow> list_all good_expr es" "valid ks s"
  shows "meets b (compile_list_literal g es s) (given ks s)"
proof (cases "length es \<le> LIST_LITERAL_CHUNK_SIZE")
  case True
  then show ?thesis using compile_list_chunk_ok [OF assms] by (simp add: compile_list_literal_def)
next
  case False
  have part: "meets b (compile_list_chunk g part s') (given ks s')"
    if "part \<in> set (chunks LIST_LITERAL_CHUNK_SIZE es)" "valid ks s'" for part s'
    using assms(1,2) chunks_subset [OF that(1)]
    by (intro compile_list_chunk_ok that(2)) (auto simp: list_all_iff)
  show ?thesis
    unfolding compile_list_literal_def if_not_P [OF False]
    by (intro moved_each runs extend_with_chunk_ok)
      (assumption | rule assms part emittable_empty saturating_small | erule flow | simp)+
qed

lemma compile_dict_chunks_ok:
  assumes "\<forall>e \<in> set ks' \<union> set vs. size e < n" "b \<longrightarrow> list_all good_expr ks' \<and> list_all good_expr vs \<and> length ks' = length vs"
    "clean s \<longrightarrow> length ks' = length vs" "valid ks s" "reg ks r s"
  shows "meets b (compile_dict_chunks g r ks' vs ix s) (moved ks s)"
  using assms(3-5)
proof (induction "length ks' - ix" arbitrary: ix s rule: less_induct)
  case less
  show ?case
  proof (cases "ix < length ks'")
    case False
    then show ?thesis by (simp add: compile_dict_chunks.simps meets_def moved_def less)
  next
    case True
    let ?to = "min (ix + DICT_LITERAL_CHUNK_SIZE) (length ks')"
    have to: "ix \<le> ?to" "?to \<le> length ks'" "length ks' - ?to < length ks' - ix" "?to - ix < 256"
      using True by (auto simp: DICT_LITERAL_CHUNK_SIZE_def)
    have kd: "size e < n" if "e \<in> set (take m (drop ix xs))" "xs = ks' \<or> xs = vs" for e m xs
      using assms(1) that by (auto dest!: in_set_takeD in_set_dropD)
    have gd: "b \<longrightarrow> list_all good_expr (take m (drop ix ks')) \<and> list_all good_expr (take m (drop ix vs))" for m
      using assms(2) by (auto simp: list_all_iff dest!: in_set_takeD in_set_dropD)
    have next_part: "meets b (compile_dict_chunks g r ks' vs ?to t) (moved ks s)" if "moved ks s t" for t
    proof (rule meets_then [OF less.hyps [OF to(3)]])
      show "clean t \<longrightarrow> length ks' = length vs" "valid ks t" "reg ks r t"
        using that less.prems step_clean [of s t] by (auto simp: moved_def intro: steady)
    qed (use that in \<open>auto simp: moved_def intro: step_trans\<close>)
    have build: "meets b (compile_dict_chunk g (take (?to - ix) (drop ix ks')) (take (?to - ix) (drop ix vs)) s) (given ks s)"
      if "?to \<le> length vs"
      by (rule compile_dict_chunk_ok) (use less.prems kd gd to that in auto)
    have chunk: "meets b (extend_with_chunk r (compile_dict_chunk g kd vd) s) (moved ks s)"
      if "slice ks' ix ?to = Some kd" "slice vs ix ?to = Some vd" for kd vd
      using that by (intro extend_with_chunk_ok less.prems(2,3)) (auto simp: slice_Some intro: build)
    have sl: "b \<longrightarrow> slice ks' ix ?to \<noteq> None \<and> slice vs ix ?to \<noteq> None"
      using to assms(2) by (auto simp: slice_def)
    show ?thesis
      unfolding compile_dict_chunks.simps [of g r ks' vs ix s] if_P [OF True] Let_def
      by (intro meets_seq meets_opt meets_then [OF chunk] next_part) (use sl in auto)
  qed
qed

lemma compile_dict_literal_ok:
  assumes "\<forall>e \<in> set ks' \<union> set vs. size e < n"
    "b \<longrightarrow> list_all good_expr ks' \<and> list_all good_expr vs \<and> length ks' = length vs" "valid ks s"
  shows "meets b (compile_dict_literal g ks' vs s) (given ks s)"
proof (cases "overflow_checks s \<and> length ks' \<noteq> length vs")
  case True
  then show ?thesis using assms(2) by (auto simp: compile_dict_literal_def meets_def)
next
  case False
  then have c: "clean t \<longrightarrow> length ks' = length vs" if "step s t" for t
    using step_clean [OF that] by (auto simp: clean_def)
  show ?thesis
    unfolding compile_dict_literal_def if_not_P [OF False]
    apply (intro meets_if compile_dict_chunk_ok moved_rule [OF compile_dict_chunks_ok] runs)
    apply (assumption | rule assms c emittable_empty saturating_small step_refl | erule flow | (use assms in \<open>simp add: DICT_LITERAL_CHUNK_SIZE_def\<close>; fail) | simp)+
    done
qed

end

end
