(* ===== verification/Codegen_Functions.thy ===== *)
theory Codegen_Functions
  imports Codegen_Rules
begin

text \<open>
  The functions and methods a program declares: a scope is opened for them, their parameters
  are bound and checked, and the finished function is well formed where it is used.
\<close>

section \<open>Parameters\<close>

definition param_fits :: "nat list \<Rightarrow> compiler \<Rightarrow> param_type \<Rightarrow> bool" where
  "param_fits ks s t \<longleftrightarrow>
     param_ok (clean s) (objects (heap_of s)) (limit ks s) (length (upvalues (cur s)))
       (constants (chunk (cur s))) t"

lemma param_fits_mono: "step s t \<Longrightarrow> param_fits ks s p \<Longrightarrow> param_fits ks t p"
  unfolding param_fits_def
  by (erule param_ok_mono)
    (use step_clean [of s t] limit_mono [OF step_grows, of s t ks]
      prefix_length_le [of "upvalues (cur s)" "upvalues (cur t)"] in
      \<open>auto simp: step_def grows_def grown_def\<close>)

lemma param_fits_simps:
  "pooled ks UName c s \<Longrightarrow> param_fits ks s (PtInstance c)"
  "pooled ks UName c s \<Longrightarrow> upval u s \<Longrightarrow> param_fits ks s (PtCaptured u c)"
  by (auto simp: param_fits_def param_ok_def pooled_def upval_def)

definition typed :: "nat list \<Rightarrow> compiler \<Rightarrow> param_type \<times> compiler \<Rightarrow> bool" where
  "typed ks s = (\<lambda>(p, s'). valid ks s' \<and> step s s' \<and> param_fits ks s' p)"

lemma typedI: "valid ks s' \<Longrightarrow> step s s' \<Longrightarrow> param_fits ks s' p \<Longrightarrow> typed ks s (p, s')"
  by (simp add: typed_def)

lemma typed_case:
  "valid ks s' \<Longrightarrow> step s s' \<Longrightarrow> (\<And>u. x = Some u \<Longrightarrow> param_fits ks s' (f u)) \<Longrightarrow> param_fits ks s' g \<Longrightarrow>
     typed ks s (case x of Some u \<Rightarrow> (f u, s') | None \<Rightarrow> (g, s'))"
  by (cases x) (simp_all add: typed_def)

lemma param_type_ok:
  assumes "valid ks s" "b \<longrightarrow> named_type t" "t \<noteq> TyAny"
  shows "meets b (ast_type_to_param_type t s) (typed ks s)"
proof (cases "\<exists>tok. t = TyInstance tok")
  case True
  then obtain tok where t: "t = TyInstance tok" by blast
  have n: "b \<longrightarrow> named_by tok" using assms(2) by (simp add: t named_type_def)
  show ?thesis unfolding t ast_type_to_param_type_def type_kind.case
    by (intro meets_seq meets_named runs typed_case param_fits_simps)
      (assumption | rule assms n | erule flow | blast)+
next
  case False
  then show ?thesis
    using assms by (cases t) (simp_all add: ast_type_to_param_type_def meets_def param_fits_def param_ok_def typed_def)
qed

lemma param_types_ok:
  "valid ks s \<Longrightarrow> b \<longrightarrow> list_all (\<lambda>t. named_type (ty t)) ts \<Longrightarrow> \<forall>t \<in> set ts. ty t \<noteq> TyAny \<Longrightarrow>
     meets b (collect (\<lambda>t. ast_type_to_param_type (ty t)) ts s)
       (\<lambda>(ps, s'). valid ks s' \<and> step s s' \<and> list_all (param_fits ks s') ps)"
proof (induction ts arbitrary: s)
  case (Cons t ts)
  have rest: "meets b (seq (collect (\<lambda>t. ast_type_to_param_type (ty t)) ts s1) (\<lambda>(ps, s2). Inr (p # ps, s2)))
       (\<lambda>(ps, s'). valid ks s' \<and> step s s' \<and> list_all (param_fits ks s') ps)"
    if "typed ks s (p, s1)" for p s1
    by (rule meets_seq, rule meets_then2 [OF Cons.IH])
      (use that Cons.prems in \<open>auto simp: typed_def meets_def intro: step_trans param_fits_mono\<close>)
  show ?case unfolding collect.simps
  proof (rule meets_seq, rule meets_then [OF param_type_ok])
    fix x assume "typed ks s x"
    then show "meets b (case x of (p, s1) \<Rightarrow>
        seq (collect (\<lambda>t. ast_type_to_param_type (ty t)) ts s1) (\<lambda>(ps, s2). Inr (p # ps, s2)))
       (\<lambda>(ps, s'). valid ks s' \<and> step s s' \<and> list_all (param_fits ks s') ps)"
      using rest by (cases x) (simp only: prod.case)
  qed (use Cons.prems in auto)
qed (simp add: meets_def)

lemma checks_mono: "step s t \<Longrightarrow> ix < length (param_checks (chunk (cur s))) \<Longrightarrow> ix < length (param_checks (chunk (cur t)))"
  by (simp add: step_def grows_def grown_def)

lemma param_check_ok:
  assumes "valid ks s" "reg ks r s" "b \<longrightarrow> nodes_expr generable p \<and> is_parameter p"
  shows "meets b (emit_param_type_check tail i p r s) (moved ks s)"
proof (cases "\<exists>t h ts nl. ekind p = EArgument t h \<and> ekind h = ETypeHint ts nl")
  case True
  then obtain t h ts nl where p: "ekind p = EArgument t h" "ekind h = ETypeHint ts nl" by blast
  have g: "b \<longrightarrow> named_by t" "b \<longrightarrow> list_all (\<lambda>t. named_type (ty t)) ts"
    using assms(3) p by (auto simp: nodes_kinds good_defs)
  show ?thesis
  proof (cases "tail = Some i \<or> list_ex (\<lambda>t. ty t = TyAny) ts")
    case False
    have rest: "meets b (seq (identifier_name t) (\<lambda>pname.
          let check = \<lparr>param_name = pname, position_of = i + 1, nullable = nl, param_types = pts\<rparr>;
              (check_idx, s) = add_param_check check s1; s = set_line (line t) s
          in Inr (emits (ICheckParamType r check_idx) s))) (moved ks s)"
      if v: "valid ks s1" "step s s1" "list_all (param_fits ks s1) pts" for pts s1
      unfolding Let_def [of "\<lparr>param_name = _, position_of = _, nullable = _, param_types = _\<rparr>"]
      by (intro meets_seq meets_named add_param_check_rule [OF v(1)] set_line_rule meets_Inr moved_emits)
        (rule g | assumption | erule flow checks_mono | rule emit_intros reg_mono [OF step_grows [OF v(2)] assms(2)]
          step_trans [OF v(2)] | (use v in \<open>simp add: list_all_iff param_fits_def\<close>; fail))+
    have ny: "\<forall>t \<in> set ts. ty t \<noteq> TyAny" using False by (auto simp: list_ex_iff)
    have "meets b (seq (collect (\<lambda>t. ast_type_to_param_type (ty t)) ts s) (\<lambda>(pts, s).
        seq (identifier_name t) (\<lambda>pname.
          let check = \<lparr>param_name = pname, position_of = i + 1, nullable = nl, param_types = pts\<rparr>;
              (check_idx, s) = add_param_check check s; s = set_line (line t) s
          in Inr (emits (ICheckParamType r check_idx) s)))) (moved ks s)"
      by (rule meets_seq, rule meets_then2 [OF param_types_ok [OF assms(1) g(2) ny]], rule meets_pair, elim conjE, rule rest)
    then show ?thesis using False p by (simp add: emit_param_type_check_def)
  qed (use p assms(1) in \<open>auto simp: emit_param_type_check_def meets_def moved_def\<close>)
next
  case False
  show ?thesis
  proof (cases "tail = Some i")
    case True
    then show ?thesis using assms by (simp add: emit_param_type_check_def meets_def moved_def)
  next
    case notail: False
    then have "emit_param_type_check tail i p r s = Inl Invalid" using False
      by (auto simp: emit_param_type_check_def split: expr_kind.split)
    moreover have "\<not> b" using False assms(3)
      by (cases "ekind p") (auto simp: is_parameter_def nodes_kinds good_defs is_type_hint_def split: expr_kind.splits)
    ultimately show ?thesis by (simp add: meets_def)
  qed
qed

lemma param_checks_ok:
  "valid ks s \<Longrightarrow> \<forall>r \<in> set rs. reg ks r s \<Longrightarrow> b \<longrightarrow> list_all (\<lambda>p. nodes_expr generable p \<and> is_parameter p) ps \<Longrightarrow>
     meets b (emit_param_type_checks tail i ps rs s) (moved ks s)"
proof (induction ps arbitrary: i rs s)
  case (Cons p ps)
  show ?case
  proof (cases rs)
    case rs: (Cons r rs')
    have "meets b (emit_param_type_checks tail (i + 1) ps rs' s1) (moved ks s)" if "moved ks s s1" for s1
    proof -
      have s1: "valid ks s1" "step s s1" using that by (simp_all add: moved_def)
      show ?thesis
        by (rule meets_then [OF Cons.IH [OF s1(1)]])
          (use Cons.prems rs s1 in \<open>auto intro: steady intro: moved_later\<close>)
    qed
    then show ?thesis
      unfolding rs emit_param_type_checks.simps
      by (intro meets_seq meets_then [OF param_check_ok]) (use Cons.prems rs in auto)
  qed (simp add: meets_def moved_def Cons.prems)
qed (simp add: meets_def moved_def)

section \<open>Scopes\<close>

lemma push_scope_ok:
  assumes "valid ks s" shows "valid (0 # ks) (push_scope s)" "clean (push_scope s) = clean s"
proof -
  show c: "clean (push_scope s) = clean s" by (simp add: push_scope_def clean_def)
  have "scope_ok (clean s) (objects (heap_of s)) 0 function_scope_new"
    by (simp add: scope_ok_def function_scope_new_def chunk_ok_def chunk_new_def)
  moreover have "chain_ok (clean s) (0 # ks) (function_scope_new # cur s # outer s)"
    using assms by (cases ks) (auto simp: valid_def captures_ok_def function_scope_new_def)
  ultimately show "valid (0 # ks) (push_scope s)"
    using assms unfolding valid_def c by (simp add: push_scope_def)
qed

lemma bind_params_ok:
  "valid ks s \<Longrightarrow> bind_params ns s = (rs, s') \<Longrightarrow> valid ks s' \<and> step s s' \<and> (\<forall>r \<in> set rs. reg ks r s')"
proof (induction ns arbitrary: s rs s')
  case (Cons x ns)
  obtain r s1 where a: "alloc_reg s = (r, s1)" by (cases "alloc_reg s")
  note al = alloc_reg_ok [OF Cons.prems(1) a]
  note pl = push_local_ok [OF al(1,5,4)]
  obtain rs2 s2 where bp: "bind_params ns (push_local x r False 0 s1) = (rs2, s2)"
    by (cases "bind_params ns (push_local x r False 0 s1)")
  note ih = Cons.IH [OF pl(1) bp]
  have "rs = r # rs2" "s' = s2" using Cons.prems(2) a bp by simp_all
  moreover have "step s1 s2" using pl(2) ih step_trans by blast
  ultimately show ?case using ih al(2,5) step_trans by (auto intro: steady)
qed simp

lemma bind_params_rule:
  assumes "valid ks s" "\<And>rs s'. valid ks s' \<Longrightarrow> step s s' \<Longrightarrow> \<forall>r \<in> set rs. reg ks r s' \<Longrightarrow> meets b (f rs s') Q"
  shows "meets b (Let (bind_params ns s) (\<lambda>(rs, s). f rs s)) Q"
  using bind_params_ok [OF assms(1)] assms(2) by (cases "bind_params ns s") simp

lemma self_local_rule:
  assumes "valid ks s" "reg ks r s" "r < 256" "\<And>s'. valid ks s' \<Longrightarrow> step s s' \<Longrightarrow> meets b (f s') Q"
  shows "meets b (Let (if c then s else push_local n r k d s) f) Q"
  using assms(4) [OF push_local_ok(1,2) [OF assms(1-3)]] assms(4) [OF assms(1) step_refl] by simp

lemma chunk_ok_more:
  assumes "chunk_ok c obs m n len k" "instr_ok c obs m n k i" "jump_offset i = None"
  shows "chunk_ok c obs m n len (k\<lparr>code := code k @ [i], code_lines := code_lines k @ [ln]\<rparr>)"
proof -
  let ?k = "k\<lparr>code := code k @ [i], code_lines := code_lines k @ [ln]\<rparr>"
  have "instr_ok c obs m n ?k j" if "instr_ok c obs m n k j" for j
    by (rule instr_ok_mono [OF that]) simp_all
  then show ?thesis
    using assms by (auto simp: chunk_ok_def nth_append less_Suc_eq jump_within_plain)
qed

lemma chunk_ok_len: "chunk_ok c obs m n len k \<Longrightarrow> len \<le> len' \<Longrightarrow> chunk_ok c obs m n len' k"
  by (fastforce simp: chunk_ok_def intro: jump_within_mono)

text \<open>A finished scope: its code is that of a function, and captures what exists around it.\<close>

definition finished_ok :: "nat list \<Rightarrow> function_scope \<Rightarrow> compiler \<Rightarrow> bool" where
  "finished_ok ks fin s \<longleftrightarrow>
     code (chunk fin) \<noteq> [] \<and> is_return (last (code (chunk fin))) \<and> max_reg fin < 256 \<and>
     chunk_ok (clean s) (objects (heap_of s)) (max_reg fin) (length (upvalues fin))
       (length (code (chunk fin)) - 1) (chunk fin) \<and>
     captures_ok (clean s) (limit ks s) (length (upvalues (cur s))) (upvalues fin)"

lemma return_nil_ok:
  assumes "valid (0 # ks) t" "return_nil t = (r, u)"
  shows "valid (0 # ks) u" "step t u" "code (chunk (cur u)) \<noteq> []" "is_return (last (code (chunk (cur u))))"
    "chunk_ok (clean u) (objects (heap_of u)) (max_reg (cur u)) (length (upvalues (cur u)))
       (length (code (chunk (cur u))) - 1) (chunk (cur u))"
proof -
  obtain t1 where a: "alloc_reg t = (r, t1)" and u: "u = emits (IReturn r) (emits (ILoadNil r) t1)"
    using assms(2) by (auto simp: return_nil_def split: prod.splits)
  note al = alloc_reg_ok [OF assms(1) a]
  have e: "emittable (0 # ks) (ILoadNil r) t1" by (rule emit_intros al)+
  note l = emits_ok [OF al(1) e jump_within_plain, simplified]
  have e2: "emittable (0 # ks) (IReturn r) (emits (ILoadNil r) t1)"
    by (rule emit_intros steady l al)+
  note m = emits_ok [OF l(1) e2 jump_within_plain, simplified]
  show "valid (0 # ks) u" "step t u" using m l(2) al(2) unfolding u by (auto intro: step_trans)
  show "code (chunk (cur u)) \<noteq> []" "is_return (last (code (chunk (cur u))))"
    by (simp_all add: u is_return_def)
  let ?k = "chunk (cur t1)"
  let ?k1 = "?k\<lparr>code := code ?k @ [ILoadNil r], code_lines := code_lines ?k @ [current_line (cur t1)]\<rparr>"
  have c1: "chunk_ok (clean t1) (objects (heap_of t1)) (max_reg (cur t1)) (length (upvalues (cur t1)))
      (length (code ?k)) ?k"
    using valid_cur(1) [OF al(1)] by (simp add: scope_ok_def lim_def)
  have "instr_ok (clean t1) (objects (heap_of t1)) (max_reg (cur t1)) (length (upvalues (cur t1))) ?k (ILoadNil r)"
    using e by (simp add: emittable_def)
  note c2 = chunk_ok_more [OF c1 this, simplified, of "current_line (cur t1)"]
  have "instr_ok (clean t1) (objects (heap_of t1)) (max_reg (cur t1)) (length (upvalues (cur t1))) ?k1 (IReturn r)"
    using al(5) by (simp add: instr_ok_def reg_def)
  note c3 = chunk_ok_more [OF c2 this, simplified, of "current_line (cur t1)"]
  have "chunk (cur u) = ?k1\<lparr>code := code ?k1 @ [IReturn r], code_lines := code_lines ?k1 @ [current_line (cur t1)]\<rparr>"
    unfolding u emits_on_cur by simp
  then show "chunk_ok (clean u) (objects (heap_of u)) (max_reg (cur u)) (length (upvalues (cur u)))
       (length (code (chunk (cur u))) - 1) (chunk (cur u))"
    using chunk_ok_len [OF c3] by (simp add: u)
qed

lemma close_function_ok:
  assumes "valid ks s" "valid (0 # ks) t" "step (push_scope s) t"
  shows "meets b (close_function t) (\<lambda>(fin, u). valid ks u \<and> step s u \<and> finished_ok ks fin u)"
proof -
  obtain r t2 where r: "return_nil t = (r, t2)" by (cases "return_nil t")
  note rn = return_nil_ok [OF assms(2) r]
  have st: "step (push_scope s) t2" using assms(3) rn(2) by (rule step_trans)
  then obtain e es where o: "outer t2 = e # es" "frozen (cur s) e" "list_all2 frozen (outer s) es"
    by (auto simp: step_def grows_def push_scope_def list_all2_Cons1)
  define u where "u = t2\<lparr>cur := e, outer := es\<rparr>"
  have c: "clean u = clean t2" "heap_of u = heap_of t2" "cur u = e" "outer u = es"
    by (simp_all add: u_def clean_def)
  obtain k ks' where ks: "ks = k # ks'" using assms(1) by (cases ks) (auto simp: valid_def)
  have "valid ks u" using rn(1) unfolding valid_def c by (simp add: ks o)
  moreover have "step s u"
    using st o frozen_grown [OF o(2)]
    by (auto simp: step_def grows_def push_scope_def u_def frozen_def)
  moreover have "finished_ok ks (cur t2) u"
  proof -
    have "captures_ok (clean t2) (lim k e) (length (upvalues e)) (upvalues (cur t2))"
      using rn(1) by (simp add: valid_def ks o)
    then show ?thesis
      using rn(3,4,5) valid_cur(1) [OF rn(1)]
      by (simp add: finished_ok_def c limit_def ks scope_ok_def)
  qed
  ultimately show ?thesis
    by (simp add: close_function_def r o u_def [symmetric] meets_def)
qed

section \<open>Prototypes\<close>

text \<open>A function that the current one can make a closure of.\<close>

definition proto :: "nat list \<Rightarrow> compiler \<Rightarrow> obj_function \<times> compiler \<Rightarrow> bool" where
  "proto ks s = (\<lambda>(f, u). valid ks u \<and> step s u \<and> function_ok (clean u) (objects (heap_of u)) f \<and>
     captures_ok (clean u) (limit ks u) (length (upvalues (cur u))) (fn_upvalues f))"

lemma protoI:
  "valid ks u \<Longrightarrow> step s u \<Longrightarrow> finished_ok ks fin u \<Longrightarrow> proto ks s (function_of nm ar v m ow fin u, u)"
  by (simp add: proto_def finished_ok_def function_ok_def function_of_def)

lemma close_function_rule:
  assumes "valid ks s" "valid (0 # ks) t" "step (push_scope s) t"
    "\<And>fin u. valid ks u \<Longrightarrow> step s u \<Longrightarrow> finished_ok ks fin u \<Longrightarrow> Q (fin, u)"
  shows "meets b (close_function t) Q"
  by (rule meets_then2 [OF close_function_ok [OF assms(1-3)]]) (use assms(4) in blast)

lemma closure_given: "proto ks s (f, u) \<Longrightarrow> given ks u (closure f u)"
proof (rule given_run)
  assume p: "proto ks s (f, u)"
  have oc: "meets True (Let (object_constant (OFunction f) u) (\<lambda>(ix, s). h ix s)) Q"
    if "\<And>ix s'. valid ks s' \<Longrightarrow> step u s' \<Longrightarrow> pooled ks UProto ix s' \<Longrightarrow> meets True (h ix s') Q"
    for h :: "nat \<Rightarrow> compiler \<Rightarrow> (nat \<times> compiler) run" and Q
    using object_constant_ok [of ks u "OFunction f"] p that
    by (cases "object_constant (OFunction f) u") (auto simp: proto_def)
  show "meets True (Inr (closure f u)) (given ks u)"
    unfolding closure_def pure_run
    by (intro oc runs) (assumption | erule flow | rule emit_intros | simp)+
qed

lemma param_names_ok:
  "b \<longrightarrow> list_all (\<lambda>p. nodes_expr generable p \<and> is_parameter p) ps \<Longrightarrow>
     meets b (param_names ps) (\<lambda>ns. length ns = length ps)"
proof (induction ps)
  case (Cons p ps)
  have "meets b (param_name_of p) (\<lambda>_. True)"
    using Cons.prems unfolding param_name_of_def
    by (auto simp: is_parameter_def nodes_kinds good_defs meets_Invalid split: expr_kind.splits intro: meets_named)
  moreover have "meets b (param_names ps) (\<lambda>ns. length ns = length ps)"
    using Cons by auto
  ultimately show ?case
    by (auto simp: meets_def seq_def split: sum.splits)
qed (simp add: meets_def)

text \<open>The parts of a function declaration that its rules need.\<close>

abbreviation good_function :: "token \<Rightarrow> expr list \<Rightarrow> stmt \<Rightarrow> bool \<Rightarrow> bool" where
  "good_function t ps body v \<equiv> named_by t \<and> list_all (\<lambda>p. nodes_expr generable p \<and> is_parameter p) ps \<and>
     (v \<longrightarrow> ps \<noteq> []) \<and> nodes_stmt generable body \<and> plain body"

context generating begin

lemma prototype_ok:
  assumes "size body < n" "b \<longrightarrow> good_function t ps body v" "valid ks s"
  shows "meets b (compile_function_prototype g t ps body v m s) (proto ks s)"
proof -
  note p = push_scope_ok [OF assms(3)]
  have run: "meets b (let (regs, s) = bind_params ns (push_scope s)
       in seq (emit_param_type_checks (variadic_tail v ps) 0 ps regs s) (\<lambda>s.
          seq (g_stmt g body s) (\<lambda>s. seq (close_function s) (\<lambda>(finished, s).
          Inr (function_of nm (length ns mod 256) v m None finished s, s))))) (proto ks s)" for ns nm
    by (intro bind_params_rule [OF p(1)] meets_seq moved_rule [OF param_checks_ok] subtrees
        close_function_rule [OF assms(3)] meets_pair meets_Inr protoI)
      (assumption | rule assms | erule flow | (use assms(2) in simp; fail))+
  have inv: "b \<longrightarrow> \<not> (v \<and> ns = [])" if "length ns = length ps" for ns :: "ustring list"
    using that assms(2) by auto
  show ?thesis
    unfolding compile_function_prototype_def
    by (intro meets_seq meets_named meets_then [OF param_names_ok] meets_if run)
      (use assms(2) inv in \<open>auto intro!: meets_Invalid\<close>)
qed

lemma method_prototype_ok:
  assumes "size body < n" "b \<longrightarrow> good_function t ps body v" "valid ks s"
  shows "meets b (compile_method_prototype g t ps body v st cn s) (proto ks s)"
proof -
  note p = push_scope_ok [OF assms(3)]
  have run: "meets b (let (self_reg, s) = alloc_reg (push_scope s);
           s = (if st then s else push_local (str ''self'') self_reg True 0 s);
           (regs, s) = bind_params ns s
       in seq (emit_param_type_checks (variadic_tail v ps) 0 ps regs s) (\<lambda>s.
          seq (g_stmt g body s) (\<lambda>s. seq (close_function s) (\<lambda>(finished, s).
          Inr (function_of nm ((length ns + 1) mod 256) v True (Some cn) finished s, s))))) (proto ks s)" for ns nm
    by (intro alloc_rule [OF p(1)] self_local_rule bind_params_rule meets_seq moved_rule [OF param_checks_ok] subtrees
        close_function_rule [OF assms(3)] meets_pair meets_Inr protoI)
      (assumption | rule assms | erule flow | (use assms(2) in simp; fail))+
  have inv: "b \<longrightarrow> \<not> (v \<and> ns = [])" if "length ns = length ps" for ns :: "ustring list"
    using that assms(2) by auto
  show ?thesis
    unfolding compile_method_prototype_def
    by (intro meets_seq meets_named meets_then [OF param_names_ok] meets_if run)
      (use assms(2) inv in \<open>auto intro!: meets_Invalid\<close>)
qed

lemma compile_anonymous_ok:
  assumes "size d < n" "b \<longrightarrow> nodes_decl generable d \<and> is_function_decl d" "valid ks s"
  shows "meets b (compile_anonymous g d s) (given ks s)"
proof (cases "\<exists>t ps body v. dkind d = DFunction t ps body v")
  case True
  then obtain t ps body v where d: "dkind d = DFunction t ps body v" by blast
  have "size body < n" "b \<longrightarrow> good_function t ps body v"
    using assms(1,2) d by (auto simp: tree_sizes nodes_kinds good_defs list_all_iff)
  note pr = prototype_ok [OF this assms(3), of False]
  have "meets b (seq (compile_function_prototype g t ps body v False s) (\<lambda>(f, s). Inr (closure f s))) (given ks s)"
    by (rule meets_seq, rule meets_then [OF pr])
      (auto simp: meets_def proto_def intro: given_later [OF closure_given, unfolded proto_def])
  then show ?thesis by (simp add: compile_anonymous_def d)
next
  case False
  then have "compile_anonymous g d s = Inl Invalid" "\<not> b"
    using assms(2) by (auto simp: compile_anonymous_def is_function_decl_def split: decl_kind.splits)
  then show ?thesis by (simp add: meets_def)
qed

end

end
