(* ===== verification/Codegen_Stmts.thy ===== *)
theory Codegen_Stmts
  imports Codegen_Functions
begin

text \<open>
  Every expression, and the statements: blocks, branches, loops with the jumps that leave them,
  \<open>using\<close> with its jump table, errors raised and caught, and imports.
\<close>

section \<open>Expressions\<close>

lemma pool_rules:
  assumes "valid ks s"
    "\<And>ix s'. valid ks s' \<Longrightarrow> step s s' \<Longrightarrow> pooled ks UAny ix s' \<Longrightarrow> meets b (f ix s') Q"
  shows "meets b (Let (add_constant (KNumber x) s) (\<lambda>(ix, s). f ix s)) Q"
    "meets b (Let (string_constant t s) (\<lambda>(ix, s). f ix s)) Q"
    "meets b (Let (object_constant (OBigInt i) s) (\<lambda>(ix, s). f ix s)) Q"
proof -
  show "meets b (Let (add_constant (KNumber x) s) (\<lambda>(ix, s). f ix s)) Q"
    by (rule number_rule [OF assms(1)]) (rule assms(2), auto intro: pooled_any)
  show "meets b (Let (string_constant t s) (\<lambda>(ix, s). f ix s)) Q"
    by (rule string_constant_rule [OF assms(1)]) (rule assms(2), auto intro: pooled_any)
  show "meets b (Let (object_constant (OBigInt i) s) (\<lambda>(ix, s). f ix s)) Q"
    using object_constant_ok [OF assms(1), of "OBigInt i"] assms(2)
    by (cases "object_constant (OBigInt i) s") simp
qed

context generating begin

lemma compile_expression_ok:
  assumes "size e < Suc n" "b \<longrightarrow> good_expr e" "valid ks s"
  shows "meets b (compile_expression g e s) (given ks s)"
proof -
  have kids: "size (ekind e) < n" using assms(1) by (simp add: expr_size)
  have good: "b \<longrightarrow> nodes_ekind generable (ekind e)" using assms(2) by (simp add: nodes_kinds)
  have load: "meets b (Inr (load_pooled p s)) (given ks s)" if "given ks s (load_pooled p s)" for p
    using that by (simp add: meets_def)
  show ?thesis
  proof (cases "ekind e")
    case ENil
    show ?thesis unfolding compile_expression_def ENil expr_kind.case
      by (intro runs) (rule assms | assumption | erule flow | rule emit_intros | simp)+
  next
    case (EBool x)
    show ?thesis unfolding compile_expression_def EBool expr_kind.case
      by (intro runs) (rule assms | assumption | erule flow | rule emit_intros | simp)+
  next
    case (EInteger x)
    show ?thesis unfolding compile_expression_def EInteger expr_kind.case
      by (intro load load_pooled_given assms(3) pool_rules) auto
  next
    case (EFloat x)
    show ?thesis unfolding compile_expression_def EFloat expr_kind.case
      by (intro load load_pooled_given assms(3) pool_rules) auto
  next
    case (EBigNumber x)
    show ?thesis unfolding compile_expression_def EBigNumber expr_kind.case
      by (intro load load_pooled_given assms(3) pool_rules) auto
  next
    case (ELiteral x)
    show ?thesis unfolding compile_expression_def ELiteral expr_kind.case
      by (intro load load_pooled_given assms(3) pool_rules) auto
  next
    case (EIdentifier t)
    then show ?thesis using good compile_identifier_ok assms(3) by (simp add: compile_expression_def good_defs)
  next
    case (EUnary op a ln)
    then show ?thesis using kids good compile_unary_ok assms(3) by (simp add: compile_expression_def good_defs)
  next
    case (EBinary x op y ln)
    then have c: "size x < n" "size y < n" "b \<longrightarrow> good_expr x \<and> good_expr y \<and> binary_instr op \<noteq> None"
      using kids good by (simp_all add: good_defs)
    then show ?thesis using EBinary compile_imm_ok [OF c(1) _ assms(3)] compile_operator_ok [OF c assms(3)]
      by (simp add: compile_expression_def compile_binary_def split: option.split)
  next
    case (ELogical x op y ln)
    then have c: "size x < n" "size y < n" "b \<longrightarrow> good_expr x \<and> good_expr y \<and> logical_instr op \<noteq> None"
      using kids good by (simp_all add: good_defs)
    then show ?thesis using ELogical compile_imm_ok [OF c(1) _ assms(3)] compile_operator_ok [OF c assms(3)]
      by (simp add: compile_expression_def compile_logical_def split: option.split)
  next
    case (ECircuit x op y)
    then show ?thesis using kids good compile_circuit_ok assms(3) by (simp add: compile_expression_def good_defs)
  next
    case (EGrouping a)
    then show ?thesis using kids good g_expr assms(3) by (simp add: compile_expression_def good_defs)
  next
    case (ECondition x y z)
    then show ?thesis using kids good compile_condition_ok assms(3) by (simp add: compile_expression_def good_defs)
  next
    case (EAssign x y)
    then show ?thesis using kids good compile_assign_ok assms(3) by (simp add: compile_expression_def good_defs)
  next
    case (ECall x ys ln)
    have "\<forall>y \<in> set ys. size y < n" using kids ECall member_size [of _ ys] by fastforce
    then show ?thesis using ECall kids good compile_call_ok assms(3)
      by (simp add: compile_expression_def good_defs list_all_iff)
  next
    case (EAnonymous d)
    then show ?thesis using kids good compile_anonymous_ok assms(3) by (simp add: compile_expression_def good_defs)
  next
    case (EList ys)
    have "\<forall>y \<in> set ys. size y < n" using kids EList member_size [of _ ys] by fastforce
    then show ?thesis using EList kids good compile_list_literal_ok assms(3)
      by (simp add: compile_expression_def good_defs list_all_iff)
  next
    case (EDict xs ys)
    have "\<forall>y \<in> set xs \<union> set ys. size y < n"
      using kids EDict member_size [of _ xs] member_size [of _ ys] by fastforce
    then show ?thesis using EDict kids good compile_dict_literal_ok assms(3)
      by (simp add: compile_expression_def good_defs list_all_iff)
  next
    case (ESelf t)
    then show ?thesis using compile_self_given assms(3) by (simp add: compile_expression_def meets_def)
  next
    case (EParent t)
    then show ?thesis using error_later [OF _ report_ok(5)] report_ok(3) assms(3)
      by (simp add: compile_expression_def meets_def)
  next
    case (EGet x t)
    then show ?thesis using kids good compile_get_ok assms(3) by (simp add: compile_expression_def good_defs)
  next
    case (ESet x t y)
    then show ?thesis using kids good compile_set_ok assms(3) by (simp add: compile_expression_def good_defs)
  next
    case (EIndex x y ln)
    then show ?thesis using kids good compile_pair_ok assms(3) by (simp add: compile_expression_def good_defs)
  next
    case (ESlice x y z ln)
    then show ?thesis using kids good compile_slice_ok assms(3) by (simp add: compile_expression_def good_defs)
  next
    case (ERange x y ln)
    then show ?thesis using kids good compile_pair_ok assms(3) by (simp add: compile_expression_def good_defs)
  qed (use assms(2) in \<open>auto simp: compile_expression_def meets_def yields_value_def nodes_kinds good_defs\<close>)
qed

section \<open>Statements\<close>

lemma compile_expression_statement_ok:
  assumes "size e < n" "b \<longrightarrow> good_expr e" "valid ks s"
  shows "meets b (compile_expression_statement g e s) (moved ks s)"
  unfolding compile_expression_statement_def
  by (intro let_next runs subtrees jump_if_rules)
    (assumption | rule assms next_marked(2) [OF assms(3)] | erule flow | rule emit_intros | simp)+

lemma compile_echo_ok:
  assumes "size e < n" "b \<longrightarrow> good_expr e" "valid ks s"
  shows "meets b (compile_echo g e s) (moved ks s)"
  unfolding compile_echo_def
  by (intro let_next runs subtrees)
    (assumption | rule assms next_marked(2) [OF assms(3)] | erule flow | rule emit_intros | simp)+

lemma compile_raise_ok:
  assumes "size e < n" "b \<longrightarrow> good_expr e" "valid ks s"
  shows "meets b (compile_raise g e s) (moved ks s)"
  unfolding compile_raise_def
  by (intro runs subtrees) (assumption | rule assms | erule flow | rule emit_intros | simp)+

lemma return_ok:
  assumes "size e < n" "b \<longrightarrow> good_expr e" "valid ks s"
  shows "meets b (seq (g_expr g e s) (\<lambda>(r, s). let s = emits (IReturn r) s in Inr s)) (moved ks s)"
  by (intro runs subtrees) (assumption | rule assms | erule flow | rule emit_intros | simp)+

end

end
