(* ===== verification/Codegen_Loops.thy ===== *)
theory Codegen_Loops
  imports Codegen_Stmts
begin

text \<open>
  Blocks, branches, loops and variables: what their scopes and the contexts of loops hold.
\<close>

section \<open>Blocks\<close>

lemma neutral_ok:
  assumes "valid ks s"
  shows "moved ks s (on_cur (scope_depth_update f) s)" "moved ks s (on_cur (open_catches_update f) s)"
    "moved ks s (on_cur (declared_functions_update h) s)"
  by (rule movedI, rule valid_on_cur [OF assms], simp, simp add: scope_ok_def,
      rule step_on_cur; simp add: grown_def)+

lemma take_locals_ok: "valid ks s \<Longrightarrow> moved ks s (on_cur (locals_update (take k)) s)"
  by (rule movedI, erule valid_on_cur, simp)
    (auto simp: scope_ok_def dest: in_set_takeD intro!: step_on_cur simp: grown_def)

lemma close_if_rule:
  assumes "valid ks s" "marked ks m s" "\<And>s'. valid ks s' \<Longrightarrow> step s s' \<Longrightarrow> meets b (f s') Q"
  shows "meets b (Let (if c then emits (ICloseUpvalues m) s else s) f) Q"
proof (cases c)
  case True
  have "moved ks s (emits (ICloseUpvalues m) s)"
    by (rule moved_emits) (rule assms step_refl emit_intros | simp)+
  then show ?thesis using True assms(3) by (simp add: moved_def)
qed (use assms in simp)

lemma end_scope_ok:
  assumes "valid ks s" "marked ks m s" "m < 256"
  shows "moved ks s (end_scope m k s)"
proof (rule moved_run)
  show "meets True (Inr (end_scope m k s)) (moved ks s)"
    unfolding end_scope_def pure_run Let_def [of "list_ex _ _"]
    by (intro let_moved [OF take_locals_ok] close_if_rule meets_Inr)
      (rule assms | assumption | erule flow | (use assms free_regs_to_ok in \<open>auto simp: moved_def elim: step_trans; fail\<close>) |
        rule moved_later [OF movedI [OF free_regs_to_ok(1,2)]])+
qed

lemma nil_local_given: "valid ks s \<Longrightarrow> given ks s (nil_local nm d s)"
  by (rule given_run, unfold nil_local_def pure_run, intro runs)
    (assumption | erule flow | rule emit_intros | simp)+

lemma hoist_from_ok:
  "b \<longrightarrow> list_all (\<lambda>st. nodes_stmt generable st) sts \<Longrightarrow> valid ks s \<Longrightarrow>
     meets b (hoist_from d reserved sts s) (moved ks s)"
proof (induction sts arbitrary: reserved s)
  case (Cons st sts)
  have ih: "meets b (hoist_from d rs sts s') (moved ks s)" if "valid ks s'" "step s s'" for rs s'
    by (rule meets_then [OF Cons.IH [OF _ that(1)]]) (use Cons.prems that moved_later in auto)
  show ?case
  proof (cases "function_name_token st")
    case None
    then show ?thesis using ih Cons.prems by simp
  next
    case (Some t)
    then have "b \<longrightarrow> named_by t"
      using Cons.prems(1)
      by (auto simp: function_name_token_def nodes_kinds good_defs split: stmt_kind.splits decl_kind.splits)
    then show ?thesis unfolding hoist_from.simps Some option.case
      by (intro meets_seq meets_named meets_if let_given [OF nil_local_given [OF Cons.prems(2)]] ih)
        (use Cons.prems in auto)
  qed
qed (simp add: meets_def moved_def)

lemma some_case: "meets b (f y) Q \<Longrightarrow> meets b (case Some y of None \<Rightarrow> m | Some y \<Rightarrow> f y) Q"
  by simp

section \<open>Contexts of loops\<close>

text \<open>A state inside a loop: all that was, and one context more.\<close>

definition inside :: "nat list \<Rightarrow> compiler \<Rightarrow> compiler \<Rightarrow> bool" where
  "inside ks s t \<longleftrightarrow> valid ks t \<and> grows s t \<and> length (loops (cur t)) = Suc (length (loops (cur s)))"

lemma inside_step: "inside ks s t \<Longrightarrow> valid ks u \<Longrightarrow> step t u \<Longrightarrow> inside ks s u"
  by (auto simp: inside_def step_def intro: grows_trans)

lemma grows_on_cur: "grown (cur s) (f (cur s)) \<Longrightarrow> grows s (on_cur f s)"
  by (simp add: grows_def list.rel_refl)

lemma push_loop_ok:
  assumes "valid ks s" "place t s" "marked ks m s" "m < 256"
  shows "inside ks s (on_cur (loops_update (\<lambda>ls. ls @ [\<lparr>continue_target = t, break_jumps = [],
    body_mark = m, continue_locales = [], loop_catches = c\<rparr>])) s)"
proof -
  let ?l = "\<lparr>continue_target = t, break_jumps = [], body_mark = m, continue_locales = [], loop_catches = c\<rparr>"
  have "loop_ok (clean s) (limit ks s) (code (chunk (cur s))) ?l"
    using assms(2-4) by (simp add: loop_ok_def place_def code_len_def marked_def)
  then have "valid ks (on_cur (loops_update (\<lambda>ls. ls @ [?l])) s)"
    by (intro valid_on_cur [OF assms(1)]) (auto simp: scope_ok_def limit_def)
  moreover have "grows s (on_cur (loops_update (\<lambda>ls. ls @ [?l])) s)"
    by (rule grows_on_cur) (simp add: grown_def)
  ultimately show ?thesis by (simp add: inside_def)
qed

lemma last_loop_ok:
  assumes "valid ks s" "loops (cur s) \<noteq> []" "l = last (loops (cur s))"
  shows "place (continue_target l) s" "marked ks (body_mark l) s" "body_mark l < 256"
    "\<forall>j \<in> set (break_jumps l). jump_at j s" "\<forall>j \<in> set (continue_locales l). jump_at j s"
proof -
  have "loop_ok (clean s) (limit ks s) (code (chunk (cur s))) l"
    using valid_cur(1) [OF assms(1)] assms(2,3) by (auto simp: scope_ok_def limit_def)
  then show "place (continue_target l) s" "marked ks (body_mark l) s" "body_mark l < 256"
    "\<forall>j \<in> set (break_jumps l). jump_at j s" "\<forall>j \<in> set (continue_locales l). jump_at j s"
    by (auto simp: loop_ok_def place_def marked_def jump_at_def code_len_def)
qed

lemma pop_loop_ok:
  assumes "inside ks s t"
  shows "moved ks s (on_cur (loops_update butlast) t)"
    "\<forall>j \<in> set (break_jumps (last (loops (cur t)))). jump_at j (on_cur (loops_update butlast) t)"
proof -
  have v: "valid ks t" "grows s t" "length (loops (cur t)) = Suc (length (loops (cur s)))"
    using assms by (simp_all add: inside_def)
  have "valid ks (on_cur (loops_update butlast) t)"
    by (rule valid_on_cur [OF v(1)]) (auto simp: scope_ok_def dest: in_set_butlastD)
  moreover have g: "grows t (on_cur (loops_update butlast) t)" by (rule grows_on_cur) (simp add: grown_def)
  ultimately show "moved ks s (on_cur (loops_update butlast) t)"
    using v(2,3) grows_trans [OF v(2) g] by (simp add: moved_def step_def)
  have "loops (cur t) \<noteq> []" using v(3) by auto
  then show "\<forall>j \<in> set (break_jumps (last (loops (cur t)))). jump_at j (on_cur (loops_update butlast) t)"
    using last_loop_ok(4) [OF v(1) _ refl] jump_at_mono [OF g] by blast
qed

lemma patch_all_ok:
  "valid ks s \<Longrightarrow> \<forall>j \<in> set js. jump_at j s \<Longrightarrow> meets b (each patch_jump js s) (moved ks s)"
proof (induction js arbitrary: s)
  case (Cons j js)
  have "meets b (each patch_jump js s') (moved ks s)" if "valid ks s'" "step s s'" for s'
    by (rule meets_then [OF Cons.IH [OF that(1)]])
      (use Cons.prems that in \<open>auto intro: steady moved_later\<close>)
  then show ?case using Cons.prems by (auto intro!: meets_seq patch_jump_rule)
qed (simp add: meets_def moved_def)

lemma patch_all_rule:
  assumes "valid ks s" "\<forall>j \<in> set js. jump_at j s" "\<And>s'. valid ks s' \<Longrightarrow> step s s' \<Longrightarrow> Q s'"
  shows "meets b (each patch_jump js s) Q"
  by (rule moved_rule [OF patch_all_ok [OF assms(1,2)]]) (rule assms(3))

lemma on_last_loop_ok:
  assumes "valid ks s" "loops (cur s) \<noteq> []"
    "\<And>l. loop_ok (clean s) (limit ks s) (code (chunk (cur s))) l \<Longrightarrow> loop_ok (clean s) (limit ks s) (code (chunk (cur s))) (f l)"
  shows "moved ks s (on_last_loop f s)"
  unfolding on_last_loop_def
proof (rule movedI)
  show "valid ks (on_cur (loops_update (\<lambda>ls. butlast ls @ [f (last ls)])) s)"
    by (rule valid_on_cur [OF assms(1)])
      (use assms(2,3) in \<open>auto simp: scope_ok_def limit_def dest: in_set_butlastD\<close>)
  show "step s (on_cur (loops_update (\<lambda>ls. butlast ls @ [f (last ls)])) s)"
    by (rule step_on_cur) (use assms(2) in \<open>simp_all add: grown_def\<close>)
qed

lemma leave_loop_body_ok:
  assumes "valid ks s" "loops (cur s) \<noteq> []"
  shows "moved ks s (leave_loop_body s)"
proof -
  note l = last_loop_ok [OF assms refl]
  let ?t = "if locals_captured_from (body_mark (last (loops (cur s)))) s
    then emits (ICloseUpvalues (body_mark (last (loops (cur s))))) s else s"
  have t: "moved ks s ?t"
    using moved_emits [OF assms(1) emittables(20) [OF l(2)] _ step_refl] assms(1)
    by (simp add: moved_def)
  then have "valid ks ?t" by (simp add: moved_def)
  then have "moved ks s (leave_loop_catches ?t)"
    by (rule leave_loop_catches_rule) (use t in \<open>auto simp: moved_def intro: step_trans\<close>)
  then show ?thesis unfolding leave_loop_body_def Let_def .
qed

lemma compile_break_ok:
  assumes "valid ks s" shows "moved ks s (compile_break t s)"
proof (cases "loops (cur s) = []")
  case True
  then show ?thesis using assms report_ok by (simp add: compile_break_def moved_def)
next
  case False
  have lo: "valid ks (leave_loop_body s)" "step s (leave_loop_body s)"
    using leave_loop_body_ok [OF assms False] by (simp_all add: moved_def)
  have "meets True (Let (emit_jump (leave_loop_body s)) (\<lambda>(j, s). Inr (on_last_loop (break_jumps_update (\<lambda>js. js @ [j])) s)))
      (moved ks s)"
  proof (rule jump_rule [OF lo(1)], rule meets_Inr)
    fix j u assume u: "valid ks u" "step (leave_loop_body s) u" "jump_at j u"
    have "step s u" using lo(2) u(2) by (rule step_trans)
    then show "moved ks s (on_last_loop (break_jumps_update (\<lambda>js. js @ [j])) u)"
      using u(3) step_loops [OF _ False]
      by (intro moved_later [OF on_last_loop_ok [OF u(1)]]) (auto simp: loop_ok_def jump_at_def)
  qed
  then show ?thesis using False by (simp add: compile_break_def meets_def split_beta Let_def)
qed

lemma compile_continue_ok:
  assumes "valid ks s" shows "meets b (compile_continue t s) (moved ks s)"
proof (cases "loops (cur s) = []")
  case True
  then show ?thesis using assms report_ok by (simp add: compile_continue_def moved_def meets_def)
next
  case False
  have lo: "valid ks (leave_loop_body s)" "step s (leave_loop_body s)"
    using leave_loop_body_ok [OF assms False] by (simp_all add: moved_def)
  have pl: "place (continue_target (last (loops (cur s)))) (leave_loop_body s)"
    using place_mono [OF step_grows [OF lo(2)] last_loop_ok(1) [OF assms False refl]] .
  have "meets b (seq (emit_loop (continue_target (last (loops (cur s)))) (leave_loop_body s))
      (\<lambda>(at, s). Inr (on_last_loop (continue_locales_update (\<lambda>js. js @ [at])) s))) (moved ks s)"
  proof (intro meets_seq emit_loop_rule [OF lo(1) pl] meets_pair meets_Inr)
    fix j u assume u: "valid ks u" "step (leave_loop_body s) u" "jump_at j u"
    have "step s u" using lo(2) u(2) by (rule step_trans)
    then show "moved ks s (on_last_loop (continue_locales_update (\<lambda>js. js @ [j])) u)"
      using u(3) step_loops [OF _ False]
      by (intro moved_later [OF on_last_loop_ok [OF u(1)]]) (auto simp: loop_ok_def jump_at_def)
  qed
  then show ?thesis using False by (simp add: compile_continue_def)
qed

lemma fix_continue_ok:
  "valid ks s \<Longrightarrow> b \<longrightarrow> loops (cur s) \<noteq> [] \<Longrightarrow> meets b (fix_continue s) (moved ks s)"
  using patch_all_ok last_loop_ok(5) [OF _ _ refl] by (auto simp: fix_continue_def meets_def)

lemma push_loop_rule:
  assumes "valid ks s" "place t s" "marked ks m s" "m < 256" "\<And>s'. inside ks s s' \<Longrightarrow> meets b (f s') Q"
  shows "meets b (Let (on_cur (loops_update (\<lambda>ls. ls @ [\<lparr>continue_target = t, break_jumps = [],
    body_mark = m, continue_locales = [], loop_catches = c\<rparr>])) s) f) Q"
  using assms(5) [OF push_loop_ok [OF assms(1-4)]] by simp

lemma let_place: "(place (code_len s) s \<Longrightarrow> meets b (f (code_len s)) Q) \<Longrightarrow> meets b (Let (code_len s) f) Q"
  by (simp add: place_def)

lemma inside_kept:
  "inside ks s t \<Longrightarrow> place p s \<Longrightarrow> place p t" "inside ks s t \<Longrightarrow> jump_at j s \<Longrightarrow> jump_at j t"
  by (auto simp: inside_def intro: kept)

context generating begin

lemma statements_ok:
  assumes "\<forall>x \<in> set xs. size x < n" "valid ks s"
    "b \<longrightarrow> list_all (\<lambda>x. nodes_stmt generable x \<and> (plain x \<or> loops (cur s) \<noteq> [])) xs"
  shows "meets b (each (g_stmt g) xs s) (moved ks s)"
proof (rule moved_each [OF assms(2)])
  show "meets b (g_stmt g x s') (moved ks s')" if "x \<in> set xs" "valid ks s'" "step s s'" for x s'
    using assms that step_loops [OF that(3)] by (intro g_stmt) (auto simp: list_all_iff)
qed (simp add: moved_def)

lemma compile_block_ok:
  assumes "\<forall>x \<in> set xs. size x < n" "valid ks s"
    "b \<longrightarrow> list_all (\<lambda>x. nodes_stmt generable x \<and> (plain x \<or> loops (cur s) \<noteq> [])) xs"
  shows "meets b (compile_block g xs s) (moved ks s)"
proof -
  have st: "meets b (each (g_stmt g) xs t) (moved ks t)" if "valid ks t" "step s t" for t
    using assms step_loops [OF that(2)] by (intro statements_ok that(1)) (auto simp: list_all_iff)
  have h: "b \<longrightarrow> list_all (\<lambda>x. nodes_stmt generable x) xs" using assms(3) by (auto simp: list_all_iff)
  show ?thesis
    unfolding compile_block_def hoist_function_decls_def Let_def [of "length _"]
    by (intro let_next let_moved [OF neutral_ok(1)] meets_seq moved_rule [OF hoist_from_ok] moved_rule [OF st]
        let_moved [OF end_scope_ok] meets_Inr movedI)
      (assumption | rule assms(2) h next_marked [OF assms(2)] | erule flow)+
qed

lemma compile_if_ok:
  assumes "size x < n" "size y < n" "pred_option (\<lambda>z. size z < n) q" "valid ks s"
    "b \<longrightarrow> good_expr x \<and> nodes_stmt generable y \<and> plain y \<and> pred_option (\<lambda>z. nodes_stmt generable z \<and> plain z) q"
  shows "meets b (compile_if g x y q s) (moved ks s)"
proof (cases q)
  case None
  show ?thesis unfolding compile_if_def None option.case
    by (intro let_next runs subtrees jump_if_rules)
      (assumption | rule assms(1,2,4) next_marked(2) [OF assms(4)] | erule flow | (use assms(5) in simp; fail))+
next
  case (Some z)
  have z: "size z < n" "b \<longrightarrow> good_stmt t z" for t using assms(3,5) Some by auto
  show ?thesis
  proof (cases "stmt_never_falls_through y")
    case True
    show ?thesis unfolding compile_if_def Some option.case if_P [OF True]
      by (intro let_next runs subtrees jump_if_rules meets_let)
        (assumption | rule z assms(1,2,4) next_marked(2) [OF assms(4)] | erule flow | (use assms(5) in simp; fail) |
          simp add: meets_def moved_def)+
  next
    case False
    have jr: "meets b (Let (map_prod Some id (emit_jump t)) (\<lambda>(j, t). f j t)) Q"
      if "meets b (Let (emit_jump t) (\<lambda>(j, t). f (Some j) t)) Q" for t and f :: "nat option \<Rightarrow> compiler \<Rightarrow> compiler run" and Q
      using that by (simp add: map_prod_def split_beta)
    show ?thesis unfolding compile_if_def Some option.case if_not_P [OF False]
      by (intro let_next runs subtrees jump_if_rules jr jump_rule some_case)
        (assumption | rule z assms(1,2,4) next_marked(2) [OF assms(4)] | erule flow | (use assms(5) in simp; fail))+
  qed
qed

lemma compile_var_ok:
  assumes "size x < n" "b \<longrightarrow> good_expr x \<and> named_by t" "valid ks s"
  shows "meets b (compile_var g t x c s) (moved ks s)"
  unfolding compile_var_def
  by (intro let_next meets_named runs subtrees fresh_copy_rule)
    (assumption | rule assms next_marked(2) | erule flow | rule emit_intros | (use assms(2) in simp; fail) | simp)+

lemma compile_while_ok:
  assumes "size x < n" "size y < n" "b \<longrightarrow> good_expr x \<and> nodes_stmt generable y" "valid ks s"
  shows "meets b (compile_while g x y s) (moved ks s)"
proof -
  have body: "meets b (seq (g_stmt g y t) (\<lambda>s. seq (emit_loop start s) (\<lambda>(back, s).
            seq (patch_jump exit_jump s) (\<lambda>s.
            if loops (cur s) = [] then Inl Invalid
            else each patch_jump (break_jumps (last (loops (cur s)))) (on_cur (loops_update butlast) s))))) (moved ks s)"
    if t: "inside ks u t" and p: "place start t" "jump_at exit_jump t" and u: "step s u" for start exit_jump u t
  proof -
    have v: "valid ks t" "loops (cur t) \<noteq> []" using t by (auto simp: inside_def)
    have fin: "meets b (if loops (cur w) = [] then Inl Invalid
            else each patch_jump (break_jumps (last (loops (cur w)))) (on_cur (loops_update butlast) w)) (moved ks s)"
      if w: "valid ks w" "step t w" for w
    proof -
      have i: "inside ks u w" by (rule inside_step [OF t w])
      then have "valid ks (on_cur (loops_update butlast) w)" "step s (on_cur (loops_update butlast) w)"
        "loops (cur w) \<noteq> []"
        using pop_loop_ok(1) [OF i] step_trans [OF u] by (auto simp: moved_def inside_def)
      then show ?thesis
        using patch_all_ok [OF _ pop_loop_ok(2) [OF i], where b = b] by (auto intro: meets_then moved_later)
    qed
    have st: "meets b (g_stmt g y t) (moved ks t)"
      using assms(2,3) v by (intro g_stmt) auto
    show ?thesis
      by (intro meets_seq moved_rule [OF st] emit_loop_rule meets_pair patch_jump_rule fin)
        (assumption | rule p | erule flow | (use p in \<open>blast intro: kept\<close>))+
  qed
  show ?thesis
    unfolding compile_while_def
    by (intro let_place let_next runs subtrees jump_if_rules push_loop_rule body)
      (assumption | rule assms next_marked [OF assms(4)] | erule flow | erule (1) inside_kept |
        rule inside_kept | (use assms(3) in simp; fail))+
qed

end

end
