(* ===== verification/Codegen_Using.thy ===== *)
theory Codegen_Using
  imports Codegen_Loops
begin

text \<open>
  The statements that choose a way out: \<open>using\<close> with its jump table, assertions, the blocks that
  catch errors, and imports.
\<close>

section \<open>Results collected along a list\<close>

definition found :: "('b \<Rightarrow> compiler \<Rightarrow> bool) \<Rightarrow> nat list \<Rightarrow> compiler \<Rightarrow> 'b \<times> compiler \<Rightarrow> bool" where
  "found P ks s = (\<lambda>(y, t). valid ks t \<and> step s t \<and> P y t)"

lemma foundI: "valid ks t \<Longrightarrow> step s t \<Longrightarrow> P y t \<Longrightarrow> found P ks s (y, t)"
  by (simp add: found_def)

lemma found_rule:
  "meets b x (found P ks s) \<Longrightarrow> (\<And>y t. valid ks t \<Longrightarrow> step s t \<Longrightarrow> P y t \<Longrightarrow> Q (y, t)) \<Longrightarrow> meets b x Q"
  by (erule meets_then) (auto simp: found_def)

definition each_found :: "('b \<Rightarrow> compiler \<Rightarrow> bool) \<Rightarrow> 'b list \<Rightarrow> compiler \<Rightarrow> bool" where
  "each_found P ys s \<longleftrightarrow> (\<forall>y \<in> set ys. P y s)"

lemma each_found_mono:
  "(\<And>y. P y s \<Longrightarrow> P y t) \<Longrightarrow> each_found P ys s \<Longrightarrow> each_found P ys t"
  by (simp add: each_found_def)

lemma collect_ok:
  assumes "valid ks s"
    "\<And>x s'. x \<in> set xs \<Longrightarrow> valid ks s' \<Longrightarrow> step s s' \<Longrightarrow> meets b (f x s') (found P ks s')"
    "\<And>y t u. P y t \<Longrightarrow> step t u \<Longrightarrow> P y u"
  shows "meets b (collect f xs s) (found (each_found P) ks s)"
  using assms(1,2)
proof (induction xs arbitrary: s)
  case (Cons x xs)
  have rest: "meets b (seq (collect f xs s1) (\<lambda>(ys, s2). Inr (y # ys, s2))) (found (each_found P) ks s)"
    if "valid ks s1" "step s s1" "P y s1" for y s1
    by (rule meets_seq, rule found_rule [OF Cons.IH])
      (use that Cons.prems(2) in \<open>auto simp: meets_def found_def each_found_def intro: step_trans assms(3)\<close>)
  show ?case unfolding collect.simps
    by (intro meets_seq found_rule [OF Cons.prems(2)] meets_pair rest) (use Cons.prems(1) in auto)
qed (simp add: meets_def found_def each_found_def)

abbreviation jumps_at :: "nat list \<Rightarrow> compiler \<Rightarrow> bool" where
  "jumps_at \<equiv> each_found jump_at"

abbreviation jump_lists :: "nat list list \<Rightarrow> compiler \<Rightarrow> bool" where
  "jump_lists \<equiv> each_found jumps_at"

lemma jumps_mono:
  "step s t \<Longrightarrow> jumps_at js s \<Longrightarrow> jumps_at js t" "step s t \<Longrightarrow> jump_lists jss s \<Longrightarrow> jump_lists jss t"
  using each_found_mono [of jump_at s t js] each_found_mono [of jumps_at s t jss] steady(3) [of s t]
    each_found_mono [of jump_at s t] by blast+

lemma map2_append_jumps: "jump_lists as s \<Longrightarrow> jump_lists bs s \<Longrightarrow> jump_lists (map2 (@) as bs) s"
  by (fastforce simp: each_found_def dest: set_zip_leftD set_zip_rightD)

lemma opt_rule:
  assumes "valid ks s" "\<And>f. x = Some f \<Longrightarrow> meets b (f s) (moved ks s)"
    "\<And>s'. valid ks s' \<Longrightarrow> step s s' \<Longrightarrow> Q s'"
  shows "meets b (through_opt x s) Q"
  using assms(1,3) moved_rule [OF assms(2)] by (cases x) (auto simp: through_opt_def meets_def)

section \<open>\<open>using\<close>\<close>

lemma insert_keys_rule:
  assumes "valid ks s" "table t s" "place x s" "\<And>s'. valid ks s' \<Longrightarrow> step s s' \<Longrightarrow> Q s'"
  shows "meets b (each (\<lambda>key. table_insert t key x) keys s) Q"
  by (rule moved_each [OF assms(1)], rule table_insert_rule)
    (use assms(2-4) in \<open>auto simp: moved_def intro: steady\<close>)

lemma patch_list_rule:
  assumes "valid ks s" "jumps_at js s" "\<And>s'. valid ks s' \<Longrightarrow> step s s' \<Longrightarrow> Q s'"
  shows "meets b (each patch_jump js s) Q"
  by (rule patch_all_rule [OF assms(1)]) (use assms in \<open>auto simp: each_found_def\<close>)

context generating begin

lemma check_label_ok:
  assumes "size e < n" "b \<longrightarrow> good_expr e" "valid ks s" "reg ks subj s"
  shows "meets b (check_label g subj e s) (found jump_at ks s)"
  unfolding check_label_def
  by (intro let_next runs subtrees jump_if_rules foundI)
    (assumption | rule assms next_marked(2) [OF assms(3)] | erule flow | rule emit_intros | (simp; fail))+

lemma check_labels_ok:
  assumes "\<forall>e \<in> set es. size e < n" "b \<longrightarrow> list_all good_expr es" "valid ks s" "reg ks subj s"
  shows "meets b (collect (check_label g subj) es s) (found jumps_at ks s)"
  by (rule collect_ok [OF assms(3) check_label_ok])
    (use assms in \<open>auto simp: list_all_iff intro: steady\<close>)

lemma arms_labels_ok:
  assumes "\<forall>arm \<in> set arms. \<forall>e \<in> set (pick arm). size e < n" "b \<longrightarrow> list_all (\<lambda>arm. list_all good_expr (pick arm)) arms"
    "valid ks s" "reg ks subj s"
  shows "meets b (collect (\<lambda>arm. collect (check_label g subj) (pick arm)) arms s) (found jump_lists ks s)"
  by (rule collect_ok [OF assms(3) check_labels_ok])
    (use assms in \<open>auto simp: list_all_iff intro: steady jumps_mono\<close>)

lemma eq_instance_ok:
  assumes "\<forall>arm \<in> set arms. \<forall>e \<in> set (labels arm). size e < n"
    "b \<longrightarrow> list_all (\<lambda>arm. list_all good_expr (labels arm)) arms"
    "valid ks s" "reg ks subj s" "table t s" "jump_lists jss s"
  shows "meets b (eq_instance_section g subj t arms jss s) (found jump_lists ks s)"
  unfolding eq_instance_section_def
  by (intro meets_if jump_rule meets_seq table_insert_rule found_rule [OF arms_labels_ok] meets_pair
      patch_jump_rule meets_Inr foundI map2_append_jumps)
    (assumption | rule assms step_refl | (simp add: place_def; fail) | erule flow jumps_mono)+

lemma compile_arm_ok:
  assumes "size (arm_body arm) < n" "b \<longrightarrow> nodes_stmt generable (arm_body arm) \<and> plain (arm_body arm)"
    "valid ks s" "table t s" "jumps_at js s"
  shows "meets b (compile_arm g t (arm, js) s) (found jump_at ks s)"
proof -
  have j: "meets b (Inr (emit_jump u)) (found jump_at ks s)" if "valid ks u" "step s u" for u
    using jump_rule [OF that(1), of b "\<lambda>j t. Inr (j, t)" "found jump_at ks s"] step_trans [OF that(2)]
    by (simp add: meets_def found_def split: prod.splits)
  show ?thesis
    unfolding compile_arm_def prod.case
    by (intro let_place meets_seq insert_keys_rule patch_list_rule subtrees j)
      (assumption | rule assms | erule flow jumps_mono | (use assms(2) in simp; fail))+
qed

lemma compile_using_ok:
  assumes "size x < n" "\<forall>arm \<in> set arms. size (arm_body arm) < n \<and> (\<forall>e \<in> set (labels arm). size e < n)"
    "pred_option (\<lambda>z. size z < n) q" "valid ks s"
    "b \<longrightarrow> good_expr x \<and>
       list_all (\<lambda>arm. list_all good_expr (labels arm) \<and> nodes_stmt generable (arm_body arm) \<and> plain (arm_body arm)) arms \<and>
       pred_option (\<lambda>z. nodes_stmt generable z \<and> plain z) q"
  shows "meets b (compile_using g x arms q s) (moved ks s)"
proof -
  have dyn: "\<forall>arm \<in> set arms. \<forall>e \<in> set (dynamic_labels arm). size e < n"
    "b \<longrightarrow> list_all (\<lambda>arm. list_all good_expr (dynamic_labels arm)) arms"
    and all: "\<forall>arm \<in> set arms. \<forall>e \<in> set (labels arm). size e < n"
    "b \<longrightarrow> list_all (\<lambda>arm. list_all good_expr (labels arm)) arms"
    using assms(2,5) by (auto simp: dynamic_labels_def list_all_iff)
  have d: "meets b (f t) (moved ks t)" if "map_option (g_stmt g) q = Some f" "valid ks t" for f t
    using that assms(3,5) by (auto intro!: g_stmt)
  have arm: "meets b (compile_arm g tab p t) (found jump_at ks t)"
    if member: "p \<in> set (zip arms jss)" and that: "valid ks t" "step u t" "table tab u" "jump_lists jss u" for p tab jss t u
  proof -
    obtain a js where p: "p = (a, js)" "a \<in> set arms" "js \<in> set jss"
      using member by (metis in_set_zipE prod.exhaust)
    have "jumps_at js t" using jumps_mono(2) [OF that(2,4)] p(3) by (simp add: each_found_def)
    then show ?thesis unfolding p(1)
      using p(2) assms(2,5) that by (intro compile_arm_ok) (auto simp: list_all_iff intro: steady)
  qed
  have arms: "meets b (collect (compile_arm g tab) (zip arms jss) t) (found jumps_at ks t)"
    if "valid ks t" "table tab t" "jump_lists jss t" for tab jss t
    by (rule collect_ok [OF that(1) arm]) (use that in \<open>auto intro: steady\<close>)
  show ?thesis
    unfolding compile_using_def
    by (intro let_next runs subtrees fresh_copy_rule add_jump_table_rule jump_rule opt_rule patch_list_rule
        found_rule [OF arms] found_rule [OF eq_instance_ok] found_rule [OF arms_labels_ok])
      (assumption | erule (1) d | rule assms dyn all next_marked [OF assms(4)] | erule flow jumps_mono | rule emit_intros |
        (use assms(5) in simp; fail) | (simp; fail))+
qed

lemma assert_message_ok:
  assumes "pred_option (\<lambda>z. size z < n) q" "b \<longrightarrow> pred_option good_expr q" "valid ks s" "reg ks m s"
  shows "meets b (assert_message g m q s) (moved ks s)"
  using assms(1,2) unfolding assert_message_def
  by (intro meets_option; intro runs subtrees)
    (assumption | rule assms | erule flow | rule emit_intros emittable_load | (use assms in \<open>auto intro: steady; fail\<close>))+

text \<open>The register of the message is written before the allocator counts it in.\<close>

lemma assert_message_rule:
  assumes "pred_option (\<lambda>z. size z < n) q" "b \<longrightarrow> pred_option good_expr q" "valid ks s" "m < 256"
    "\<And>s'. valid ks s' \<Longrightarrow> step s s' \<Longrightarrow> reg ks m s' \<Longrightarrow> meets b (f s') Q"
  shows "meets b (seq (assert_message g m q s) (\<lambda>s. seq (free_after m s) f)) Q"
proof -
  obtain k ks' where ks: "ks = k # ks'" using assms(3) by (cases ks) (auto simp: valid_def)
  let ?ks = "max k (m + 1) # ks'"
  have v: "valid ?ks s" using assms(3) valid_reserve unfolding ks by fastforce
  have r: "reg ?ks m t" for t by (auto simp: reg_def)
  show ?thesis
  proof (intro meets_seq moved_rule [OF assert_message_ok [OF assms(1,2) v r]])
    fix s' assume s': "valid ?ks s'" "step s s'"
    show "meets b (free_after m s') (\<lambda>x. meets b (f x) Q)"
    proof (rule free_after_rule [OF s'(1)])
      fix t assume t: "valid ?ks t" "step s' t" "reg ?ks m t" "clean t \<Longrightarrow> next_reg (cur t) = m + 1"
      have c: "clean t \<Longrightarrow> m + 1 \<le> max_reg (cur t)"
        using t(4) valid_cur(1) [OF t(1)] by (auto simp: scope_ok_def)
      show "meets b (f t) Q"
      proof (rule assms(5))
        show "valid ks t" unfolding ks by (rule valid_release [OF t(1) c])
        show "step s t" using s'(2) t(2) by (rule step_trans)
        show "reg ks m t" using c unfolding ks reg_def by auto
      qed
    qed
  qed
qed

lemma call_message:
  "reg ks r s \<Longrightarrow> reg ks m s \<Longrightarrow> follows r m s \<Longrightarrow> emittable ks (ICall r r 1) s"
  by (auto simp: emittable_iff reg_def follows_def)

lemma message_slot_rule:
  "(\<And>m. m < 256 \<Longrightarrow> follows r m s \<Longrightarrow> Q m) \<Longrightarrow> meets b (u8_add s r 1) Q"
  by (rule u8_add_rule) (auto simp: follows_def)

lemma compile_assert_ok:
  assumes "size x < n" "pred_option (\<lambda>z. size z < n) q" "b \<longrightarrow> good_expr x \<and> pred_option good_expr q" "valid ks s"
  shows "meets b (compile_assert g x q s) (moved ks s)"
proof -
  have q: "b \<longrightarrow> pred_option good_expr q" using assms(3) by simp
  show ?thesis
  unfolding compile_assert_def
  by (intro let_next message_slot_rule assert_message_rule runs subtrees jump_if_rules)
    (assumption | rule assms q next_marked [OF assms(4)] | erule flow | rule emit_intros call_message |
      (use assms(3) in simp; fail) | (simp; fail))+
qed

end

section \<open>Errors that are caught\<close>

lemma catches_ok:
  assumes "valid ks s" shows "moved ks s (on_cur (open_catches_update f) s)"
proof (rule movedI)
  show "valid ks (on_cur (open_catches_update f) s)"
    by (rule valid_on_cur [OF assms]) (auto simp: scope_ok_def)
  show "step s (on_cur (open_catches_update f) s)" by (rule step_on_cur) (simp_all add: grown_def)
qed

definition caught :: "nat list \<Rightarrow> (nat \<times> ustring) option \<Rightarrow> compiler \<Rightarrow> bool" where
  "caught ks v s \<longleftrightarrow> pred_option (\<lambda>(r, name). reg ks r s \<and> r < 256) v"

lemma caught_mono: "step s t \<Longrightarrow> caught ks v s \<Longrightarrow> caught ks v t"
  by (cases v) (auto simp: caught_def intro: steady)

lemma catch_variable_ok:
  assumes "b \<longrightarrow> pred_option (\<lambda>e. nodes_expr generable e \<and> is_identifier_expr e) e" "valid ks s"
  shows "meets b (catch_variable e s) (\<lambda>(v, t). (b \<longrightarrow> v = None \<longrightarrow> e = None) \<and> found (caught ks) ks s (v, t))"
proof (cases e)
  case None
  then show ?thesis using assms(2) by (simp add: catch_variable_def meets_def found_def caught_def)
next
  case (Some x)
  show ?thesis
  proof (cases "\<exists>t. ekind x = EIdentifier t")
    case True
    then obtain t where t: "ekind x = EIdentifier t" by blast
    then have nm: "b \<longrightarrow> named_by t" using assms(1) Some by (auto simp: nodes_kinds good_defs)
    show ?thesis
      unfolding catch_variable_def Some option.case t expr_kind.case
      by (intro meets_seq meets_named let_given [OF nil_local_given [OF assms(2)]] meets_Inr)
        (use nm in \<open>auto simp: found_def caught_def\<close>)
  next
    case False
    then show ?thesis using assms(1) Some
      by (auto simp: catch_variable_def meets_def is_identifier_expr_def split: expr_kind.split)
  qed
qed

lemma moved_if_emit: "valid ks s \<Longrightarrow> moved ks s s"
  by (simp add: moved_def)

lemma set_global_moved:
  assumes "valid ks s" "reg ks r s"
  shows "moved ks s (let (name_const, s) = string_constant name s; s = emits (ISetGlobal name_const r) s in s)"
  by (rule moved_run, unfold pure_run, intro runs)
    (assumption | rule assms | erule flow | rule emit_intros | (use assms(2) in \<open>blast intro: steady\<close>) | simp)+

lemma catch_global_ok: "valid ks s \<Longrightarrow> caught ks v s \<Longrightarrow> moved ks s (catch_global v s)"
  using set_global_moved by (auto simp: catch_global_def caught_def moved_def split: option.split)

context generating begin

lemma catch_error_block_ok:
  assumes "size z < n" "b \<longrightarrow> nodes_stmt generable z \<and> plain z \<and> v \<noteq> None" "valid ks s" "caught ks v s"
  shows "meets b (catch_error_block g v z s) (moved ks s)"
proof (cases v)
  case None
  then show ?thesis using assms(2) by (simp add: catch_error_block_def or_invalid_def seq_def meets_def)
next
  case (Some p)
  then have r: "reg ks (fst p) s" using assms(4) by (auto simp: caught_def)
  have o: "meets b (case p of (r, name) \<Rightarrow> f r name) Q" if "meets b (f (fst p) (snd p)) Q"
    for f :: "nat \<Rightarrow> ustring \<Rightarrow> compiler run" and Q
    using that by (simp add: split_beta)
  show ?thesis
    unfolding catch_error_block_def or_invalid_def Some option.case seq_def [of "Inr p"] sum.case
    by (intro o let_next runs subtrees jump_if_rules)
      (assumption | rule assms r next_marked [OF assms(3)] | erule flow | rule emit_intros |
        (use assms(2) in simp; fail) | (simp; fail))+
qed

lemma compile_catch_ok:
  assumes "size x < n" "pred_option (\<lambda>z. size z < n) q"
    "b \<longrightarrow> nodes_stmt generable x \<and> plain x \<and> pred_option (\<lambda>z. nodes_stmt generable z \<and> plain z) q \<and>
       pred_option (\<lambda>e. nodes_expr generable e \<and> is_identifier_expr e) e \<and> (q \<noteq> None \<longrightarrow> e \<noteq> None)"
    "valid ks s"
  shows "meets b (compile_catch g x q e s) (moved ks s)"
proof -
  have e: "b \<longrightarrow> pred_option (\<lambda>e. nodes_expr generable e \<and> is_identifier_expr e) e" using assms(3) by simp
  have var: "meets b (catch_variable e s) Q"
    if "\<And>v t. valid ks t \<Longrightarrow> step s t \<Longrightarrow> caught ks v t \<Longrightarrow> b \<longrightarrow> v = None \<longrightarrow> e = None \<Longrightarrow> Q (v, t)" for Q
    by (rule meets_then [OF catch_variable_ok [OF e assms(4)]]) (use that in \<open>auto simp: found_def\<close>)
  have push: "meets b (Let (emit (IPushCatch (map_option fst v) 0) t) (\<lambda>(at, s). f at s)) Q"
    if "valid ks t" "caught ks v t" "\<And>at u. valid ks u \<Longrightarrow> step t u \<Longrightarrow> jump_at at u \<Longrightarrow> meets b (f at u) Q"
    for t v f and Q :: "compiler \<Rightarrow> bool"
  proof (rule emit_jump_rule [OF that(1)])
    show "emittable ks (IPushCatch (map_option fst v) 0) t"
      using that(2) by (intro emittable_catch) (cases v; auto simp: caught_def)
  qed (use that(3) in auto)
  have blk: "meets b (f t) (moved ks t)"
    if "map_option (catch_error_block g v) q = Some f" "valid ks t" "caught ks v t" "b \<longrightarrow> v = None \<longrightarrow> e = None"
    for f t v
    using that assms(2,3) by (auto intro!: catch_error_block_ok)
  show ?thesis
    unfolding compile_catch_def
    by (intro var push let_moved [OF catches_ok] let_moved [OF catch_global_ok] runs subtrees opt_rule)
      (assumption | erule (1) blk | rule assms | erule flow caught_mono | rule emit_intros |
        (use assms(3) in simp; fail) | (simp; fail))+
qed

end

section \<open>Imports\<close>

lemma rebind_ok:
  assumes "valid ks s" "reg ks r s" "r < 256" "rebind name d r (locals (cur s)) = Some ls"
  shows "moved ks s (on_cur (locals_update (\<lambda>_. ls)) s)"
proof (rule movedI)
  let ?ls = "locals (cur s)"
  obtain p where p: "ls = ?ls[p := (?ls ! p)\<lparr>lreg := r\<rparr>]"
    using assms(4) by (auto simp: rebind_def Let_def split: option.splits)
  have m: "l \<in> set ?ls \<or> l = (?ls ! p)\<lparr>lreg := r\<rparr>" if "l \<in> set ls" for l
    using that set_update_subset_insert [of ?ls p "(?ls ! p)\<lparr>lreg := r\<rparr>"] by (auto simp: p)
  show "valid ks (on_cur (locals_update (\<lambda>_. ls)) s)"
    by (rule valid_on_cur [OF assms(1)])
      (use assms(2,3) in \<open>auto simp: scope_ok_def reg_def limit_def dest!: m\<close>)
  show "step s (on_cur (locals_update (\<lambda>_. ls)) s)" by (rule step_on_cur) (simp_all add: grown_def)
qed

lemma declare_import_ok:
  assumes "valid ks s" "reg ks r s" "r < 256"
  shows "moved ks s (declare_import_binding name r exported s)"
  using set_global_moved [OF assms(1,2)] rebind_ok [OF assms] push_local_ok [OF assms]
  by (auto simp: declare_import_binding_def moved_def split: option.split)

lemma import_element_ok:
  assumes "valid ks s" "reg ks m s" "b \<longrightarrow> nodes_expr generable e \<and> is_identifier_expr e"
  shows "meets b (import_element m exported e s) (moved ks s)"
proof (cases "\<exists>t. ekind e = EIdentifier t")
  case True
  then obtain t where t: "ekind e = EIdentifier t" by blast
  then have nm: "b \<longrightarrow> named_by t" using assms(3) by (auto simp: nodes_kinds good_defs)
  show ?thesis
    unfolding import_element_def t expr_kind.case
    by (intro meets_named runs let_moved [OF declare_import_ok])
      (assumption | rule assms nm | erule flow | rule emit_intros | (use assms(2) in \<open>blast intro: steady\<close>) | simp)+
next
  case False
  then show ?thesis using assms(3)
    by (auto simp: import_element_def meets_def is_identifier_expr_def split: expr_kind.split)
qed

lemma compile_import_ok:
  assumes "valid ks s"
    "b \<longrightarrow> list_all (\<lambda>e. nodes_expr generable e \<and> is_identifier_expr e) elements \<and> nodes_expr generable name \<and>
       (al \<or> elements \<noteq> [] \<or> is_identifier_expr name)"
  shows "meets b (compile_import path name elements al ex s) (moved ks s)"
proof -
  have elems: "meets b (each (import_element m ex) elements t) (moved ks u)"
    if "valid ks t" "reg ks m t" "step u t" for m t u
    by (rule moved_each [OF that(1)], rule import_element_ok)
      (use assms(2) that in \<open>auto simp: list_all_iff moved_def intro: steady step_trans\<close>)
  have named: "meets b (case ekind name of
              EIdentifier t \<Rightarrow>
                seq (identifier_name t) (\<lambda>bind_name.
                let (name_const, s) = string_constant bind_name s;
                    (dst, s) = alloc_reg s;
                    s = emits (IMakePromoted dst m name_const) s;
                    s = declare_import_binding bind_name dst ex s
                in Inr s)
            | _ \<Rightarrow> Inl Invalid) (moved ks u)"
    if v: "valid ks s" "reg ks m s" "step u s" "\<not> al" "\<not> elements \<noteq> []" for m s u
  proof (cases "\<exists>t. ekind name = EIdentifier t")
    case True
    then obtain t where t: "ekind name = EIdentifier t" by blast
    then have nm: "b \<longrightarrow> named_by t" using assms(2) by (auto simp: nodes_kinds good_defs)
    show ?thesis
      unfolding t expr_kind.case
      by (intro meets_named runs let_moved [OF declare_import_ok])
        (assumption | rule v nm | erule flow | rule emit_intros | (use v in \<open>blast intro: steady step_trans\<close>) | simp)+
  next
    case False
    then show ?thesis using assms(2) v(4,5)
      by (auto simp: meets_def is_identifier_expr_def split: expr_kind.split)
  qed
  show ?thesis
    unfolding compile_import_def
    by (intro elems named runs) (assumption | rule assms(1) | erule flow | rule emit_intros | simp)+
qed

end
