(* ===== verification/Codegen_Classes.thy ===== *)
theory Codegen_Classes
  imports Codegen_Using
begin

text \<open>
  The declarations: functions, classes with their fields and methods, and extensions.
\<close>

section \<open>Functions\<close>

lemma declare_function_ok:
  assumes "valid ks s" shows "moved ks s (declare_function name t s)"
proof -
  have "valid ks (on_cur (declared_functions_update f) s)" for f
    by (rule valid_on_cur [OF assms]) (auto simp: scope_ok_def)
  moreover have "step s (on_cur (declared_functions_update f) s)" for f
    by (rule step_on_cur) (simp_all add: grown_def)
  ultimately show ?thesis
    using assms report_ok by (simp add: declare_function_def moved_def Let_def)
qed

definition slot :: "nat list \<Rightarrow> nat option \<Rightarrow> compiler \<Rightarrow> bool" where
  "slot ks v s \<longleftrightarrow> pred_option (\<lambda>r. reg ks r s) v"

lemma slot_mono: "step s t \<Longrightarrow> slot ks v s \<Longrightarrow> slot ks v t"
  by (cases v) (auto simp: slot_def intro: steady)

lemma slot_reg: "v = Some r \<Longrightarrow> slot ks v s \<Longrightarrow> reg ks r s"
  by (simp add: slot_def)

lemma declared_here_local: "declared_here name s = Some l \<Longrightarrow> l \<in> set (locals (cur s))"
  unfolding declared_here_def find_Some_iff by (metis nth_mem set_rev set_takeWhileD)

lemma function_slot_rule:
  assumes "valid ks s" "\<And>v s'. valid ks s' \<Longrightarrow> step s s' \<Longrightarrow> slot ks v s' \<Longrightarrow> meets b (f v s') Q"
  shows "meets b (Let (function_slot name s) (\<lambda>(v, s). f v s)) Q"
proof -
  have n: "meets b (Let (nil_local name d s) (\<lambda>(r, s). f (Some r) s)) Q" for d
    by (rule let_given [OF nil_local_given [OF assms(1)]]) (auto intro!: assms(2) simp: slot_def)
  have l: "meets b (f (Some (lreg l)) s) Q" if "declared_here name s = Some l" for l
    using local_ok [OF assms(1) declared_here_local [OF that]] assms by (simp add: slot_def)
  have "meets b (f None s) Q" using assms by (simp add: slot_def)
  then show ?thesis
    using n l by (auto simp: function_slot_def split_beta Let_def split: option.split)
qed

lemma function_constant_rule:
  assumes "proto ks s0 (fn, s)"
    "\<And>ix s'. valid ks s' \<Longrightarrow> step s s' \<Longrightarrow> pooled ks UProto ix s' \<Longrightarrow> meets b (f ix s') Q"
  shows "meets b (Let (object_constant (OFunction fn) s) (\<lambda>(ix, s). f ix s)) Q"
  using object_constant_ok [of ks s "OFunction fn"] assms
  by (cases "object_constant (OFunction fn) s") (auto simp: proto_def)

lemma proto_rule:
  "meets b x (proto ks s) \<Longrightarrow>
     (\<And>f u. proto ks s (f, u) \<Longrightarrow> valid ks u \<Longrightarrow> step s u \<Longrightarrow> Q (f, u)) \<Longrightarrow> meets b x Q"
  by (erule meets_then) (auto simp: proto_def)

context generating begin

lemma compile_function_decl_ok:
  assumes "size body < n" "b \<longrightarrow> good_function t ps body v" "valid ks s"
  shows "meets b (compile_function_decl g t ps body v s) (moved ks s)"
  unfolding compile_function_decl_def
  by (intro meets_named let_next let_moved [OF declare_function_ok] function_slot_rule
      proto_rule [OF prototype_ok] function_constant_rule meets_option runs)
    (assumption | rule assms next_marked(2) | erule slot_reg | erule flow slot_mono | rule emit_intros |
      (use assms(2) in simp; fail) | (simp; fail))+

end

section \<open>Fields\<close>

lemma declare_field_ok:
  assumes "valid ks s" "reg ks c s" shows "moved ks s (declare_field c name s)"
  by (rule moved_run, unfold declare_field_def pure_run, intro runs)
    (assumption | rule assms | erule flow | rule emit_intros | (use assms(2) in \<open>blast intro: steady\<close>) | simp)+

lemma fold_moved:
  assumes "\<And>x s'. valid ks s' \<Longrightarrow> step s s' \<Longrightarrow> moved ks s' (f x s')" "valid ks s"
  shows "moved ks s (fold f xs s)"
proof -
  have "moved ks s (fold f xs t)" if "moved ks s t" for t
    using that
  proof (induction xs arbitrary: t)
    case (Cons x xs)
    then have "moved ks t (f x t)" using assms(1) by (simp add: moved_def)
    then show ?case using Cons step_trans by (fastforce simp: moved_def)
  qed simp
  then show ?thesis using assms(2) by (simp add: moved_def)
qed

lemma declare_fields_ok: "valid ks s \<Longrightarrow> reg ks c s \<Longrightarrow> moved ks s (fold (declare_field c) names s)"
  by (rule fold_moved) (auto intro: declare_field_ok steady)

text \<open>Looking for fields stops only at what lowering takes away.\<close>

lemma meets_through:
  "(\<And>f out. f \<in> set fs \<Longrightarrow> meets b (f out) (\<lambda>_. True)) \<Longrightarrow> meets b (through fs out) (\<lambda>_. True)"
  unfolding through_def by (rule meets_each [where I = "\<lambda>_. True"]) auto

lemma meets_through_opt:
  "(\<And>f. q = Some f \<Longrightarrow> meets b (f out) (\<lambda>_. True)) \<Longrightarrow> meets b (through_opt q out) (\<lambda>_. True)"
  by (cases q) (simp_all add: through_opt_def meets_def)

lemma meets_any_seq:
  "meets b m (\<lambda>_. True) \<Longrightarrow> (\<And>x. meets b (f x) (\<lambda>_. True)) \<Longrightarrow> meets b (seq m f) (\<lambda>_. True)"
  by (rule meets_seq, erule meets_then)

lemma self_fields_all:
  "b \<longrightarrow> nodes_expr generable e \<Longrightarrow> meets b (collect_self_fields_expr e out) (\<lambda>_. True)"
  "b \<longrightarrow> nodes_ekind generable k \<Longrightarrow> meets b (self_fields_ekind k out) (\<lambda>_. True)"
  "b \<longrightarrow> nodes_segment generable sg \<Longrightarrow> meets b (self_fields_segment sg out) (\<lambda>_. True)"
  "b \<longrightarrow> nodes_arm generable a \<Longrightarrow> meets b (fst (self_fields_labels a) out) (\<lambda>_. True) \<and>
     meets b (snd (self_fields_labels a) out2) (\<lambda>_. True)"
  "b \<longrightarrow> nodes_stmt generable st \<Longrightarrow> meets b (collect_self_fields_stmt st out) (\<lambda>_. True)"
  "b \<longrightarrow> nodes_skind generable sk \<Longrightarrow> meets b (self_fields_skind sk out) (\<lambda>_. True)"
  "b \<longrightarrow> nodes_decl generable d \<Longrightarrow> meets b (collect_self_fields_decl d out) (\<lambda>_. True)"
  "b \<longrightarrow> nodes_dkind generable dk \<Longrightarrow> meets b (self_fields_dkind dk out) (\<lambda>_. True)"
proof (induction e and k and sg and a and st and sk and d and dk
    arbitrary: out and out and out and out out2 and out and out and out and out)
qed (auto simp: good_defs list_all_iff meets_Inr meets_Invalid
    intro!: meets_any_seq meets_through meets_through_opt split: option.splits)

lemma property_names_ok:
  "b \<longrightarrow> list_all good_decl ds \<Longrightarrow> meets b (property_names ds) (\<lambda>_. True)"
proof (induction ds)
  case (Cons d ds)
  have n: "b \<longrightarrow> named_by t" if "property d = Some (t, v, st)" for t v st
    using that Cons.prems by (auto simp: property_def nodes_kinds good_defs split: decl_kind.splits)
  have "meets b (property_names ds) (\<lambda>_. True)" using Cons by simp
  then show ?case
    by (auto simp: meets_Inr split: option.split intro!: meets_any_seq meets_named n)
qed (simp add: meets_def)

lemma constructor_fields_ok:
  "b \<longrightarrow> list_all good_decl ms \<Longrightarrow> meets b (each constructor_fields ms out) (\<lambda>_. True)"
  by (rule meets_each [where I = "\<lambda>_. True"])
    (auto simp: constructor_fields_def meets_Inr list_all_iff nodes_kinds split: decl_kind.split intro!: self_fields_all)

text \<open>The literal a field starts with; a string is allocated, nothing else is.\<close>

lemma heap_grows_refl: "heap_ok c h \<Longrightarrow> heap_grows c h h"
  by (simp add: heap_grows_def)

lemma literal_default_ok:
  "heap_ok c h \<Longrightarrow> literal_default e h = (v, h') \<Longrightarrow> heap_grows c h h'"
proof (induction e h arbitrary: v h' rule: literal_default.induct)
  case (1 e h)
  note def = literal_default.simps [of e h]
  show ?case
  proof (cases "ekind e")
    case (ELiteral t)
    then show ?thesis
      using "1.prems" alloc_string_ok(1) [OF "1.prems"(1), of t] by (auto simp: def split: prod.splits)
  next
    case (EGrouping x)
    then show ?thesis using "1.prems"(2) "1.IH"(2) [OF EGrouping "1.prems"(1), of v h'] by (simp add: def)
  next
    case (EUnary op x ln)
    show ?thesis
    proof (cases "op = TkSym SyMinus")
      case True
      obtain w h2 where l: "literal_default x h = (w, h2)" by (cases "literal_default x h")
      then have "h' = h2" using "1.prems"(2) EUnary True by (auto simp: def split: option.splits const.splits)
      then show ?thesis using "1.IH"(1) [OF EUnary True "1.prems"(1) l] by simp
    qed (use "1.prems" EUnary in \<open>simp add: def heap_grows_refl\<close>)
  qed (use "1.prems" in \<open>simp_all add: def heap_grows_refl\<close>)
qed

lemma any_constant_rule:
  assumes "valid ks s" "\<And>ix s'. valid ks s' \<Longrightarrow> step s s' \<Longrightarrow> pooled ks UAny ix s' \<Longrightarrow> meets b (f ix s') Q"
  shows "meets b (Let (add_constant v s) (\<lambda>(ix, s). f ix s)) Q"
  by (rule add_constant_rule [OF assms(1), of UAny]) (auto simp: const_fits_def intro: assms(2))

lemma property_good:
  "property d = Some (t, v, st) \<Longrightarrow> b \<longrightarrow> good_decl d \<Longrightarrow> b \<longrightarrow> named_by t \<and> good_expr v"
  by (auto simp: property_def nodes_kinds good_defs split: decl_kind.splits)

lemma property_size: "property d = Some (t, v, st) \<Longrightarrow> size v < size d"
  by (auto simp: property_def tree_sizes split: decl_kind.splits)

lemma default_fields_ok:
  "valid ks s \<Longrightarrow> reg ks c s \<Longrightarrow> b \<longrightarrow> list_all good_decl ds \<Longrightarrow>
     meets b (default_fields c ds s) (\<lambda>(computed, s'). moved ks s s' \<and> set computed \<subseteq> set ds)"
proof (induction ds arbitrary: s)
  case (Cons d ds)
  show ?case
  proof (cases "property d")
    case None
    then show ?thesis using Cons.prems by (simp add: meets_def moved_def)
  next
    case (Some p)
    obtain t v st where p: "p = (t, v, st)" by (cases p)
    have nm: "b \<longrightarrow> named_by t" using property_good [OF Some [unfolded p]] Cons.prems(3) by simp
    obtain lit h where l: "literal_default v (heap_of s) = (lit, h)" by (cases "literal_default v (heap_of s)")
    note hs = valid_heap [OF Cons.prems(1) literal_default_ok [OF _ l]]
    have h: "valid ks (s\<lparr>heap_of := h\<rparr>)" "step s (s\<lparr>heap_of := h\<rparr>)"
      using hs Cons.prems(1) by (simp_all add: valid_def)
    have ih: "meets b (default_fields c ds s') (\<lambda>(computed, s'). moved ks s s' \<and> set computed \<subseteq> set (d # ds))"
      if "valid ks s'" "step (s\<lparr>heap_of := h\<rparr>) s'" for s'
    proof -
      have st: "step s s'" using h(2) that(2) by (rule step_trans)
      show ?thesis
        by (rule meets_then [OF Cons.IH [OF that(1) steady(1) [OF st Cons.prems(2)]]])
          (use Cons.prems(3) in \<open>auto intro: moved_later [OF _ st]\<close>)
    qed
    show ?thesis
    proof (cases lit)
      case None
      then show ?thesis using h l Some p by (simp add: meets_def moved_def)
    next
      case (Some literal)
      show ?thesis
        unfolding default_fields.simps \<open>property d = Some p\<close> p option.case prod.case l Some Let_def [of "s\<lparr>heap_of := h\<rparr>"]
        by (intro meets_named string_constant_rule [OF h(1)] any_constant_rule runs ih)
          (assumption | rule nm | erule flow | rule emit_intros | rule steady(1) [OF h(2) Cons.prems(2)] | (simp; fail))+
    qed
  qed
qed (simp add: meets_def moved_def)

end
