(* ===== verification/Codegen_Decls.thy ===== *)
theory Codegen_Decls
  imports Codegen_Classes
begin

text \<open>
  Classes and extensions, and with them every statement and declaration: the generator that the
  recursion ties is one the rules hold of, at every depth.
\<close>

section \<open>Classes\<close>

lemma check_method_names_ok:
  "valid ks s \<Longrightarrow> b \<longrightarrow> list_all good_decl ms \<Longrightarrow> meets b (check_method_names c seen ms s) (moved ks s)"
proof (induction ms arbitrary: seen s)
  case (Cons m ms)
  show ?case
  proof (cases "\<exists>t ps body v st. dkind m = DMethod t ps body v st")
    case True
    then obtain t ps body v st where m: "dkind m = DMethod t ps body v st" by blast
    then have nm: "b \<longrightarrow> named_by t" using Cons.prems(2) by (auto simp: nodes_kinds good_defs)
    have ih: "meets b (check_method_names c seen' ms s') (moved ks s)" if "valid ks s'" "step s s'" for seen' s'
      by (rule meets_then [OF Cons.IH [OF that(1)]]) (use Cons.prems that moved_later in auto)
    show ?thesis
      unfolding check_method_names.simps m decl_kind.case
      by (intro meets_named ih runs) (assumption | rule Cons.prems nm step_refl)+
  next
    case False
    then show ?thesis using Cons by (auto split: decl_kind.split)
  qed
qed (simp add: meets_def moved_def)

lemma check_extension_methods_ok:
  "valid ks s \<Longrightarrow> b \<longrightarrow> list_all good_decl ms \<Longrightarrow> meets b (check_extension_methods ms s) (moved ks s)"
proof (induction ms arbitrary: s)
  case (Cons m ms)
  have ih: "meets b (check_extension_methods ms s') (moved ks s)" if "valid ks s'" "step s s'" for s'
    by (rule meets_then [OF Cons.IH [OF that(1)]]) (use Cons.prems that moved_later in auto)
  show ?case
  proof (cases "\<exists>t ps body v st. dkind m = DMethod t ps body v st")
    case True
    then obtain t ps body v st where m: "dkind m = DMethod t ps body v st" by blast
    then have nm: "b \<longrightarrow> named_by t" using Cons.prems(2) by (auto simp: nodes_kinds good_defs)
    show ?thesis
      unfolding check_extension_methods.simps m decl_kind.case
      by (intro meets_named ih runs) (assumption | rule Cons.prems nm step_refl)+
  next
    case False
    then show ?thesis using Cons by (auto split: decl_kind.split)
  qed
qed (simp add: meets_def moved_def)

lemma method_good:
  assumes "dkind m = DMethod t ps body v st"
  shows "size body < size m" "b \<longrightarrow> good_decl m \<Longrightarrow> b \<longrightarrow> good_function t ps body v"
  using assms by (auto simp: tree_sizes nodes_kinds good_defs list_all_iff)

text \<open>Of an optional register: the superclass of a class.\<close>

lemma optional_class: "reg ks dst s \<Longrightarrow> pooled ks UName name s \<Longrightarrow> slot ks q s \<Longrightarrow> emittable ks (IMakeClass dst name q) s"
  unfolding slot_def by (rule emittable_class)

definition small_slot :: "nat option \<Rightarrow> bool" where
  "small_slot v \<longleftrightarrow> pred_option (\<lambda>r. r < 256) v"

lemma push_superclass_ok:
  "valid ks s \<Longrightarrow> slot ks q s \<Longrightarrow> small_slot q \<Longrightarrow> moved ks s (push_superclass q s)"
  using push_local_ok by (cases q) (auto simp: push_superclass_def slot_def small_slot_def moved_def)

context generating begin

lemma init_field_ok:
  assumes "size d < n" "b \<longrightarrow> good_decl d" "valid ks s" "reg ks r s"
  shows "meets b (init_field g r d s) (moved ks s)"
proof (cases "property d")
  case None
  then show ?thesis using assms by (simp add: init_field_def meets_def moved_def)
next
  case (Some p)
  obtain t v st where p: "p = (t, v, st)" by (cases p)
  note pg = property_good [OF Some [unfolded p] assms(2)] and ps = property_size [OF Some [unfolded p]]
  show ?thesis
    unfolding init_field_def Some p option.case prod.case
    by (intro let_next meets_named runs subtrees)
      (assumption | rule assms next_marked(2) [OF assms(3)] less_trans [OF ps assms(1)] | (use pg in simp; fail) |
        erule flow | rule emit_intros | (use assms(4) in \<open>blast intro: steady step_trans\<close>) | (simp; fail))+
qed

lemma compile_field_initializer_ok:
  assumes "\<forall>d \<in> set ds. size d < n" "b \<longrightarrow> list_all good_decl ds \<and> named_by t" "valid ks s"
  shows "meets b (compile_field_initializer g t ds s) (proto ks s)"
proof -
  note p = push_scope_ok [OF assms(3)]
  have e: "meets b (each (init_field g r) ds u) (moved (0 # ks) u)" if "valid (0 # ks) u" "reg (0 # ks) r u" for r u
    by (rule moved_each [OF that(1)], rule init_field_ok)
      (use assms that in \<open>auto simp: list_all_iff moved_def intro: steady\<close>)
  show ?thesis
    unfolding compile_field_initializer_def
    by (intro alloc_rule [OF p(1)] push_local_rule meets_seq moved_rule [OF e]
        close_function_rule [OF assms(3)] meets_named meets_pair meets_Inr protoI)
      (assumption | erule flow | (use assms(2) in simp; fail))+
qed

lemma install_field_init_ok:
  assumes "\<forall>d \<in> set ds. size d < n" "b \<longrightarrow> list_all good_decl ds \<and> named_by t" "valid ks s" "reg ks c s"
  shows "meets b (install_field_init g t c ds s) (moved ks s)"
  unfolding install_field_init_def
  by (intro proto_rule [OF compile_field_initializer_ok] let_given [OF closure_given] runs)
    (assumption | rule assms step_refl | erule flow | rule emit_intros |
      (use assms(4) in \<open>blast intro: steady step_trans\<close>) | (simp; fail))+

lemma static_field_ok:
  assumes "size d < n" "b \<longrightarrow> good_decl d" "valid ks s" "reg ks c s"
  shows "meets b (static_field g c d s) (moved ks s)"
proof (cases "\<exists>t v. property d = Some (t, v, True)")
  case False
  then show ?thesis using assms
    by (auto simp: static_field_def meets_def moved_def split: option.split bool.split)
next
  case True
  then obtain t v where p: "property d = Some (t, v, True)" by blast
  note pg = property_good [OF p assms(2)] and ps = property_size [OF p]
  show ?thesis
    unfolding static_field_def p option.case prod.case bool.case
    by (intro let_next meets_named runs subtrees)
      (assumption | rule assms next_marked(2) [OF assms(3)] less_trans [OF ps assms(1)] | (use pg in simp; fail) |
        erule flow | rule emit_intros | (use assms(4) in \<open>blast intro: steady step_trans\<close>) | (simp; fail))+
qed

lemma install_method_ok:
  assumes "size m < n" "b \<longrightarrow> good_decl m" "valid ks s" "reg ks c s"
  shows "meets b (install_method g cn c m s) (moved ks s)"
proof (cases "\<exists>t ps body v st. dkind m = DMethod t ps body v st")
  case False
  then show ?thesis using assms by (auto simp: install_method_def meets_def moved_def split: decl_kind.split)
next
  case True
  then obtain t ps body v st where m: "dkind m = DMethod t ps body v st" by blast
  have f: "size body < n" "b \<longrightarrow> good_function t ps body v"
    using method_good [OF m] assms(1,2) by auto
  show ?thesis
    unfolding install_method_def m decl_kind.case
    by (intro proto_rule [OF method_prototype_ok] let_given [OF closure_given] meets_named runs)
      (assumption | rule assms f step_refl | erule flow | rule emit_intros | (use f(2) in simp; fail) |
        (use assms(4) in \<open>blast intro: steady step_trans\<close>) | (simp; fail))+
qed

lemma extend_method_ok:
  assumes "size m < n" "b \<longrightarrow> good_decl m" "valid ks s" "reg ks c s"
  shows "meets b (extend_method g c m s) (moved ks s)"
proof (cases "\<exists>t ps body v st. dkind m = DMethod t ps body v st")
  case False
  then show ?thesis using assms by (auto simp: extend_method_def meets_def moved_def split: decl_kind.split)
next
  case True
  then obtain t ps body v st where m: "dkind m = DMethod t ps body v st" by blast
  have f: "size body < n" "b \<longrightarrow> good_function t ps body v"
    using method_good [OF m] assms(1,2) by auto
  show ?thesis
    unfolding extend_method_def m decl_kind.case
    by (intro proto_rule [OF prototype_ok] let_given [OF closure_given] meets_named runs)
      (assumption | rule assms f step_refl | erule flow | rule emit_intros | (use f(2) in simp; fail) |
        (use assms(4) in \<open>blast intro: steady step_trans\<close>) | (simp; fail))+
qed

lemma class_fields_ok:
  assumes "\<forall>d \<in> set ds. size d < n" "b \<longrightarrow> list_all good_decl ds \<and> list_all good_decl ms \<and> named_by t"
    "valid ks s" "reg ks c s"
  shows "meets b (class_fields g t c ds ms s) (moved ks s)"
proof -
  let ?own = "filter is_own_field ds"
  have own: "b \<longrightarrow> list_all good_decl ?own" "b \<longrightarrow> list_all good_decl ms" "\<forall>d \<in> set ?own. size d < n"
    using assms(1,2) by (auto simp: list_all_iff)
  have inst: "meets b (default_fields c ?own u) (\<lambda>x. meets b (case x of (computed, s) \<Rightarrow> install_field_init g t c computed s) (moved ks s))"
    if u: "valid ks u" "step s u" for u
  proof (rule meets_then2 [OF default_fields_ok [OF u(1) steady(1) [OF u(2) assms(4)] own(1)]], rule meets_pair)
    fix computed w assume w: "moved ks u w \<and> set computed \<subseteq> set ?own"
    then have v: "valid ks w" "step s w" using u(2) step_trans by (auto simp: moved_def)
    have "meets b (install_field_init g t c computed w) (moved ks w)"
      using own(1,3) assms(2) w by (intro install_field_init_ok [OF _ _ v(1) steady(1) [OF v(2) assms(4)]])
        (auto simp: list_all_iff)
    then show "meets b (install_field_init g t c computed w) (moved ks s)"
      by (rule meets_then) (rule moved_later [OF _ v(2)])
  qed
  show ?thesis
    unfolding class_fields_def Let_def [of "filter _ _"]
    by (intro let_moved [OF declare_fields_ok] meets_seq meets_then [OF property_names_ok] inst
        meets_then [OF constructor_fields_ok])
      (assumption | rule assms own | erule flow | (use assms(4) in \<open>blast intro: steady step_trans\<close>))+
qed

lemma optional_expr_rule:
  assumes "pred_option (\<lambda>e. size e < n) q" "b \<longrightarrow> pred_option good_expr q" "valid ks s"
    "\<And>v s'. valid ks s' \<Longrightarrow> step s s' \<Longrightarrow> slot ks v s' \<Longrightarrow> small_slot v \<Longrightarrow> Q (v, s')"
  shows "meets b (optional_expr g q s) Q"
proof (cases q)
  case None
  then show ?thesis using assms by (simp add: optional_expr_def meets_def slot_def small_slot_def)
next
  case (Some e)
  show ?thesis unfolding optional_expr_def Some option.case
    by (intro meets_seq subtrees meets_pair meets_Inr assms(4))
      (use assms Some in \<open>auto simp: slot_def small_slot_def\<close>)
qed

lemma compile_class_ok:
  assumes "pred_option (\<lambda>e. size e < n) q" "\<forall>d \<in> set ds \<union> set ms. size d < n"
    "b \<longrightarrow> named_by t \<and> pred_option good_expr q \<and> list_all good_decl ds \<and> list_all good_decl ms" "valid ks s"
  shows "meets b (compile_class g t q ds ms s) (moved ks s)"
proof -
  have q: "b \<longrightarrow> pred_option good_expr q" and m: "b \<longrightarrow> list_all good_decl ms"
    and cf: "b \<longrightarrow> list_all good_decl ds \<and> list_all good_decl ms \<and> named_by t" using assms(3) by simp_all
  have ds: "\<forall>d \<in> set ds. size d < n" using assms(2) by simp
  have st: "meets b (each (static_field g c) ds u) (moved ks u)" if "valid ks u" "reg ks c u" for c u
    by (rule moved_each [OF that(1)], rule static_field_ok)
      (use assms that in \<open>auto simp: list_all_iff moved_def intro: steady\<close>)
  have me: "meets b (each (install_method g cn c) ms u) (moved ks u)" if "valid ks u" "reg ks c u" for cn c u
    by (rule moved_each [OF that(1)], rule install_method_ok)
      (use assms that in \<open>auto simp: list_all_iff moved_def intro: steady\<close>)
  show ?thesis
    unfolding compile_class_def Let_def [of "length _"]
    by (intro meets_named let_next optional_expr_rule let_moved [OF push_superclass_ok] moved_rule [OF class_fields_ok]
        moved_rule [OF st] moved_rule [OF me] moved_rule [OF check_method_names_ok] let_moved [OF end_scope_ok] runs)
      (assumption | rule assms q m cf ds next_marked [OF assms(4)] | erule flow slot_mono | rule emit_intros optional_class |
        (use assms(3) in simp; fail) | (simp; fail))+
qed

lemma compile_extension_ok:
  assumes "pred_option (\<lambda>e. size e < n) q" "\<forall>d \<in> set ms. size d < n"
    "b \<longrightarrow> named_by t \<and> pred_option good_expr q \<and> q \<noteq> None \<and> list_all good_decl ms" "valid ks s"
  shows "meets b (compile_extension_decl g t q ds ms s) (moved ks s)"
proof -
  have m: "b \<longrightarrow> list_all good_decl ms" using assms(3) by simp
  have me: "meets b (each (extend_method g c) ms u) (moved ks u)" if "valid ks u" "reg ks c u" for c u
    by (rule moved_each [OF that(1)], rule extend_method_ok)
      (use assms that in \<open>auto simp: list_all_iff moved_def intro: steady\<close>)
  have e: "size e < n" "b \<longrightarrow> good_expr e" if "q = Some e" for e
    using assms(1,3) that by auto
  show ?thesis
    unfolding compile_extension_decl_def
    by (intro meets_named meets_opt report_if_rule moved_rule [OF check_extension_methods_ok] moved_rule [OF me]
        let_next runs subtrees)
      (assumption | erule e | rule assms m next_marked(2) | erule flow | (use assms(3) in simp; fail) | (simp; fail))+
qed

lemma compile_declaration_ok:
  assumes "size d < Suc n" "b \<longrightarrow> good_decl d" "valid ks s"
  shows "meets b (compile_declaration g d s) (moved ks s)"
proof -
  have kids: "size (dkind d) < n" using assms(1) by (simp add: decl_size)
  have good: "b \<longrightarrow> nodes_dkind generable (dkind d)" using assms(2) by (simp add: nodes_kinds)
  show ?thesis
  proof (cases "dkind d")
    case (DStmt st)
    then show ?thesis using kids good g_stmt assms(3) by (simp add: compile_declaration_def good_defs)
  next
    case (DFunction t ps body v)
    then have "size body < n" "b \<longrightarrow> good_function t ps body v"
      using kids good by (auto simp: good_defs list_all_iff)
    then show ?thesis using compile_function_decl_ok assms(3) DFunction by (simp add: compile_declaration_def)
  next
    case (DClass t q ds ms x)
    then have s: "pred_option (\<lambda>e. size e < n) q" "\<forall>d \<in> set ds \<union> set ms. size d < n" "\<forall>d \<in> set ms. size d < n"
      using kids member_size [of _ ds] member_size [of _ ms] by (cases q; fastforce)+
    have "b \<longrightarrow> named_by t \<and> pred_option good_expr q \<and> (x \<longrightarrow> q \<noteq> None) \<and> list_all good_decl ds \<and> list_all good_decl ms"
      using good DClass by (cases q) (auto simp: good_defs)
    then show ?thesis
      using compile_class_ok [OF s(1,2) _ assms(3)] compile_extension_ok [OF s(1,3) _ assms(3)] DClass
      by (simp add: compile_declaration_def compile_class_decl_def)
  qed (use assms(3) in \<open>simp_all add: compile_declaration_def meets_def moved_def\<close>)
qed

lemma block_good:
  assumes "b \<longrightarrow> good_stmt s st" "skind st = SBlock xs"
  shows "b \<longrightarrow> list_all (\<lambda>x. nodes_stmt generable x \<and> (plain x \<or> loops (cur s) \<noteq> [])) xs"
  using assms by (auto simp: nodes_kinds good_defs plain_def [of st] list_all_iff)

lemma compile_statement_ok:
  assumes "size st < Suc n" "b \<longrightarrow> good_stmt s st" "valid ks s"
  shows "meets b (compile_statement g st s) (moved ks s)"
proof -
  have kids: "size (skind st) < n" using assms(1) by (simp add: stmt_size)
  have good: "b \<longrightarrow> nodes_skind generable (skind st)" using assms(2) by (simp add: nodes_kinds)
  show ?thesis
  proof (cases "skind st")
    case SFixContinue
    then show ?thesis using assms fix_continue_ok by (auto simp: compile_statement_def plain_def)
  next
    case (SEcho x)
    then show ?thesis using kids good compile_echo_ok assms(3) by (simp add: compile_statement_def good_defs)
  next
    case (SExpression x)
    then show ?thesis using kids good compile_expression_statement_ok assms(3) by (simp add: compile_statement_def good_defs)
  next
    case (SIf x y q)
    then have "size x < n" "size y < n" "pred_option (\<lambda>z. size z < n) q"
      "b \<longrightarrow> good_expr x \<and> nodes_stmt generable y \<and> plain y \<and> pred_option (\<lambda>z. nodes_stmt generable z \<and> plain z) q"
      using kids good by (cases q; auto simp: good_defs)+
    then show ?thesis using SIf compile_if_ok assms(3) by (simp add: compile_statement_def)
  next
    case (SWhile x y)
    then show ?thesis using kids good compile_while_ok assms(3) by (simp add: compile_statement_def good_defs)
  next
    case (SAssert x q)
    then have "size x < n" "pred_option (\<lambda>z. size z < n) q" "b \<longrightarrow> good_expr x \<and> pred_option good_expr q"
      using kids good by (cases q; auto simp: good_defs)+
    then show ?thesis using SAssert compile_assert_ok assms(3) by (simp add: compile_statement_def)
  next
    case (SRaise x)
    then show ?thesis using kids good compile_raise_ok assms(3) by (simp add: compile_statement_def good_defs)
  next
    case (SReturn t x)
    then show ?thesis using kids good return_ok assms(3) by (simp add: compile_statement_def good_defs)
  next
    case (SBreak t)
    then show ?thesis using compile_break_ok [OF assms(3)] by (simp add: compile_statement_def meets_def)
  next
    case (SContinue t)
    then show ?thesis using compile_continue_ok [OF assms(3)] by (simp add: compile_statement_def)
  next
    case (SBlock xs)
    have "\<forall>x \<in> set xs. size x < n" using kids SBlock member_size [of _ xs] by fastforce
    then show ?thesis using SBlock compile_block_ok [OF _ assms(3) block_good [OF assms(2) SBlock]]
      by (simp add: compile_statement_def)
  next
    case (SVarList xs)
    have "\<forall>x \<in> set xs. size x < n" using kids SVarList member_size [of _ xs] by fastforce
    moreover have "b \<longrightarrow> list_all (\<lambda>x. nodes_stmt generable x \<and> (plain x \<or> loops (cur s) \<noteq> [])) xs"
      using good SVarList by (auto simp: good_defs list_all_iff)
    ultimately show ?thesis using SVarList statements_ok assms(3) by (simp add: compile_statement_def)
  next
    case (SVar t x q c)
    then show ?thesis using kids good compile_var_ok assms(3) by (simp add: compile_statement_def good_defs)
  next
    case (SDecl d)
    then show ?thesis using kids good g_decl assms(3) by (simp add: compile_statement_def good_defs)
  next
    case (SUsing x arms q)
    have arm: "size (arm_body arm) < n \<and> (\<forall>e \<in> set (labels arm). size e < n)" if "arm \<in> set arms" for arm
    proof -
      have a: "size (arm_body arm) + size_list size (labels arm) < n"
      proof -
        have "size arm < n" using kids SUsing member_size [OF that] by simp
        then show ?thesis by (simp add: arm_size)
      qed
      have "size e < n" if "e \<in> set (labels arm)" for e
        using a member_size [OF that] by simp
      then show ?thesis using a by simp
    qed
    have s: "size x < n" "pred_option (\<lambda>z. size z < n) q"
      "b \<longrightarrow> good_expr x \<and>
       list_all (\<lambda>arm. list_all good_expr (labels arm) \<and> nodes_stmt generable (arm_body arm) \<and> plain (arm_body arm)) arms \<and>
       pred_option (\<lambda>z. nodes_stmt generable z \<and> plain z) q"
      using kids good SUsing by (cases q; auto simp: good_defs list_all_iff nodes_kinds)+
    show ?thesis using SUsing compile_using_ok [OF s(1) _ s(2) assms(3) s(3)] arm by (simp add: compile_statement_def)
  next
    case (SCatch x q e)
    then have "size x < n" "pred_option (\<lambda>z. size z < n) q"
      "b \<longrightarrow> nodes_stmt generable x \<and> plain x \<and> pred_option (\<lambda>z. nodes_stmt generable z \<and> plain z) q \<and>
       pred_option (\<lambda>e. nodes_expr generable e \<and> is_identifier_expr e) e \<and> (q \<noteq> None \<longrightarrow> e \<noteq> None)"
      using kids good by (cases q; cases e; auto simp: good_defs)+
    then show ?thesis using SCatch compile_catch_ok assms(3) by (simp add: compile_statement_def)
  next
    case (SImport path ts name elements al ex)
    then have "b \<longrightarrow> list_all (\<lambda>e. nodes_expr generable e \<and> is_identifier_expr e) elements \<and>
       nodes_expr generable name \<and> (al \<or> elements \<noteq> [] \<or> is_identifier_expr name)"
      using good by (auto simp: good_defs list_all_iff)
    then show ?thesis using SImport compile_import_ok [OF assms(3)] by (simp add: compile_statement_def)
  qed (use good assms(3) in \<open>auto simp: compile_statement_def good_defs meets_def moved_def\<close>)
qed

end

section \<open>The recursion\<close>

lemma generating_next:
  assumes "generating g b n"
  shows "generating \<lparr>g_expr = compile_expression g, g_stmt = compile_statement g, g_decl = compile_declaration g\<rparr> b (Suc n)"
  using generating.compile_expression_ok [OF assms] generating.compile_statement_ok [OF assms]
    generating.compile_declaration_ok [OF assms]
  by (unfold_locales) auto

lemma generating_at: "generating (generator_at n) b n"
proof (induction n)
  case (Suc n)
  then show ?case using generating_next by (simp add: Let_def)
qed (unfold_locales; simp)

interpretation at: generating "generator_at n" b n for n b
  by (rule generating_at)

end
