(* ===== verification/Codegen_Props.thy ===== *)
theory Codegen_Props
  imports Codegen_Decls
begin

text \<open>
  What the code generator gives for a whole program: it ends, it panics only at a limit of the
  format, and the functions it makes are well formed.
\<close>

section \<open>Programs\<close>

text \<open>The function of a whole program: a jump of it may lead just past its end.\<close>

definition main_ok :: "bool \<Rightarrow> obj list \<Rightarrow> obj_function \<Rightarrow> bool" where
  "main_ok c obs f \<longleftrightarrow>
     code (fn_chunk f) \<noteq> [] \<and> is_return (last (code (fn_chunk f))) \<and> num_registers f < 256 \<and>
     fn_upvalues f = [] \<and>
     chunk_ok c obs (num_registers f) 0 (length (code (fn_chunk f))) (fn_chunk f)"

lemma heap_ok_weaken: "heap_ok c h \<Longrightarrow> (c' \<longrightarrow> c) \<Longrightarrow> heap_ok c' h"
  using function_ok_mono [of c "objects h" _ c' "objects h"] by (auto simp: heap_ok_def)

lemma clean_compiler_new: "clean (compiler_new c h path repl m checks debug) = checks"
  "overflow_checks (compiler_new c h path repl m checks debug) = checks"
  "c_errors (compiler_new c h path repl m checks debug) = []"
  by (simp_all add: compiler_new_def string_constant_def add_constant_def clean_def split_beta Let_def)

lemma compiler_new_valid:
  assumes "heap_ok checks h"
  shows "valid [0] (compiler_new chunk_new h path repl m checks debug)"
proof -
  let ?s = "\<lparr>cur = function_scope_new\<lparr>chunk := chunk_new\<rparr>, outer = [], heap_of = h, is_repl = repl,
        source_path = path, module = m, c_errors = [], overflow_checks = checks, debug_kind = debug\<rparr>"
  have "valid [0] ?s"
    using assms
    by (simp add: valid_def clean_def scope_ok_def function_scope_new_def chunk_ok_def chunk_new_def)
  then show ?thesis unfolding compiler_new_def
    by (cases "string_constant (str ''@new'') ?s") (use string_constant_ok(1) in fastforce)
qed

lemma top_scope:
  assumes "valid [0] s"
  shows "upvalues (cur s) = []" "heap_ok (clean s) (heap_of s)" "max_reg (cur s) < 256"
    "chunk_ok (clean s) (objects (heap_of s)) (max_reg (cur s)) 0 (length (code (chunk (cur s)))) (chunk (cur s))"
proof -
  have "outer s = []" using assms by (auto simp: valid_def)
  then show u: "upvalues (cur s) = []" using assms by (simp add: valid_def)
  show "heap_ok (clean s) (heap_of s)" using assms by (simp add: valid_def)
  show "max_reg (cur s) < 256"
    "chunk_ok (clean s) (objects (heap_of s)) (max_reg (cur s)) 0 (length (code (chunk (cur s)))) (chunk (cur s))"
    using valid_cur(1) [OF assms] by (simp_all add: scope_ok_def lim_def u)
qed

lemma return_nil_cases:
  assumes "return_nil s = (r, u)"
  obtains t where "alloc_reg s = (r, t)" "u = emits (IReturn r) (emits (ILoadNil r) t)"
  using assms by (auto simp: return_nil_def split: prod.splits)

lemma alloc_reg_heap: "alloc_reg s = (r, t) \<Longrightarrow> heap_of t = heap_of s"
  by (cases rule: alloc_reg_cases [of s]) (auto simp: take_reg_def report_error_here_def flag_overflow_def)

lemma return_nil_heap: "return_nil s = (r, u) \<Longrightarrow> heap_of u = heap_of s"
  by (erule return_nil_cases) (simp add: alloc_reg_heap)

text \<open>
  The register of the \<open>nil\<close> that a script returns is one too many when all the others are taken;
  the error that this reports is never looked at.
\<close>

lemma return_nil_clean:
  assumes "valid [0] s" "clean s" "return_nil s = (r, u)"
  shows "clean u \<or> r = 255 \<and> max_reg (cur u) = 255 \<and>
    (\<exists>cs. code (chunk (cur u)) = cs @ [ILoadNil 255, IReturn 255])"
proof -
  obtain t where a: "alloc_reg s = (r, t)" "u = emits (IReturn r) (emits (ILoadNil r) t)"
    using return_nil_cases [OF assms(3)] by blast
  have sc: "\<not> overflow_reported (cur s)" "next_reg (cur s) \<le> max_reg (cur s)" "max_reg (cur s) < 256"
    using valid_cur(1) [OF assms(1)] assms(2) by (auto simp: scope_ok_def)
  show ?thesis
  proof (cases rule: alloc_reg_cases [of s])
    case fresh
    then show ?thesis using a assms(2) by (simp add: take_reg_def)
  next
    case again
    then show ?thesis using sc by simp
  next
    case (over m)
    then have n: "next_reg (cur s) = 255"
      using a(1) by (auto simp: alloc_reg_def Let_def clean_def split: if_splits)
    have "t = report_error_here m (flag_overflow s)" "r = 255" using a(1) over by simp_all
    then show ?thesis using a(2) n sc
      by (simp add: flag_overflow_def report_error_here_def)
  qed
qed

lemma finalize_ok:
  assumes "valid [0] s" "finalize s = (f, u)" "clean s = c"
  shows "heap_ok c (heap_of u) \<and>
    (main_ok c (objects (heap_of u)) f \<or>
     num_registers f = 255 \<and> (\<exists>cs. code (fn_chunk f) = cs @ [ILoadNil 255, IReturn 255]))"
proof (cases "code (chunk (cur s)) \<noteq> [] \<and> is_return (last (code (chunk (cur s))))")
  case True
  then show ?thesis using top_scope [OF assms(1)] assms(2,3) by (auto simp: finalize_def main_ok_def)
next
  case False
  obtain r t where r: "return_nil s = (r, t)" by (cases "return_nil s")
  note rn = return_nil_ok [OF assms(1) r]
  have u: "u = t" "num_registers f = max_reg (cur t)" "fn_chunk f = chunk (cur t)" "fn_upvalues f = []"
    using assms(2) r unfolding finalize_def if_not_P [OF False] by auto
  have "clean t \<Longrightarrow> clean s" using step_clean [OF rn(2)] .
  moreover have "clean s \<Longrightarrow> clean t \<or> num_registers f = 255 \<and>
      (\<exists>cs. code (fn_chunk f) = cs @ [ILoadNil 255, IReturn 255])"
    using return_nil_clean [OF assms(1) _ r] u(2,3) by auto
  moreover have "heap_ok c (heap_of u)"
    using top_scope(2) [OF assms(1)] return_nil_heap [OF r] u(1) assms(3) by simp
  moreover have "main_ok (clean t) (objects (heap_of t)) f"
    using top_scope [OF rn(1)] rn(3,4) u by (simp add: main_ok_def)
  ultimately show ?thesis using assms(3) u(1) by (cases c; cases "clean t") auto
qed

text \<open>The functions a program becomes, or the errors found in it.\<close>

definition built :: "bool \<Rightarrow> (parser_error list + obj_function \<times> heap) \<Rightarrow> bool" where
  "built c r \<longleftrightarrow>
     (case r of
        Inl es \<Rightarrow> es \<noteq> []
      | Inr (f, h) \<Rightarrow> heap_ok c h \<and>
          (main_ok c (objects h) f \<or>
           num_registers f = 255 \<and> (\<exists>cs. code (fn_chunk f) = cs @ [ILoadNil 255, IReturn 255])))"

lemma compile_program_ok:
  assumes "valid [0] s" "\<forall>d \<in> set ds. size d < fuel" "b \<longrightarrow> list_all (nodes_decl generable) ds"
    "overflow_checks s = c"
  shows "meets b (compile_program fuel ds s) (built c)"
  unfolding compile_program_def
proof (intro meets_seq moved_each [OF assms(1)] meets_if)
  fix d s' assume "d \<in> set ds" "valid [0] s'"
  then show "meets b (g_decl (generator_at fuel) d s') (moved [0] s')"
    using assms(2,3) by (intro at.g_decl) (auto simp: list_all_iff)
next
  fix t assume t: "valid [0] t" "step s t" "\<not> c_errors t \<noteq> []"
  then have "clean t = c" using assms(4) by (auto simp: clean_def step_def grows_def)
  then show "meets b (case finalize t of (f, s) \<Rightarrow> Inr (Inr (f, heap_of s))) (built c)"
    using finalize_ok [OF t(1)] by (cases "finalize t") (simp add: meets_def built_def)
qed (simp add: meets_def built_def)

abbreviation "program_compiler h path repl m checks debug \<equiv>
  compiler_new chunk_new h path repl m checks debug"

lemma compile_source_ok:
  assumes "heap_ok checks h"
    "b \<longrightarrow> (\<exists>ds. lower_program sf decls = Some ds \<and> list_all (nodes_decl generable) ds)"
  shows "meets b (compile_source sf decls (program_compiler h path repl m checks debug)) (built checks)"
  unfolding compile_source_def
proof (intro meets_seq meets_or_invalid compile_program_ok compiler_new_valid)
  fix ds assume ds: "lower_program sf decls = Some ds"
  show "\<forall>d \<in> set ds. size d < Suc (size_list size ds)" using member_size [of _ ds] by (auto simp: less_Suc_eq_le)
  show "b \<longrightarrow> list_all (nodes_decl generable) ds" using assms(2) ds by simp
qed (use assms in \<open>auto simp: clean_compiler_new\<close>)

section \<open>Properties\<close>

definition no_heap :: heap where
  "no_heap = \<lparr>objects = [], interned = Map.empty\<rparr>"

lemma no_heap_ok [simp]: "heap_ok c no_heap"
  by (simp add: heap_ok_def no_heap_def)

definition sample_if :: "decl list" where
  "sample_if =
     [Decl (DStmt (Stmt (SIf (Expr (EBool False) (span_new 3 8))
        (Stmt (SReturn (token_new (TkKw KwReturn) 1 9 9 15) (Expr (EInteger 1) (span_new 16 17))) (span_new 9 17))
        None) (span_new 0 17))) (span_new 0 17)]"

text \<open>\<open>def f() { return 1 }\<close>\<close>

definition sample_function :: "decl list" where
  "sample_function =
     [Decl (DFunction (token_new (TkIdentifier (str ''f'')) 1 4 4 5) []
        (Stmt (SBlock [Stmt (SReturn (token_new (TkKw KwReturn) 1 10 10 16)
           (Expr (EInteger 1) (span_new 17 18))) (span_new 10 18)]) (span_new 8 20)) False) (span_new 0 20)]"

definition code_of :: "(parser_error list + obj_function \<times> heap) run \<Rightarrow> instr list" where
  "code_of r = (case r of Inr (Inr (f, h)) \<Rightarrow> code (fn_chunk f) | _ \<Rightarrow> [])"

definition declared :: "(parser_error list + obj_function \<times> heap) run \<Rightarrow> instr list list" where
  "declared r =
     (case r of
        Inr (Inr (f, h)) \<Rightarrow>
          List.map_filter (\<lambda>ob. case ob of OFunction fn \<Rightarrow> Some (code (fn_chunk fn)) | _ \<Rightarrow> None) (objects h)
      | _ \<Rightarrow> [])"

lemma declared_some:
  assumes "declared r \<noteq> []" shows "\<exists>f h fn. r = Inr (Inr (f, h)) \<and> OFunction fn \<in> set (objects h)"
proof -
  have m: "\<exists>ob \<in> set obs. g ob \<noteq> None" if "List.map_filter g obs \<noteq> []" for g :: "obj \<Rightarrow> instr list option" and obs
    using that by (induction obs) (auto simp: map_filter_simps split: option.splits)
  obtain f h where r: "r = Inr (Inr (f, h))"
    using assms by (auto simp: declared_def split: sum.splits)
  then have "List.map_filter (\<lambda>ob. case ob of OFunction fn \<Rightarrow> Some (code (fn_chunk fn)) | _ \<Rightarrow> None) (objects h) \<noteq> []"
    using assms by (simp add: declared_def)
  then obtain fn where "OFunction fn \<in> set (objects h)" using m by (fastforce split: obj.splits)
  then show ?thesis using r by blast
qed

text \<open>
  C12. The code generator ends on every tree: the depth of the lowered program is fuel enough,
  and the recursion never goes on from a tree to one that is not smaller.
\<close>

theorem compile_source_ends:
  assumes "heap_ok checks h"
  shows "compile_source sf decls (compiler_new chunk_new h path repl m checks debug) \<noteq> Inl Out_Of_Fuel"
  using compile_source_ok [OF assms, of False sf decls path repl m debug] by (auto simp: meets_def)

theorem compile_source_ends_witness:
  "compile_source (\<lambda>_. []) sample_if (compiler_new chunk_new no_heap [] False None True (\<lambda>_. [])) \<noteq> Inl Out_Of_Fuel"
  by (rule compile_source_ends) simp

text \<open>
  C13. A program the parser could have made, once it is lowered, never meets a panic for a
  malformed tree: it becomes a function or a list of errors, unless a jump or a number of
  registers is too large for the format of the instructions.
\<close>

theorem compile_source_no_invalid:
  assumes "heap_ok checks h" "lower_program sf decls = Some ds" "list_all (nodes_decl generable) ds"
  shows "case compile_source sf decls (compiler_new chunk_new h path repl m checks debug) of
      Inl p \<Rightarrow> p = Overflow \<or> p = Jump_Too_Far
    | Inr (Inl es) \<Rightarrow> es \<noteq> []
    | Inr (Inr fh) \<Rightarrow> True"
  using compile_source_ok [OF assms(1), of True sf decls path repl m debug] assms(2,3)
  by (auto simp: meets_def built_def split: sum.splits)

theorem compile_source_no_invalid_witness:
  "case compile_source (\<lambda>_. []) sample_if (compiler_new chunk_new no_heap [] False None True (\<lambda>_. [])) of
      Inl p \<Rightarrow> p = Overflow \<or> p = Jump_Too_Far
    | Inr (Inl es) \<Rightarrow> es \<noteq> []
    | Inr (Inr fh) \<Rightarrow> True"
  by (rule compile_source_no_invalid [where ds = sample_if])
    (simp_all add: sample_if_def good_defs yields_value_def plain_def lower_program_def)






section \<open>The registers of a script\<close>

definition nil_variable :: "token \<Rightarrow> span \<Rightarrow> decl" where
  "nil_variable t sp = Decl (DStmt (Stmt (SVar t (Expr ENil sp) None False) sp)) sp"

text \<open>A script that has taken \<open>k\<close> registers, and not returned.\<close>

definition scripted :: "nat \<Rightarrow> compiler \<Rightarrow> bool" where
  "scripted k s \<longleftrightarrow>
     next_reg (cur s) = k \<and> max_reg (cur s) = k \<and> at_module_top_level s \<and>
     c_errors s = [] \<and> \<not> overflow_reported (cur s) \<and>
     (code (chunk (cur s)) = [] \<or> \<not> is_return (last (code (chunk (cur s)))))"

lemma emits_overflow: "overflow_reported (cur (emits i s)) = overflow_reported (cur s)"
  by (simp add: emits_on_cur)

lemma nil_variable_step:
  assumes "scripted k s" "k < 255" "named_by t"
  shows "\<exists>s'. g_decl (generator_at (Suc (Suc (Suc n)))) (nil_variable t sp) s = Inr s' \<and> scripted (Suc k) s'"
proof -
  obtain name where nm: "identifier_name t = Inr name"
    using assms(3) by (auto simp: named_by_def identifier_name_def or_invalid_def)
  define s1 where "s1 = emits (ILoadNil k) (on_cur (\<lambda>sc. sc\<lparr>next_reg := k + 1, max_reg := max (max_reg sc) (k + 1)\<rparr>) s)"
  obtain c s2 where c: "string_constant name s1 = (c, s2)" by (cases "string_constant name s1")
  have "g_decl (generator_at (Suc (Suc (Suc n)))) (nil_variable t sp) s = Inr (emits (ISetGlobal c k) s2)"
    using assms(1,2) nm c
    by (simp add: nil_variable_def compile_declaration_def compile_statement_def compile_var_def scripted_def
        compile_expression_def seq_def alloc_reg_def s1_def Let_def)
  moreover have "scripted (Suc k) (emits (ISetGlobal c k) s2)"
    using assms(1) c
    by (auto simp: scripted_def s1_def string_constant_def add_constant_eq split_beta at_module_top_level_def is_return_def
        emits_overflow)
  ultimately show ?thesis by blast
qed

lemma nil_variables:
  assumes "scripted k s" "k + m \<le> 255" "named_by t"
  shows "\<exists>s'. each (g_decl (generator_at (Suc (Suc (Suc n))))) (replicate m (nil_variable t sp)) s = Inr s' \<and>
    scripted (k + m) s'"
  using assms(1,2)
proof (induction m arbitrary: k s)
  case (Suc m)
  obtain s' where s': "g_decl (generator_at (Suc (Suc (Suc n)))) (nil_variable t sp) s = Inr s'" "scripted (Suc k) s'"
    using nil_variable_step [OF Suc.prems(1) _ assms(3)] Suc.prems(2) by fastforce
  then show ?case using Suc.IH [OF s'(2)] Suc.prems(2) by (simp add: seq_def del: generator_at.simps)
qed simp

lemma scripted_new: "scripted 0 (program_compiler h path repl m checks debug)"
  by (simp add: scripted_def compiler_new_def string_constant_def add_constant_eq split_beta function_scope_new_def
      chunk_new_def at_module_top_level_def)

lemma scripted_finalize:
  assumes "scripted 255 s" "finalize s = (f, u)"
  shows "num_registers f = 255 \<and> last (code (fn_chunk f)) = IReturn 255"
proof -
  have "\<not> (code (chunk (cur s)) \<noteq> [] \<and> is_return (last (code (chunk (cur s)))))"
    using assms(1) by (auto simp: scripted_def)
  then show ?thesis
    using assms unfolding finalize_def
    by (auto simp: return_nil_def alloc_reg_def scripted_def Let_def report_error_here_def)
qed

lemma string_constant_errors: "c_errors (snd (string_constant t s)) = c_errors s"
  by (simp add: string_constant_def add_constant_eq split_beta)

lemma nil_variable_over:
  assumes "scripted 255 s" "named_by t"
  shows "\<exists>s'. g_decl (generator_at (Suc (Suc (Suc n)))) (nil_variable t sp) s = Inr s' \<and> c_errors s' \<noteq> []"
proof -
  obtain name where nm: "identifier_name t = Inr name"
    using assms(2) by (auto simp: named_by_def identifier_name_def or_invalid_def)
  show ?thesis
    using assms(1) nm
    by (simp add: nil_variable_def compile_declaration_def compile_statement_def compile_var_def scripted_def
        compile_expression_def seq_def alloc_reg_def Let_def report_error_here_def split_beta string_constant_errors)
qed

lemma each_append: "each f (xs @ ys) s = seq (each f xs s) (each f ys)"
  by (induction xs arbitrary: s) (simp_all add: seq_def split: sum.split)

lemma nil_variable_lowered: "lower_program sf (replicate m (nil_variable t sp)) = Some (replicate m (nil_variable t sp))"
  by (induction m) (simp_all add: lower_program_def nil_variable_def)

lemma nil_variables_fuel: "\<exists>n. Suc (size_list size (replicate (Suc m) (nil_variable t sp))) = Suc (Suc (Suc n))"
  by (simp add: nil_variable_def)

lemma compile_nil_variables:
  "\<exists>n. compile_source sf (replicate (Suc m) (nil_variable t sp)) s =
     compile_program (Suc (Suc (Suc n))) (replicate (Suc m) (nil_variable t sp)) s"
  using nil_variables_fuel [of m t sp] nil_variable_lowered [of sf "Suc m" t sp]
  by (auto simp: compile_source_def or_invalid_def seq_def simp del: replicate.simps)

lemma nil_script:
  assumes "named_by t"
  obtains s' where "each (g_decl (generator_at (Suc (Suc (Suc n))))) (replicate 255 (nil_variable t sp))
      (program_compiler h path repl m checks debug) = Inr s'" "scripted 255 s'"
proof -
  have "0 + 255 \<le> (255 :: nat)" by simp
  from nil_variables [OF scripted_new [of h path repl m checks debug] this assms, of n sp] that
  show thesis unfolding add_0 by blast
qed

text \<open>
  C18. A variable of a script keeps the register of its first value for good. With 255 of them
  the script still compiles, and returns from a register that it does not have; with one more
  it is rejected, although it never needs more than one register at a time.
\<close>

theorem script_variables_keep_registers:
  assumes "name_of_kind (kind t) \<noteq> None"
  shows "(\<exists>f h'. compile_source sf (replicate 255 (nil_variable t sp)) (compiler_new chunk_new h path repl m checks debug) =
      Inr (Inr (f, h')) \<and> num_registers f = 255 \<and> last (code (fn_chunk f)) = IReturn 255) \<and>
    (\<exists>es. compile_source sf (replicate 256 (nil_variable t sp)) (compiler_new chunk_new h path repl m checks debug) =
      Inr (Inl es))"
proof
  have nm: "named_by t" using assms by (simp add: named_by_def)
  let ?s = "program_compiler h path repl m checks debug"
  obtain n where n: "compile_source sf (replicate 255 (nil_variable t sp)) ?s =
      compile_program (Suc (Suc (Suc n))) (replicate 255 (nil_variable t sp)) ?s"
    using compile_nil_variables [of sf 254 t sp] by auto
  obtain s' where s': "each (g_decl (generator_at (Suc (Suc (Suc n))))) (replicate 255 (nil_variable t sp)) ?s = Inr s'"
    "scripted 255 s'"
    by (rule nil_script [OF nm])
  show "\<exists>f h'. compile_source sf (replicate 255 (nil_variable t sp)) ?s =
      Inr (Inr (f, h')) \<and> num_registers f = 255 \<and> last (code (fn_chunk f)) = IReturn 255"
    using s' scripted_finalize [OF s'(2)]
    by (cases "finalize s'") (auto simp: n compile_program_def seq_def scripted_def simp del: generator_at.simps)
  obtain n2 where n2: "compile_source sf (replicate 256 (nil_variable t sp)) ?s =
      compile_program (Suc (Suc (Suc n2))) (replicate 256 (nil_variable t sp)) ?s"
    using compile_nil_variables [of sf 255 t sp] by auto
  have r: "replicate 256 (nil_variable t sp) = replicate 255 (nil_variable t sp) @ [nil_variable t sp]"
    using replicate_append_same [of 255 "nil_variable t sp"] replicate_Suc [of 255 "nil_variable t sp"] by simp
  obtain u where u: "each (g_decl (generator_at (Suc (Suc (Suc n2))))) (replicate 255 (nil_variable t sp)) ?s = Inr u"
    "scripted 255 u"
    by (rule nil_script [OF nm])
  obtain w where "g_decl (generator_at (Suc (Suc (Suc n2)))) (nil_variable t sp) u = Inr w" "c_errors w \<noteq> []"
    using nil_variable_over [OF u(2) nm] by blast
  then show "\<exists>es. compile_source sf (replicate 256 (nil_variable t sp)) ?s = Inr (Inl es)"
    unfolding n2 unfolding compile_program_def r each_append using u(1) by (simp add: seq_def del: generator_at.simps)
qed

theorem script_variables_keep_registers_witness:
  "(\<exists>f h'. compile_source (\<lambda>_. []) (replicate 255 (nil_variable (token_new (TkIdentifier (str ''x'')) 1 4 4 5) (span_new 0 5)))
      (compiler_new chunk_new no_heap [] False None True (\<lambda>_. [])) =
      Inr (Inr (f, h')) \<and> num_registers f = 255 \<and> last (code (fn_chunk f)) = IReturn 255)"
  by (rule script_variables_keep_registers [THEN conjunct1]) (simp add: token_new_def name_of_kind_def)

end
