(* ===== verification/Machine_Numbers.thy ===== *)
theory Machine_Numbers
  imports Values
begin

text \<open>
  The rest of the arithmetic that the machine of \<open>src/vm/vm.rs\<close> does on numbers: Rust's
  multiplication, division and floor of doubles, its casts to unsigned integers, and the
  bitwise operators, which narrow their operands to 64 bits first.
\<close>

section \<open>Doubles\<close>

definition f64_zero :: "bool \<Rightarrow> f64" where
  "f64_zero s = f64_make s 0"

definition f64_infinity :: "bool \<Rightarrow> f64" where
  "f64_infinity s = f64_make s f64_inf_bits"

definition f64_mul :: "f64 \<Rightarrow> f64 \<Rightarrow> f64" where
  "f64_mul x y =
     (let s = (f64_sign x \<noteq> f64_sign y); bx = f64_abs_bits x; by = f64_abs_bits y
      in if f64_is_nan x \<or> f64_is_nan y then f64_nan
         else if \<not> f64_is_finite x \<or> \<not> f64_is_finite y then
           (if bx = 0 \<or> by = 0 then f64_nan else f64_infinity s)
         else f64_of_scaled s (bits_mant bx * bits_mant by)
                (int (bits_exp bx) + int (bits_exp by) - 1074))"

text \<open>
  The quotient of the mantissas to at least 55 bits, with a last bit that says whether anything
  is left below them, and one rounding.
\<close>

definition f64_div :: "f64 \<Rightarrow> f64 \<Rightarrow> f64" where
  "f64_div x y =
     (let s = (f64_sign x \<noteq> f64_sign y); bx = f64_abs_bits x; by = f64_abs_bits y
      in if f64_is_nan x \<or> f64_is_nan y then f64_nan
         else if \<not> f64_is_finite x then (if f64_is_finite y then f64_infinity s else f64_nan)
         else if \<not> f64_is_finite y then f64_zero s
         else if by = 0 then (if bx = 0 then f64_nan else f64_infinity s)
         else if bx = 0 then f64_zero s
         else
           (let n = bits_mant bx; d = bits_mant by;
                j = bitlen d + 56 - bitlen n;
                q = n * 2 ^ j div d;
                m = 2 * q + (if n * 2 ^ j mod d = 0 then 0 else 1)
            in f64_of_scaled s m (1073 + int (bits_exp bx) - int (bits_exp by) - int j)))"

definition f64_floor :: "f64 \<Rightarrow> f64" where
  "f64_floor x =
     (if f64_is_finite x
      then f64_of_scaled (f64_sign x) (nat \<bar>f64_scaled x div 2 ^ 1074\<bar>) 1074 else x)"

definition f64_fract :: "f64 \<Rightarrow> f64" where
  "f64_fract x = f64_sub x (f64_trunc x)"

text \<open>\<open>x as usize\<close> and \<open>x as u8\<close>, which saturate and send a NaN to zero.\<close>

definition f64_as_unsigned :: "nat \<Rightarrow> f64 \<Rightarrow> nat" where
  "f64_as_unsigned most x =
     (if f64_is_nan x then 0
      else if \<not> f64_is_finite x then (if f64_sign x then 0 else most)
      else min most (nat (f64_whole x)))"

definition f64_as_usize :: "f64 \<Rightarrow> nat" where
  "f64_as_usize x = f64_as_unsigned (2 ^ 64 - 1) x"

section \<open>Bitwise operators\<close>

text \<open>
  \<open>checked_shl\<close> and \<open>checked_shr\<close> on \<open>i64\<close>, \<open>checked_shr\<close> on \<open>u32\<close>: nothing when the count,
  cast to \<open>u32\<close>, is not below the width.
\<close>

definition shift_count :: "int \<Rightarrow> nat" where
  "shift_count y = nat (y mod 2 ^ 32)"

definition i64_shl :: "int \<Rightarrow> int \<Rightarrow> int" where
  "i64_shl x y = (if shift_count y < 64 then wrap_i64 (x * 2 ^ shift_count y) else 0)"

definition i64_shr :: "int \<Rightarrow> int \<Rightarrow> int" where
  "i64_shr x y = (if shift_count y < 64 then x div 2 ^ shift_count y else 0)"

definition u32_shr :: "int \<Rightarrow> int \<Rightarrow> int" where
  "u32_shr x y = (if shift_count y < 32 then x mod 2 ^ 32 div 2 ^ shift_count y else 0)"

text \<open>
  The compiler's count is not masked to the width, but its cast drops what is above 32 bits: a
  shift by \<open>2 ^ 32\<close> is no shift at all.
\<close>

lemma shift_count_wraps: "shift_count (y + 2 ^ 32) = shift_count y"
  by (simp add: shift_count_def)

end
