(* ===== verification/Machine_Objects.thy ===== *)
theory Machine_Objects
  imports Codegen Machine_Numbers
begin

text \<open>
  What the machine keeps on its heap: the objects of \<open>src/vm/object.rs\<close>, the dictionary storage
  with its hash index, the namespace of a module, and the questions that \<open>src/vm/value.rs\<close> asks
  of a value. A value is a \<^typ>\<open>const\<close> as in the constant pool, with the address of an object as
  its index. Ropes, the storage of lists and instances, and generations are representations the
  program cannot see; a string is its text and a list its values.
\<close>

section \<open>Objects\<close>

record native_function =
  native_name :: ustring
  min_arity :: nat
  native_variadic :: bool
  native_is_method :: bool
  native_id :: nat

datatype upvalue_state = Open nat | Closed const

record obj_class =
  class_name :: ustring
  superclass_of :: "const option"
  methods :: "ustring \<rightharpoonup> const"
  field_slots :: "ustring \<rightharpoonup> nat"
  field_count :: nat
  own_field_initializer :: "const option"
  own_defaults :: "(nat \<times> const) list"
  defaults :: "(nat \<times> const) list"
  runs_initializers :: bool
  constructor_of :: "const option"
  static_slots :: "ustring \<rightharpoonup> nat"
  statics :: "const list"
  class_module :: "const option"
  finalized :: bool

text \<open>The names of a namespace are kept with their slots in the order they were made.\<close>

record module_namespace =
  slots :: "const list"
  public :: "bool list"
  names :: "(ustring \<times> nat) list"

record obj_module =
  mod_name :: ustring
  mod_path :: ustring
  namespace :: module_namespace
  loaded :: bool

record module_binding =
  bound_module :: const
  promoted :: "const option"
  bind_name :: ustring

text \<open>The hash index of a dictionary holds the keys it was built from, each with its position.\<close>

record dict_storage =
  entries :: "(const \<times> const) list"
  dict_index :: "(const \<times> nat) list option"

datatype (plugins only: code) object =
    ObjStr ustring | ObjBytes "nat list" | ObjBigInt int
  | ObjList "const list" | ObjDict dict_storage
  | ObjFunc obj_function | ObjBoundMethod const const
  | ObjClosure const "const list" | ObjUpvalue upvalue_state
  | ObjNative native_function | ObjClass obj_class | ObjInstance const "const list"
  | ObjRange f64 f64 f64 | ObjFile ustring ustring
  | ObjModule obj_module | ObjModuleBinding module_binding | ObjPtr ustring

text \<open>\<open>Obj::tag\<close>, the discriminant of an object.\<close>

primrec object_tag :: "object \<Rightarrow> nat" where
  "object_tag (ObjStr t) = 0"
| "object_tag (ObjBytes bs) = 1"
| "object_tag (ObjBigInt i) = 2"
| "object_tag (ObjList xs) = 3"
| "object_tag (ObjDict d) = 4"
| "object_tag (ObjFunc f) = 5"
| "object_tag (ObjBoundMethod r m) = 6"
| "object_tag (ObjClosure c us) = 7"
| "object_tag (ObjUpvalue u) = 8"
| "object_tag (ObjNative n) = 9"
| "object_tag (ObjClass k) = 10"
| "object_tag (ObjInstance c fs) = 11"
| "object_tag (ObjRange lo hi st) = 12"
| "object_tag (ObjFile path mode) = 13"
| "object_tag (ObjModule m) = 14"
| "object_tag (ObjModuleBinding b) = 15"
| "object_tag (ObjPtr t) = 16"

definition object_at :: "object list \<Rightarrow> const \<Rightarrow> object option" where
  "object_at h v = (case v of KObj a \<Rightarrow> if a < length h then Some (h ! a) else None | _ \<Rightarrow> None)"

text \<open>
  A test \<open>is_string\<close> and the accessor \<open>as_str\<close> that goes with it are one function, \<open>None\<close> where
  the test fails, and so on for every kind of object.
\<close>

definition as_string :: "object list \<Rightarrow> const \<Rightarrow> ustring option" where
  "as_string h v = (case object_at h v of Some (ObjStr t) \<Rightarrow> Some t | _ \<Rightarrow> None)"

definition as_bytes :: "object list \<Rightarrow> const \<Rightarrow> nat list option" where
  "as_bytes h v = (case object_at h v of Some (ObjBytes bs) \<Rightarrow> Some bs | _ \<Rightarrow> None)"

definition as_bigint :: "object list \<Rightarrow> const \<Rightarrow> int option" where
  "as_bigint h v = (case object_at h v of Some (ObjBigInt i) \<Rightarrow> Some i | _ \<Rightarrow> None)"

definition as_list :: "object list \<Rightarrow> const \<Rightarrow> const list option" where
  "as_list h v = (case object_at h v of Some (ObjList xs) \<Rightarrow> Some xs | _ \<Rightarrow> None)"

definition as_dict :: "object list \<Rightarrow> const \<Rightarrow> dict_storage option" where
  "as_dict h v = (case object_at h v of Some (ObjDict d) \<Rightarrow> Some d | _ \<Rightarrow> None)"

definition as_func :: "object list \<Rightarrow> const \<Rightarrow> obj_function option" where
  "as_func h v = (case object_at h v of Some (ObjFunc f) \<Rightarrow> Some f | _ \<Rightarrow> None)"

definition as_bound_method :: "object list \<Rightarrow> const \<Rightarrow> (const \<times> const) option" where
  "as_bound_method h v = (case object_at h v of Some (ObjBoundMethod r m) \<Rightarrow> Some (r, m) | _ \<Rightarrow> None)"

definition as_closure :: "object list \<Rightarrow> const \<Rightarrow> (const \<times> const list) option" where
  "as_closure h v = (case object_at h v of Some (ObjClosure f us) \<Rightarrow> Some (f, us) | _ \<Rightarrow> None)"

definition as_upvalue :: "object list \<Rightarrow> const \<Rightarrow> upvalue_state option" where
  "as_upvalue h v = (case object_at h v of Some (ObjUpvalue u) \<Rightarrow> Some u | _ \<Rightarrow> None)"

definition as_native :: "object list \<Rightarrow> const \<Rightarrow> native_function option" where
  "as_native h v = (case object_at h v of Some (ObjNative n) \<Rightarrow> Some n | _ \<Rightarrow> None)"

definition as_class :: "object list \<Rightarrow> const \<Rightarrow> obj_class option" where
  "as_class h v = (case object_at h v of Some (ObjClass c) \<Rightarrow> Some c | _ \<Rightarrow> None)"

definition as_instance :: "object list \<Rightarrow> const \<Rightarrow> (const \<times> const list) option" where
  "as_instance h v = (case object_at h v of Some (ObjInstance c fs) \<Rightarrow> Some (c, fs) | _ \<Rightarrow> None)"

definition as_range :: "object list \<Rightarrow> const \<Rightarrow> (f64 \<times> f64) option" where
  "as_range h v = (case object_at h v of Some (ObjRange lo hi st) \<Rightarrow> Some (lo, hi) | _ \<Rightarrow> None)"

definition as_module :: "object list \<Rightarrow> const \<Rightarrow> obj_module option" where
  "as_module h v = (case object_at h v of Some (ObjModule m) \<Rightarrow> Some m | _ \<Rightarrow> None)"

definition as_module_binding :: "object list \<Rightarrow> const \<Rightarrow> module_binding option" where
  "as_module_binding h v = (case object_at h v of Some (ObjModuleBinding b) \<Rightarrow> Some b | _ \<Rightarrow> None)"

definition is_file :: "object list \<Rightarrow> const \<Rightarrow> bool" where
  "is_file h v \<longleftrightarrow> (case object_at h v of Some (ObjFile path mode) \<Rightarrow> True | _ \<Rightarrow> False)"

definition is_callable :: "object list \<Rightarrow> const \<Rightarrow> bool" where
  "is_callable h v \<longleftrightarrow>
     as_closure h v \<noteq> None \<or> as_bound_method h v \<noteq> None \<or> as_native h v \<noteq> None \<or> as_class h v \<noteq> None"

definition number :: "f64 \<Rightarrow> const" where
  "number x = KNumber (value_number x)"

text \<open>The class of an instance, whose \<open>as_class\<close> panics on anything else.\<close>

definition class_of :: "object list \<Rightarrow> const \<Rightarrow> obj_class panics" where
  "class_of h v = (case as_instance h v of Some (c, fs) \<Rightarrow> as_class h c | None \<Rightarrow> None)"

section \<open>Dictionaries\<close>

text \<open>Numbers and strings by value, any other key by identity.\<close>

definition same_key :: "object list \<Rightarrow> const \<Rightarrow> const \<Rightarrow> bool" where
  "same_key h a b \<longleftrightarrow>
     (case (a, b) of
        (KNumber x, KNumber y) \<Rightarrow> f64_eq x y
      | _ \<Rightarrow> a = b \<or> (as_string h a \<noteq> None \<and> as_string h a = as_string h b))"

text \<open>What \<open>DictKey\<close> feeds to the hash function.\<close>

datatype hash_input = HashWhole int | HashBits f64 | HashNil | HashBool bool | HashText ustring | HashAddress nat

definition key_hash :: "object list \<Rightarrow> const \<Rightarrow> hash_input" where
  "key_hash h v =
     (case v of
        KNumber n \<Rightarrow>
          (let whole = f64_as_i64 n
           in if f64_eq (f64_of_int whole) n then HashWhole whole else HashBits n)
      | KNil \<Rightarrow> HashNil
      | KBool b \<Rightarrow> HashBool b
      | KObj a \<Rightarrow> (case as_string h v of Some t \<Rightarrow> HashText t | None \<Rightarrow> HashAddress a))"

text \<open>
  A hash map compares a key with the ones of its own hash only; an insertion under a key that is
  there replaces the value.
\<close>

definition hash_meets :: "object list \<Rightarrow> const \<Rightarrow> const \<times> nat \<Rightarrow> bool" where
  "hash_meets h k e \<longleftrightarrow> key_hash h (fst e) = key_hash h k \<and> same_key h (fst e) k"

definition hash_get :: "object list \<Rightarrow> (const \<times> nat) list \<Rightarrow> const \<Rightarrow> nat option" where
  "hash_get h m k = map_option (\<lambda>j. snd (m ! j)) (position (hash_meets h k) m)"

definition hash_insert :: "object list \<Rightarrow> const \<Rightarrow> nat \<Rightarrow> (const \<times> nat) list \<Rightarrow> (const \<times> nat) list" where
  "hash_insert h k i m =
     (case position (hash_meets h k) m of
        Some j \<Rightarrow> m[j := (fst (m ! j), i)]
      | None \<Rightarrow> m @ [(k, i)])"

definition SCANNED :: nat where "SCANNED = 8"

definition dict_new :: dict_storage where
  "dict_new = \<lparr>entries = [], dict_index = None\<rparr>"

definition dict_len :: "dict_storage \<Rightarrow> nat" where
  "dict_len d = length (entries d)"

definition index_of :: "object list \<Rightarrow> dict_storage \<Rightarrow> const \<Rightarrow> nat option" where
  "index_of h d k =
     (case dict_index d of
        Some m \<Rightarrow> hash_get h m k
      | None \<Rightarrow> position (\<lambda>e. same_key h (fst e) k) (entries d))"

definition dict_get :: "object list \<Rightarrow> dict_storage \<Rightarrow> const \<Rightarrow> const option panics" where
  "dict_get h d k =
     (case index_of h d k of
        None \<Rightarrow> Some None
      | Some i \<Rightarrow> map_option (\<lambda>e. Some (snd e)) (index (entries d) i))"

definition reindex_from :: "object list \<Rightarrow> (const \<times> const) list \<Rightarrow> (const \<times> nat) list" where
  "reindex_from h es = fold (\<lambda>(i, e) m. hash_insert h (fst e) i m) (enumerate 0 es) []"

definition reindex :: "object list \<Rightarrow> dict_storage \<Rightarrow> dict_storage" where
  "reindex h d =
     (if length (entries d) \<le> SCANNED then d\<lparr>dict_index := None\<rparr>
      else d\<lparr>dict_index := Some (reindex_from h (entries d))\<rparr>)"

definition dict_set :: "object list \<Rightarrow> const \<Rightarrow> const \<Rightarrow> dict_storage \<Rightarrow> dict_storage panics" where
  "dict_set h k v d =
     (case index_of h d k of
        Some i \<Rightarrow> map_option (\<lambda>e. d\<lparr>entries := (entries d)[i := (fst e, v)]\<rparr>) (index (entries d) i)
      | None \<Rightarrow>
          (let i = length (entries d); d = d\<lparr>entries := entries d @ [(k, v)]\<rparr>
           in case dict_index d of
                Some m \<Rightarrow> Some (d\<lparr>dict_index := Some (hash_insert h k i m)\<rparr>)
              | None \<Rightarrow> if SCANNED < length (entries d) then Some (reindex h d) else Some d))"

primrec dict_set_all :: "object list \<Rightarrow> (const \<times> const) list \<Rightarrow> dict_storage \<Rightarrow> dict_storage panics" where
  "dict_set_all h [] d = Some d"
| "dict_set_all h (e # es) d =
     (case dict_set h (fst e) (snd e) d of Some d \<Rightarrow> dict_set_all h es d | None \<Rightarrow> None)"

definition distinct_pairs :: "object list \<Rightarrow> (const \<times> const) list \<Rightarrow> bool" where
  "distinct_pairs h pairs \<longleftrightarrow>
     list_all (\<lambda>(i, e). list_all (\<lambda>earlier. \<not> same_key h (fst earlier) (fst e)) (take i pairs))
       (enumerate 0 pairs)"

definition from_pairs :: "object list \<Rightarrow> (const \<times> const) list \<Rightarrow> dict_storage panics" where
  "from_pairs h pairs =
     (if length pairs \<le> SCANNED \<and> distinct_pairs h pairs
      then Some \<lparr>entries = pairs, dict_index = None\<rparr>
      else dict_set_all h pairs dict_new)"

section \<open>Namespaces\<close>

definition namespace_new :: module_namespace where
  "namespace_new = \<lparr>slots = [], public = [], names = []\<rparr>"

definition get_or_create_slot :: "ustring \<Rightarrow> module_namespace \<Rightarrow> nat \<times> module_namespace" where
  "get_or_create_slot n ns =
     (case map_of (names ns) n of
        Some s \<Rightarrow> (s, ns)
      | None \<Rightarrow>
          (let s = as_u32 (length (slots ns))
           in (s, ns\<lparr>slots := slots ns @ [KNil], public := public ns @ [True], names := names ns @ [(n, s)]\<rparr>)))"

definition namespace_get :: "module_namespace \<Rightarrow> ustring \<Rightarrow> const option panics" where
  "namespace_get ns n =
     (case map_of (names ns) n of None \<Rightarrow> Some None | Some s \<Rightarrow> map_option Some (index (slots ns) s))"

definition get_public :: "module_namespace \<Rightarrow> ustring \<Rightarrow> const option panics" where
  "get_public ns n =
     (case map_of (names ns) n of
        None \<Rightarrow> Some None
      | Some s \<Rightarrow>
          (case index (public ns) s of
             None \<Rightarrow> None
           | Some p \<Rightarrow> if p then map_option Some (index (slots ns) s) else Some None))"

definition mark_private :: "nat \<Rightarrow> module_namespace \<Rightarrow> module_namespace panics" where
  "mark_private s ns = map_option (\<lambda>_. ns\<lparr>public := (public ns)[s := False]\<rparr>) (index (public ns) s)"

section \<open>Classes\<close>

definition set_field_default :: "nat \<Rightarrow> const \<Rightarrow> obj_class \<Rightarrow> obj_class" where
  "set_field_default slot v c =
     (let earlier = position (\<lambda>e. fst e = slot) (defaults c)
      in if v = KNil \<and> earlier = None \<and> \<not> runs_initializers c then c
         else c\<lparr>own_defaults := own_defaults c @ [(slot, v)],
                defaults := (case earlier of
                    Some i \<Rightarrow> (defaults c)[i := (slot, v)]
                  | None \<Rightarrow> defaults c @ [(slot, v)])\<rparr>)"

text \<open>
  The first answer of \<open>test\<close> along the line of descent, from a class up to its root. A superclass
  is a class that was there before, so a line has no more classes than the heap has objects.
\<close>

primrec along_lineage_in ::
  "nat \<Rightarrow> object list \<Rightarrow> (const \<Rightarrow> obj_class \<Rightarrow> 'a option) \<Rightarrow> const \<Rightarrow> 'a option panics" where
  "along_lineage_in 0 h test c = None"
| "along_lineage_in (Suc n) h test c =
     (case as_class h c of
        None \<Rightarrow> None
      | Some k \<Rightarrow>
          (case test c k of
             Some r \<Rightarrow> Some (Some r)
           | None \<Rightarrow>
               (case superclass_of k of
                  None \<Rightarrow> Some None
                | Some p \<Rightarrow> along_lineage_in n h test p)))"

definition along_lineage :: "object list \<Rightarrow> (const \<Rightarrow> obj_class \<Rightarrow> 'a option) \<Rightarrow> const \<Rightarrow> 'a option panics" where
  "along_lineage h test c = along_lineage_in (length h) h test c"

text \<open>Where a static member is found: the class that declares it and its slot.\<close>

definition find_static :: "object list \<Rightarrow> ustring \<Rightarrow> const \<Rightarrow> (const \<times> nat) option panics" where
  "find_static h n c =
     along_lineage h (\<lambda>c k. map_option (\<lambda>i. (c, i)) (static_slots k n)) c"

definition descends_from :: "object list \<Rightarrow> const \<Rightarrow> const \<Rightarrow> bool panics" where
  "descends_from h c target =
     map_option (\<lambda>r. r \<noteq> None) (along_lineage h (\<lambda>c k. if c = target then Some () else None) c)"

section \<open>Equality, truth and names of types\<close>

text \<open>
  \<open>module_of\<close> and the pairs that \<open>Value::equals\<close> compares by the identity of the object.
\<close>

definition module_of :: "object list \<Rightarrow> const \<Rightarrow> const" where
  "module_of h v = (case as_module_binding h v of Some b \<Rightarrow> bound_module b | None \<Rightarrow> v)"

primrec by_identity :: "object \<Rightarrow> bool" where
  "by_identity (ObjStr t) \<longleftrightarrow> False"
| "by_identity (ObjBytes bs) \<longleftrightarrow> False"
| "by_identity (ObjBigInt i) \<longleftrightarrow> False"
| "by_identity (ObjList xs) \<longleftrightarrow> False"
| "by_identity (ObjDict d) \<longleftrightarrow> False"
| "by_identity (ObjFunc f) \<longleftrightarrow> True"
| "by_identity (ObjBoundMethod r m) \<longleftrightarrow> True"
| "by_identity (ObjClosure f us) \<longleftrightarrow> True"
| "by_identity (ObjUpvalue u) \<longleftrightarrow> True"
| "by_identity (ObjNative n) \<longleftrightarrow> True"
| "by_identity (ObjClass c) \<longleftrightarrow> True"
| "by_identity (ObjInstance c fs) \<longleftrightarrow> True"
| "by_identity (ObjRange lo hi st) \<longleftrightarrow> False"
| "by_identity (ObjFile path mode) \<longleftrightarrow> True"
| "by_identity (ObjModule m) \<longleftrightarrow> False"
| "by_identity (ObjModuleBinding b) \<longleftrightarrow> False"
| "by_identity (ObjPtr t) \<longleftrightarrow> True"

primrec all_hold :: "('a \<Rightarrow> bool panics) \<Rightarrow> 'a list \<Rightarrow> bool panics" where
  "all_hold f [] = Some True"
| "all_hold f (x # xs) =
     (case f x of None \<Rightarrow> None | Some b \<Rightarrow> if b then all_hold f xs else Some False)"

text \<open>
  \<open>n\<close> is how deep the native stack goes: comparing two lists that hold themselves goes on until
  it overflows, which ends the process like a panic.
\<close>

primrec equals :: "nat \<Rightarrow> object list \<Rightarrow> const \<Rightarrow> const \<Rightarrow> bool panics" where
  "equals 0 h a b = None"
| "equals (Suc n) h a b =
     (case (a, b) of
        (KNumber x, KNumber y) \<Rightarrow> Some (f64_eq x y)
      | (KObj p, KObj q) \<Rightarrow>
          (let left = module_of h a; right = module_of h b
           in if as_module h left \<noteq> None \<and> as_module h right \<noteq> None then Some (left = right)
              else
                (case (object_at h a, object_at h b) of
                   (Some (ObjStr s), Some (ObjStr t)) \<Rightarrow> Some (s = t)
                 | (Some (ObjBigInt i), Some (ObjBigInt j)) \<Rightarrow> Some (i = j)
                 | (Some (ObjBytes bs), Some (ObjBytes cs)) \<Rightarrow> Some (bs = cs)
                 | (Some (ObjList xs), Some (ObjList ys)) \<Rightarrow>
                     if length xs = length ys then all_hold (\<lambda>(x, y). equals n h x y) (zip xs ys)
                     else Some False
                 | (Some (ObjDict d), Some (ObjDict e)) \<Rightarrow>
                     if length (entries d) = length (entries e)
                     then all_hold (\<lambda>(k, v).
                            case dict_get h e k of
                              None \<Rightarrow> None
                            | Some None \<Rightarrow> Some False
                            | Some (Some w) \<Rightarrow> equals n h v w) (entries d)
                     else Some False
                 | (Some (ObjRange l1 u1 s1), Some (ObjRange l2 u2 s2)) \<Rightarrow>
                     Some (f64_eq l1 l2 \<and> f64_eq u1 u2)
                 | (Some x, Some y) \<Rightarrow> Some (by_identity x \<and> p = q)
                 | _ \<Rightarrow> None))
      | _ \<Rightarrow> Some (a = b))"

definition is_falsey :: "object list \<Rightarrow> const \<Rightarrow> bool" where
  "is_falsey h v \<longleftrightarrow>
     (case v of
        KNil \<Rightarrow> True
      | KBool b \<Rightarrow> \<not> b
      | KNumber n \<Rightarrow> number_is_falsey n
      | KObj a \<Rightarrow> as_bigint h v = Some 0 \<or> as_string h v = Some [] \<or> as_bytes h v = Some [])"

definition object_type_name :: "object \<Rightarrow> ustring" where
  "object_type_name ob =
     (case ob of
        ObjStr t \<Rightarrow> str ''string''
      | ObjBytes bs \<Rightarrow> str ''bytes''
      | ObjBigInt i \<Rightarrow> str ''bigint''
      | ObjList xs \<Rightarrow> str ''list''
      | ObjDict d \<Rightarrow> str ''dict''
      | ObjFunc f \<Rightarrow> str ''function''
      | ObjBoundMethod r m \<Rightarrow> str ''function''
      | ObjClosure f us \<Rightarrow> str ''function''
      | ObjUpvalue u \<Rightarrow> str ''upvalue''
      | ObjNative n \<Rightarrow> str ''function''
      | ObjClass c \<Rightarrow> str ''class''
      | ObjInstance c fs \<Rightarrow> str ''instance''
      | ObjRange lo hi st \<Rightarrow> str ''range''
      | ObjFile path mode \<Rightarrow> str ''file''
      | ObjModule m \<Rightarrow> str ''module''
      | ObjModuleBinding b \<Rightarrow> str ''module''
      | ObjPtr t \<Rightarrow> t)"

definition value_type_name :: "object list \<Rightarrow> const \<Rightarrow> ustring" where
  "value_type_name h v =
     (case v of
        KNumber n \<Rightarrow> str ''number''
      | KNil \<Rightarrow> str ''nil''
      | KBool b \<Rightarrow> str ''bool''
      | KObj a \<Rightarrow>
          (case object_at h v of Some ob \<Rightarrow> object_type_name ob | None \<Rightarrow> str ''unknown''))"

text \<open>The class of an instance is always a class; the name of one that is not is left empty.\<close>

definition argument_type_name :: "object list \<Rightarrow> const \<Rightarrow> ustring" where
  "argument_type_name h v =
     (case as_instance h v of
        Some (c, fs) \<Rightarrow> (case as_class h c of Some k \<Rightarrow> class_name k | None \<Rightarrow> [])
      | None \<Rightarrow> value_type_name h v)"

text \<open>The key of the jump table of a \<open>using\<close> statement that a value selects.\<close>

definition value_to_jump_key :: "object list \<Rightarrow> const \<Rightarrow> jump_key option panics" where
  "value_to_jump_key h v =
     (case v of
        KNil \<Rightarrow> Some (Some JNil)
      | KBool b \<Rightarrow> Some (Some (JBool b))
      | KNumber n \<Rightarrow> Some (Some (JNumber n))
      | KObj a \<Rightarrow>
          (case as_string h v of
             Some t \<Rightarrow> Some (Some (JStr t))
           | None \<Rightarrow>
               if as_instance h v = None then Some None
               else map_option (\<lambda>k. if methods k (str ''@eq'') \<noteq> None then Some JEqInstance else None)
                      (class_of h v)))"

section \<open>Text\<close>

text \<open>\<open>Display\<close>: \<open>shown\<close> is what Rust prints for a double and for an address.\<close>

definition show_int :: "int \<Rightarrow> ustring" where
  "show_int i = (if i < 0 then str ''-'' else []) @ show_nat (nat \<bar>i\<bar>)"

definition hex_byte :: "nat \<Rightarrow> ustring" where
  "hex_byte b = [digit_char (b div 16), digit_char (b mod 16)]"

primrec join_with :: "ustring \<Rightarrow> ustring list \<Rightarrow> ustring" where
  "join_with sep [] = []"
| "join_with sep (x # xs) = (if xs = [] then x else x @ sep @ join_with sep xs)"

definition show_function :: "ustring \<Rightarrow> nat \<Rightarrow> bool \<Rightarrow> ustring" where
  "show_function n params rest =
     str ''<function '' @ n @ str ''('' @ show_nat params @ (if rest then str ''...'' else []) @ str '')>''"

primrec display :: "(const \<Rightarrow> ustring) \<Rightarrow> nat \<Rightarrow> object list \<Rightarrow> const \<Rightarrow> ustring panics" where
  "display shown 0 h v = None"
| "display shown (Suc n) h v =
     (case v of
        KNumber x \<Rightarrow> Some (shown v)
      | KNil \<Rightarrow> Some (str ''nil'')
      | KBool b \<Rightarrow> Some (if b then str ''true'' else str ''false'')
      | KObj a \<Rightarrow>
          (case object_at h v of
             None \<Rightarrow> None
           | Some ob \<Rightarrow>
               (case ob of
                  ObjStr t \<Rightarrow> Some t
                | ObjBytes bs \<Rightarrow> Some (str ''('' @ join_with (str '' '') (map hex_byte bs) @ str '')'')
                | ObjBigInt i \<Rightarrow> Some (show_int i @ str ''n'')
                | ObjFunc f \<Rightarrow> Some (show_function (fn_name f) (arity f) (variadic f))
                | ObjClosure c us \<Rightarrow>
                    map_option (\<lambda>f. show_function (fn_name f) (arity f) (variadic f)) (as_func h c)
                | ObjNative f \<Rightarrow> Some (show_function (native_name f) (min_arity f) (native_variadic f))
                | ObjUpvalue u \<Rightarrow> Some (str ''<upvalue>'')
                | ObjBoundMethod r m \<Rightarrow> display shown n h m
                | ObjClass k \<Rightarrow> Some (str ''<class '' @ class_name k @ str ''>'')
                | ObjInstance c fs \<Rightarrow>
                    map_option (\<lambda>k. str ''<instance of '' @ class_name k @ str ''>'') (as_class h c)
                | ObjModule m \<Rightarrow> Some (str ''<module '' @ mod_name m @ str '' at '' @ mod_path m @ str ''>'')
                | ObjModuleBinding b \<Rightarrow>
                    map_option (\<lambda>m. str ''<module '' @ bind_name b @ str '' at '' @ mod_path m @ str ''>'')
                      (as_module h (bound_module b))
                | ObjList xs \<Rightarrow>
                    map_option (\<lambda>ts. str ''['' @ join_with (str '', '') ts @ str '']'')
                      (all_some (map (display shown n h) xs))
                | ObjDict d \<Rightarrow>
                    map_option (\<lambda>ts. str ''{'' @ join_with (str '', '') ts @ str ''}'')
                      (all_some (map (\<lambda>(k, w).
                         case (display shown n h k, display shown n h w) of
                           (Some s, Some t) \<Rightarrow> Some (s @ str '': '' @ t)
                         | _ \<Rightarrow> None) (entries d)))
                | ObjRange lo hi st \<Rightarrow>
                    Some (if f64_eq st (f64_of_int 1)
                          then shown (KNumber lo) @ str ''..'' @ shown (KNumber hi)
                          else str ''<range '' @ shown (KNumber lo) @ str ''..'' @ shown (KNumber hi) @
                            str '', step='' @ shown (KNumber st) @ str ''>'')
                | ObjFile path mode \<Rightarrow> Some (str ''<file at '' @ path @ str '' in mode '' @ mode @ str ''>'')
                | ObjPtr t \<Rightarrow> Some (str ''<ptr '' @ t @ str '' at '' @ shown v @ str ''>''))))"

end
