(* ===== verification/Machine_State.thy ===== *)
theory Machine_State
  imports Machine_Objects
begin

text \<open>
  The state of the virtual machine of \<open>src/vm/vm.rs\<close> and the operations that its instructions are
  made of: registers, globals, errors and their stack traces, captured variables, call frames
  and \<open>catch\<close> handlers. The collector and the JIT compiler are left out: the machine is the one
  that runs with \<open>ZURI_JIT\<close> off, its heap only grows, and \<open>write_barrier\<close> does nothing.
\<close>

section \<open>The state\<close>

text \<open>A frame names its function by the value of the prototype, where the source keeps a raw pointer.\<close>

record call_frame =
  fn_val :: const
  closure_val :: const
  frame_ip :: nat
  frame_base :: nat
  dst_in_caller :: nat

record catch_handler =
  frame_depth :: nat
  resume_ip :: nat
  var_reg :: "nat option"

text \<open>
  The innermost frame and the innermost handler come last. \<open>global_cache\<close> holds what the global
  instructions of each function have resolved to, \<open>printed\<close> what has been written out, a line
  each, and \<open>pending_error\<close> the error that a native has asked to raise again.
\<close>

record vm =
  registers :: "const list"
  open_upvalues :: "(nat \<times> const) list"
  frames :: "call_frame list"
  global_slots :: "const list"
  global_names :: "ustring \<rightharpoonup> nat"
  global_cache :: "const \<times> nat \<rightharpoonup> bool \<times> nat"
  catch_stack :: "catch_handler list"
  builtin_errors :: "ustring \<rightharpoonup> const"
  interned_ascii :: "const list"
  objs :: "object list"
  printed :: "ustring list"
  pending_error :: "const option"

text \<open>
  What an operation comes to: a result, an error of the language, a panic of the process
  (a checked index, a failed \<open>expect\<close>, \<open>unreachable!\<close>, an overflow of the native stack), an
  access that is undefined behaviour (an unchecked register index, a dangling pointer to a
  function), or the end of the fuel, which is no behaviour of the code.
\<close>

datatype 'a outcome = Done 'a vm | Raised const vm | Panic | Undefined | Unfinished

type_synonym 'a act = "vm \<Rightarrow> 'a outcome"

definition give :: "'a \<Rightarrow> 'a act" where
  "give x s = Done x s"

definition fail :: "const \<Rightarrow> 'a act" where
  "fail e s = Raised e s"

definition then_do :: "'a act \<Rightarrow> ('a \<Rightarrow> 'b act) \<Rightarrow> 'b act" where
  "then_do m k s =
     (case m s of
        Done x t \<Rightarrow> k x t
      | Raised e t \<Rightarrow> Raised e t
      | Panic \<Rightarrow> Panic
      | Undefined \<Rightarrow> Undefined
      | Unfinished \<Rightarrow> Unfinished)"

definition get :: "(vm \<Rightarrow> 'a) \<Rightarrow> 'a act" where
  "get f s = Done (f s) s"

definition change :: "(vm \<Rightarrow> vm) \<Rightarrow> unit act" where
  "change f s = Done () (f s)"

definition or_panic :: "'a panics \<Rightarrow> 'a act" where
  "or_panic x s = (case x of Some y \<Rightarrow> Done y s | None \<Rightarrow> Panic)"

definition or_undefined :: "'a option \<Rightarrow> 'a act" where
  "or_undefined x s = (case x of Some y \<Rightarrow> Done y s | None \<Rightarrow> Undefined)"

primrec each_do :: "('a \<Rightarrow> unit act) \<Rightarrow> 'a list \<Rightarrow> unit act" where
  "each_do f [] = give ()"
| "each_do f (x # xs) = then_do (f x) (\<lambda>_. each_do f xs)"

primrec map_do :: "('a \<Rightarrow> 'b act) \<Rightarrow> 'a list \<Rightarrow> 'b list act" where
  "map_do f [] = give []"
| "map_do f (x # xs) = then_do (f x) (\<lambda>y. then_do (map_do f xs) (\<lambda>ys. give (y # ys)))"

section \<open>Registers\<close>

text \<open>\<open>get_unchecked\<close>, and the checked index that the windows of calls go through.\<close>

definition get_reg :: "nat \<Rightarrow> nat \<Rightarrow> const act" where
  "get_reg base r = then_do (get registers) (\<lambda>rs. or_undefined (index rs (base + r)))"

definition set_reg :: "nat \<Rightarrow> nat \<Rightarrow> const \<Rightarrow> unit act" where
  "set_reg base r v s =
     (if base + r < length (registers s)
      then Done () (s\<lparr>registers := (registers s)[base + r := v]\<rparr>) else Undefined)"

definition read_register :: "nat \<Rightarrow> const act" where
  "read_register i = then_do (get registers) (\<lambda>rs. or_panic (index rs i))"

definition write_register :: "nat \<Rightarrow> const \<Rightarrow> unit act" where
  "write_register i v s =
     (if i < length (registers s) then Done () (s\<lparr>registers := (registers s)[i := v]\<rparr>) else Panic)"

definition read_registers :: "nat \<Rightarrow> nat \<Rightarrow> const list act" where
  "read_registers from to = then_do (get registers) (\<lambda>rs. or_panic (slice rs from to))"

text \<open>\<open>resize\<close> to at least \<open>needed\<close> registers, the new ones \<open>nil\<close>.\<close>

definition ensure_registers :: "nat \<Rightarrow> unit act" where
  "ensure_registers needed =
     change (\<lambda>s. s\<lparr>registers := registers s @ replicate (needed - length (registers s)) KNil\<rparr>)"

section \<open>The heap\<close>

definition alloc :: "object \<Rightarrow> const act" where
  "alloc ob s = Done (KObj (length (objs s))) (s\<lparr>objs := objs s @ [ob]\<rparr>)"

definition alloc_string :: "ustring \<Rightarrow> const act" where
  "alloc_string t = alloc (ObjStr t)"

text \<open>
  An object that is written in place, through an accessor of its kind: \<open>unreachable!\<close> on any other.
\<close>

definition store :: "const \<Rightarrow> object \<Rightarrow> unit act" where
  "store v ob s =
     (case v of
        KObj a \<Rightarrow>
          if a < length (objs s) \<and> object_tag (objs s ! a) = object_tag ob
          then Done () (s\<lparr>objs := (objs s)[a := ob]\<rparr>) else Panic
      | _ \<Rightarrow> Panic)"

abbreviation look :: "(object list \<Rightarrow> const \<Rightarrow> 'a) \<Rightarrow> const \<Rightarrow> 'a act" where
  "look f v \<equiv> get (\<lambda>s. f (objs s) v)"

abbreviation accessed :: "(object list \<Rightarrow> const \<Rightarrow> 'a option) \<Rightarrow> const \<Rightarrow> 'a act" where
  "accessed f v \<equiv> then_do (look f v) or_panic"

definition update_class :: "const \<Rightarrow> (obj_class \<Rightarrow> obj_class) \<Rightarrow> unit act" where
  "update_class v f = then_do (accessed as_class v) (\<lambda>k. store v (ObjClass (f k)))"

definition update_module :: "const \<Rightarrow> (obj_module \<Rightarrow> obj_module) \<Rightarrow> unit act" where
  "update_module v f = then_do (accessed as_module v) (\<lambda>m. store v (ObjModule (f m)))"

definition set_field :: "const \<Rightarrow> nat \<Rightarrow> const \<Rightarrow> unit act" where
  "set_field v i x =
     then_do (accessed as_instance v) (\<lambda>(c, fs).
       if i < length fs then store v (ObjInstance c (fs[i := x])) else or_panic None)"

definition get_field :: "const \<Rightarrow> nat \<Rightarrow> const act" where
  "get_field v i = then_do (accessed as_instance v) (\<lambda>(c, fs). or_panic (index fs i))"

text \<open>\<open>Heap::alloc_instance\<close>: every field \<open>nil\<close>, then the defaults if no initializer has to run.\<close>

primrec apply_defaults :: "(nat \<times> const) list \<Rightarrow> const list \<Rightarrow> const list panics" where
  "apply_defaults [] fs = Some fs"
| "apply_defaults (d # ds) fs =
     (if fst d < length fs then apply_defaults ds (fs[fst d := snd d]) else None)"

definition alloc_instance :: "const \<Rightarrow> nat \<Rightarrow> const act" where
  "alloc_instance class count =
     then_do (accessed as_class class) (\<lambda>k.
     then_do (or_panic (if runs_initializers k then Some (replicate count KNil)
                        else apply_defaults (defaults k) (replicate count KNil))) (\<lambda>fs.
     alloc (ObjInstance class fs)))"

definition alloc_dict :: "(const \<times> const) list \<Rightarrow> const act" where
  "alloc_dict pairs =
     then_do (get (\<lambda>s. from_pairs (objs s) pairs)) (\<lambda>d. then_do (or_panic d) (\<lambda>d. alloc (ObjDict d)))"

section \<open>Globals\<close>

definition get_or_create_global_slot :: "ustring \<Rightarrow> nat act" where
  "get_or_create_global_slot n s =
     (case global_names s n of
        Some i \<Rightarrow> Done i s
      | None \<Rightarrow>
          (let i = as_u32 (length (global_slots s))
           in Done i (s\<lparr>global_slots := global_slots s @ [KNil], global_names := (global_names s)(n \<mapsto> i)\<rparr>)))"

definition set_global_slot :: "nat \<Rightarrow> const \<Rightarrow> unit act" where
  "set_global_slot i v s =
     (if i < length (global_slots s)
      then Done () (s\<lparr>global_slots := (global_slots s)[i := v]\<rparr>) else Panic)"

definition define_global :: "ustring \<Rightarrow> const \<Rightarrow> unit act" where
  "define_global n v = then_do (get_or_create_global_slot n) (\<lambda>i. set_global_slot i v)"

definition get_or_create_slot_in :: "const option \<Rightarrow> ustring \<Rightarrow> nat act" where
  "get_or_create_slot_in m n =
     (case m of
        None \<Rightarrow> get_or_create_global_slot n
      | Some v \<Rightarrow>
          then_do (accessed as_module v) (\<lambda>m.
            let (i, ns) = get_or_create_slot n (namespace m)
            in then_do (store v (ObjModule (m\<lparr>namespace := ns\<rparr>))) (\<lambda>_. give i)))"

definition lookup_slot_in :: "const option \<Rightarrow> ustring \<Rightarrow> nat option act" where
  "lookup_slot_in m n =
     (case m of
        None \<Rightarrow> get (\<lambda>s. global_names s n)
      | Some v \<Rightarrow> then_do (accessed as_module v) (\<lambda>m. give (map_of (names (namespace m)) n)))"

definition write_slot_in :: "const option \<Rightarrow> nat \<Rightarrow> const \<Rightarrow> unit act" where
  "write_slot_in m i x =
     (case m of
        None \<Rightarrow> set_global_slot i x
      | Some v \<Rightarrow>
          then_do (accessed as_module v) (\<lambda>m.
            let ns = namespace m
            in if i < length (slots ns)
               then store v (ObjModule (m\<lparr>namespace := ns\<lparr>slots := (slots ns)[i := x]\<rparr>\<rparr>))
               else or_panic None))"

text \<open>The slot of a name, and whether it is one of the root table.\<close>

definition resolve_global :: "const option \<Rightarrow> ustring \<Rightarrow> (bool \<times> nat) option act" where
  "resolve_global m n =
     then_do (get (\<lambda>s. map_option (\<lambda>i. (True, i)) (global_names s n))) (\<lambda>root.
       case m of
         None \<Rightarrow> give root
       | Some v \<Rightarrow>
           then_do (accessed as_module v) (\<lambda>m.
             give (case map_of (names (namespace m)) n of Some i \<Rightarrow> Some (False, i) | None \<Rightarrow> root)))"

definition read_resolved :: "const option \<Rightarrow> bool \<Rightarrow> nat \<Rightarrow> const act" where
  "read_resolved m is_root i =
     (if is_root then then_do (get global_slots) (\<lambda>gs. or_panic (index gs i))
      else
        then_do (or_panic m) (\<lambda>v.
        then_do (accessed as_module v) (\<lambda>m. or_panic (index (slots (namespace m)) i))))"

definition write_resolved :: "const option \<Rightarrow> bool \<Rightarrow> nat \<Rightarrow> const \<Rightarrow> unit act" where
  "write_resolved m is_root i x =
     (if is_root then set_global_slot i x
      else then_do (or_panic m) (\<lambda>v. write_slot_in (Some v) i x))"

definition cached_global :: "const \<Rightarrow> nat \<Rightarrow> (bool \<times> nat) option act" where
  "cached_global f ip = get (\<lambda>s. global_cache s (f, ip))"

definition cache_global :: "const \<Rightarrow> nat \<Rightarrow> bool \<times> nat \<Rightarrow> unit act" where
  "cache_global f ip r = change (\<lambda>s. s\<lparr>global_cache := (global_cache s)((f, ip) \<mapsto> r)\<rparr>)"

section \<open>Errors\<close>

text \<open>One line of a stack trace: \<open>path:line -> name()\<close>.\<close>

definition frame_location :: "obj_function \<Rightarrow> nat \<Rightarrow> ustring" where
  "frame_location f ip =
     (let ls = code_lines (fn_chunk f); ln = (if ip - 1 < length ls then ls ! (ip - 1) else 0)
      in fn_source_path f @ str '':'' @ show_nat ln @ str '' -> '' @ fn_name f @ str ''()'')"

definition frame_locations :: "ustring list act" where
  "frame_locations =
     then_do (get (\<lambda>s. all_some (map (\<lambda>fr.
         map_option (\<lambda>f. frame_location f (frame_ip fr)) (as_func (objs s) (fn_val fr)))
       (rev (frames s))))) or_undefined"

definition build_stacktrace :: "const act" where
  "build_stacktrace =
     then_do frame_locations (\<lambda>ls.
     then_do (map_do alloc_string ls) (\<lambda>vs. alloc (ObjList vs)))"

text \<open>A field of an instance by name, written if its class has it.\<close>

definition set_named_field :: "const \<Rightarrow> ustring \<Rightarrow> const \<Rightarrow> unit act" where
  "set_named_field v n x =
     then_do (accessed class_of v) (\<lambda>k.
       case field_slots k n of Some i \<Rightarrow> set_field v i x | None \<Rightarrow> give ())"

definition attach_stacktrace :: "const \<Rightarrow> const act" where
  "attach_stacktrace v =
     then_do build_stacktrace (\<lambda>trace.
     then_do (look as_instance v) (\<lambda>inst.
     then_do (if inst = None then give () else set_named_field v (str ''stacktrace'') trace) (\<lambda>_.
     give v)))"

definition make_error :: "ustring \<Rightarrow> ustring \<Rightarrow> const act" where
  "make_error class msg =
     then_do (get (\<lambda>s. builtin_errors s class)) (\<lambda>c.
     then_do (or_panic c) (\<lambda>c.
     then_do (accessed as_class c) (\<lambda>k.
     then_do (alloc_instance c (field_count k)) (\<lambda>v.
     then_do (alloc_string msg) (\<lambda>m.
     then_do (alloc_string class) (\<lambda>t.
     then_do (set_named_field v (str ''message'') m) (\<lambda>_.
     then_do (set_named_field v (str ''type'') t) (\<lambda>_.
     attach_stacktrace v))))))))"

definition raise :: "ustring \<Rightarrow> ustring \<Rightarrow> 'a act" where
  "raise class msg = then_do (make_error class msg) fail"

abbreviation type_error :: "ustring \<Rightarrow> 'a act" where
  "type_error msg \<equiv> raise (str ''TypeError'') msg"

definition is_error_value :: "const \<Rightarrow> bool act" where
  "is_error_value v =
     then_do (look as_instance v) (\<lambda>inst.
       case inst of
         None \<Rightarrow> give False
       | Some (c, fs) \<Rightarrow>
           then_do (get (\<lambda>s. builtin_errors s (str ''Error''))) (\<lambda>e.
             case e of
               None \<Rightarrow> give False
             | Some e \<Rightarrow> then_do (get (\<lambda>s. descends_from (objs s) c e)) or_panic))"

definition is_instance_of :: "const \<Rightarrow> const \<Rightarrow> bool act" where
  "is_instance_of v target =
     then_do (look as_class target) (\<lambda>k.
       if k = None then give False
       else
         then_do (accessed as_instance v) (\<lambda>(c, fs).
         then_do (get (\<lambda>s. descends_from (objs s) c target)) or_panic))"

text \<open>A name in the constant pool.\<close>

definition no_name :: "'a act" where
  "no_name = type_error (str ''expected a string constant for a global name'')"

definition const_at :: "obj_function \<Rightarrow> nat \<Rightarrow> const act" where
  "const_at f ix = or_panic (index (constants (fn_chunk f)) ix)"

definition const_as_str :: "obj_function \<Rightarrow> nat \<Rightarrow> ustring act" where
  "const_as_str f ix =
     then_do (const_at f ix) (\<lambda>v.
     then_do (look as_string v) (\<lambda>t. case t of Some t \<Rightarrow> give t | None \<Rightarrow> no_name))"

section \<open>Captured variables\<close>

definition capture_upvalue :: "nat \<Rightarrow> const act" where
  "capture_upvalue abs_index =
     then_do (get (\<lambda>s. map_of (open_upvalues s) abs_index)) (\<lambda>known.
       case known of
         Some v \<Rightarrow> give v
       | None \<Rightarrow>
           then_do (alloc (ObjUpvalue (Open abs_index))) (\<lambda>v.
           then_do (change (\<lambda>s. s\<lparr>open_upvalues := open_upvalues s @ [(abs_index, v)]\<rparr>)) (\<lambda>_.
           give v)))"

definition swap_remove :: "nat \<Rightarrow> 'a list \<Rightarrow> 'a list" where
  "swap_remove i xs = (butlast xs)[i := last xs]"

text \<open>
  The loop of \<open>close_upvalues_from_slow\<close>, from the \<open>i\<close>-th open upvalue on. An upvalue that is
  closed leaves the list, with the last one in its place, so that the next round looks there.
\<close>

function close_loop ::
  "nat \<Rightarrow> const list \<Rightarrow> nat \<Rightarrow> (nat \<times> const) list \<Rightarrow> object list \<Rightarrow> ((nat \<times> const) list \<times> object list) panics"
where
  "close_loop from regs i open_ups h =
     (if i < length open_ups then
        (let (ix, v) = open_ups ! i
         in if from \<le> ix then
              (case (index regs ix, v, as_upvalue h v) of
                 (Some x, KObj a, Some u) \<Rightarrow>
                   close_loop from regs i (swap_remove i open_ups) (h[a := ObjUpvalue (Closed x)])
               | _ \<Rightarrow> None)
            else close_loop from regs (i + 1) open_ups h)
      else Some (open_ups, h))"
  by auto

termination
  by (relation "measure (\<lambda>(from, regs, i, open_ups, h). length open_ups - i)")
    (auto simp: swap_remove_def)

declare close_loop.simps [simp del]

definition close_upvalues_from :: "nat \<Rightarrow> unit act" where
  "close_upvalues_from from s =
     (case close_loop from (registers s) 0 (open_upvalues s) (objs s) of
        None \<Rightarrow> Panic
      | Some (open_ups, h) \<Rightarrow> Done () (s\<lparr>open_upvalues := open_ups, objs := h\<rparr>))"

definition read_upvalue :: "const \<Rightarrow> const act" where
  "read_upvalue v =
     then_do (accessed as_upvalue v) (\<lambda>u.
       case u of Open i \<Rightarrow> read_register i | Closed x \<Rightarrow> give x)"

definition write_upvalue :: "const \<Rightarrow> const \<Rightarrow> unit act" where
  "write_upvalue v x =
     then_do (accessed as_upvalue v) (\<lambda>u.
       case u of Open i \<Rightarrow> write_register i x | Closed y \<Rightarrow> store v (ObjUpvalue (Closed x)))"

section \<open>Frames and handlers\<close>

definition push_frame :: "call_frame \<Rightarrow> unit act" where
  "push_frame fr = change (\<lambda>s. s\<lparr>frames := frames s @ [fr]\<rparr>)"

definition top_frame :: "call_frame act" where
  "top_frame = then_do (get frames) (\<lambda>fs. or_panic (if fs = [] then None else Some (last fs)))"

text \<open>The function of a frame, through its raw pointer.\<close>

definition frame_function :: "call_frame \<Rightarrow> obj_function act" where
  "frame_function fr = then_do (look as_func (fn_val fr)) or_undefined"

definition frame_top :: "call_frame \<Rightarrow> nat act" where
  "frame_top fr = then_do (frame_function fr) (\<lambda>f. give (frame_base fr + num_registers f))"

definition set_ip :: "nat \<Rightarrow> unit act" where
  "set_ip ip = change (\<lambda>s. s\<lparr>frames := butlast (frames s) @ map (frame_ip_update (\<lambda>_. ip)) [last (frames s)]\<rparr>)"

text \<open>The handlers of frames that are gone.\<close>

definition drop_handlers :: "nat \<Rightarrow> catch_handler list \<Rightarrow> catch_handler list" where
  "drop_handlers n hs = rev (dropWhile (\<lambda>h. n < frame_depth h) (rev hs))"

definition pop_frame_inner :: "call_frame act" where
  "pop_frame_inner s =
     (if frames s = [] then Panic
      else
        Done (last (frames s))
          (s\<lparr>frames := butlast (frames s),
             catch_stack := drop_handlers (length (frames s) - 1) (catch_stack s)\<rparr>))"

definition push_catch :: "nat option \<Rightarrow> nat \<Rightarrow> unit act" where
  "push_catch var resume =
     change (\<lambda>s. s\<lparr>catch_stack := catch_stack s @
       [\<lparr>frame_depth = length (frames s), resume_ip = resume, var_reg = var\<rparr>]\<rparr>)"

definition pop_catch :: "unit act" where
  "pop_catch = change (\<lambda>s. s\<lparr>catch_stack := butlast (catch_stack s)\<rparr>)"

text \<open>
  An error goes to the innermost handler, if it belongs to a frame of the run that is going on,
  which is one above \<open>stop_depth\<close>; otherwise it leaves the run.
\<close>

definition handle_error :: "const \<Rightarrow> nat \<Rightarrow> unit act" where
  "handle_error exc stop_depth =
     then_do (get catch_stack) (\<lambda>hs.
       if hs = [] \<or> \<not> stop_depth < frame_depth (last hs) then fail exc
       else
         (let handler = last hs in
          then_do pop_catch (\<lambda>_.
          then_do (get frames) (\<lambda>fs.
          then_do (if frame_depth handler < length fs
                   then close_upvalues_from (frame_base (fs ! frame_depth handler))
                   else give ()) (\<lambda>_.
          then_do (change (\<lambda>s. s\<lparr>frames := take (frame_depth handler) (frames s)\<rparr>)) (\<lambda>_.
          then_do top_frame (\<lambda>fr.
          then_do (set_ip (resume_ip handler)) (\<lambda>_.
            case var_reg handler of
              Some r \<Rightarrow> set_reg (frame_base fr) r exc
            | None \<Rightarrow> give ()))))))))"


end
