(* ===== verification/Machine_Calls.thy ===== *)
theory Machine_Calls
  imports Machine_State
begin

text \<open>
  Calls and operators of \<open>src/vm/vm.rs\<close>: natives, closures, classes and bound methods, the
  operators with their overrides, indexing and slicing, and \<open>echo\<close>. A call that has to run to its
  end before the instruction goes on is made through \<open>call\<close>, which is \<open>call_value\<close> itself with
  less fuel.
\<close>

section \<open>What the machine is given\<close>

text \<open>
  The standard library's text of a double and of an address and its power of doubles, the
  operations of the crate \<open>num-bigint\<close> (its shift by a negative count panics), the depth of the
  native stack, and the parts of the program that are not modelled: the tables of builtin
  methods, the natives, which may call back, and the loading of modules.
\<close>

type_synonym caller = "const \<Rightarrow> const list \<Rightarrow> const act"

record host =
  shown :: "const \<Rightarrow> ustring"
  powf :: "f64 \<Rightarrow> f64 \<Rightarrow> f64"
  big_quot :: "int \<Rightarrow> int \<Rightarrow> int"
  big_mod :: "int \<Rightarrow> int \<Rightarrow> int"
  big_power :: "int \<Rightarrow> nat \<Rightarrow> int"
  big_bitwise :: "binary_op \<Rightarrow> int \<Rightarrow> int \<Rightarrow> int panics"
  stack_depth :: nat
  builtin_method :: "object list \<Rightarrow> const \<Rightarrow> ustring \<Rightarrow> native_function option"
  run_native :: "native_function \<Rightarrow> caller \<Rightarrow> const list \<Rightarrow> (ustring + const) act"
  import_module :: "caller \<Rightarrow> ustring \<Rightarrow> ustring \<Rightarrow> const act"

definition unfinished :: "'a act" where
  "unfinished s = Unfinished"

abbreviation type_name_of :: "const \<Rightarrow> ustring act" where
  "type_name_of v \<equiv> look value_type_name v"

definition text_of_value :: "host \<Rightarrow> const \<Rightarrow> ustring act" where
  "text_of_value H v = then_do (get (\<lambda>s. display (shown H) (stack_depth H) (objs s) v)) or_panic"

definition values_equal :: "host \<Rightarrow> const \<Rightarrow> const \<Rightarrow> bool act" where
  "values_equal H a b = then_do (get (\<lambda>s. equals (stack_depth H) (objs s) a b)) or_panic"

section \<open>Calls\<close>

definition native_arity_ok :: "native_function \<Rightarrow> nat \<Rightarrow> bool" where
  "native_arity_ok f n =
     (if native_variadic f then min_arity f \<le> n mod 256 else n mod 256 = min_arity f)"

definition arity_message :: "native_function \<Rightarrow> nat \<Rightarrow> ustring" where
  "arity_message f n =
     (let least = (if native_variadic f then str ''at least '' else []);
          plural = (\<lambda>k. if k = 1 then [] else str ''s'')
      in if native_is_method f then
           quoted (native_name f) @ str '' expects '' @ least @ show_nat (min_arity f - 1) @
           str '' argument'' @ plural (min_arity f - 1) @ str '', got '' @ show_nat (n mod 256 - 1)
         else
           native_name f @ str ''() expects '' @ least @ show_nat (min_arity f) @
           str '' argument'' @ plural (min_arity f) @ str '', got '' @ show_nat n)"

definition call_native :: "host \<Rightarrow> caller \<Rightarrow> native_function \<Rightarrow> const list \<Rightarrow> const act" where
  "call_native H call f args =
     (if \<not> native_arity_ok f (length args)
      then raise (str ''ArgumentError'') (arity_message f (length args))
      else
        then_do (run_native H f call args) (\<lambda>result.
        then_do (get pending_error) (\<lambda>propagated.
        then_do (change (\<lambda>s. s\<lparr>pending_error := None\<rparr>)) (\<lambda>_.
          case result of
            Inr v \<Rightarrow> give v
          | Inl msg \<Rightarrow> (case propagated of Some e \<Rightarrow> fail e | None \<Rightarrow> raise (str ''Error'') msg)))))"

text \<open>The parameters of a function that are not the rest of the arguments.\<close>

definition required_args :: "obj_function \<Rightarrow> nat act" where
  "required_args f = (if variadic f then or_panic (usub (arity f) 1) else give (arity f))"

definition frame_for :: "const \<Rightarrow> const \<Rightarrow> nat \<Rightarrow> nat \<Rightarrow> call_frame" where
  "frame_for f callee base dst =
     \<lparr>fn_val = f, closure_val = callee, frame_ip = 0, frame_base = base, dst_in_caller = dst\<rparr>"

text \<open>
  \<open>call_value\<close>: the frame of a closure starts past what the innermost frame reaches, and runs
  to its end.
\<close>

definition place_args :: "obj_function \<Rightarrow> nat \<Rightarrow> const list \<Rightarrow> unit act" where
  "place_args f base args =
     then_do (required_args f) (\<lambda>required.
     then_do (ensure_registers (base + num_registers f)) (\<lambda>_.
     then_do (each_do (\<lambda>i. write_register (base + i) (if i < length args then args ! i else KNil))
                [0..<required]) (\<lambda>_.
       if variadic f then
         then_do (alloc (ObjList (drop required args))) (\<lambda>rest. write_register (base + required) rest)
       else give ())))"

definition call_closure :: "(nat \<Rightarrow> const act) \<Rightarrow> const \<Rightarrow> const \<Rightarrow> const list \<Rightarrow> const act" where
  "call_closure run callee fv args =
     then_do (accessed as_func fv) (\<lambda>f.
     then_do (get frames) (\<lambda>fs.
     then_do (if fs = [] then give 0 else frame_top (last fs)) (\<lambda>base.
     then_do (place_args f base args) (\<lambda>_.
     then_do (push_frame (frame_for fv callee base 0)) (\<lambda>_.
     run (length fs))))))"

text \<open>The classes of a line of descent, from the class up to its root.\<close>

primrec lineage_in :: "nat \<Rightarrow> object list \<Rightarrow> const \<Rightarrow> (const \<times> obj_class) list panics" where
  "lineage_in 0 h c = None"
| "lineage_in (Suc n) h c =
     (case as_class h c of
        None \<Rightarrow> None
      | Some k \<Rightarrow>
          (case superclass_of k of
             None \<Rightarrow> Some [(c, k)]
           | Some p \<Rightarrow> map_option (\<lambda>ks. (c, k) # ks) (lineage_in n h p)))"

text \<open>
  \<open>instantiate\<close>: when some class of the line has an initializer, each class applies its own
  defaults and runs its initializer, the root first; then the constructor.
\<close>

definition initialize_field :: "caller \<Rightarrow> const \<Rightarrow> (const option \<times> const option) \<Rightarrow> unit act" where
  "initialize_field call v step =
     then_do
       (case fst step of
          None \<Rightarrow> give ()
        | Some c \<Rightarrow>
            then_do (accessed as_class c) (\<lambda>k.
            each_do (\<lambda>d. set_field v (fst d) (snd d)) (own_defaults k))) (\<lambda>_.
       case snd step of
         None \<Rightarrow> give ()
       | Some init \<Rightarrow> then_do (call init [v]) (\<lambda>_. give ()))"

definition instantiate :: "caller \<Rightarrow> const \<Rightarrow> const list \<Rightarrow> const act" where
  "instantiate call class args =
     then_do (accessed as_class class) (\<lambda>k.
     then_do (if runs_initializers k
              then then_do (get (\<lambda>s. lineage_in (length (objs s)) (objs s) class)) or_panic
              else give []) (\<lambda>line.
     then_do (alloc_instance class (field_count k)) (\<lambda>v.
     then_do (each_do (initialize_field call v)
                (map (\<lambda>(c, k). (if own_defaults k = [] then None else Some c, own_field_initializer k))
                  (rev line))) (\<lambda>_.
     then_do (case constructor_of k of
                None \<Rightarrow> give ()
              | Some ctor \<Rightarrow> then_do (call ctor (v # args)) (\<lambda>_. give ())) (\<lambda>_.
     give v)))))"

definition not_callable :: "const \<Rightarrow> 'a act" where
  "not_callable v =
     then_do (type_name_of v) (\<lambda>t. type_error (str ''cannot call object of type '' @ t))"

definition module_not_callable :: "module_binding \<Rightarrow> 'a act" where
  "module_not_callable b = type_error (str ''module '' @ quoted (bind_name b) @ str '' is not callable'')"

definition call_value :: "host \<Rightarrow> caller \<Rightarrow> (nat \<Rightarrow> const act) \<Rightarrow> const \<Rightarrow> const list \<Rightarrow> const act" where
  "call_value H call run callee args =
     then_do (look object_at callee) (\<lambda>ob.
       case ob of
         Some (ObjNative f) \<Rightarrow> call_native H call f args
       | Some (ObjClosure fv us) \<Rightarrow> call_closure run callee fv args
       | Some (ObjBoundMethod r m) \<Rightarrow> call m (r # args)
       | Some (ObjClass k) \<Rightarrow> instantiate call callee args
       | Some (ObjModuleBinding b) \<Rightarrow>
           (case promoted b of Some f \<Rightarrow> call f args | None \<Rightarrow> module_not_callable b)
       | _ \<Rightarrow> not_callable callee)"

text \<open>\<open>setup_closure_call\<close>: the arguments are in the window of the callee already.\<close>

definition setup_closure_call :: "const \<Rightarrow> const \<Rightarrow> obj_function \<Rightarrow> nat \<Rightarrow> nat \<Rightarrow> nat \<Rightarrow> unit act" where
  "setup_closure_call callee fv f base num_args dst =
     then_do (get (\<lambda>s. length (registers s))) (\<lambda>n.
       if \<not> variadic f \<and> num_args = arity f \<and> base + num_registers f \<le> n
       then push_frame (frame_for fv callee base dst)
       else
         then_do (required_args f) (\<lambda>required.
         then_do (ensure_registers (base + num_registers f)) (\<lambda>_.
         then_do (each_do (\<lambda>i. write_register (base + i) KNil) [num_args..<required]) (\<lambda>_.
         then_do
           (if variadic f then
              then_do (map_do (\<lambda>i. read_register (base + required + i)) [0..<num_args - required]) (\<lambda>items.
              then_do (alloc (ObjList items)) (\<lambda>rest. write_register (base + required) rest))
            else give ()) (\<lambda>_.
         push_frame (frame_for fv callee base dst))))))"

text \<open>
  \<open>dispatch_call\<close>. A closure is left on the frames for the loop to go on with; everything else
  is done at once. \<open>again\<close> is the dispatch itself, for the function a module stands for.
\<close>

definition call_args :: "nat \<Rightarrow> nat \<Rightarrow> nat \<Rightarrow> const list act" where
  "call_args base func num_args = read_registers (base + func + 1) (base + func + 1 + num_args)"

definition dispatch_callee :: "host \<Rightarrow> caller \<Rightarrow> unit act \<Rightarrow> nat \<Rightarrow> nat \<Rightarrow> nat \<Rightarrow> nat \<Rightarrow> unit act" where
  "dispatch_callee H call again base func num_args dst =
     then_do (get_reg base func) (\<lambda>callee.
     then_do (look object_at callee) (\<lambda>ob.
       case ob of
         Some (ObjNative f) \<Rightarrow>
           then_do (call_args base func num_args) (\<lambda>args.
           then_do (call_native H call f args) (\<lambda>v. set_reg base dst v))
       | Some (ObjClass k) \<Rightarrow>
           then_do (call_args base func num_args) (\<lambda>args.
           then_do (instantiate call callee args) (\<lambda>v. set_reg base dst v))
       | Some (ObjBoundMethod r m) \<Rightarrow>
           then_do (call_args base func num_args) (\<lambda>args.
           then_do (call m (r # args)) (\<lambda>v. set_reg base dst v))
       | Some (ObjClosure fv us) \<Rightarrow>
           then_do (accessed as_func fv) (\<lambda>f.
             setup_closure_call callee fv f (base + func + 1) num_args dst)
       | Some (ObjModuleBinding b) \<Rightarrow>
           (case promoted b of
              Some f \<Rightarrow> then_do (set_reg base func f) (\<lambda>_. again)
            | None \<Rightarrow> module_not_callable b)
       | _ \<Rightarrow> not_callable callee))"

text \<open>What a module stands for is never a module itself, so that one more round is enough.\<close>

definition dispatch_call :: "host \<Rightarrow> caller \<Rightarrow> nat \<Rightarrow> nat \<Rightarrow> nat \<Rightarrow> nat \<Rightarrow> unit act" where
  "dispatch_call H call base func num_args dst =
     dispatch_callee H call (dispatch_callee H call unfinished base func num_args dst)
       base func num_args dst"

definition invoke_prebound :: "nat \<Rightarrow> nat \<Rightarrow> const \<Rightarrow> nat \<Rightarrow> nat \<Rightarrow> unit act" where
  "invoke_prebound base recv callee num_args dst =
     then_do (look as_closure callee) (\<lambda>c.
       case c of
         None \<Rightarrow> not_callable callee
       | Some (fv, us) \<Rightarrow>
           then_do (accessed as_func fv) (\<lambda>f.
             setup_closure_call callee fv f (base + recv + 1) (1 + num_args) dst))"

section \<open>Operators\<close>

text \<open>A class or a builtin type may define the operator of its left operand.\<close>

definition try_operator_override ::
  "host \<Rightarrow> caller \<Rightarrow> const \<Rightarrow> string \<Rightarrow> const list \<Rightarrow> const option act" where
  "try_operator_override H call receiver deco extra =
     then_do (look as_instance receiver) (\<lambda>inst.
       if inst \<noteq> None then
         then_do (accessed class_of receiver) (\<lambda>k.
           case methods k (str deco) of
             Some m \<Rightarrow> then_do (call m (receiver # extra)) (\<lambda>v. give (Some v))
           | None \<Rightarrow> give None)
       else
         then_do (get (\<lambda>s. builtin_method H (objs s) receiver (str deco))) (\<lambda>f.
           case f of
             Some f \<Rightarrow> then_do (call_native H call f (receiver # extra)) (\<lambda>v. give (Some v))
           | None \<Rightarrow> give None))"

text \<open>The end of an operator that no rule of its own applies to.\<close>

definition overridden_or ::
  "host \<Rightarrow> caller \<Rightarrow> const \<Rightarrow> string \<Rightarrow> const list \<Rightarrow> const act \<Rightarrow> const act" where
  "overridden_or H call receiver deco extra otherwise =
     then_do (try_operator_override H call receiver deco extra) (\<lambda>r.
       case r of Some v \<Rightarrow> give v | None \<Rightarrow> otherwise)"

definition no_operator :: "string \<Rightarrow> const \<Rightarrow> const \<Rightarrow> const act" where
  "no_operator op a b =
     then_do (look argument_type_name a) (\<lambda>s.
     then_do (look argument_type_name b) (\<lambda>t.
       type_error (str ''operator '' @ quoted (str op) @ str '' not defined for call signature ('' @
         s @ str '', '' @ t @ str '')'')))"

text \<open>A big integer that an operator makes, or the error that it gives instead.\<close>

definition big_message :: "big_error \<Rightarrow> ustring" where
  "big_message e =
     (case e of
        DivisionByZero \<Rightarrow> str ''bigint division by zero''
      | ModuloByZero \<Rightarrow> str ''bigint modulo by zero''
      | NegativeExponent \<Rightarrow> str ''bigint '' @ quoted (str ''**'') @ str '' does not accept a negative exponent''
      | ExponentTooLarge \<Rightarrow> str ''bigint '' @ quoted (str ''**'') @ str '' exponent is too large'')"

definition big_result :: "big_error + int \<Rightarrow> const act" where
  "big_result r =
     (case r of
        Inr i \<Rightarrow> alloc (ObjBigInt i)
      | Inl e \<Rightarrow> raise (str ''RangeError'') (big_message e))"

definition on_numbers ::
  "host \<Rightarrow> caller \<Rightarrow> string \<Rightarrow> string \<Rightarrow> (f64 \<Rightarrow> f64 \<Rightarrow> const) \<Rightarrow> (int \<Rightarrow> int \<Rightarrow> const act) \<Rightarrow>
     (const \<Rightarrow> const \<Rightarrow> const act) \<Rightarrow> const \<Rightarrow> const \<Rightarrow> const act" where
  "on_numbers H call op deco f g otherwise a b =
     then_do (get (\<lambda>s. (as_bigint (objs s) a, as_bigint (objs s) b))) (\<lambda>(i, j).
       case (a, b) of
         (KNumber x, KNumber y) \<Rightarrow> give (f x y)
       | _ \<Rightarrow>
           if i \<noteq> None \<and> j \<noteq> None then g (the i) (the j)
           else overridden_or H call a deco [b] (otherwise a b))"

definition binary_numeric ::
  "host \<Rightarrow> caller \<Rightarrow> string \<Rightarrow> string \<Rightarrow> (f64 \<Rightarrow> f64 \<Rightarrow> f64) \<Rightarrow> (int \<Rightarrow> int \<Rightarrow> big_error + int) \<Rightarrow>
     const \<Rightarrow> const \<Rightarrow> const act" where
  "binary_numeric H call op deco f g a b =
     on_numbers H call op deco (\<lambda>x y. number (f x y)) (\<lambda>i j. big_result (g i j)) (no_operator op) a b"

definition bitwise_numeric ::
  "host \<Rightarrow> caller \<Rightarrow> string \<Rightarrow> string \<Rightarrow> (int \<Rightarrow> int \<Rightarrow> int) \<Rightarrow> binary_op \<Rightarrow> const \<Rightarrow> const \<Rightarrow> const act" where
  "bitwise_numeric H call op deco f big a b =
     on_numbers H call op deco
       (\<lambda>x y. number (f64_of_int (f (num_to_wrapped_i64 x) (num_to_wrapped_i64 y))))
       (\<lambda>i j. then_do (or_panic (big_bitwise H big i j)) (\<lambda>r. alloc (ObjBigInt r)))
       (no_operator op) a b"

definition compare ::
  "host \<Rightarrow> caller \<Rightarrow> string \<Rightarrow> string \<Rightarrow> (f64 \<Rightarrow> f64 \<Rightarrow> bool) \<Rightarrow> (int \<Rightarrow> int \<Rightarrow> bool) \<Rightarrow>
     const \<Rightarrow> const \<Rightarrow> const act" where
  "compare H call op deco f g a b =
     on_numbers H call op deco (\<lambda>x y. KBool (f x y)) (\<lambda>i j. give (KBool (g i j)))
       (\<lambda>a b.
          then_do (look argument_type_name a) (\<lambda>s.
          then_do (look argument_type_name b) (\<lambda>t.
            type_error (str ''operator '' @ quoted (str op) @ str '' not defined for '' @ s @
              str '' and '' @ t)))) a b"

definition concat_values :: "host \<Rightarrow> const \<Rightarrow> const \<Rightarrow> const act" where
  "concat_values H a b =
     then_do (text_of_value H a) (\<lambda>s. then_do (text_of_value H b) (\<lambda>t. alloc_string (s @ t)))"

text \<open>\<open>Heap::concat_strings\<close> gives one string itself when the other is empty.\<close>

definition add_otherwise :: "host \<Rightarrow> const \<Rightarrow> const \<Rightarrow> const act" where
  "add_otherwise H a b =
     then_do (get objs) (\<lambda>h.
       case (object_at h a, object_at h b) of
         (Some (ObjStr s), Some (ObjStr t)) \<Rightarrow>
           (if t = [] then give a else if s = [] then give b else alloc_string (s @ t))
       | (Some (ObjStr s), _) \<Rightarrow> concat_values H a b
       | (_, Some (ObjStr t)) \<Rightarrow> concat_values H a b
       | (Some (ObjList xs), Some (ObjList ys)) \<Rightarrow> alloc (ObjList (xs @ ys))
       | (Some (ObjBytes xs), Some (ObjBytes ys)) \<Rightarrow> alloc (ObjBytes (xs @ ys))
       | _ \<Rightarrow> no_operator ''+'' a b)"

definition binary_add_values :: "host \<Rightarrow> caller \<Rightarrow> const \<Rightarrow> const \<Rightarrow> const act" where
  "binary_add_values H call a b =
     on_numbers H call ''+'' ''@add'' (\<lambda>x y. number (f64_add x y)) (\<lambda>i j. alloc (ObjBigInt (i + j)))
       (add_otherwise H) a b"

text \<open>
  A string or a list times a number repeats it; a count past what a \<open>usize\<close> holds gives none.
  A result of more bytes than an \<open>isize\<close> counts is a panic.
\<close>

definition utf8_len :: "uchar \<Rightarrow> nat" where
  "utf8_len c = (if c < 0x80 then 1 else if c < 0x800 then 2 else if c < 0x10000 then 3 else 4)"

definition repeated :: "nat \<Rightarrow> nat \<Rightarrow> 'a list \<Rightarrow> 'a list panics" where
  "repeated bytes n xs =
     (if n < 2 ^ 64 - 1 then (if n * bytes < 2 ^ 63 then Some (concat (replicate n xs)) else None)
      else Some [])"

definition repeat_or :: "const \<Rightarrow> f64 \<Rightarrow> const act \<Rightarrow> const act" where
  "repeat_or a y otherwise =
     then_do (look object_at a) (\<lambda>ob.
       case ob of
         Some (ObjStr t) \<Rightarrow>
           then_do (or_panic (repeated (sum_list (map utf8_len t)) (f64_as_usize y) t)) alloc_string
       | Some (ObjList xs) \<Rightarrow>
           then_do (or_panic (repeated (8 * length xs) (f64_as_usize y) xs)) (\<lambda>ys. alloc (ObjList ys))
       | _ \<Rightarrow> otherwise)"

definition binary_mult :: "host \<Rightarrow> caller \<Rightarrow> const \<Rightarrow> const \<Rightarrow> const act" where
  "binary_mult H call a b =
     (let general = on_numbers H call ''*'' ''@mul'' (\<lambda>x y. number (f64_mul x y))
                      (\<lambda>i j. alloc (ObjBigInt (i * j))) (no_operator ''*'') a b
      in case b of KNumber y \<Rightarrow> repeat_or a y general | _ \<Rightarrow> general)"

text \<open>The instructions on a register and a number of the pool.\<close>

definition imm_numeric ::
  "host \<Rightarrow> caller \<Rightarrow> string \<Rightarrow> string \<Rightarrow> (f64 \<Rightarrow> f64 \<Rightarrow> const) \<Rightarrow> string \<Rightarrow> string \<Rightarrow> f64 \<Rightarrow> const \<Rightarrow> const act" where
  "imm_numeric H call op deco f mid tail imm a =
     (case a of
        KNumber x \<Rightarrow> give (f x imm)
      | _ \<Rightarrow>
          overridden_or H call a deco [number imm]
            (then_do (look argument_type_name a) (\<lambda>s.
               type_error (str ''operator '' @ quoted (str op) @ str mid @ s @ str tail))))"

definition binary_numeric_imm ::
  "host \<Rightarrow> caller \<Rightarrow> string \<Rightarrow> string \<Rightarrow> (f64 \<Rightarrow> f64 \<Rightarrow> f64) \<Rightarrow> f64 \<Rightarrow> const \<Rightarrow> const act" where
  "binary_numeric_imm H call op deco f =
     imm_numeric H call op deco (\<lambda>x y. number (f x y)) '' not defined for call signature ('' '', float)''"

definition compare_imm ::
  "host \<Rightarrow> caller \<Rightarrow> string \<Rightarrow> string \<Rightarrow> (f64 \<Rightarrow> f64 \<Rightarrow> bool) \<Rightarrow> f64 \<Rightarrow> const \<Rightarrow> const act" where
  "compare_imm H call op deco f =
     imm_numeric H call op deco (\<lambda>x y. KBool (f x y)) '' not defined for '' '' and float''"

text \<open>\<open>==\<close>, which a class may define for a left operand of its own and an object on the right.\<close>

definition eq_overridden :: "const \<Rightarrow> const \<Rightarrow> bool act" where
  "eq_overridden a b =
     then_do (look as_instance a) (\<lambda>inst.
       if inst \<noteq> None \<and> (case b of KObj p \<Rightarrow> True | _ \<Rightarrow> False)
       then then_do (accessed class_of a) (\<lambda>k. give (methods k (str ''@eq'') \<noteq> None))
       else give False)"

definition call_eq :: "caller \<Rightarrow> const \<Rightarrow> const \<Rightarrow> bool act" where
  "call_eq call a b =
     then_do (accessed class_of a) (\<lambda>k.
     then_do (or_panic (methods k (str ''@eq''))) (\<lambda>m.
     then_do (call m [a, b]) (\<lambda>r.
       case r of
         KBool x \<Rightarrow> give x
       | _ \<Rightarrow> then_do (type_name_of r) (\<lambda>t. type_error (str ''@eq() must return a bool, got '' @ t)))))"

definition operator_equals :: "host \<Rightarrow> caller \<Rightarrow> const \<Rightarrow> const \<Rightarrow> bool act" where
  "operator_equals H call a b =
     then_do (eq_overridden a b) (\<lambda>over. if over then call_eq call a b else values_equal H a b)"

section \<open>Indexing and slicing\<close>

definition value_as_index :: "host \<Rightarrow> const \<Rightarrow> int act" where
  "value_as_index H v =
     (case v of
        KNumber n \<Rightarrow>
          if f64_eq (f64_of_int (f64_as_i64 n)) n then give (f64_as_i64 n)
          else type_error (str ''index must be an integer, got '' @ shown H v)
      | _ \<Rightarrow> then_do (type_name_of v) (\<lambda>t. type_error (str ''index must be a number, got '' @ t)))"

definition coerce_index :: "host \<Rightarrow> const \<Rightarrow> nat \<Rightarrow> nat act" where
  "coerce_index H v n =
     then_do (value_as_index H v) (\<lambda>i.
       let i = (if i < 0 then i + int n else i)
       in if i < 0 \<or> int n \<le> i
          then raise (str ''RangeError'')
            (str ''index '' @ show_int i @ str '' out of bounds (length '' @ show_nat n @ str '')'')
          else give (nat i))"

definition slice_bound :: "host \<Rightarrow> nat \<Rightarrow> const \<Rightarrow> nat \<Rightarrow> nat act" where
  "slice_bound H missing v n =
     (if v = KNil then give missing
      else then_do (value_as_index H v) (\<lambda>i. give (nat (if i < 0 then max (i + int n) 0 else i))))"

definition resolve_slice_bounds :: "host \<Rightarrow> const \<Rightarrow> const \<Rightarrow> nat \<Rightarrow> (nat \<times> nat) option act" where
  "resolve_slice_bounds H lo hi n =
     (if n = 0 then give None
      else
        then_do (slice_bound H 0 lo n) (\<lambda>i.
        then_do (slice_bound H n hi n) (\<lambda>j.
          if n < i \<or> n < j
          then raise (str ''RangeError'')
            (str ''slice bounds '' @ show_nat i @ str ''..'' @ show_nat j @ str '' out of range (length '' @
              show_nat n @ str '')'')
          else if j \<le> i then give None
          else give (Some (i, j)))))"

definition interned_char :: "uchar \<Rightarrow> const act" where
  "interned_char c =
     (if c < 128 then then_do (get interned_ascii) (\<lambda>cs. or_panic (index cs c)) else alloc_string [c])"

definition string_char_at :: "host \<Rightarrow> ustring \<Rightarrow> const \<Rightarrow> uchar act" where
  "string_char_at H t v =
     then_do (value_as_index H v) (\<lambda>raw.
       if 0 \<le> raw \<and> list_all (\<lambda>c. c < 128) t \<and> nat raw < length t then give (t ! nat raw)
       else then_do (coerce_index H v (length t)) (\<lambda>i. or_panic (index t i)))"

definition undefined_key :: "host \<Rightarrow> const \<Rightarrow> 'a act" where
  "undefined_key H k =
     then_do (text_of_value H k) (\<lambda>t.
       raise (str ''PropertyError'') (str ''undefined key '' @ quoted t @ str '' in dict''))"

definition read_key :: "host \<Rightarrow> dict_storage \<Rightarrow> const \<Rightarrow> const act" where
  "read_key H d k =
     then_do (get (\<lambda>s. dict_get (objs s) d k)) (\<lambda>r.
     then_do (or_panic r) (\<lambda>r. case r of Some v \<Rightarrow> give v | None \<Rightarrow> undefined_key H k))"

definition write_key :: "const \<Rightarrow> dict_storage \<Rightarrow> const \<Rightarrow> const \<Rightarrow> unit act" where
  "write_key v d k x =
     then_do (get (\<lambda>s. dict_set (objs s) k x d)) (\<lambda>r. then_do (or_panic r) (\<lambda>d. store v (ObjDict d)))"

definition index_get :: "host \<Rightarrow> const \<Rightarrow> const \<Rightarrow> const act" where
  "index_get H v i =
     then_do (look object_at v) (\<lambda>ob.
       case ob of
         Some (ObjList xs) \<Rightarrow> then_do (coerce_index H i (length xs)) (\<lambda>j. or_panic (index xs j))
       | Some (ObjBytes bs) \<Rightarrow>
           then_do (coerce_index H i (length bs)) (\<lambda>j.
           then_do (or_panic (index bs j)) (\<lambda>b. give (number (f64_of_int (int b)))))
       | Some (ObjStr t) \<Rightarrow> then_do (string_char_at H t i) interned_char
       | Some (ObjDict d) \<Rightarrow> read_key H d i
       | _ \<Rightarrow> then_do (type_name_of v) (\<lambda>t. type_error (str ''cannot index into a '' @ t)))"

definition byte_of :: "host \<Rightarrow> const \<Rightarrow> nat act" where
  "byte_of H x =
     (case x of
        KNumber n \<Rightarrow>
          if f64_eq (f64_fract n) 0 \<and> f64_le 0 n \<and> f64_le n (f64_of_int 255)
          then give (f64_as_unsigned 255 n)
          else raise (str ''NumericError'') (str ''bytes element must be an integer in 0..=255, got '' @ shown H x)
      | _ \<Rightarrow> then_do (type_name_of x) (\<lambda>t. type_error (str ''bytes element must be a number, got '' @ t)))"

definition index_set :: "host \<Rightarrow> const \<Rightarrow> const \<Rightarrow> const \<Rightarrow> unit act" where
  "index_set H v i x =
     then_do (look object_at v) (\<lambda>ob.
       case ob of
         Some (ObjList xs) \<Rightarrow> then_do (coerce_index H i (length xs)) (\<lambda>j. store v (ObjList (xs[j := x])))
       | Some (ObjBytes bs) \<Rightarrow>
           then_do (coerce_index H i (length bs)) (\<lambda>j.
           then_do (byte_of H x) (\<lambda>b. store v (ObjBytes (bs[j := b]))))
       | Some (ObjDict d) \<Rightarrow> write_key v d i x
       | Some (ObjStr t) \<Rightarrow> type_error (str ''strings are immutable and do not support index assignment'')
       | _ \<Rightarrow> then_do (type_name_of v) (\<lambda>t. type_error (str ''cannot assign into a '' @ t)))"

definition slice_of :: "host \<Rightarrow> 'a list \<Rightarrow> const \<Rightarrow> const \<Rightarrow> 'a list act" where
  "slice_of H xs lo hi =
     then_do (resolve_slice_bounds H lo hi (length xs)) (\<lambda>r.
       case r of None \<Rightarrow> give [] | Some (i, j) \<Rightarrow> or_panic (slice xs i j))"

definition index_slice :: "host \<Rightarrow> const \<Rightarrow> const \<Rightarrow> const \<Rightarrow> const act" where
  "index_slice H v lo hi =
     then_do (look object_at v) (\<lambda>ob.
       case ob of
         Some (ObjList xs) \<Rightarrow> then_do (slice_of H xs lo hi) (\<lambda>ys. alloc (ObjList ys))
       | Some (ObjBytes bs) \<Rightarrow> then_do (slice_of H bs lo hi) (\<lambda>ys. alloc (ObjBytes ys))
       | Some (ObjStr t) \<Rightarrow> then_do (slice_of H t lo hi) alloc_string
       | _ \<Rightarrow> then_do (type_name_of v) (\<lambda>t. type_error (str ''cannot slice a '' @ t)))"

end
