(* ===== verification/Machine.thy ===== *)
theory Machine
  imports Machine_Calls
begin

text \<open>
  The interpreter loop of \<open>src/vm/vm.rs\<close>: what each instruction does, one turn of the loop, and
  the run of a program. The locals of the source's \<open>run_until\<close> cache the fields of the innermost
  frame and are read from it here. The inline caches of field and method sites, which only skip
  a lookup, the feedback for the JIT compiler, signals and calls from other threads are left out.
\<close>

section \<open>Printing\<close>

text \<open>Whether showing a value runs an \<open>@to_string\<close> of the program.\<close>

primrec any_holds :: "('a \<Rightarrow> bool panics) \<Rightarrow> 'a list \<Rightarrow> bool panics" where
  "any_holds f [] = Some False"
| "any_holds f (x # xs) =
     (case f x of None \<Rightarrow> None | Some b \<Rightarrow> if b then Some True else any_holds f xs)"

primrec shows_through_to_string :: "nat \<Rightarrow> object list \<Rightarrow> const \<Rightarrow> bool panics" where
  "shows_through_to_string 0 h v = None"
| "shows_through_to_string (Suc n) h v =
     (case object_at h v of
        Some (ObjInstance c fs) \<Rightarrow> map_option (\<lambda>k. methods k (str ''@to_string'') \<noteq> None) (as_class h c)
      | Some (ObjList xs) \<Rightarrow> any_holds (shows_through_to_string n h) xs
      | Some (ObjDict d) \<Rightarrow>
          any_holds (shows_through_to_string n h) (concat (map (\<lambda>(k, w). [k, w]) (entries d)))
      | _ \<Rightarrow> Some False)"

definition shows_through :: "host \<Rightarrow> const \<Rightarrow> bool act" where
  "shows_through H v = then_do (get (\<lambda>s. shows_through_to_string (stack_depth H) (objs s) v)) or_panic"

text \<open>
  \<open>write_printable\<close>: a list or a dictionary is read afresh at every step, since an \<open>@to_string\<close>
  may change it. The fuel bounds the nesting and the steps together.
\<close>

fun render :: "host \<Rightarrow> caller \<Rightarrow> nat \<Rightarrow> const \<Rightarrow> ustring act"
  and render_list :: "host \<Rightarrow> caller \<Rightarrow> nat \<Rightarrow> const \<Rightarrow> nat \<Rightarrow> ustring act"
  and render_dict :: "host \<Rightarrow> caller \<Rightarrow> nat \<Rightarrow> const \<Rightarrow> nat \<Rightarrow> ustring act"
where
  "render H call 0 v = unfinished"
| "render H call (Suc n) v =
     then_do (shows_through H v) (\<lambda>through.
       if \<not> through then text_of_value H v
       else
         then_do (look object_at v) (\<lambda>ob.
           case ob of
             Some (ObjInstance c fs) \<Rightarrow>
               then_do (accessed as_class c) (\<lambda>k.
               then_do (or_panic (methods k (str ''@to_string''))) (\<lambda>m.
               then_do (call m [v]) (\<lambda>r.
               then_do (look as_string r) (\<lambda>t.
                 case t of
                   Some t \<Rightarrow> give t
                 | None \<Rightarrow>
                     then_do (type_name_of r) (\<lambda>t.
                       type_error (str ''@to_string() must return a string, got '' @ t))))))
           | Some (ObjList xs) \<Rightarrow>
               then_do (render_list H call n v 0) (\<lambda>t. give (str ''['' @ t @ str '']''))
           | _ \<Rightarrow> then_do (render_dict H call n v 0) (\<lambda>t. give (str ''{'' @ t @ str ''}''))))"
| "render_list H call 0 v i = unfinished"
| "render_list H call (Suc n) v i =
     then_do (accessed as_list v) (\<lambda>xs.
       if i < length xs then
         then_do (render H call n (xs ! i)) (\<lambda>t.
         then_do (render_list H call n v (i + 1)) (\<lambda>ts.
         give ((if 0 < i then str '', '' else []) @ t @ ts)))
       else give [])"
| "render_dict H call 0 v i = unfinished"
| "render_dict H call (Suc n) v i =
     then_do (accessed as_dict v) (\<lambda>d.
       if i < length (entries d) then
         (let (k, w) = entries d ! i in
          then_do (render H call n k) (\<lambda>s.
          then_do (render H call n w) (\<lambda>t.
          then_do (render_dict H call n v (i + 1)) (\<lambda>ts.
          give ((if 0 < i then str '', '' else []) @ s @ str '': '' @ t @ ts)))))
       else give [])"

definition print_line :: "ustring \<Rightarrow> unit act" where
  "print_line t = change (\<lambda>s. s\<lparr>printed := printed s @ [t]\<rparr>)"

definition echo :: "host \<Rightarrow> caller \<Rightarrow> const \<Rightarrow> unit act" where
  "echo H call v =
     then_do (shows_through H v) (\<lambda>through.
     then_do (if through then render H call (stack_depth H) v else text_of_value H v) print_line)"

section \<open>Parameters with types\<close>

definition is_iterable :: "const \<Rightarrow> bool act" where
  "is_iterable v =
     then_do (look object_at v) (\<lambda>ob.
       case ob of
         Some (ObjInstance c fs) \<Rightarrow>
           then_do (accessed as_class c) (\<lambda>k.
             give (methods k (str ''@key'') \<noteq> None \<and> methods k (str ''@value'') \<noteq> None))
       | Some (ObjList xs) \<Rightarrow> give True
       | Some (ObjDict d) \<Rightarrow> give True
       | Some (ObjStr t) \<Rightarrow> give True
       | Some (ObjBytes bs) \<Rightarrow> give True
       | Some (ObjRange lo hi st) \<Rightarrow> give True
       | _ \<Rightarrow> give False)"

text \<open>What a global instruction reads: its own cell, or the table by name.\<close>

definition undefined_global :: "ustring \<Rightarrow> 'a act" where
  "undefined_global n = raise (str ''UndefinedError'') (str ''undefined global '' @ quoted n)"

definition resolve_at :: "obj_function \<Rightarrow> const \<Rightarrow> nat \<Rightarrow> ustring act \<Rightarrow> (bool \<times> nat) act" where
  "resolve_at f fv at name =
     then_do (cached_global fv at) (\<lambda>known.
       case known of
         Some r \<Rightarrow> give r
       | None \<Rightarrow>
           then_do name (\<lambda>n.
           then_do (resolve_global (globals_module f) n) (\<lambda>r.
             case r of
               None \<Rightarrow> undefined_global n
             | Some r \<Rightarrow> then_do (cache_global fv at r) (\<lambda>_. give r))))"

definition param_type_matches :: "const \<Rightarrow> param_type \<Rightarrow> obj_function \<Rightarrow> call_frame \<Rightarrow> nat \<Rightarrow> bool act" where
  "param_type_matches v t f fr at =
     (case t of
        PtBool \<Rightarrow> give (case v of KBool b \<Rightarrow> True | _ \<Rightarrow> False)
      | PtInt \<Rightarrow> give (case v of KNumber n \<Rightarrow> f64_eq (f64_fract n) 0 | _ \<Rightarrow> False)
      | PtNumber \<Rightarrow> give (case v of KNumber n \<Rightarrow> True | _ \<Rightarrow> False)
      | PtBigInt \<Rightarrow> get (\<lambda>s. as_bigint (objs s) v \<noteq> None)
      | PtString \<Rightarrow> get (\<lambda>s. as_string (objs s) v \<noteq> None)
      | PtBytes \<Rightarrow> get (\<lambda>s. as_bytes (objs s) v \<noteq> None)
      | PtList \<Rightarrow> get (\<lambda>s. as_list (objs s) v \<noteq> None)
      | PtDict \<Rightarrow> get (\<lambda>s. as_dict (objs s) v \<noteq> None)
      | PtRange \<Rightarrow> get (\<lambda>s. as_range (objs s) v \<noteq> None)
      | PtFile \<Rightarrow> get (\<lambda>s. is_file (objs s) v)
      | PtFunction \<Rightarrow>
          get (\<lambda>s. as_closure (objs s) v \<noteq> None \<or> as_native (objs s) v \<noteq> None \<or>
                   as_bound_method (objs s) v \<noteq> None)
      | PtClass \<Rightarrow> get (\<lambda>s. as_class (objs s) v \<noteq> None)
      | PtCallable \<Rightarrow> get (\<lambda>s. is_callable (objs s) v)
      | PtIterable \<Rightarrow> is_iterable v
      | PtInstance name \<Rightarrow>
          then_do (look as_instance v) (\<lambda>inst.
            if inst = None then give False
            else
              then_do (resolve_at f (fn_val fr) at
                         (then_do (const_at f name) (\<lambda>n. accessed as_string n))) (\<lambda>(is_root, i).
              then_do (read_resolved (globals_module f) is_root i) (\<lambda>target. is_instance_of v target)))
      | PtCaptured u name \<Rightarrow>
          then_do (look as_instance v) (\<lambda>inst.
            if inst = None then give False
            else
              then_do (accessed as_closure (closure_val fr)) (\<lambda>(c, ups).
              then_do (or_panic (index ups u)) (\<lambda>cell.
              then_do (look as_upvalue cell) (\<lambda>state.
                if state = None then give False
                else then_do (read_upvalue cell) (\<lambda>target. is_instance_of v target))))))"

primrec some_type_matches ::
  "const \<Rightarrow> param_type list \<Rightarrow> obj_function \<Rightarrow> call_frame \<Rightarrow> nat \<Rightarrow> bool act" where
  "some_type_matches v [] f fr at = give False"
| "some_type_matches v (t # ts) f fr at =
     then_do (param_type_matches v t f fr at) (\<lambda>b. if b then give True else some_type_matches v ts f fr at)"

definition check_param_type :: "obj_function \<Rightarrow> call_frame \<Rightarrow> nat \<Rightarrow> const \<Rightarrow> nat \<Rightarrow> unit act" where
  "check_param_type f fr at v ix =
     then_do (or_panic (index (param_checks (fn_chunk f)) ix)) (\<lambda>check.
       if nullable check \<and> v = KNil then give ()
       else
         then_do (some_type_matches v (param_types check) f fr at) (\<lambda>matched.
           if matched then give ()
           else
             then_do (type_name_of v) (\<lambda>t.
             then_do (get (\<lambda>s. \<lambda>n. case index (constants (fn_chunk f)) n of
                                 Some c \<Rightarrow> (case as_string (objs s) c of Some t \<Rightarrow> t | None \<Rightarrow> [])
                               | None \<Rightarrow> [])) (\<lambda>name_of.
               type_error (fn_name f @ str ''() expects parameter '' @ quoted (param_name check) @
                 str '' (argument '' @ show_nat (position_of check) @ str '') to be '' @
                 describe_param_types name_of (param_types check) @ str '', got '' @ t)))))"

section \<open>Fields\<close>

definition no_property :: "ustring \<Rightarrow> ustring \<Rightarrow> 'a act" where
  "no_property what n = raise (str ''PropertyError'') (what @ n)"

definition lookup_static :: "const \<Rightarrow> ustring \<Rightarrow> const act" where
  "lookup_static c n =
     then_do (get (\<lambda>s. find_static (objs s) n c)) (\<lambda>r.
     then_do (or_panic r) (\<lambda>r.
       case r of
         Some (d, i) \<Rightarrow> then_do (accessed as_class d) (\<lambda>k. or_panic (index (statics k) i))
       | None \<Rightarrow>
           then_do (accessed as_class c) (\<lambda>k.
             no_property (str ''undefined static member '' @ quoted n @ str '' on class '')
               (quoted (class_name k)))))"

definition set_static :: "const \<Rightarrow> ustring \<Rightarrow> const \<Rightarrow> unit act" where
  "set_static c n x =
     then_do (get (\<lambda>s. find_static (objs s) n c)) (\<lambda>r.
     then_do (or_panic r) (\<lambda>r.
       case r of
         Some (d, i) \<Rightarrow>
           then_do (accessed as_class d) (\<lambda>k.
             if i < length (statics k) then store d (ObjClass (k\<lparr>statics := (statics k)[i := x]\<rparr>))
             else or_panic None)
       | None \<Rightarrow>
           then_do (accessed as_class c) (\<lambda>k.
             no_property (str ''undefined static member '' @ quoted n @ str '' on class '')
               (quoted (class_name k)))))"

text \<open>A static method, read or called through its class, gets \<open>nil\<close> for \<open>self\<close>.\<close>

definition is_method_closure :: "const \<Rightarrow> bool act" where
  "is_method_closure v =
     then_do (look as_closure v) (\<lambda>c.
       case c of
         None \<Rightarrow> give False
       | Some (fv, us) \<Rightarrow> then_do (accessed as_func fv) (\<lambda>f. give (fn_is_method f)))"

definition module_member :: "const \<Rightarrow> ustring \<Rightarrow> const option act" where
  "module_member m n = then_do (accessed as_module m) (\<lambda>m. or_panic (get_public (namespace m) n))"

definition get_property :: "host \<Rightarrow> const \<Rightarrow> const \<Rightarrow> ustring \<Rightarrow> const act" where
  "get_property H v name_val n =
     then_do (look object_at v) (\<lambda>ob.
       case ob of
         Some (ObjInstance c fs) \<Rightarrow>
           then_do (accessed as_class c) (\<lambda>k.
             case field_slots k n of
               Some i \<Rightarrow> or_panic (index fs i)
             | None \<Rightarrow>
                 (case methods k n of
                    Some m \<Rightarrow> alloc (ObjBoundMethod v m)
                  | None \<Rightarrow>
                      no_property (str ''undefined property '' @ quoted n @ str '' on instance of '')
                        (quoted (class_name k))))
       | Some (ObjClass k) \<Rightarrow>
           then_do (lookup_static v n) (\<lambda>raw.
           then_do (is_method_closure raw) (\<lambda>m. if m then alloc (ObjBoundMethod KNil raw) else give raw))
       | Some (ObjModule m) \<Rightarrow>
           then_do (module_member v n) (\<lambda>r.
             case r of
               Some x \<Rightarrow> give x
             | None \<Rightarrow> no_property (str ''module '' @ quoted (mod_name m) @ str '' has no member '') (quoted n))
       | Some (ObjModuleBinding b) \<Rightarrow>
           then_do (accessed as_module (bound_module b)) (\<lambda>m.
           then_do (module_member (bound_module b) n) (\<lambda>r.
             case r of
               Some x \<Rightarrow> give x
             | None \<Rightarrow> no_property (str ''module '' @ quoted (mod_name m) @ str '' has no member '') (quoted n)))
       | Some (ObjDict d) \<Rightarrow> read_key H d name_val
       | _ \<Rightarrow>
           then_do (type_name_of v) (\<lambda>t.
             type_error (str ''cannot read property '' @ quoted n @ str '' on a '' @ t)))"

definition set_property :: "const \<Rightarrow> const \<Rightarrow> ustring \<Rightarrow> const \<Rightarrow> unit act" where
  "set_property v name_val n x =
     then_do (look object_at v) (\<lambda>ob.
       case ob of
         Some (ObjInstance c fs) \<Rightarrow>
           then_do (accessed as_class c) (\<lambda>k.
             case field_slots k n of
               Some i \<Rightarrow> set_field v i x
             | None \<Rightarrow>
                 no_property (str ''undefined field '' @ quoted n @ str '' on instance of '')
                   (quoted (class_name k)))
       | Some (ObjClass k) \<Rightarrow> set_static v n x
       | Some (ObjModule m) \<Rightarrow>
           raise (str ''AccessError'') (str ''cannot assign to a module member from outside the module'')
       | Some (ObjModuleBinding b) \<Rightarrow>
           raise (str ''AccessError'') (str ''cannot assign to a module member from outside the module'')
       | Some (ObjDict d) \<Rightarrow> write_key v d name_val x
       | _ \<Rightarrow>
           then_do (type_name_of v) (\<lambda>t.
             type_error (str ''cannot set property '' @ quoted n @ str '' on a '' @ t)))"

section \<open>Methods\<close>

text \<open>A builtin method of the receiver, its arguments after the receiver in the window.\<close>

definition invoke_builtin ::
  "host \<Rightarrow> caller \<Rightarrow> nat \<Rightarrow> nat \<Rightarrow> const \<Rightarrow> ustring \<Rightarrow> nat \<Rightarrow> nat \<Rightarrow> unit act \<Rightarrow> unit act" where
  "invoke_builtin H call base recv v n num_args dst otherwise =
     then_do (get (\<lambda>s. builtin_method H (objs s) v n)) (\<lambda>f.
       case f of
         None \<Rightarrow> otherwise
       | Some f \<Rightarrow>
           then_do (read_registers (base + recv + 2) (base + recv + 2 + num_args)) (\<lambda>args.
           then_do (call_native H call f (v # args)) (\<lambda>r. set_reg base dst r)))"

text \<open>A value that is called in place of a method: it goes where the receiver was copied to.\<close>

definition call_member :: "host \<Rightarrow> caller \<Rightarrow> nat \<Rightarrow> nat \<Rightarrow> const \<Rightarrow> nat \<Rightarrow> nat \<Rightarrow> unit act" where
  "call_member H call base recv x num_args dst =
     then_do (set_reg base (recv + 1) x) (\<lambda>_. dispatch_call H call base (recv + 1) num_args dst)"

definition invoke_module ::
  "host \<Rightarrow> caller \<Rightarrow> nat \<Rightarrow> nat \<Rightarrow> const \<Rightarrow> const \<Rightarrow> ustring \<Rightarrow> nat \<Rightarrow> nat \<Rightarrow> unit act" where
  "invoke_module H call base recv v m n num_args dst =
     then_do (module_member m n) (\<lambda>r.
       case r of
         Some x \<Rightarrow> call_member H call base recv x num_args dst
       | None \<Rightarrow>
           invoke_builtin H call base recv v n num_args dst
             (then_do (accessed as_module m) (\<lambda>m.
                no_property (str ''undefined member '' @ quoted n @ str '' on module '') (mod_name m))))"

definition invoke :: "host \<Rightarrow> caller \<Rightarrow> nat \<Rightarrow> nat \<Rightarrow> ustring \<Rightarrow> nat \<Rightarrow> nat \<Rightarrow> unit act" where
  "invoke H call base recv n num_args dst =
     then_do (get_reg base recv) (\<lambda>v.
     then_do (look object_at v) (\<lambda>ob.
       case ob of
         Some (ObjInstance c fs) \<Rightarrow>
           then_do (accessed as_class c) (\<lambda>k.
             case methods k n of
               Some m \<Rightarrow> invoke_prebound base recv m num_args dst
             | None \<Rightarrow>
                 (case field_slots k n of
                    Some i \<Rightarrow>
                      then_do (or_panic (index fs i)) (\<lambda>x. call_member H call base recv x num_args dst)
                  | None \<Rightarrow>
                      invoke_builtin H call base recv v n num_args dst
                        (no_property (str ''undefined property '' @ quoted n @ str '' on instance of '')
                          (quoted (class_name k)))))
       | Some (ObjClass k) \<Rightarrow>
           then_do (lookup_static v n) (\<lambda>x.
           then_do (is_method_closure x) (\<lambda>m.
             if m then invoke_prebound base recv x num_args dst
             else call_member H call base recv x num_args dst))
       | Some (ObjModule m) \<Rightarrow> invoke_module H call base recv v v n num_args dst
       | Some (ObjModuleBinding b) \<Rightarrow> invoke_module H call base recv v (bound_module b) n num_args dst
       | _ \<Rightarrow>
           invoke_builtin H call base recv v n num_args dst
             (then_do (type_name_of v) (\<lambda>t.
                type_error (str ''object of type '' @ t @ str '' does not define method '' @ quoted n)))))"

definition not_a_parent :: "const \<Rightarrow> 'a act" where
  "not_a_parent v =
     then_do (type_name_of v) (\<lambda>t.
       type_error (quoted (str ''parent'') @ str '' does not refer to a class (got a '' @ t @ str '')''))"

definition no_super_method :: "ustring \<Rightarrow> obj_class \<Rightarrow> 'a act" where
  "no_super_method n k =
     no_property (str ''undefined method '' @ quoted n @ str '' on superclass '') (quoted (class_name k))"

definition invoke_super ::
  "host \<Rightarrow> caller \<Rightarrow> obj_function \<Rightarrow> nat \<Rightarrow> nat \<Rightarrow> nat \<Rightarrow> nat \<Rightarrow> nat \<Rightarrow> unit act" where
  "invoke_super H call f base super name num_args dst =
     then_do (get_reg base super) (\<lambda>v.
     then_do (look as_class v) (\<lambda>k.
       case k of
         None \<Rightarrow> not_a_parent v
       | Some k \<Rightarrow>
           then_do (const_as_str f name) (\<lambda>n.
             case methods k n of
               Some m \<Rightarrow> invoke_prebound base super m num_args dst
             | None \<Rightarrow>
                 then_do (get_reg base (super + 1)) (\<lambda>self.
                 then_do (look as_instance self) (\<lambda>inst.
                   case inst of
                     None \<Rightarrow> no_super_method n k
                   | Some (c, fs) \<Rightarrow>
                       then_do (accessed as_class c) (\<lambda>own.
                         case field_slots own n of
                           None \<Rightarrow> no_super_method n k
                         | Some i \<Rightarrow>
                             then_do (or_panic (index fs i)) (\<lambda>x.
                               call_member H call base super x num_args dst)))))))"

definition call_super_ctor :: "nat \<Rightarrow> nat \<Rightarrow> nat \<Rightarrow> nat \<Rightarrow> unit act" where
  "call_super_ctor base super num_args dst =
     then_do (get_reg base super) (\<lambda>v.
     then_do (look as_class v) (\<lambda>k.
       case k of
         None \<Rightarrow> not_a_parent v
       | Some k \<Rightarrow>
           (case constructor_of k of
              Some ctor \<Rightarrow> invoke_prebound base super ctor num_args dst
            | None \<Rightarrow>
                raise (str ''AccessError'')
                  (str ''class '' @ quoted (class_name k) @ str '' has no constructor to call via parent()''))))"

section \<open>Classes\<close>

definition class_from :: "obj_function \<Rightarrow> ustring \<Rightarrow> const option \<Rightarrow> obj_class option \<Rightarrow> obj_class" where
  "class_from f n super s =
     \<lparr>class_name = n, superclass_of = super,
      methods = (case s of Some k \<Rightarrow> methods k | None \<Rightarrow> Map.empty),
      field_slots = (case s of Some k \<Rightarrow> field_slots k | None \<Rightarrow> Map.empty),
      field_count = (case s of Some k \<Rightarrow> field_count k | None \<Rightarrow> 0),
      own_field_initializer = None, own_defaults = [],
      defaults = (case s of Some k \<Rightarrow> defaults k | None \<Rightarrow> []),
      runs_initializers = (case s of Some k \<Rightarrow> runs_initializers k | None \<Rightarrow> False),
      constructor_of = (case s of Some k \<Rightarrow> constructor_of k | None \<Rightarrow> None),
      static_slots = Map.empty, statics = [], class_module = globals_module f, finalized = False\<rparr>"

definition make_class :: "obj_function \<Rightarrow> nat \<Rightarrow> nat \<Rightarrow> nat \<Rightarrow> nat option \<Rightarrow> unit act" where
  "make_class f base dst name super =
     then_do (const_as_str f name) (\<lambda>n.
       case super of
         None \<Rightarrow> then_do (alloc (ObjClass (class_from f n None None))) (\<lambda>c. set_reg base dst c)
       | Some r \<Rightarrow>
           then_do (get_reg base r) (\<lambda>v.
           then_do (look as_class v) (\<lambda>k.
             case k of
               None \<Rightarrow>
                 then_do (type_name_of v) (\<lambda>t.
                   type_error (str ''superclass of '' @ quoted n @ str '' is not a class (got a '' @ t @ str '')''))
             | Some k \<Rightarrow>
                 then_do (alloc (ObjClass (class_from f n (Some v) (Some k)))) (\<lambda>c. set_reg base dst c))))"

definition declare_field :: "ustring \<Rightarrow> obj_class \<Rightarrow> obj_class" where
  "declare_field n k =
     (if field_slots k n \<noteq> None then k
      else k\<lparr>field_slots := (field_slots k)(n \<mapsto> field_count k), field_count := as_u16 (field_count k + 1)\<rparr>)"

definition field_default :: "ustring \<Rightarrow> const \<Rightarrow> obj_class \<Rightarrow> obj_class" where
  "field_default n v k =
     (case field_slots k n of Some slot \<Rightarrow> set_field_default slot v k | None \<Rightarrow> k)"

definition field_initializer :: "const \<Rightarrow> obj_class \<Rightarrow> obj_class" where
  "field_initializer init k = k\<lparr>own_field_initializer := Some init, runs_initializers := True\<rparr>"

definition install_method :: "ustring \<Rightarrow> const \<Rightarrow> obj_class \<Rightarrow> obj_class" where
  "install_method n m k = k\<lparr>methods := (methods k)(n \<mapsto> m)\<rparr>"

definition declare_static :: "ustring \<Rightarrow> const \<Rightarrow> obj_class \<Rightarrow> obj_class" where
  "declare_static n v k =
     k\<lparr>static_slots := (static_slots k)(n \<mapsto> as_u16 (length (statics k))), statics := statics k @ [v]\<rparr>"

definition finalize_class :: "obj_function \<Rightarrow> const \<Rightarrow> unit act" where
  "finalize_class f c =
     then_do (const_as_str f 0) (\<lambda>n.
     then_do (accessed as_class c) (\<lambda>k.
     then_do (lookup_slot_in (globals_module f) (class_name k)) (\<lambda>known.
       if known \<noteq> None
       then raise (str ''Error'') (str ''class '' @ quoted (class_name k) @ str '' already declared in this scope'')
       else
         update_class c (\<lambda>k. k\<lparr>finalized := True,
           constructor_of := (case methods k n of Some m \<Rightarrow> Some m | None \<Rightarrow> constructor_of k)\<rparr>))))"

section \<open>Modules\<close>

definition is_module_intrinsic :: "ustring \<Rightarrow> bool" where
  "is_module_intrinsic n \<longleftrightarrow> n = str ''__file__'' \<or> n = str ''__root__''"

text \<open>The names that \<open>import m { * }\<close> takes over, with their values.\<close>

definition public_entries :: "module_namespace \<Rightarrow> (ustring \<times> const) list panics" where
  "public_entries ns =
     map_option concat (all_some (map (\<lambda>(n, i).
       case index (public ns) i of
         None \<Rightarrow> None
       | Some p \<Rightarrow>
           if \<not> p \<or> is_module_intrinsic n then Some []
           else map_option (\<lambda>v. [(n, v)]) (index (slots ns) i)) (names ns)))"

definition take_over :: "const option \<Rightarrow> bool \<Rightarrow> ustring \<times> const \<Rightarrow> unit act" where
  "take_over target exported e =
     then_do (get_or_create_slot_in target (fst e)) (\<lambda>i.
     then_do (write_slot_in target i (snd e)) (\<lambda>_.
       case target of
         None \<Rightarrow> give ()
       | Some t \<Rightarrow>
           if exported \<and> take 1 (fst e) \<noteq> str ''_'' then give ()
           else
             then_do (accessed as_module t) (\<lambda>m.
             then_do (or_panic (mark_private i (namespace m))) (\<lambda>ns.
             store t (ObjModule (m\<lparr>namespace := ns\<rparr>))))))"

definition import_all :: "obj_function \<Rightarrow> const \<Rightarrow> bool \<Rightarrow> unit act" where
  "import_all f v exported =
     then_do (look as_module v) (\<lambda>m.
       case m of
         None \<Rightarrow> type_error (str ''expected a module for '' @ quoted (str ''import ... { * }''))
       | Some m \<Rightarrow>
           then_do (or_panic (public_entries (namespace m))) (\<lambda>es.
             each_do (take_over (globals_module f) exported) es))"

definition make_promoted :: "obj_function \<Rightarrow> const \<Rightarrow> nat \<Rightarrow> const act" where
  "make_promoted f v name =
     then_do (const_at f name) (\<lambda>name_val.
     then_do (get (\<lambda>s. (as_module (objs s) v, as_string (objs s) name_val))) (\<lambda>(m, n).
       case (m, n) of
         (Some m, Some n) \<Rightarrow>
           then_do (or_panic (namespace_get (namespace m) n)) (\<lambda>member.
           then_do (get (\<lambda>s. case member of
                               Some x \<Rightarrow> if is_callable (objs s) x then Some x else None
                             | None \<Rightarrow> None)) (\<lambda>x.
           alloc (ObjModuleBinding \<lparr>bound_module = v, promoted = x, bind_name = n\<rparr>)))
       | _ \<Rightarrow> type_error (str ''invalid module promotion'')))"

definition import_at :: "host \<Rightarrow> caller \<Rightarrow> obj_function \<Rightarrow> nat \<Rightarrow> nat \<Rightarrow> const act" where
  "import_at H call f path importer =
     then_do (const_at f path) (\<lambda>p.
     then_do (const_at f importer) (\<lambda>i.
     then_do (get (\<lambda>s. (as_string (objs s) p, as_string (objs s) i))) (\<lambda>(p, i).
       case (p, i) of
         (Some p, Some i) \<Rightarrow> import_module H call i p
       | _ \<Rightarrow> type_error (str ''expected string constants for import''))))"

end
