(* ===== verification/Machine_Run.thy ===== *)
theory Machine_Run
  imports Machine
begin

text \<open>
  The interpreter loop itself, \<open>run_until\<close> of \<open>src/vm/vm.rs\<close>: one equation for each instruction,
  one turn of the loop, and the run of a program.
\<close>

section \<open>Operators by instruction\<close>

text \<open>What \<open>op\<close> and \<open>big_op\<close> are for each arithmetic instruction.\<close>

definition exec_binary :: "host \<Rightarrow> caller \<Rightarrow> binary_op \<Rightarrow> const \<Rightarrow> const \<Rightarrow> const act" where
  "exec_binary H call op a b =
     (case op of
        OAdd \<Rightarrow> binary_add_values H call a b
      | OSub \<Rightarrow> binary_numeric H call ''-'' ''@sub'' f64_sub (\<lambda>i j. Inr (i - j)) a b
      | OMul \<Rightarrow> binary_mult H call a b
      | ODiv \<Rightarrow> binary_numeric H call ''/'' ''@div'' f64_div (big_div (big_quot H)) a b
      | OPow \<Rightarrow> binary_numeric H call ''**'' ''@pow'' (powf H) (big_pow (big_power H)) a b
      | OMod \<Rightarrow> binary_numeric H call ''%'' ''@mod'' num_rem (big_rem (big_mod H)) a b
      | OFloor \<Rightarrow>
          binary_numeric H call ''//'' ''@floordiv'' (\<lambda>x y. f64_floor (f64_div x y))
            (big_floordiv (big_quot H) (big_mod H)) a b
      | OConcat \<Rightarrow> concat_values H a b
      | OBitAnd \<Rightarrow> bitwise_numeric H call ''&'' ''@and'' (AND) OBitAnd a b
      | OBitOr \<Rightarrow> bitwise_numeric H call ''|'' ''@or'' (OR) OBitOr a b
      | OBitXor \<Rightarrow> bitwise_numeric H call ''^'' ''@xor'' (XOR) OBitXor a b
      | OBitShl \<Rightarrow> bitwise_numeric H call ''<<'' ''@lshift'' i64_shl OBitShl a b
      | OBitShr \<Rightarrow> bitwise_numeric H call ''>>'' ''@rshift'' i64_shr OBitShr a b
      | OBitUshr \<Rightarrow> bitwise_numeric H call ''>>>'' ''@urshift'' u32_shr OBitUshr a b
      | OEq \<Rightarrow> then_do (operator_equals H call a b) (\<lambda>e. give (KBool e))
      | ONeq \<Rightarrow> then_do (operator_equals H call a b) (\<lambda>e. give (KBool (\<not> e)))
      | OLt \<Rightarrow> compare H call ''<'' ''@lt'' f64_lt (<) a b
      | OLe \<Rightarrow> compare H call ''<='' ''@lte'' f64_le (\<le>) a b
      | OGt \<Rightarrow> compare H call ''>'' ''@gt'' (\<lambda>x y. f64_lt y x) (\<lambda>i j. j < i) a b
      | OGe \<Rightarrow> compare H call ''>='' ''@gte'' (\<lambda>x y. f64_le y x) (\<lambda>i j. j \<le> i) a b)"

definition exec_unary :: "host \<Rightarrow> caller \<Rightarrow> unary_op \<Rightarrow> const \<Rightarrow> const act" where
  "exec_unary H call op v =
     (case op of
        ONot \<Rightarrow> get (\<lambda>s. KBool (is_falsey (objs s) v))
      | OBitNot \<Rightarrow>
          (case v of
             KNumber n \<Rightarrow> give (number (f64_of_int (NOT (num_to_wrapped_i64 n))))
           | _ \<Rightarrow>
               overridden_or H call v ''@not'' []
                 (then_do (look argument_type_name v) (\<lambda>t. type_error (str ''cannot bitwise not a '' @ t))))
      | ONeg \<Rightarrow>
          (case v of
             KNumber n \<Rightarrow> give (number (f64_neg n))
           | _ \<Rightarrow>
               then_do (look as_bigint v) (\<lambda>i.
                 case i of
                   Some i \<Rightarrow> alloc (ObjBigInt (- i))
                 | None \<Rightarrow>
                     overridden_or H call v ''@neg'' []
                       (then_do (look argument_type_name v) (\<lambda>t. type_error (str ''cannot negate a '' @ t))))))"

text \<open>\<open>as_number\<close> of a constant: the bits of a value that is no number are those of a NaN.\<close>

definition number_at :: "obj_function \<Rightarrow> nat \<Rightarrow> f64 act" where
  "number_at f ix =
     then_do (const_at f ix) (\<lambda>v. case v of KNumber n \<Rightarrow> give n | _ \<Rightarrow> give f64_nan)"

definition exec_imm :: "host \<Rightarrow> caller \<Rightarrow> obj_function \<Rightarrow> imm_op \<Rightarrow> const \<Rightarrow> nat \<Rightarrow> const act" where
  "exec_imm H call f op a ix =
     (case op of
        OAddImm \<Rightarrow> then_do (const_at f ix) (\<lambda>b. binary_add_values H call a b)
      | OSubImm \<Rightarrow> then_do (number_at f ix) (\<lambda>y. binary_numeric_imm H call ''-'' ''@sub'' f64_sub y a)
      | OMulImm \<Rightarrow>
          then_do (number_at f ix) (\<lambda>y.
            repeat_or a y (binary_numeric_imm H call ''*'' ''@mul'' f64_mul y a))
      | OLtImm \<Rightarrow> then_do (number_at f ix) (\<lambda>y. compare_imm H call ''<'' ''@lt'' f64_lt y a)
      | OLeImm \<Rightarrow> then_do (number_at f ix) (\<lambda>y. compare_imm H call ''<='' ''@lte'' f64_le y a)
      | OGtImm \<Rightarrow> then_do (number_at f ix) (\<lambda>y. compare_imm H call ''>'' ''@gt'' (\<lambda>x y. f64_lt y x) y a)
      | OGeImm \<Rightarrow> then_do (number_at f ix) (\<lambda>y. compare_imm H call ''>='' ''@gte'' (\<lambda>x y. f64_le y x) y a)
      | OEqImm \<Rightarrow>
          then_do (const_at f ix) (\<lambda>b. then_do (values_equal H a b) (\<lambda>e. give (KBool e)))
      | ONeqImm \<Rightarrow>
          then_do (const_at f ix) (\<lambda>b. then_do (values_equal H a b) (\<lambda>e. give (KBool (\<not> e)))))"

section \<open>Instructions\<close>

definition go_on :: "unit act \<Rightarrow> const option act" where
  "go_on m = then_do m (\<lambda>_. give None)"

text \<open>A jump counts from the instruction after it.\<close>

definition jump_target :: "nat \<Rightarrow> int \<Rightarrow> nat" where
  "jump_target ip off = nat ((int ip + off) mod 2 ^ 64)"

definition return_from :: "nat \<Rightarrow> call_frame \<Rightarrow> const \<Rightarrow> const option act" where
  "return_from stop_depth fr ret =
     then_do (close_upvalues_from (frame_base fr)) (\<lambda>_.
     then_do pop_frame_inner (\<lambda>finished.
     then_do (get (\<lambda>s. length (frames s))) (\<lambda>n.
       if n = stop_depth then give (Some ret)
       else
         then_do top_frame (\<lambda>caller.
           go_on (set_reg (frame_base caller) (dst_in_caller finished) ret)))))"

definition make_closure :: "obj_function \<Rightarrow> call_frame \<Rightarrow> nat \<Rightarrow> const act" where
  "make_closure f fr proto =
     then_do (const_at f proto) (\<lambda>pv.
     then_do (look as_func pv) (\<lambda>p.
       case p of
         None \<Rightarrow> type_error (str ''Closure operand is not a function'')
       | Some p \<Rightarrow>
           then_do (map_do (\<lambda>u. case u of
                UpLocal r \<Rightarrow> capture_upvalue (frame_base fr + r)
              | UpUpvalue i \<Rightarrow>
                  then_do (accessed as_closure (closure_val fr)) (\<lambda>(c, ups). or_panic (index ups i)))
             (fn_upvalues p)) (\<lambda>captured.
           alloc (ObjClosure pv captured))))"

text \<open>The upvalue an instruction names, in the closure of its frame.\<close>

definition own_upvalue :: "call_frame \<Rightarrow> nat \<Rightarrow> string \<Rightarrow> const act" where
  "own_upvalue fr ix what =
     then_do (accessed as_closure (closure_val fr)) (\<lambda>(c, ups).
     then_do (or_panic (index ups ix)) (\<lambda>u.
     then_do (look as_upvalue u) (\<lambda>state.
       if state = None then type_error (str what @ str '' operand is not an upvalue'') else give u)))"

definition get_global :: "obj_function \<Rightarrow> const \<Rightarrow> nat \<Rightarrow> nat \<Rightarrow> const act" where
  "get_global f fv at name =
     then_do (resolve_at f fv at (const_as_str f name)) (\<lambda>(is_root, i).
       read_resolved (globals_module f) is_root i)"

definition set_global :: "obj_function \<Rightarrow> const \<Rightarrow> nat \<Rightarrow> nat \<Rightarrow> const \<Rightarrow> unit act" where
  "set_global f fv at name v =
     then_do (cached_global fv at) (\<lambda>known.
     then_do
       (case known of
          Some (is_root, i) \<Rightarrow> give i
        | None \<Rightarrow>
            then_do (const_as_str f name) (\<lambda>n.
            then_do (get_or_create_slot_in (globals_module f) n) (\<lambda>i.
            then_do (cache_global fv at (globals_module f = None, i)) (\<lambda>_. give i)))) (\<lambda>i.
     write_slot_in (globals_module f) i v))"

definition assign_global :: "obj_function \<Rightarrow> const \<Rightarrow> nat \<Rightarrow> nat \<Rightarrow> const \<Rightarrow> unit act" where
  "assign_global f fv at name v =
     then_do (resolve_at f fv at (const_as_str f name)) (\<lambda>(is_root, i).
       write_resolved (globals_module f) is_root i v)"

definition raise_value :: "const \<Rightarrow> 'a act" where
  "raise_value v =
     then_do (is_error_value v) (\<lambda>ok.
       if ok then then_do (attach_stacktrace v) fail
       else
         then_do (type_name_of v) (\<lambda>t.
           type_error (str ''can only raise an Error or subclass, got a '' @ t)))"

definition make_range :: "const \<Rightarrow> const \<Rightarrow> const act" where
  "make_range lo hi =
     (case (lo, hi) of
        (KNumber x, KNumber y) \<Rightarrow> alloc (ObjRange x y (f64_of_int 1))
      | _ \<Rightarrow>
          then_do (type_name_of lo) (\<lambda>s.
          then_do (type_name_of hi) (\<lambda>t.
            type_error (str ''range bounds must be numbers, got '' @ s @ str '' and '' @ t))))"

definition using_jump :: "obj_function \<Rightarrow> nat \<Rightarrow> const \<Rightarrow> unit act" where
  "using_jump f table v =
     then_do (get (\<lambda>s. value_to_jump_key (objs s) v)) (\<lambda>key.
     then_do (or_panic key) (\<lambda>key.
       case key of
         None \<Rightarrow> give ()
       | Some key \<Rightarrow>
           then_do (or_panic (index (jump_tables (fn_chunk f)) table)) (\<lambda>t.
             case t key of Some target \<Rightarrow> set_ip target | None \<Rightarrow> give ())))"

text \<open>
  \<open>fr\<close> is the innermost frame, its \<open>ip\<close> already past the instruction, and \<open>f\<close> its function. The
  result is \<open>Some\<close> the value that the run ends with when the frame it began with returns.
\<close>

primrec exec :: "host \<Rightarrow> caller \<Rightarrow> nat \<Rightarrow> obj_function \<Rightarrow> call_frame \<Rightarrow> instr \<Rightarrow> const option act" where
  "exec H call stop f fr (ILoadConst dst c) =
     go_on (then_do (const_at f c) (\<lambda>v. set_reg (frame_base fr) dst v))"
| "exec H call stop f fr (ILoadNil dst) = go_on (set_reg (frame_base fr) dst KNil)"
| "exec H call stop f fr (ILoadBool dst b) = go_on (set_reg (frame_base fr) dst (KBool b))"
| "exec H call stop f fr (IMove dst src) =
     go_on (then_do (get_reg (frame_base fr) src) (\<lambda>v. set_reg (frame_base fr) dst v))"
| "exec H call stop f fr (IBinary op dst a b) =
     go_on (then_do (get_reg (frame_base fr) a) (\<lambda>x.
            then_do (get_reg (frame_base fr) b) (\<lambda>y.
            then_do (exec_binary H call op x y) (\<lambda>v. set_reg (frame_base fr) dst v))))"
| "exec H call stop f fr (IUnary op dst src) =
     go_on (then_do (get_reg (frame_base fr) src) (\<lambda>x.
            then_do (exec_unary H call op x) (\<lambda>v. set_reg (frame_base fr) dst v)))"
| "exec H call stop f fr (IImm op dst a c) =
     go_on (then_do (get_reg (frame_base fr) a) (\<lambda>x.
            then_do (exec_imm H call f op x c) (\<lambda>v. set_reg (frame_base fr) dst v)))"
| "exec H call stop f fr (IJmp off) = go_on (set_ip (jump_target (frame_ip fr) off))"
| "exec H call stop f fr (IJmpIfFalse cond off) =
     go_on (then_do (get_reg (frame_base fr) cond) (\<lambda>v.
            then_do (look is_falsey v) (\<lambda>no.
              if no then set_ip (jump_target (frame_ip fr) off) else give ())))"
| "exec H call stop f fr (IJmpIfTrue cond off) =
     go_on (then_do (get_reg (frame_base fr) cond) (\<lambda>v.
            then_do (look is_falsey v) (\<lambda>no.
              if no then give () else set_ip (jump_target (frame_ip fr) off))))"
| "exec H call stop f fr (ICall dst func num_args) =
     go_on (dispatch_call H call (frame_base fr) func num_args dst)"
| "exec H call stop f fr (IReturn src) =
     then_do (get_reg (frame_base fr) src) (return_from stop fr)"
| "exec H call stop f fr (IPrint src) =
     go_on (then_do (get_reg (frame_base fr) src) (echo H call))"
| "exec H call stop f fr (IGetGlobal dst name) =
     go_on (then_do (get_global f (fn_val fr) (frame_ip fr - 1) name) (\<lambda>v. set_reg (frame_base fr) dst v))"
| "exec H call stop f fr (ISetGlobal name src) =
     go_on (then_do (get_reg (frame_base fr) src) (set_global f (fn_val fr) (frame_ip fr - 1) name))"
| "exec H call stop f fr (IAssignGlobal name src) =
     go_on (then_do (get_reg (frame_base fr) src) (assign_global f (fn_val fr) (frame_ip fr - 1) name))"
| "exec H call stop f fr (IClosure dst proto) =
     go_on (then_do (make_closure f fr proto) (\<lambda>v. set_reg (frame_base fr) dst v))"
| "exec H call stop f fr (IGetUpval dst ix) =
     go_on (then_do (own_upvalue fr ix ''GetUpval'') (\<lambda>u.
            then_do (read_upvalue u) (\<lambda>v. set_reg (frame_base fr) dst v)))"
| "exec H call stop f fr (ISetUpval ix src) =
     go_on (then_do (get_reg (frame_base fr) src) (\<lambda>v.
            then_do (own_upvalue fr ix ''SetUpval'') (\<lambda>u. write_upvalue u v)))"
| "exec H call stop f fr (ICloseUpvalues from_reg) =
     go_on (close_upvalues_from (frame_base fr + from_reg))"
| "exec H call stop f fr (IMakeList dst first count) =
     go_on (then_do (map_do (\<lambda>i. get_reg (frame_base fr) (first + i)) [0..<count]) (\<lambda>vs.
            then_do (alloc (ObjList vs)) (\<lambda>v. set_reg (frame_base fr) dst v)))"
| "exec H call stop f fr (IMakeDict dst first count) =
     go_on (then_do (map_do (\<lambda>i.
              then_do (get_reg (frame_base fr) (first + i)) (\<lambda>k.
              then_do (get_reg (frame_base fr) (first + count + i)) (\<lambda>v. give (k, v)))) [0..<count]) (\<lambda>ps.
            then_do (alloc_dict ps) (\<lambda>v. set_reg (frame_base fr) dst v)))"
| "exec H call stop f fr (IMakeClass dst name super) =
     go_on (make_class f (frame_base fr) dst name super)"
| "exec H call stop f fr (IDeclareField class name) =
     go_on (then_do (get_reg (frame_base fr) class) (\<lambda>c.
            then_do (const_as_str f name) (\<lambda>n. update_class c (declare_field n))))"
| "exec H call stop f fr (ISetFieldDefault class name v) =
     go_on (then_do (get_reg (frame_base fr) class) (\<lambda>c.
            then_do (const_as_str f name) (\<lambda>n.
            then_do (const_at f v) (\<lambda>v. update_class c (field_default n v)))))"
| "exec H call stop f fr (ISetFieldInit class src) =
     go_on (then_do (get_reg (frame_base fr) class) (\<lambda>c.
            then_do (get_reg (frame_base fr) src) (\<lambda>v. update_class c (field_initializer v))))"
| "exec H call stop f fr (ISetMethod class name src) =
     go_on (then_do (get_reg (frame_base fr) class) (\<lambda>c.
            then_do (const_as_str f name) (\<lambda>n.
            then_do (get_reg (frame_base fr) src) (\<lambda>v. update_class c (install_method n v)))))"
| "exec H call stop f fr (IDeclareStatic class name src) =
     go_on (then_do (get_reg (frame_base fr) class) (\<lambda>c.
            then_do (const_as_str f name) (\<lambda>n.
            then_do (get_reg (frame_base fr) src) (\<lambda>v. update_class c (declare_static n v)))))"
| "exec H call stop f fr (IFinalizeClass class) =
     go_on (then_do (get_reg (frame_base fr) class) (finalize_class f))"
| "exec H call stop f fr (IGetField dst obj name) =
     go_on (then_do (get_reg (frame_base fr) obj) (\<lambda>v.
            then_do (const_at f name) (\<lambda>c.
            then_do (const_as_str f name) (\<lambda>n.
            then_do (get_property H v c n) (\<lambda>x. set_reg (frame_base fr) dst x)))))"
| "exec H call stop f fr (ISetField obj name src) =
     go_on (then_do (get_reg (frame_base fr) obj) (\<lambda>v.
            then_do (get_reg (frame_base fr) src) (\<lambda>x.
            then_do (const_at f name) (\<lambda>c.
            then_do (const_as_str f name) (\<lambda>n. set_property v c n x)))))"
| "exec H call stop f fr (IInvoke dst obj method num_args) =
     go_on (then_do (const_as_str f method) (\<lambda>n. invoke H call (frame_base fr) obj n num_args dst))"
| "exec H call stop f fr (IInvokeSuper dst superclass method num_args) =
     go_on (invoke_super H call f (frame_base fr) superclass method num_args dst)"
| "exec H call stop f fr (ICallSuperCtor dst superclass num_args) =
     go_on (call_super_ctor (frame_base fr) superclass num_args dst)"
| "exec H call stop f fr (IImport dst path importer) =
     go_on (then_do (import_at H call f path importer) (\<lambda>m.
            then_do top_frame (\<lambda>fr. set_reg (frame_base fr) dst m)))"
| "exec H call stop f fr (IImportAll m exported) =
     go_on (then_do (get_reg (frame_base fr) m) (\<lambda>v. import_all f v exported))"
| "exec H call stop f fr (IMakePromoted dst m name) =
     go_on (then_do (get_reg (frame_base fr) m) (\<lambda>v.
            then_do (make_promoted f v name) (\<lambda>b. set_reg (frame_base fr) dst b)))"
| "exec H call stop f fr (IGetIndex dst obj ix) =
     go_on (then_do (get_reg (frame_base fr) obj) (\<lambda>v.
            then_do (get_reg (frame_base fr) ix) (\<lambda>i.
            then_do (index_get H v i) (\<lambda>x. set_reg (frame_base fr) dst x))))"
| "exec H call stop f fr (ISetIndex obj ix src) =
     go_on (then_do (get_reg (frame_base fr) obj) (\<lambda>v.
            then_do (get_reg (frame_base fr) ix) (\<lambda>i.
            then_do (get_reg (frame_base fr) src) (\<lambda>x. index_set H v i x))))"
| "exec H call stop f fr (IGetSlice dst obj lo hi) =
     go_on (then_do (get_reg (frame_base fr) obj) (\<lambda>v.
            then_do (get_reg (frame_base fr) lo) (\<lambda>i.
            then_do (get_reg (frame_base fr) hi) (\<lambda>j.
            then_do (index_slice H v i j) (\<lambda>x. set_reg (frame_base fr) dst x)))))"
| "exec H call stop f fr (IMakeRange dst lower upper) =
     go_on (then_do (get_reg (frame_base fr) lower) (\<lambda>lo.
            then_do (get_reg (frame_base fr) upper) (\<lambda>hi.
            then_do (make_range lo hi) (\<lambda>x. set_reg (frame_base fr) dst x))))"
| "exec H call stop f fr (IUsingJump subject table) =
     go_on (then_do (get_reg (frame_base fr) subject) (using_jump f table))"
| "exec H call stop f fr (IRaise src) = then_do (get_reg (frame_base fr) src) raise_value"
| "exec H call stop f fr (IPushCatch var off) = go_on (push_catch var (jump_target (frame_ip fr) off))"
| "exec H call stop f fr IPopCatch = go_on pop_catch"
| "exec H call stop f fr (ICheckParamType r check) =
     go_on (then_do (get_reg (frame_base fr) r) (\<lambda>v.
              check_param_type f fr (frame_ip fr - 1) v check))"

section \<open>The loop\<close>

text \<open>An error inside an instruction goes to a handler of the run, if there is one.\<close>

definition caught :: "nat \<Rightarrow> const option act \<Rightarrow> const option act" where
  "caught stop m s =
     (case m s of Raised e t \<Rightarrow> go_on (handle_error e stop) t | r \<Rightarrow> r)"

text \<open>Falling off the end of the code is an error that no handler of the run sees.\<close>

definition turn :: "host \<Rightarrow> caller \<Rightarrow> nat \<Rightarrow> const option act" where
  "turn H call stop =
     then_do top_frame (\<lambda>fr.
     then_do (accessed as_closure (closure_val fr)) (\<lambda>_.
     then_do (frame_function fr) (\<lambda>f.
       if length (code (fn_chunk f)) \<le> frame_ip fr
       then raise (str ''Error'') (str ''fell off the end of '' @ quoted (fn_name f) @ str '' without a Return'')
       else
         then_do (set_ip (frame_ip fr + 1)) (\<lambda>_.
         then_do top_frame (\<lambda>fr'.
           caught stop (exec H call stop f fr' (code (fn_chunk f) ! frame_ip fr)))))))"

primrec run_until :: "host \<Rightarrow> caller \<Rightarrow> nat \<Rightarrow> nat \<Rightarrow> const act" where
  "run_until H call 0 stop = unfinished"
| "run_until H call (Suc n) stop =
     then_do (turn H call stop) (\<lambda>r.
       case r of Some v \<Rightarrow> give v | None \<Rightarrow> run_until H call n stop)"

text \<open>\<open>call_value\<close>, with fuel for the depth of calls and the turns of each.\<close>

primrec call_at :: "host \<Rightarrow> nat \<Rightarrow> caller" where
  "call_at H 0 callee args = unfinished"
| "call_at H (Suc n) callee args =
     call_value H (call_at H n) (run_until H (call_at H n) n) callee args"

text \<open>\<open>VM::run\<close>, up to the handlers that run when the program is over.\<close>

definition run_main :: "host \<Rightarrow> nat \<Rightarrow> const \<Rightarrow> const act" where
  "run_main H n main =
     then_do (accessed as_closure main) (\<lambda>(fv, ups).
     then_do (accessed as_func fv) (\<lambda>f.
     then_do (change (\<lambda>s. s\<lparr>registers :=
         take (num_registers f) (registers s) @ replicate (num_registers f - length (registers s)) KNil\<rparr>)) (\<lambda>_.
     then_do (push_frame (frame_for fv main 0 0)) (\<lambda>_.
     run_until H (call_at H n) n 0))))"

text \<open>A compiled program: its function becomes a closure that captures nothing, and runs.\<close>

definition alloc_plain_closure :: "obj_function \<Rightarrow> const act" where
  "alloc_plain_closure f =
     then_do (alloc (ObjFunc f)) (\<lambda>proto_val. alloc (ObjClosure proto_val []))"

definition run_program :: "host \<Rightarrow> nat \<Rightarrow> obj_function \<Rightarrow> const act" where
  "run_program H n f = then_do (alloc_plain_closure f) (run_main H n)"

end
