(* ===== verification/Machine_Facts.thy ===== *)
theory Machine_Facts
  imports Machine_Run "HOL-Library.Sublist"
begin

text \<open>
  What every state of the machine keeps, and how an operation that leaves the frames alone is
  shown to keep it: one rule for each way operations are put together, collected in \<open>steady\<close>.
\<close>

section \<open>The invariant\<close>

text \<open>
  A function names only registers it has, and what its closures capture are registers of its
  own; it has at least the register that it returns.
\<close>

definition captures_fit :: "object list \<Rightarrow> obj_function \<Rightarrow> instr \<Rightarrow> bool" where
  "captures_fit h f i \<longleftrightarrow>
     (\<forall>dst proto v p r. i = IClosure dst proto \<longrightarrow> index (constants (fn_chunk f)) proto = Some v \<longrightarrow>
        as_func h v = Some p \<longrightarrow> UpLocal r \<in> set (fn_upvalues p) \<longrightarrow> r < num_registers f)"

definition fits_registers :: "object list \<Rightarrow> obj_function \<Rightarrow> bool" where
  "fits_registers h f \<longleftrightarrow>
     0 < num_registers f \<and>
     (\<forall>i \<in> set (code (fn_chunk f)). regs_below (num_registers f) i \<and> captures_fit h f i)"

definition functions_fit :: "object list \<Rightarrow> bool" where
  "functions_fit h \<longleftrightarrow> (\<forall>a f. a < length h \<longrightarrow> h ! a = ObjFunc f \<longrightarrow> fits_registers h f)"

text \<open>The registers of the function of a frame.\<close>

definition window :: "object list \<Rightarrow> call_frame \<Rightarrow> nat" where
  "window h fr = (case as_func h (fn_val fr) of Some f \<Rightarrow> num_registers f | None \<Rightarrow> 0)"

text \<open>
  Every frame has its function and its whole window of registers, and returns to a register of
  the frame below.
\<close>

definition frames_fit :: "object list \<Rightarrow> nat \<Rightarrow> call_frame list \<Rightarrow> bool" where
  "frames_fit h n fs \<longleftrightarrow>
     (\<forall>i < length fs.
        as_func h (fn_val (fs ! i)) \<noteq> None \<and> frame_base (fs ! i) + window h (fs ! i) \<le> n \<and>
        (Suc i < length fs \<longrightarrow> dst_in_caller (fs ! Suc i) < window h (fs ! i)))"

text \<open>
  Handlers belong to frames that are there, those of inner frames last, and write the error to a
  register of their frame.
\<close>

definition handlers_fit :: "object list \<Rightarrow> call_frame list \<Rightarrow> catch_handler list \<Rightarrow> bool" where
  "handlers_fit h fs hs \<longleftrightarrow>
     sorted (map frame_depth hs) \<and>
     (\<forall>k \<in> set hs. 0 < frame_depth k \<and> frame_depth k \<le> length fs \<and>
        (\<forall>r. var_reg k = Some r \<longrightarrow> r < window h (fs ! (frame_depth k - 1))))"

text \<open>
  The list of open upvalues has one for each captured register, and those are the open ones of
  the heap.
\<close>

definition upvalues_fit :: "object list \<Rightarrow> nat \<Rightarrow> (nat \<times> const) list \<Rightarrow> bool" where
  "upvalues_fit h n ous \<longleftrightarrow>
     distinct (map fst ous) \<and>
     (\<forall>(i, v) \<in> set ous. i < n \<and> (\<exists>a < length h. v = KObj a \<and> h ! a = ObjUpvalue (Open i))) \<and>
     (\<forall>a < length h. \<forall>i. h ! a = ObjUpvalue (Open i) \<longrightarrow> (i, KObj a) \<in> set ous)"

definition vm_ok :: "vm \<Rightarrow> bool" where
  "vm_ok s \<longleftrightarrow>
     functions_fit (objs s) \<and> frames_fit (objs s) (length (registers s)) (frames s) \<and>
     handlers_fit (objs s) (frames s) (catch_stack s) \<and>
     upvalues_fit (objs s) (length (registers s)) (open_upvalues s)"

section \<open>What an operation may change\<close>

definition keeps_functions :: "object list \<Rightarrow> object list \<Rightarrow> bool" where
  "keeps_functions h h' \<longleftrightarrow> length h \<le> length h' \<and> (\<forall>a < length h. \<forall>f. h ! a = ObjFunc f \<longrightarrow> h' ! a = ObjFunc f)"

lemma keeps_refl [simp]: "keeps_functions h h"
  by (simp add: keeps_functions_def)

lemma keeps_trans: "keeps_functions h h' \<Longrightarrow> keeps_functions h' h'' \<Longrightarrow> keeps_functions h h''"
  by (auto simp: keeps_functions_def)

lemma as_func_Some:
  "as_func h v = Some f \<longleftrightarrow> (\<exists>a < length h. v = KObj a \<and> h ! a = ObjFunc f)"
  by (auto simp: as_func_def object_at_def split: const.splits object.splits)

lemma keeps_as_func: "keeps_functions h h' \<Longrightarrow> as_func h v = Some f \<Longrightarrow> as_func h' v = Some f"
  by (auto simp: keeps_functions_def as_func_Some)

lemma keeps_window:
  "keeps_functions h h' \<Longrightarrow> as_func h (fn_val fr) \<noteq> None \<Longrightarrow> window h' fr = window h fr"
  using keeps_as_func [of h h' "fn_val fr"] by (auto simp: window_def)

text \<open>What is left of the frames when an error leaves an operation: some more on top at most.\<close>

definition advances :: "vm \<Rightarrow> vm \<Rightarrow> bool" where
  "advances s t \<longleftrightarrow> length (registers s) \<le> length (registers t) \<and> keeps_functions (objs s) (objs t)"

lemma advances_refl [simp]: "advances s s"
  by (simp add: advances_def)

lemma advances_trans: "advances s t \<Longrightarrow> advances t u \<Longrightarrow> advances s u"
  using keeps_trans by (fastforce simp: advances_def)

text \<open>
  \<open>n\<close> registers are there at least. An operation is steady when it reads and writes no register
  out of range, keeps the invariant, and leaves the frames as they are.
\<close>

definition steady :: "nat \<Rightarrow> 'a act \<Rightarrow> bool" where
  "steady n m \<longleftrightarrow>
     (\<forall>s. vm_ok s \<longrightarrow> n \<le> length (registers s) \<longrightarrow>
        (case m s of
           Done x t \<Rightarrow> vm_ok t \<and> advances s t \<and> frames t = frames s
         | Raised e t \<Rightarrow> vm_ok t \<and> advances s t \<and> prefix (frames s) (frames t)
         | Panic \<Rightarrow> True
         | Undefined \<Rightarrow> False
         | Unfinished \<Rightarrow> True))"

named_theorems steady

lemma steadyD:
  assumes "steady n m" "vm_ok s" "n \<le> length (registers s)"
  shows "m s \<noteq> Undefined"
    "m s = Done x t \<Longrightarrow> vm_ok t \<and> advances s t \<and> frames t = frames s"
    "m s = Raised e t \<Longrightarrow> vm_ok t \<and> advances s t \<and> prefix (frames s) (frames t)"
proof -
  note c = assms(1) [unfolded steady_def, rule_format, OF assms(2,3)]
  show "m s \<noteq> Undefined" using c by (cases "m s") simp_all
  show "m s = Done x t \<Longrightarrow> vm_ok t \<and> advances s t \<and> frames t = frames s" using c by simp
  show "m s = Raised e t \<Longrightarrow> vm_ok t \<and> advances s t \<and> prefix (frames s) (frames t)" using c by simp
qed

lemma steady_mono: "steady m x \<Longrightarrow> m \<le> n \<Longrightarrow> steady n x"
  by (simp add: steady_def)

lemma steady_give [steady]: "steady n (give x)"
  by (simp add: steady_def give_def)

lemma steady_fail [steady]: "steady n (fail e)"
  by (simp add: steady_def fail_def)

lemma steady_get [steady]: "steady n (get f)"
  by (simp add: steady_def get_def)

lemma steady_or_panic [steady]: "steady n (or_panic x)"
  by (simp add: steady_def or_panic_def split: option.split)

lemma steady_unfinished [steady]: "steady n unfinished"
  by (simp add: steady_def unfinished_def)

lemma steady_then [steady]:
  assumes "steady n m" "\<And>x. steady n (k x)"
  shows "steady n (then_do m k)"
  unfolding steady_def
proof (intro allI impI)
  fix s assume s: "vm_ok s" "n \<le> length (registers s)"
  show "case then_do m k s of
           Done x t \<Rightarrow> vm_ok t \<and> advances s t \<and> frames t = frames s
         | Raised e t \<Rightarrow> vm_ok t \<and> advances s t \<and> prefix (frames s) (frames t)
         | Panic \<Rightarrow> True | Undefined \<Rightarrow> False | Unfinished \<Rightarrow> True"
  proof (cases "m s")
    case (Done x t)
    note d = steadyD(2) [OF assms(1) s Done]
    then have n: "n \<le> length (registers t)" using s(2) by (simp add: advances_def)
    note k = steadyD [OF assms(2) conjunct1 [OF d] n]
    show ?thesis
      using Done d k advances_trans [of s t] by (fastforce simp: then_do_def split: outcome.split)
  next
    case (Raised e t)
    then show ?thesis using steadyD(3) [OF assms(1) s Raised] by (simp add: then_do_def)
  next
    case Undefined
    then show ?thesis using steadyD(1) [OF assms(1) s] by simp
  qed (simp_all add: then_do_def)
qed

lemma steady_if [steady]: "(b \<Longrightarrow> steady n x) \<Longrightarrow> (\<not> b \<Longrightarrow> steady n y) \<Longrightarrow> steady n (if b then x else y)"
  by simp

lemma steady_option [steady]:
  "(x = None \<Longrightarrow> steady n a) \<Longrightarrow> (\<And>y. x = Some y \<Longrightarrow> steady n (b y)) \<Longrightarrow> steady n (case x of None \<Rightarrow> a | Some y \<Rightarrow> b y)"
  by (cases x) auto

lemma steady_prod [steady]: "(\<And>y z. x = (y, z) \<Longrightarrow> steady n (f y z)) \<Longrightarrow> steady n (case x of (y, z) \<Rightarrow> f y z)"
  by (cases x) auto

lemma steady_sum [steady]:
  "(\<And>y. x = Inl y \<Longrightarrow> steady n (f y)) \<Longrightarrow> (\<And>y. x = Inr y \<Longrightarrow> steady n (g y)) \<Longrightarrow> steady n (case x of Inl y \<Rightarrow> f y | Inr y \<Rightarrow> g y)"
  by (cases x) auto

lemma steady_let [steady]: "steady n (f x) \<Longrightarrow> steady n (let y = x in f y)"
  by simp

lemma steady_const [steady]:
  "steady n a \<Longrightarrow> (\<And>x. steady n (b x)) \<Longrightarrow> (\<And>x. steady n (c x)) \<Longrightarrow> (\<And>x. steady n (d x)) \<Longrightarrow>
     steady n (case v of KNil \<Rightarrow> a | KBool x \<Rightarrow> b x | KNumber x \<Rightarrow> c x | KObj x \<Rightarrow> d x)"
  by (cases v) auto

lemma steady_upvalue_state [steady]:
  "(\<And>i. steady n (a i)) \<Longrightarrow> (\<And>x. steady n (b x)) \<Longrightarrow> steady n (case u of Open i \<Rightarrow> a i | Closed x \<Rightarrow> b x)"
  by (cases u) auto

lemma steady_each [steady]: "(\<And>x. x \<in> set xs \<Longrightarrow> steady n (f x)) \<Longrightarrow> steady n (each_do f xs)"
  by (induction xs) (auto intro!: steady)

lemma steady_map [steady]: "(\<And>x. x \<in> set xs \<Longrightarrow> steady n (f x)) \<Longrightarrow> steady n (map_do f xs)"
  by (induction xs) (auto intro!: steady)

lemma steady_object [steady]:
  "(\<And>t. steady n (f1 t)) \<Longrightarrow> (\<And>bs. steady n (f2 bs)) \<Longrightarrow> (\<And>i. steady n (f3 i)) \<Longrightarrow>
   (\<And>xs. steady n (f4 xs)) \<Longrightarrow> (\<And>d. steady n (f5 d)) \<Longrightarrow> (\<And>f. steady n (f6 f)) \<Longrightarrow>
   (\<And>r m. steady n (f7 r m)) \<Longrightarrow> (\<And>c us. steady n (f8 c us)) \<Longrightarrow> (\<And>u. steady n (f9 u)) \<Longrightarrow>
   (\<And>f. steady n (f10 f)) \<Longrightarrow> (\<And>k. steady n (f11 k)) \<Longrightarrow> (\<And>c fs. steady n (f12 c fs)) \<Longrightarrow>
   (\<And>lo hi st. steady n (f13 lo hi st)) \<Longrightarrow> (\<And>p m. steady n (f14 p m)) \<Longrightarrow>
   (\<And>m. steady n (f15 m)) \<Longrightarrow> (\<And>b. steady n (f16 b)) \<Longrightarrow> (\<And>t. steady n (f17 t)) \<Longrightarrow>
   steady n (case_object f1 f2 f3 f4 f5 f6 f7 f8 f9 f10 f11 f12 f13 f14 f15 f16 f17 ob)"
  by (cases ob) simp_all

section \<open>States that differ in little\<close>

text \<open>The fields that the invariant says nothing about.\<close>

lemma vm_ok_other [simp]:
  "vm_ok (s\<lparr>printed := a\<rparr>) = vm_ok s" "vm_ok (s\<lparr>global_slots := b\<rparr>) = vm_ok s"
  "vm_ok (s\<lparr>global_names := c\<rparr>) = vm_ok s" "vm_ok (s\<lparr>global_cache := d\<rparr>) = vm_ok s"
  "vm_ok (s\<lparr>pending_error := e\<rparr>) = vm_ok s"
  "vm_ok (s\<lparr>global_slots := b, global_names := c\<rparr>) = vm_ok s"
  by (simp_all add: vm_ok_def)

lemma advances_other [simp]:
  "advances s (s\<lparr>printed := a\<rparr>)" "advances s (s\<lparr>global_slots := b\<rparr>)"
  "advances s (s\<lparr>global_names := c\<rparr>)" "advances s (s\<lparr>global_cache := d\<rparr>)"
  "advances s (s\<lparr>pending_error := e\<rparr>)" "advances s (s\<lparr>global_slots := b, global_names := c\<rparr>)"
  by (simp_all add: advances_def)

lemma steady_set_global_slot [steady]: "steady n (set_global_slot i v)"
  by (simp add: steady_def set_global_slot_def)

lemma steady_create_global [steady]: "steady n (get_or_create_global_slot m)"
  by (simp add: steady_def get_or_create_global_slot_def Let_def split: option.split)

lemma steady_cache_global [steady]: "steady n (cache_global f ip r)"
  by (simp add: steady_def cache_global_def change_def)

lemma steady_print_line [steady]: "steady n (print_line t)"
  by (simp add: steady_def print_line_def change_def)

lemma steady_clear_pending: "steady n (change (\<lambda>s. s\<lparr>pending_error := None\<rparr>))"
  by (simp add: steady_def change_def)

text \<open>Registers.\<close>

lemma frames_fit_mono: "frames_fit h n fs \<Longrightarrow> n \<le> n' \<Longrightarrow> frames_fit h n' fs"
  by (fastforce simp: frames_fit_def)

lemma upvalues_fit_mono: "upvalues_fit h n ous \<Longrightarrow> n \<le> n' \<Longrightarrow> upvalues_fit h n' ous"
  by (fastforce simp: upvalues_fit_def)

lemma vm_ok_registers: "vm_ok s \<Longrightarrow> length (registers s) \<le> length rs \<Longrightarrow> vm_ok (s\<lparr>registers := rs\<rparr>)"
  using frames_fit_mono upvalues_fit_mono by (auto simp: vm_ok_def)

lemma steady_get_reg [steady]: "base + r < n \<Longrightarrow> steady n (get_reg base r)"
  by (simp add: steady_def get_reg_def then_do_def get_def or_undefined_def)

lemma steady_set_reg [steady]: "base + r < n \<Longrightarrow> steady n (set_reg base r v)"
  by (auto simp: steady_def set_reg_def advances_def vm_ok_registers)

lemma steady_read_register [steady]: "steady n (read_register i)"
  unfolding read_register_def by (intro steady)

lemma steady_read_registers [steady]: "steady n (read_registers i j)"
  unfolding read_registers_def by (intro steady)

lemma steady_write_register [steady]: "steady n (write_register i v)"
  by (auto simp: steady_def write_register_def advances_def vm_ok_registers)

lemma steady_ensure_registers [steady]: "steady n (ensure_registers k)"
  by (auto simp: steady_def ensure_registers_def change_def advances_def vm_ok_registers)

section \<open>The heap\<close>

text \<open>An object that is no function and no open upvalue may be written or added freely.\<close>

definition inert :: "object \<Rightarrow> bool" where
  "inert ob \<longleftrightarrow> (\<forall>f. ob \<noteq> ObjFunc f) \<and> (\<forall>i. ob \<noteq> ObjUpvalue (Open i))"

lemma inert_simps [simp]:
  "inert (ObjStr t)" "inert (ObjBytes bs)" "inert (ObjBigInt k)" "inert (ObjList xs)" "inert (ObjDict d)"
  "inert (ObjBoundMethod r m)" "inert (ObjClosure c us)" "inert (ObjUpvalue (Closed x))" "inert (ObjNative g)"
  "inert (ObjClass c')" "inert (ObjInstance c fs)" "inert (ObjRange lo hi st)" "inert (ObjFile path mode)"
  "inert (ObjModule m')" "inert (ObjModuleBinding b)" "inert (ObjPtr t)"
  by (simp_all add: inert_def)

text \<open>A heap with the same functions and open upvalues, and maybe more inert objects.\<close>

definition inert_change :: "object list \<Rightarrow> object list \<Rightarrow> bool" where
  "inert_change h h' \<longleftrightarrow> length h \<le> length h' \<and>
     (\<forall>a < length h. h' ! a = h ! a \<or> inert (h ! a) \<and> inert (h' ! a)) \<and>
     (\<forall>a < length h'. length h \<le> a \<longrightarrow> inert (h' ! a))"

lemma inert_change_keeps: "inert_change h h' \<Longrightarrow> keeps_functions h h'"
  by (fastforce simp: inert_change_def keeps_functions_def inert_def)

lemma inert_change_func:
  "inert_change h h' \<Longrightarrow> a < length h' \<Longrightarrow> h' ! a = ObjFunc f \<Longrightarrow> a < length h \<and> h ! a = ObjFunc f"
  by (metis inert_change_def inert_def not_less)

lemma inert_change_open:
  "inert_change h h' \<Longrightarrow> a < length h' \<Longrightarrow> h' ! a = ObjUpvalue (Open i) \<Longrightarrow>
     a < length h \<and> h ! a = ObjUpvalue (Open i)"
  by (metis inert_change_def inert_def not_less)

lemma inert_change_as_func: "inert_change h h' \<Longrightarrow> as_func h' v = as_func h v"
proof -
  assume c: "inert_change h h'"
  have "as_func h' v = Some f \<longleftrightarrow> as_func h v = Some f" for f
    using inert_change_func [OF c] keeps_as_func [OF inert_change_keeps [OF c], of v f]
    by (metis as_func_Some)
  then show ?thesis by (cases "as_func h v"; cases "as_func h' v") auto
qed

lemma inert_change_window: "inert_change h h' \<Longrightarrow> window h' = window h"
  by (rule ext) (simp add: window_def inert_change_as_func)

lemma inert_change_functions:
  assumes "inert_change h h'" "functions_fit h" shows "functions_fit h'"
  unfolding functions_fit_def
proof (intro allI impI)
  fix a f assume "a < length h'" "h' ! a = ObjFunc f"
  then have "a < length h" "h ! a = ObjFunc f" using inert_change_func [OF assms(1)] by blast+
  then have "fits_registers h f" using assms(2) by (simp add: functions_fit_def)
  then show "fits_registers h' f"
    by (simp add: fits_registers_def captures_fit_def inert_change_as_func [OF assms(1)])
qed

lemma inert_change_upvalues: "inert_change h h' \<Longrightarrow> upvalues_fit h n ous \<Longrightarrow> upvalues_fit h' n ous"
proof -
  assume c: "inert_change h h'" and u: "upvalues_fit h n ous"
  have "i < n \<and> (\<exists>a < length h'. v = KObj a \<and> h' ! a = ObjUpvalue (Open i))" if m: "(i, v) \<in> set ous" for i v
  proof -
    from u m obtain a where a: "i < n" "a < length h" "v = KObj a" "h ! a = ObjUpvalue (Open i)"
      by (auto simp: upvalues_fit_def)
    then have "h' ! a = h ! a" "length h \<le> length h'" using c by (auto simp: inert_change_def inert_def)
    then show ?thesis using a by auto
  qed
  then show ?thesis using u inert_change_open [OF c] by (fastforce simp: upvalues_fit_def)
qed

lemma vm_ok_inert: "vm_ok s \<Longrightarrow> inert_change (objs s) h \<Longrightarrow> vm_ok (s\<lparr>objs := h\<rparr>)"
  using inert_change_functions inert_change_upvalues
  by (simp add: vm_ok_def frames_fit_def handlers_fit_def inert_change_as_func inert_change_window)

lemma inert_append: "inert ob \<Longrightarrow> inert_change h (h @ [ob])"
  by (simp add: inert_change_def nth_append)

lemma inert_update: "a < length h \<Longrightarrow> inert (h ! a) \<Longrightarrow> inert ob \<Longrightarrow> inert_change h (h[a := ob])"
  by (simp add: inert_change_def nth_list_update)

lemma steady_alloc [steady]: "inert ob \<Longrightarrow> steady n (alloc ob)"
  by (simp add: steady_def alloc_def vm_ok_inert inert_append advances_def inert_change_keeps)

lemma steady_alloc_string [steady]: "steady n (alloc_string t)"
  unfolding alloc_string_def by (intro steady) simp

lemma same_tag_inert: "object_tag ob = object_tag ob' \<Longrightarrow> object_tag ob \<notin> {5, 8} \<Longrightarrow> inert ob'"
  by (cases ob') (auto simp: inert_def)

lemma steady_store [steady]: "object_tag ob \<notin> {5, 8} \<Longrightarrow> steady n (store v ob)"
  using same_tag_inert [of ob]
  by (auto simp: steady_def store_def advances_def vm_ok_inert inert_update inert_change_keeps split: const.splits)

end
