(* ===== verification/Machine_Upvalues.thy ===== *)
theory Machine_Upvalues
  imports Machine_Facts "HOL-Library.Multiset"
begin

text \<open>
  Captured variables: what closing the open upvalues above a register does to the heap and to
  the list, that it never panics, and that capturing and closing keep the invariant.
\<close>

section \<open>Taking one out of the list\<close>

lemma mset_swap_remove: "i < length xs \<Longrightarrow> add_mset (xs ! i) (mset (swap_remove i xs)) = mset xs"
proof -
  assume i: "i < length xs"
  then have x: "xs = butlast xs @ [last xs]" by (cases xs rule: rev_cases) auto
  show ?thesis
  proof (cases "i < length (butlast xs)")
    case True
    have "add_mset (butlast xs ! i) (mset ((butlast xs)[i := last xs])) = add_mset (last xs) (mset (butlast xs))"
      using True by (simp add: mset_update nth_mem_mset)
    moreover have "butlast xs ! i = xs ! i" using True by (simp add: nth_butlast)
    moreover have "mset xs = add_mset (last xs) (mset (butlast xs))" by (subst x) simp
    ultimately show ?thesis by (simp add: swap_remove_def)
  next
    case False
    then have "i = length xs - 1" using i by simp
    then have "xs ! i = last xs" using i by (cases "xs = []") (simp_all add: last_conv_nth)
    moreover have "swap_remove i xs = butlast xs" using False by (simp add: swap_remove_def list_update_beyond)
    moreover have "mset xs = add_mset (last xs) (mset (butlast xs))" by (subst x) simp
    ultimately show ?thesis by simp
  qed
qed

lemma set_swap_remove: "distinct xs \<Longrightarrow> i < length xs \<Longrightarrow> set (swap_remove i xs) = set xs - {xs ! i}"
proof -
  assume d: "distinct xs" "i < length xs"
  have m: "mset xs = mset (xs ! i # swap_remove i xs)" using mset_swap_remove [OF d(2)] by simp
  then have "set xs = insert (xs ! i) (set (swap_remove i xs))" by (metis list.set(2) mset_eq_setD)
  moreover have "distinct (xs ! i # swap_remove i xs)" using mset_eq_imp_distinct_iff [OF m] d(1) by simp
  ultimately show ?thesis by auto
qed

lemma fst_swap_remove: "distinct (map fst xs) \<Longrightarrow> i < length xs \<Longrightarrow> distinct (map fst (swap_remove i xs))"
proof -
  assume d: "distinct (map fst xs)" "i < length xs"
  have "mset (map fst xs) = mset (map fst (xs ! i # swap_remove i xs))"
    using arg_cong [OF mset_swap_remove [OF d(2)], of "image_mset fst"] by simp
  then show ?thesis using mset_eq_imp_distinct_iff d(1) by fastforce
qed

lemma swap_remove_before: "k < i \<Longrightarrow> i < length xs \<Longrightarrow> swap_remove i xs ! k = xs ! k"
  by (simp add: swap_remove_def nth_butlast)

section \<open>Closing\<close>

text \<open>What becomes of an object when the upvalues at a register and above are closed.\<close>

definition closed_from :: "nat \<Rightarrow> const list \<Rightarrow> object \<Rightarrow> object" where
  "closed_from lo regs ob =
     (case ob of
        ObjUpvalue u \<Rightarrow>
          (case u of Open i \<Rightarrow> if lo \<le> i then ObjUpvalue (Closed (regs ! i)) else ob | Closed x \<Rightarrow> ob)
      | _ \<Rightarrow> ob)"

lemma closed_from_simps [simp]:
  "closed_from lo regs (ObjUpvalue (Open i)) = (if lo \<le> i then ObjUpvalue (Closed (regs ! i)) else ObjUpvalue (Open i))"
  "closed_from lo regs (ObjUpvalue (Closed x)) = ObjUpvalue (Closed x)"
  by (simp_all add: closed_from_def)

lemma closed_from_inert: "inert ob \<Longrightarrow> closed_from lo regs ob = ob"
  by (cases ob) (auto simp: closed_from_def inert_def split: upvalue_state.split)

lemma closed_from_func [simp]: "closed_from lo regs (ObjFunc f) = ObjFunc f"
  by (simp add: closed_from_def)

lemma closed_from_funcD: "closed_from lo regs ob = ObjFunc f \<Longrightarrow> ob = ObjFunc f"
  by (cases ob) (auto simp: closed_from_def split: upvalue_state.splits if_splits)

lemma closed_from_openD: "closed_from lo regs ob = ObjUpvalue (Open i) \<Longrightarrow> ob = ObjUpvalue (Open i) \<and> i < lo"
  by (cases ob) (auto simp: closed_from_def split: upvalue_state.splits if_splits)

lemma upvalues_fitD:
  assumes "upvalues_fit h n ous" "(i, v) \<in> set ous"
  shows "i < n" "\<exists>a < length h. v = KObj a \<and> h ! a = ObjUpvalue (Open i)"
  using assms by (auto simp: upvalues_fit_def)

text \<open>One round of the loop that closes an upvalue.\<close>

lemma upvalues_fit_close:
  assumes "upvalues_fit h n ous" "k < length ous" "ous ! k = (i, KObj a)" "inert ob"
  shows "upvalues_fit (h[a := ob]) n (swap_remove k ous)"
proof -
  have d: "distinct (map fst ous)" using assms(1) by (simp add: upvalues_fit_def)
  have m: "(i, KObj a) \<in> set ous" using assms(2,3) by (metis nth_mem)
  have a: "a < length h" "h ! a = ObjUpvalue (Open i)" using upvalues_fitD(2) [OF assms(1) m] by auto
  have s: "set (swap_remove k ous) = set ous - {(i, KObj a)}"
    using set_swap_remove [OF _ assms(2)] distinct_map [of fst ous] d assms(3) by simp
  have other: "j \<noteq> i" if "(j, v) \<in> set ous - {(i, KObj a)}" for j v
    using that m d by (metis DiffE eq_key_imp_eq_value singletonI)
  have "j < n \<and> (\<exists>b < length h. v = KObj b \<and> h[a := ob] ! b = ObjUpvalue (Open j))"
    if v: "(j, v) \<in> set ous - {(i, KObj a)}" for j v
    using upvalues_fitD [OF assms(1), of j v] v other [OF v] a by (auto simp: nth_list_update)
  moreover have "(j, KObj b) \<in> set ous - {(i, KObj a)}"
    if b: "b < length h" "h[a := ob] ! b = ObjUpvalue (Open j)" for b j
  proof -
    have "b \<noteq> a" using b assms(4) by (auto simp: inert_def)
    then show ?thesis using b assms(1) by (simp add: upvalues_fit_def)
  qed
  ultimately show ?thesis
    using fst_swap_remove [OF d assms(2)] by (auto simp: upvalues_fit_def s)
qed

lemma nothing_to_close:
  assumes "upvalues_fit h n ous" "\<forall>e \<in> set ous. fst e < lo"
  shows "map (closed_from lo regs) h = h"
proof (rule nth_equalityI)
  fix a assume "a < length (map (closed_from lo regs) h)"
  then have a: "a < length h" by simp
  have "closed_from lo regs (h ! a) = h ! a"
  proof (cases "\<exists>j. h ! a = ObjUpvalue (Open j)")
    case True
    then obtain j where j: "h ! a = ObjUpvalue (Open j)" by blast
    then have "(j, KObj a) \<in> set ous" using a assms(1) by (simp add: upvalues_fit_def)
    then show ?thesis using assms(2) j by fastforce
  next
    case False
    then show ?thesis by (cases "\<exists>f. h ! a = ObjFunc f") (auto intro: closed_from_inert simp: inert_def)
  qed
  then show "map (closed_from lo regs) h ! a = h ! a" using a by simp
qed simp

text \<open>What one round does: it goes past an upvalue below \<open>lo\<close>, or closes it.\<close>

lemma close_loop_step:
  assumes "i < length ous" "ous ! i = (j, KObj a)" "lo \<le> j" "j < length regs" "as_upvalue h (KObj a) = Some u"
  shows "close_loop lo regs i ous h = close_loop lo regs i (swap_remove i ous) (h[a := ObjUpvalue (Closed (regs ! j))])"
  by (rule trans [OF close_loop.simps]) (simp add: assms)

lemma closed_already:
  assumes "a < length h" "h ! a = ObjUpvalue (Open j)" "lo \<le> j"
  shows "map (closed_from lo regs) (h[a := ObjUpvalue (Closed (regs ! j))]) = map (closed_from lo regs) h"
  by (rule nth_equalityI) (use assms in \<open>auto simp: nth_list_update\<close>)

lemma swap_remove_rest:
  assumes "upvalues_fit h n ous" "i < length ous" "lo \<le> fst (ous ! i)"
  shows "{e \<in> set (swap_remove i ous). fst e < lo} = {e \<in> set ous. fst e < lo}"
proof -
  have "distinct (map fst ous)" using assms(1) by (simp add: upvalues_fit_def)
  then have "distinct ous" unfolding distinct_map by (rule conjunct1)
  then have s: "set (swap_remove i ous) = set ous - {ous ! i}" by (rule set_swap_remove [OF _ assms(2)])
  have "\<not> fst (ous ! i) < lo" using assms(3) by simp
  then show ?thesis unfolding s by blast
qed

lemma close_round:
  assumes "upvalues_fit h (length regs) ous" "i < length ous" "lo \<le> fst (ous ! i)"
  obtains h' where
    "close_loop lo regs i ous h = close_loop lo regs i (swap_remove i ous) h'"
    "map (closed_from lo regs) h' = map (closed_from lo regs) h"
    "upvalues_fit h' (length regs) (swap_remove i ous)"
proof -
  obtain j v where e: "ous ! i = (j, v)" by (cases "ous ! i")
  then have "(j, v) \<in> set ous" using assms(2) by (metis nth_mem)
  from upvalues_fitD [OF assms(1) this] obtain a
    where a: "j < length regs" "a < length h" "v = KObj a" "h ! a = ObjUpvalue (Open j)" by blast
  have u: "as_upvalue h (KObj a) = Some (Open j)" using a by (simp add: as_upvalue_def object_at_def)
  have j: "lo \<le> j" using assms(3) e by simp
  show thesis
    by (rule that [OF close_loop_step [OF assms(2) e [unfolded a(3)] j a(1) u] closed_already [OF a(2,4) j]])
      (use upvalues_fit_close [OF assms(1,2) e [unfolded a(3)]] in simp)
qed

lemma close_loop_fits:
  assumes "upvalues_fit h (length regs) ous" "i \<le> length ous" "\<forall>k < i. fst (ous ! k) < lo"
  shows "\<exists>ous'. close_loop lo regs i ous h = Some (ous', map (closed_from lo regs) h) \<and>
    set ous' = {e \<in> set ous. fst e < lo} \<and>
    upvalues_fit (map (closed_from lo regs) h) (length regs) ous'"
  using assms
proof (induction "length ous - i" arbitrary: ous i h)
  case 0
  then have "i = length ous" by simp
  then have all: "\<forall>e \<in> set ous. fst e < lo" using "0.prems"(3) by (simp add: all_set_conv_all_nth)
  have "close_loop lo regs i ous h = Some (ous, h)" using \<open>i = length ous\<close> by (subst close_loop.simps) simp
  moreover have "{e \<in> set ous. fst e < lo} = set ous" using all by blast
  ultimately show ?case using "0.prems"(1) nothing_to_close [OF "0.prems"(1) all] by simp
next
  case (Suc m)
  then have i: "i < length ous" by linarith
  show ?case
  proof (cases "lo \<le> fst (ous ! i)")
    case False
    have "close_loop lo regs i ous h = close_loop lo regs (i + 1) ous h"
      using i False by (subst close_loop.simps) (simp add: case_prod_beta)
    moreover have "\<forall>k < i + 1. fst (ous ! k) < lo" using Suc.prems(3) False by (simp add: less_Suc_eq)
    ultimately show ?thesis using Suc.hyps(1) [of ous "i + 1" h] Suc.hyps(2) Suc.prems(1) i by simp
  next
    case True
    obtain h' where r: "close_loop lo regs i ous h = close_loop lo regs i (swap_remove i ous) h'"
      "map (closed_from lo regs) h' = map (closed_from lo regs) h"
      "upvalues_fit h' (length regs) (swap_remove i ous)"
      by (rule close_round [OF Suc.prems(1) i True])
    have l: "length (swap_remove i ous) = length ous - 1" by (simp add: swap_remove_def)
    have "\<forall>k < i. fst (swap_remove i ous ! k) < lo" using Suc.prems(3) swap_remove_before [OF _ i] by simp
    then show ?thesis
      using Suc.hyps(1) [of "swap_remove i ous" i h'] Suc.hyps(2) i l r
        swap_remove_rest [OF Suc.prems(1) i True] by simp
  qed
qed

lemma closed_keeps: "keeps_functions h (map (closed_from lo regs) h)"
  by (simp add: keeps_functions_def)

lemma closed_as_func: "as_func (map (closed_from lo regs) h) v = as_func h v"
proof -
  have "as_func (map (closed_from lo regs) h) v = Some f \<longleftrightarrow> as_func h v = Some f" for f
    using closed_from_funcD by (fastforce simp: as_func_Some)
  then show ?thesis by (cases "as_func h v"; cases "as_func (map (closed_from lo regs) h) v") auto
qed

lemma closed_functions:
  assumes "functions_fit h" shows "functions_fit (map (closed_from lo regs) h)"
  unfolding functions_fit_def
proof (intro allI impI)
  fix a f assume a: "a < length (map (closed_from lo regs) h)" "map (closed_from lo regs) h ! a = ObjFunc f"
  then have "h ! a = ObjFunc f" using closed_from_funcD [of lo regs "h ! a"] by simp
  then have "fits_registers h f" using a(1) assms by (simp add: functions_fit_def)
  then show "fits_registers (map (closed_from lo regs) h) f"
    by (simp add: fits_registers_def captures_fit_def closed_as_func)
qed

text \<open>Closing never panics, and leaves a state as it should be.\<close>

lemma close_upvalues_ok:
  assumes "vm_ok s"
  obtains ous where
    "close_upvalues_from lo s =
       Done () (s\<lparr>open_upvalues := ous, objs := map (closed_from lo (registers s)) (objs s)\<rparr>)"
    "set ous = {e \<in> set (open_upvalues s). fst e < lo}"
    "vm_ok (s\<lparr>open_upvalues := ous, objs := map (closed_from lo (registers s)) (objs s)\<rparr>)"
proof -
  have u: "upvalues_fit (objs s) (length (registers s)) (open_upvalues s)" using assms by (simp add: vm_ok_def)
  obtain ous where o: "close_loop lo (registers s) 0 (open_upvalues s) (objs s) =
      Some (ous, map (closed_from lo (registers s)) (objs s))"
    "set ous = {e \<in> set (open_upvalues s). fst e < lo}"
    "upvalues_fit (map (closed_from lo (registers s)) (objs s)) (length (registers s)) ous"
    using close_loop_fits [OF u, of 0 lo] by auto
  have w: "window (map (closed_from lo (registers s)) (objs s)) = window (objs s)"
    by (rule ext) (simp add: window_def closed_as_func)
  have "vm_ok (s\<lparr>open_upvalues := ous, objs := map (closed_from lo (registers s)) (objs s)\<rparr>)"
    using assms o(3) closed_functions by (simp add: vm_ok_def frames_fit_def handlers_fit_def closed_as_func w)
  then show thesis using that [of ous] o(1,2) by (simp add: close_upvalues_from_def)
qed

lemma steady_close [steady]: "steady n (close_upvalues_from lo)"
  unfolding steady_def
proof (intro allI impI)
  fix s assume s: "vm_ok s"
  obtain ous where o:
    "close_upvalues_from lo s = Done () (s\<lparr>open_upvalues := ous, objs := map (closed_from lo (registers s)) (objs s)\<rparr>)"
    "vm_ok (s\<lparr>open_upvalues := ous, objs := map (closed_from lo (registers s)) (objs s)\<rparr>)"
    using close_upvalues_ok [OF s] by metis
  show "case close_upvalues_from lo s of
           Done x t \<Rightarrow> vm_ok t \<and> advances s t \<and> frames t = frames s
         | Raised e t \<Rightarrow> vm_ok t \<and> advances s t \<and> prefix (frames s) (frames t)
         | Panic \<Rightarrow> True | Undefined \<Rightarrow> False | Unfinished \<Rightarrow> True"
    using o(2) by (simp add: o(1) advances_def closed_keeps)
qed

section \<open>Capturing\<close>

lemma upvalues_fit_capture:
  assumes "upvalues_fit h n ous" "map_of ous i = None" "i < n"
  shows "upvalues_fit (h @ [ObjUpvalue (Open i)]) n (ous @ [(i, KObj (length h))])"
  using assms by (fastforce simp: upvalues_fit_def map_of_eq_None_iff nth_append less_Suc_eq)

end
