(* ===== verification/Machine_Rules.thy ===== *)
theory Machine_Rules
  imports Machine_Upvalues
begin

text \<open>
  Every operation that instructions are made of is steady, up to the calls that go through
  \<open>call\<close> and what the host provides, which are taken to be.
\<close>

section \<open>Errors\<close>

lemma vm_ok_frame_functions: "vm_ok s \<Longrightarrow> fr \<in> set (frames s) \<Longrightarrow> as_func (objs s) (fn_val fr) \<noteq> None"
  by (auto simp: vm_ok_def frames_fit_def in_set_conv_nth)

lemma all_some_map: "(\<And>x. x \<in> set xs \<Longrightarrow> f x \<noteq> None) \<Longrightarrow> all_some (map f xs) \<noteq> None"
proof (induction xs)
  case (Cons x xs)
  then obtain y ys where "f x = Some y" "all_some (map f xs) = Some ys" by (metis list.set_intros not_None_eq)
  then show ?case by simp
qed simp

lemma steady_frame_locations [steady]: "steady n frame_locations"
proof -
  have "all_some (map (\<lambda>fr. map_option (\<lambda>f. frame_location f (frame_ip fr)) (as_func (objs s) (fn_val fr)))
      (rev (frames s))) \<noteq> None" if "vm_ok s" for s
    by (rule all_some_map) (use vm_ok_frame_functions [OF that] in auto)
  then show ?thesis
    by (fastforce simp: steady_def frame_locations_def then_do_def get_def or_undefined_def split: option.split)
qed

lemma steady_set_field [steady]: "steady n (set_field v i x)"
  unfolding set_field_def by (intro steady; simp)

lemma steady_get_field [steady]: "steady n (get_field v i)"
  unfolding get_field_def by (intro steady)

lemma steady_update_class [steady]: "steady n (update_class v f)"
  unfolding update_class_def by (intro steady; simp)

lemma steady_update_module [steady]: "steady n (update_module v f)"
  unfolding update_module_def by (intro steady; simp)

lemma steady_alloc_instance [steady]: "steady n (alloc_instance class k)"
  unfolding alloc_instance_def by (intro steady; simp)

lemma steady_alloc_dict [steady]: "steady n (alloc_dict ps)"
  unfolding alloc_dict_def by (intro steady; simp)

lemma steady_set_named_field [steady]: "steady n (set_named_field v m x)"
  unfolding set_named_field_def by (intro steady)

lemma steady_build_stacktrace [steady]: "steady n build_stacktrace"
  unfolding build_stacktrace_def by (intro steady; simp)

lemma steady_attach_stacktrace [steady]: "steady n (attach_stacktrace v)"
  unfolding attach_stacktrace_def by (intro steady)

lemma steady_make_error [steady]: "steady n (make_error class msg)"
  unfolding make_error_def by (intro steady)

lemma steady_raise [steady]: "steady n (raise class msg)"
  unfolding raise_def by (intro steady)

lemma steady_is_error_value [steady]: "steady n (is_error_value v)"
  unfolding is_error_value_def by (intro steady)

lemma steady_is_instance_of [steady]: "steady n (is_instance_of v target)"
  unfolding is_instance_of_def by (intro steady)

lemma steady_const_at [steady]: "steady n (const_at f ix)"
  unfolding const_at_def by (intro steady)

lemma steady_const_as_str [steady]: "steady n (const_as_str f ix)"
  unfolding const_as_str_def no_name_def by (intro steady)

section \<open>Globals\<close>

lemma steady_define_global [steady]: "steady n (define_global m v)"
  unfolding define_global_def by (intro steady)

lemma steady_get_or_create_slot_in [steady]: "steady n (get_or_create_slot_in m name)"
  unfolding get_or_create_slot_in_def by (intro steady; simp)

lemma steady_lookup_slot_in [steady]: "steady n (lookup_slot_in m name)"
  unfolding lookup_slot_in_def by (intro steady)

lemma steady_write_slot_in [steady]: "steady n (write_slot_in m i x)"
  unfolding write_slot_in_def by (intro steady; simp)

lemma steady_resolve_global [steady]: "steady n (resolve_global m name)"
  unfolding resolve_global_def by (intro steady)

lemma steady_read_resolved [steady]: "steady n (read_resolved m r i)"
  unfolding read_resolved_def by (intro steady)

lemma steady_write_resolved [steady]: "steady n (write_resolved m r i x)"
  unfolding write_resolved_def by (intro steady)

lemma steady_cached_global [steady]: "steady n (cached_global f ip)"
  unfolding cached_global_def by (intro steady)

section \<open>Captured variables\<close>

lemma as_func_append: "\<forall>f. ob \<noteq> ObjFunc f \<Longrightarrow> as_func (h @ [ob]) v = as_func h v"
  by (auto simp: as_func_def object_at_def nth_append less_Suc_eq split: const.splits object.splits)

lemma steady_capture_upvalue [steady]: "i < n \<Longrightarrow> steady n (capture_upvalue i)"
  unfolding steady_def
proof (intro allI impI)
  fix s assume i: "i < n" and s: "vm_ok s" "n \<le> length (registers s)"
  let ?h = "objs s @ [ObjUpvalue (Open i)]"
  show "case capture_upvalue i s of
           Done x t \<Rightarrow> vm_ok t \<and> advances s t \<and> frames t = frames s
         | Raised e t \<Rightarrow> vm_ok t \<and> advances s t \<and> prefix (frames s) (frames t)
         | Panic \<Rightarrow> True | Undefined \<Rightarrow> False | Unfinished \<Rightarrow> True"
  proof (cases "map_of (open_upvalues s) i")
    case (Some v)
    then show ?thesis using s by (simp add: capture_upvalue_def then_do_def get_def give_def)
  next
    case None
    let ?t = "s\<lparr>objs := ?h, open_upvalues := open_upvalues s @ [(i, KObj (length (objs s)))]\<rparr>"
    have c: "capture_upvalue i s = Done (KObj (length (objs s))) ?t"
      using None by (simp add: capture_upvalue_def then_do_def get_def give_def alloc_def change_def)
    have k: "keeps_functions (objs s) ?h" by (simp add: keeps_functions_def nth_append)
    have f: "as_func ?h v = as_func (objs s) v" for v
      using as_func_append [of "ObjUpvalue (Open i)" "objs s" v] by simp
    have w: "window ?h = window (objs s)" by (rule ext) (simp add: window_def f)
    have u: "upvalues_fit ?h (length (registers s)) (open_upvalues s @ [(i, KObj (length (objs s)))])"
      using upvalues_fit_capture [OF _ None] s i by (simp add: vm_ok_def)
    have "functions_fit ?h"
      using s(1) by (auto simp: vm_ok_def functions_fit_def fits_registers_def captures_fit_def f nth_append less_Suc_eq)
    then have "vm_ok ?t" using s(1) u by (simp add: vm_ok_def frames_fit_def handlers_fit_def f w)
    then show ?thesis using k by (simp add: c advances_def)
  qed
qed

lemma steady_read_upvalue [steady]: "steady n (read_upvalue v)"
  unfolding read_upvalue_def by (intro steady)

lemma write_upvalue_closed:
  assumes "as_upvalue (objs s) v = Some (Closed y)"
  obtains a where "v = KObj a" "a < length (objs s)" "objs s ! a = ObjUpvalue (Closed y)"
    "write_upvalue v x s = Done () (s\<lparr>objs := (objs s)[a := ObjUpvalue (Closed x)]\<rparr>)"
  using assms
  by (auto simp: as_upvalue_def object_at_def write_upvalue_def then_do_def get_def or_panic_def store_def
      split: const.splits object.splits if_splits)

lemma steady_write_upvalue [steady]: "steady n (write_upvalue v x)"
  unfolding steady_def
proof (intro allI impI)
  fix s assume s: "vm_ok s" "n \<le> length (registers s)"
  show "case write_upvalue v x s of
           Done x t \<Rightarrow> vm_ok t \<and> advances s t \<and> frames t = frames s
         | Raised e t \<Rightarrow> vm_ok t \<and> advances s t \<and> prefix (frames s) (frames t)
         | Panic \<Rightarrow> True | Undefined \<Rightarrow> False | Unfinished \<Rightarrow> True"
  proof (cases "as_upvalue (objs s) v")
    case None
    then show ?thesis by (simp add: write_upvalue_def then_do_def get_def or_panic_def)
  next
    case (Some u)
    show ?thesis
    proof (cases u)
      case (Open i)
      then have "write_upvalue v x s = write_register i x s"
        using Some by (simp add: write_upvalue_def then_do_def get_def or_panic_def)
      then show ?thesis using steady_write_register [of n i x] s by (simp add: steady_def)
    next
      case (Closed y)
      obtain a where a: "a < length (objs s)" "objs s ! a = ObjUpvalue (Closed y)"
        "write_upvalue v x s = Done () (s\<lparr>objs := (objs s)[a := ObjUpvalue (Closed x)]\<rparr>)"
        by (rule write_upvalue_closed [OF Some [unfolded Closed]])
      have "inert_change (objs s) ((objs s)[a := ObjUpvalue (Closed x)])" using a by (simp add: inert_update)
      then show ?thesis using vm_ok_inert [OF s(1)] inert_change_keeps by (simp add: a(3) advances_def)
    qed
  qed
qed

end
