(* ===== verification/Machine_Steady.thy ===== *)
theory Machine_Steady
  imports Machine_Rules
begin

text \<open>
  The operations of \<open>Machine_Calls\<close> and \<open>Machine\<close> that push no frame, or run what they push to its
  end, are steady when the calls they make and what the host provides are.
\<close>

section \<open>Callers and hosts\<close>

definition caller_ok :: "caller \<Rightarrow> bool" where
  "caller_ok call \<longleftrightarrow> (\<forall>v as. steady 0 (call v as))"

text \<open>A native and the loading of a module may call back, allocate, raise and panic.\<close>

definition host_ok :: "host \<Rightarrow> bool" where
  "host_ok H \<longleftrightarrow>
     (\<forall>call. caller_ok call \<longrightarrow>
        (\<forall>f as. steady 0 (run_native H f call as)) \<and> (\<forall>i p. steady 0 (import_module H call i p)))"

lemma steady_call: "caller_ok call \<Longrightarrow> steady n (call v as)"
  using steady_mono [of 0 "call v as" n] by (simp add: caller_ok_def)

lemma steady_run_native: "host_ok H \<Longrightarrow> caller_ok call \<Longrightarrow> steady n (run_native H f call as)"
  using steady_mono [of 0 "run_native H f call as" n] by (simp add: host_ok_def)

lemma steady_import_module: "host_ok H \<Longrightarrow> caller_ok call \<Longrightarrow> steady n (import_module H call i p)"
  using steady_mono [of 0 "import_module H call i p" n] by (simp add: host_ok_def)

section \<open>Values\<close>

lemma steady_text_of_value [steady]: "steady n (text_of_value H v)"
  unfolding text_of_value_def by (intro steady)

lemma steady_values_equal [steady]: "steady n (values_equal H a b)"
  unfolding values_equal_def by (intro steady)

lemma steady_not_callable [steady]: "steady n (not_callable v)"
  unfolding not_callable_def by (intro steady)

lemma steady_module_not_callable [steady]: "steady n (module_not_callable b)"
  unfolding module_not_callable_def by (intro steady)

lemma steady_no_operator [steady]: "steady n (no_operator op a b)"
  unfolding no_operator_def by (intro steady)

lemma steady_big_result [steady]: "steady n (big_result r)"
  unfolding big_result_def by (intro steady; simp)

lemma steady_concat_values [steady]: "steady n (concat_values H a b)"
  unfolding concat_values_def by (intro steady)

lemma steady_add_otherwise [steady]: "steady n (add_otherwise H a b)"
  unfolding add_otherwise_def by (intro steady; simp)

lemma steady_repeat_or [steady]: "steady n x \<Longrightarrow> steady n (repeat_or a y x)"
  unfolding repeat_or_def by (intro steady; simp)

lemma steady_required_args [steady]: "steady n (required_args f)"
  unfolding required_args_def by (intro steady)

lemma steady_eq_overridden [steady]: "steady n (eq_overridden a b)"
  unfolding eq_overridden_def by (intro steady)

lemma steady_value_as_index [steady]: "steady n (value_as_index H v)"
  unfolding value_as_index_def by (intro steady)

lemma steady_coerce_index [steady]: "steady n (coerce_index H v k)"
  unfolding coerce_index_def by (intro steady)

lemma steady_slice_bound [steady]: "steady n (slice_bound H k v l)"
  unfolding slice_bound_def by (intro steady)

lemma steady_resolve_slice_bounds [steady]: "steady n (resolve_slice_bounds H lo hi k)"
  unfolding resolve_slice_bounds_def by (intro steady)

lemma steady_interned_char [steady]: "steady n (interned_char c)"
  unfolding interned_char_def by (intro steady)

lemma steady_string_char_at [steady]: "steady n (string_char_at H t v)"
  unfolding string_char_at_def by (intro steady)

lemma steady_undefined_key [steady]: "steady n (undefined_key H k)"
  unfolding undefined_key_def by (intro steady)

lemma steady_read_key [steady]: "steady n (read_key H d k)"
  unfolding read_key_def by (intro steady)

lemma steady_write_key [steady]: "steady n (write_key v d k x)"
  unfolding write_key_def by (intro steady; simp)

lemma steady_byte_of [steady]: "steady n (byte_of H x)"
  unfolding byte_of_def by (intro steady)

lemma steady_index_get [steady]: "steady n (index_get H v i)"
  unfolding index_get_def by (intro steady)

lemma steady_index_set [steady]: "steady n (index_set H v i x)"
  unfolding index_set_def by (intro steady; simp)

lemma steady_slice_of [steady]: "steady n (slice_of H xs lo hi)"
  unfolding slice_of_def by (intro steady)

lemma steady_index_slice [steady]: "steady n (index_slice H v lo hi)"
  unfolding index_slice_def by (intro steady; simp)

lemma steady_shows_through [steady]: "steady n (shows_through H v)"
  unfolding shows_through_def by (intro steady)

lemma steady_is_iterable [steady]: "steady n (is_iterable v)"
  unfolding is_iterable_def by (intro steady)

lemma steady_undefined_global [steady]: "steady n (undefined_global m)"
  unfolding undefined_global_def by (intro steady)

lemma steady_resolve_at [steady]: "steady n name \<Longrightarrow> steady n (resolve_at f fv at name)"
  unfolding resolve_at_def by (intro steady)

lemma steady_no_property [steady]: "steady n (no_property what m)"
  unfolding no_property_def by (intro steady)

lemma steady_lookup_static [steady]: "steady n (lookup_static c m)"
  unfolding lookup_static_def by (intro steady)

lemma steady_set_static [steady]: "steady n (set_static c m x)"
  unfolding set_static_def by (intro steady; simp)

lemma steady_is_method_closure [steady]: "steady n (is_method_closure v)"
  unfolding is_method_closure_def by (intro steady)

lemma steady_module_member [steady]: "steady n (module_member m k)"
  unfolding module_member_def by (intro steady)

lemma steady_get_property [steady]: "steady n (get_property H v c m)"
  unfolding get_property_def by (intro steady; simp)

lemma steady_set_property [steady]: "steady n (set_property v c m x)"
  unfolding set_property_def by (intro steady)

lemma steady_not_a_parent [steady]: "steady n (not_a_parent v)"
  unfolding not_a_parent_def by (intro steady)

lemma steady_no_super_method [steady]: "steady n (no_super_method m k)"
  unfolding no_super_method_def by (intro steady)

lemma steady_finalize_class [steady]: "steady n (finalize_class f c)"
  unfolding finalize_class_def by (intro steady)

lemma steady_take_over [steady]: "steady n (take_over target exported e)"
  unfolding take_over_def by (intro steady; simp)

lemma steady_import_all [steady]: "steady n (import_all f v exported)"
  unfolding import_all_def by (intro steady)

lemma steady_make_promoted [steady]: "steady n (make_promoted f v name)"
  unfolding make_promoted_def by (intro steady; simp)

lemma steady_param_type_matches [steady]: "steady n (param_type_matches v t f fr at)"
  unfolding param_type_matches_def by (cases t) (simp_all, (intro steady)+)

lemma steady_some_type_matches [steady]: "steady n (some_type_matches v ts f fr at)"
  by (induction ts) (auto intro!: steady)

lemma steady_check_param_type [steady]: "steady n (check_param_type f fr at v ix)"
  unfolding check_param_type_def by (intro steady)

lemma steady_make_class [steady]:
  "base + dst < n \<Longrightarrow> pred_option (\<lambda>r. base + r < n) super \<Longrightarrow> steady n (make_class f base dst name super)"
  unfolding make_class_def by (intro steady; simp)

lemma steady_own_upvalue [steady]: "steady n (own_upvalue fr ix what)"
  unfolding own_upvalue_def by (intro steady)

lemma steady_get_global [steady]: "steady n (get_global f fv at name)"
  unfolding get_global_def by (intro steady)

lemma steady_set_global [steady]: "steady n (set_global f fv at name v)"
  unfolding set_global_def by (intro steady)

lemma steady_assign_global [steady]: "steady n (assign_global f fv at name v)"
  unfolding assign_global_def by (intro steady)

lemma steady_raise_value [steady]: "steady n (raise_value v)"
  unfolding raise_value_def by (intro steady)

lemma steady_make_range [steady]: "steady n (make_range lo hi)"
  unfolding make_range_def by (intro steady; simp)

lemma steady_number_at [steady]: "steady n (number_at f ix)"
  unfolding number_at_def by (intro steady)

section \<open>Operations that call\<close>

lemma steady_call_native [steady]:
  assumes "host_ok H" "caller_ok call" shows "steady n (call_native H call f as)"
  unfolding call_native_def by (intro steady steady_run_native [OF assms] steady_clear_pending)

lemma steady_set_own_default: "steady n (each_do (\<lambda>d. set_field v (fst d) (snd d)) ds)"
  by (intro steady)

lemma steady_initialize_field [steady]:
  assumes "caller_ok call" shows "steady n (initialize_field call v step)"
  unfolding initialize_field_def by (intro steady steady_call [OF assms])

lemma steady_instantiate [steady]:
  assumes "caller_ok call" shows "steady n (instantiate call class as)"
  unfolding instantiate_def by (intro steady steady_call [OF assms] assms)

lemma steady_try_operator_override [steady]:
  assumes "host_ok H" "caller_ok call" shows "steady n (try_operator_override H call v deco as)"
  unfolding try_operator_override_def by (intro steady steady_call [OF assms(2)] assms)

lemma steady_overridden_or [steady]:
  assumes "host_ok H" "caller_ok call" "steady n x" shows "steady n (overridden_or H call v deco as x)"
  unfolding overridden_or_def by (intro steady assms)

lemma steady_on_numbers [steady]:
  assumes "host_ok H" "caller_ok call" "\<And>i j. steady n (g i j)" "\<And>a b. steady n (h a b)"
  shows "steady n (on_numbers H call op deco f g h a b)"
  unfolding on_numbers_def by (intro steady assms)

lemma steady_binary_numeric [steady]:
  assumes "host_ok H" "caller_ok call" shows "steady n (binary_numeric H call op deco f g a b)"
  unfolding binary_numeric_def by (intro steady assms)

lemma steady_bitwise_numeric [steady]:
  assumes "host_ok H" "caller_ok call" shows "steady n (bitwise_numeric H call op deco f g a b)"
  unfolding bitwise_numeric_def by (intro steady assms inert_simps)

lemma steady_compare [steady]:
  assumes "host_ok H" "caller_ok call" shows "steady n (compare H call op deco f g a b)"
  unfolding compare_def by (intro steady assms)

lemma steady_binary_add_values [steady]:
  assumes "host_ok H" "caller_ok call" shows "steady n (binary_add_values H call a b)"
  unfolding binary_add_values_def by (intro steady assms inert_simps)

lemma steady_binary_mult [steady]:
  assumes "host_ok H" "caller_ok call" shows "steady n (binary_mult H call a b)"
  unfolding binary_mult_def by (intro steady assms inert_simps)

lemma steady_imm_numeric [steady]:
  assumes "host_ok H" "caller_ok call" shows "steady n (imm_numeric H call op deco f mid tail y a)"
  unfolding imm_numeric_def by (intro steady assms)

lemma steady_binary_numeric_imm [steady]:
  assumes "host_ok H" "caller_ok call" shows "steady n (binary_numeric_imm H call op deco f y a)"
  unfolding binary_numeric_imm_def by (intro steady assms)

lemma steady_compare_imm [steady]:
  assumes "host_ok H" "caller_ok call" shows "steady n (compare_imm H call op deco f y a)"
  unfolding compare_imm_def by (intro steady assms)

lemma steady_call_eq [steady]:
  assumes "caller_ok call" shows "steady n (call_eq call a b)"
  unfolding call_eq_def by (intro steady steady_call [OF assms])

lemma steady_operator_equals [steady]:
  assumes "caller_ok call" shows "steady n (operator_equals H call a b)"
  unfolding operator_equals_def by (intro steady assms)

lemma steady_render:
  assumes "caller_ok call"
  shows "steady n (render H call k v)" "steady n (render_list H call k v i)" "steady n (render_dict H call k v i)"
proof (induction k arbitrary: v i)
  case 0
  show "steady n (render H call 0 v)" "steady n (render_list H call 0 v i)" "steady n (render_dict H call 0 v i)"
    for v i by (simp_all add: steady)
next
  case (Suc k)
  note r = Suc.IH
  show "steady n (render H call (Suc k) v)" "steady n (render_list H call (Suc k) v i)"
    "steady n (render_dict H call (Suc k) v i)" for v i
    by (simp_all only: render.simps render_list.simps render_dict.simps)
      (intro steady r steady_call [OF assms])+
qed

lemma steady_echo [steady]:
  assumes "caller_ok call" shows "steady n (echo H call v)"
  unfolding echo_def by (intro steady steady_render assms)

lemma steady_exec_binary [steady]:
  assumes "host_ok H" "caller_ok call" shows "steady n (exec_binary H call op a b)"
  unfolding exec_binary_def by (cases op) (simp_all, (intro steady assms)+)

lemma steady_exec_unary [steady]:
  assumes "host_ok H" "caller_ok call" shows "steady n (exec_unary H call op v)"
  unfolding exec_unary_def by (cases op) (simp_all, (intro steady assms inert_simps)+)

lemma steady_exec_imm [steady]:
  assumes "host_ok H" "caller_ok call" shows "steady n (exec_imm H call f op a ix)"
  unfolding exec_imm_def by (cases op) (simp_all, (intro steady assms)+)

lemma steady_import_at [steady]:
  assumes "host_ok H" "caller_ok call" shows "steady n (import_at H call f path importer)"
  unfolding import_at_def by (intro steady steady_import_module [OF assms])

end
