(* ===== verification/Machine_Moves.thy ===== *)
theory Machine_Moves
  imports Machine_Steady
begin

text \<open>
  What an instruction may do to the frames: go to another place in the innermost one, push one
  more on it, return from it. Each instruction keeps the invariant of the machine and reads and
  writes no register out of range.
\<close>

section \<open>Instructions of one frame\<close>

text \<open>
  The innermost frame has \<open>k\<close> registers at least, the frames below it stay as they are, and what
  is above is new.
\<close>

definition moves :: "nat \<Rightarrow> nat \<Rightarrow> 'a act \<Rightarrow> bool" where
  "moves n k m \<longleftrightarrow>
     (\<forall>s. vm_ok s \<longrightarrow> n \<le> length (registers s) \<longrightarrow> frames s \<noteq> [] \<longrightarrow> k \<le> window (objs s) (last (frames s)) \<longrightarrow>
        (case m s of
           Done x t \<Rightarrow> vm_ok t \<and> advances s t \<and> prefix (butlast (frames s)) (frames t) \<and>
             length (frames s) \<le> length (frames t)
         | Raised e t \<Rightarrow> vm_ok t \<and> advances s t \<and> prefix (butlast (frames s)) (frames t)
         | Panic \<Rightarrow> True
         | Undefined \<Rightarrow> False
         | Unfinished \<Rightarrow> True))"

named_theorems moves

lemma movesD:
  assumes "moves n k m" "vm_ok s" "n \<le> length (registers s)" "frames s \<noteq> []" "k \<le> window (objs s) (last (frames s))"
  shows "m s \<noteq> Undefined"
    "m s = Done x t \<Longrightarrow> vm_ok t \<and> advances s t \<and> prefix (butlast (frames s)) (frames t) \<and>
       length (frames s) \<le> length (frames t)"
    "m s = Raised e t \<Longrightarrow> vm_ok t \<and> advances s t \<and> prefix (butlast (frames s)) (frames t)"
proof -
  note c = assms(1) [unfolded moves_def, rule_format, OF assms(2-5)]
  show "m s \<noteq> Undefined" using c by (cases "m s") simp_all
  show "m s = Done x t \<Longrightarrow> vm_ok t \<and> advances s t \<and> prefix (butlast (frames s)) (frames t) \<and>
       length (frames s) \<le> length (frames t)" using c by simp
  show "m s = Raised e t \<Longrightarrow> vm_ok t \<and> advances s t \<and> prefix (butlast (frames s)) (frames t)" using c by simp
qed

lemma butlast_prefix: "prefix xs ys \<Longrightarrow> prefix (butlast xs) ys"
  by (metis prefix_def prefix_order.trans prefixeq_butlast)

lemma advances_window:
  "vm_ok s \<Longrightarrow> advances s t \<Longrightarrow> fr \<in> set (frames s) \<Longrightarrow> window (objs t) fr = window (objs s) fr"
  using keeps_window vm_ok_frame_functions by (simp add: advances_def)

lemma moves_steady: "steady n m \<Longrightarrow> moves n k m"
  by (fastforce simp: steady_def moves_def butlast_prefix prefixeq_butlast split: outcome.split)

lemma moves_then:
  assumes "steady n m" "\<And>x. moves n k (f x)"
  shows "moves n k (then_do m f)"
  unfolding moves_def
proof (intro allI impI)
  fix s
  assume s: "vm_ok s" "n \<le> length (registers s)" and fs: "frames s \<noteq> []" "k \<le> window (objs s) (last (frames s))"
  show "case then_do m f s of
           Done x t \<Rightarrow> vm_ok t \<and> advances s t \<and> prefix (butlast (frames s)) (frames t) \<and>
             length (frames s) \<le> length (frames t)
         | Raised e t \<Rightarrow> vm_ok t \<and> advances s t \<and> prefix (butlast (frames s)) (frames t)
         | Panic \<Rightarrow> True | Undefined \<Rightarrow> False | Unfinished \<Rightarrow> True"
  proof (cases "m s")
    case (Done x t)
    note d = steadyD(2) [OF assms(1) s Done]
    then have t: "n \<le> length (registers t)" "frames t \<noteq> []" "k \<le> window (objs t) (last (frames t))"
      using s fs advances_window [OF s(1), of t "last (frames s)"] by (auto simp: advances_def)
    note f = movesD [OF assms(2) conjunct1 [OF d] t]
    show ?thesis
      using Done d f advances_trans [of s t] by (fastforce simp: then_do_def split: outcome.split)
  next
    case (Raised e t)
    then show ?thesis using steadyD(3) [OF assms(1) s Raised] by (simp add: then_do_def butlast_prefix)
  next
    case Undefined
    then show ?thesis using steadyD(1) [OF assms(1) s] by simp
  qed (simp_all add: then_do_def)
qed

lemma moves_go_on [moves]: "moves n k m \<Longrightarrow> moves n k (go_on m)"
  by (fastforce simp: moves_def go_on_def then_do_def give_def split: outcome.splits)

lemma moves_if [moves]: "(b \<Longrightarrow> moves n k x) \<Longrightarrow> (\<not> b \<Longrightarrow> moves n k y) \<Longrightarrow> moves n k (if b then x else y)"
  by simp

lemma moves_option [moves]:
  "(x = None \<Longrightarrow> moves n k a) \<Longrightarrow> (\<And>y. x = Some y \<Longrightarrow> moves n k (b y)) \<Longrightarrow> moves n k (case x of None \<Rightarrow> a | Some y \<Rightarrow> b y)"
  by (cases x) auto

lemma moves_prod [moves]: "(\<And>y z. x = (y, z) \<Longrightarrow> moves n k (f y z)) \<Longrightarrow> moves n k (case x of (y, z) \<Rightarrow> f y z)"
  by (cases x) auto

lemma moves_object [moves]:
  "(\<And>t. moves n k (f1 t)) \<Longrightarrow> (\<And>bs. moves n k (f2 bs)) \<Longrightarrow> (\<And>i. moves n k (f3 i)) \<Longrightarrow>
   (\<And>xs. moves n k (f4 xs)) \<Longrightarrow> (\<And>d. moves n k (f5 d)) \<Longrightarrow> (\<And>f. moves n k (f6 f)) \<Longrightarrow>
   (\<And>r m. moves n k (f7 r m)) \<Longrightarrow> (\<And>c us. moves n k (f8 c us)) \<Longrightarrow> (\<And>u. moves n k (f9 u)) \<Longrightarrow>
   (\<And>f. moves n k (f10 f)) \<Longrightarrow> (\<And>c. moves n k (f11 c)) \<Longrightarrow> (\<And>c fs. moves n k (f12 c fs)) \<Longrightarrow>
   (\<And>lo hi st. moves n k (f13 lo hi st)) \<Longrightarrow> (\<And>p m. moves n k (f14 p m)) \<Longrightarrow>
   (\<And>m. moves n k (f15 m)) \<Longrightarrow> (\<And>b. moves n k (f16 b)) \<Longrightarrow> (\<And>t. moves n k (f17 t)) \<Longrightarrow>
   moves n k (case_object f1 f2 f3 f4 f5 f6 f7 f8 f9 f10 f11 f12 f13 f14 f15 f16 f17 ob)"
  by (cases ob) simp_all

section \<open>Jumps and handlers\<close>

lemma frames_fit_same:
  "map fn_val gs = map fn_val fs \<Longrightarrow> map frame_base gs = map frame_base fs \<Longrightarrow>
     map dst_in_caller gs = map dst_in_caller fs \<Longrightarrow> frames_fit h n fs \<Longrightarrow> frames_fit h n gs"
proof -
  assume m: "map fn_val gs = map fn_val fs" "map frame_base gs = map frame_base fs"
    "map dst_in_caller gs = map dst_in_caller fs" and f: "frames_fit h n fs"
  have l: "length gs = length fs" using m(1) map_eq_imp_length_eq by blast
  have e: "fn_val (gs ! i) = fn_val (fs ! i)" "frame_base (gs ! i) = frame_base (fs ! i)"
    "dst_in_caller (gs ! i) = dst_in_caller (fs ! i)" if "i < length fs" for i
    using that m l nth_map [of i gs] nth_map [of i fs] by metis+
  have "window h (gs ! i) = window h (fs ! i)" if "i < length fs" for i
    using e [OF that] by (simp add: window_def)
  then show ?thesis using f e l by (simp add: frames_fit_def)
qed

lemma handlers_fit_same:
  "map fn_val gs = map fn_val fs \<Longrightarrow> handlers_fit h fs hs \<Longrightarrow> handlers_fit h gs hs"
proof -
  assume m: "map fn_val gs = map fn_val fs" and f: "handlers_fit h fs hs"
  have l: "length gs = length fs" using m map_eq_imp_length_eq by blast
  have "window h (gs ! i) = window h (fs ! i)" if "i < length fs" for i
    using that m l nth_map [of i gs fn_val] nth_map [of i fs fn_val] by (simp add: window_def)
  then have w: "window h (gs ! (frame_depth k - 1)) = window h (fs ! (frame_depth k - 1))"
    if "0 < frame_depth k" "frame_depth k \<le> length fs" for k
    using that by simp
  show ?thesis
    unfolding handlers_fit_def
  proof (intro conjI ballI allI impI)
    fix c r assume c: "c \<in> set hs"
    then show d: "0 < frame_depth c" "frame_depth c \<le> length gs" using f l by (simp_all add: handlers_fit_def)
    show "r < window h (gs ! (frame_depth c - 1))" if "var_reg c = Some r"
      using f c that w [OF d(1) d(2) [unfolded l]] by (simp add: handlers_fit_def)
  qed (use f in \<open>simp add: handlers_fit_def\<close>)
qed

text \<open>The frames with the innermost one at another place.\<close>

definition at_ip :: "nat \<Rightarrow> call_frame list \<Rightarrow> call_frame list" where
  "at_ip ip fs = butlast fs @ map (frame_ip_update (\<lambda>_. ip)) [last fs]"

lemma map_at_ip:
  "fs \<noteq> [] \<Longrightarrow> map fn_val (at_ip ip fs) = map fn_val fs" "fs \<noteq> [] \<Longrightarrow> map frame_base (at_ip ip fs) = map frame_base fs"
  "fs \<noteq> [] \<Longrightarrow> map dst_in_caller (at_ip ip fs) = map dst_in_caller fs" "fs \<noteq> [] \<Longrightarrow> length (at_ip ip fs) = length fs"
  by (cases fs rule: rev_cases; simp add: at_ip_def)+

lemma set_ip_ok:
  assumes "vm_ok s" "frames s \<noteq> []"
  shows "vm_ok (s\<lparr>frames := at_ip ip (frames s)\<rparr>)"
  using assms frames_fit_same [OF map_at_ip(1-3) [OF assms(2)]] handlers_fit_same [OF map_at_ip(1) [OF assms(2)]]
  by (simp add: vm_ok_def)

lemma set_ip_eq: "set_ip ip s = Done () (s\<lparr>frames := at_ip ip (frames s)\<rparr>)"
  by (simp add: set_ip_def change_def at_ip_def)

lemma moves_set_ip [moves]: "moves n k (set_ip ip)"
  by (simp add: moves_def set_ip_eq set_ip_ok map_at_ip advances_def) (simp add: at_ip_def)

lemma sorted_snoc: "sorted xs \<Longrightarrow> \<forall>x \<in> set xs. x \<le> y \<Longrightarrow> sorted (xs @ [y])"
  by (simp add: sorted_append)

lemma moves_push_catch [moves]: "pred_option (\<lambda>r. r < k) var \<Longrightarrow> moves n k (push_catch var resume)"
proof -
  assume r: "pred_option (\<lambda>r. r < k) var"
  have "handlers_fit (objs s) (frames s)
      (catch_stack s @ [\<lparr>frame_depth = length (frames s), resume_ip = resume, var_reg = var\<rparr>])"
    if s: "vm_ok s" "frames s \<noteq> []" "k \<le> window (objs s) (last (frames s))" for s
    using s r by (auto simp: vm_ok_def handlers_fit_def sorted_append last_conv_nth pred_option_def)
  then show ?thesis
    by (auto simp: moves_def push_catch_def change_def vm_ok_def advances_def prefixeq_butlast)
qed

lemma moves_pop_catch [moves]: "moves n k pop_catch"
proof -
  have "handlers_fit h fs hs \<Longrightarrow> handlers_fit h fs (butlast hs)" for h fs hs
    by (auto simp: handlers_fit_def map_butlast dest: in_set_butlastD intro: sorted_butlast)
  then show ?thesis
    by (auto simp: moves_def pop_catch_def change_def vm_ok_def advances_def prefixeq_butlast)
qed

section \<open>Calls\<close>

lemma window_func: "as_func h (fn_val fr) = Some f \<Longrightarrow> window h fr = num_registers f"
  by (simp add: window_def)

lemma push_ok:
  assumes "vm_ok s" "as_func (objs s) fv = Some f" "base + num_registers f \<le> length (registers s)"
    "frames s \<noteq> [] \<longrightarrow> dst < window (objs s) (last (frames s))"
  shows "vm_ok (s\<lparr>frames := frames s @ [frame_for fv callee base dst]\<rparr>)"
proof -
  let ?fr = "frame_for fv callee base dst" and ?fs = "frames s" and ?h = "objs s"
  have w: "window ?h ?fr = num_registers f" by (rule window_func) (simp add: frame_for_def assms(2))
  have old: "\<And>i. i < length ?fs \<Longrightarrow> as_func ?h (fn_val (?fs ! i)) \<noteq> None \<and>
      frame_base (?fs ! i) + window ?h (?fs ! i) \<le> length (registers s)"
    "\<And>i. Suc i < length ?fs \<Longrightarrow> dst_in_caller (?fs ! Suc i) < window ?h (?fs ! i)"
    using assms(1) by (simp_all add: vm_ok_def frames_fit_def)
  have "frames_fit ?h (length (registers s)) (?fs @ [?fr])"
    unfolding frames_fit_def
  proof (intro allI impI conjI)
    fix i assume i: "i < length (?fs @ [?fr])"
    show "as_func ?h (fn_val ((?fs @ [?fr]) ! i)) \<noteq> None"
      using i old(1) [of i] assms(2) by (cases "i < length ?fs") (simp_all add: nth_append frame_for_def less_Suc_eq)
    show "frame_base ((?fs @ [?fr]) ! i) + window ?h ((?fs @ [?fr]) ! i) \<le> length (registers s)"
      using i old(1) [of i] assms(3) w
      by (cases "i < length ?fs") (simp_all add: nth_append less_Suc_eq, simp add: frame_for_def)
    assume i: "Suc i < length (?fs @ [?fr])"
    show "dst_in_caller ((?fs @ [?fr]) ! Suc i) < window ?h ((?fs @ [?fr]) ! i)"
    proof (cases "Suc i < length ?fs")
      case True
      then show ?thesis using old(2) [of i] by (simp add: nth_append)
    next
      case False
      then have "i = length ?fs - 1" "?fs \<noteq> []" using i by auto
      then show ?thesis using assms(4) by (simp add: nth_append last_conv_nth frame_for_def)
    qed
  qed
  moreover have "handlers_fit ?h (?fs @ [?fr]) (catch_stack s)"
    using assms(1) by (auto simp: vm_ok_def handlers_fit_def nth_append)
  ultimately show ?thesis using assms(1) by (simp add: vm_ok_def)
qed

lemma ensure_then:
  assumes "steady 0 m" "vm_ok s" "then_do (ensure_registers k) (\<lambda>_. m) s = Done x t"
  shows "k \<le> length (registers t)"
proof -
  let ?s = "s\<lparr>registers := registers s @ replicate (k - length (registers s)) KNil\<rparr>"
  have "m ?s = Done x t" using assms(3) by (simp add: then_do_def ensure_registers_def change_def)
  moreover have "vm_ok ?s" using assms(2) by (simp add: vm_ok_registers)
  ultimately have "advances ?s t" using steadyD(2) [OF assms(1)] by blast
  then show ?thesis by (auto simp: advances_def)
qed

lemma then_get: "then_do (get g) f s = f (g s) s"
  by (simp add: then_do_def get_def)

lemma then_assoc: "then_do (then_do m f) g = then_do m (\<lambda>x. then_do (f x) g)"
  by (rule ext) (simp add: then_do_def split: outcome.split)

text \<open>The part of a call that makes room for the frame and puts the arguments in it.\<close>

definition makes_room :: "nat \<Rightarrow> 'a act \<Rightarrow> bool" where
  "makes_room k m \<longleftrightarrow> steady 0 m \<and> (\<forall>s x t. vm_ok s \<longrightarrow> m s = Done x t \<longrightarrow> k \<le> length (registers t))"

lemma makes_room_ensure: "steady 0 m \<Longrightarrow> makes_room k (then_do (ensure_registers k) (\<lambda>_. m))"
  using ensure_then by (fastforce simp: makes_room_def intro: steady)

lemma makes_room_then: "steady 0 m \<Longrightarrow> (\<And>x. makes_room k (f x)) \<Longrightarrow> makes_room k (then_do m f)"
proof -
  assume m: "steady 0 m" and f: "\<And>x. makes_room k (f x)"
  have "k \<le> length (registers t)" if s: "vm_ok s" and d: "then_do m f s = Done x t" for s x t
  proof -
    from d obtain y u where y: "m s = Done y u" "f y u = Done x t"
      by (auto simp: then_do_def split: outcome.splits)
    then have "vm_ok u" using steadyD(2) [OF m s] by simp
    then show ?thesis using f y(2) by (auto simp: makes_room_def)
  qed
  moreover have "steady 0 (then_do m f)" using m f by (auto simp: makes_room_def intro: steady)
  ultimately show ?thesis by (simp add: makes_room_def)
qed

lemma makes_room_place_args: "makes_room (base + num_registers f) (place_args f base as)"
  unfolding place_args_def by (intro makes_room_then makes_room_ensure steady; simp)

text \<open>A frame is pushed when there is room for it.\<close>

lemma push_after:
  assumes "steady 0 m" "vm_ok s" "as_func (objs s) fv = Some f"
    "frames s \<noteq> [] \<longrightarrow> dst < window (objs s) (last (frames s))"
    "\<And>x t. m s = Done x t \<Longrightarrow> base + num_registers f \<le> length (registers t)"
  shows "case then_do m (\<lambda>_. push_frame (frame_for fv callee base dst)) s of
      Done x t \<Rightarrow> vm_ok t \<and> advances s t \<and> frames t = frames s @ [frame_for fv callee base dst]
    | Raised e t \<Rightarrow> vm_ok t \<and> advances s t \<and> prefix (frames s) (frames t)
    | Panic \<Rightarrow> True | Undefined \<Rightarrow> False | Unfinished \<Rightarrow> True"
proof (cases "m s")
  case (Done x t)
  have d: "vm_ok t" "advances s t" "frames t = frames s" using steadyD(2) [OF assms(1,2) _ Done] by simp_all
  have f: "as_func (objs t) fv = Some f" using d(2) assms(3) keeps_as_func by (auto simp: advances_def)
  have w: "frames t \<noteq> [] \<longrightarrow> dst < window (objs t) (last (frames t))"
    using assms(4) d(3) advances_window [OF assms(2) d(2)] by simp
  show ?thesis
    using push_ok [OF d(1) f assms(5) [OF Done] w] d
    by (simp add: then_do_def Done push_frame_def change_def advances_def)
next
  case (Raised e t)
  then show ?thesis using steadyD(3) [OF assms(1,2) _ Raised] by (simp add: then_do_def)
next
  case Undefined
  then show ?thesis using steadyD(1) [OF assms(1,2)] by simp
qed (simp_all add: then_do_def)

text \<open>\<open>setup_closure_call\<close> pushes the frame at once when the window fits, and makes room else.\<close>

lemma setup_at:
  assumes "vm_ok s" "as_func (objs s) fv = Some f" "frames s \<noteq> []" "dst < window (objs s) (last (frames s))"
  shows "case setup_closure_call callee fv f base num_args dst s of
      Done x t \<Rightarrow> vm_ok t \<and> advances s t \<and> frames t = frames s @ [frame_for fv callee base dst]
    | Raised e t \<Rightarrow> vm_ok t \<and> advances s t \<and> prefix (frames s) (frames t)
    | Panic \<Rightarrow> True | Undefined \<Rightarrow> False | Unfinished \<Rightarrow> True"
proof (cases "\<not> variadic f \<and> num_args = arity f \<and> base + num_registers f \<le> length (registers s)")
  case True
  then have "setup_closure_call callee fv f base num_args dst s =
      then_do (give ()) (\<lambda>_. push_frame (frame_for fv callee base dst)) s"
    by (simp add: setup_closure_call_def then_do_def get_def give_def)
  moreover have "base + num_registers f \<le> length (registers t)" if "give () s = Done x t" for x :: unit and t
    using that True by (simp add: give_def)
  ultimately show ?thesis
    using push_after [where m = "give ()" and base = base and dst = dst, OF steady_give assms(1,2)] assms(4) by simp
next
  case False
  let ?prep = "then_do (required_args f) (\<lambda>required.
         then_do (ensure_registers (base + num_registers f)) (\<lambda>_.
         then_do (each_do (\<lambda>i. write_register (base + i) KNil) [num_args..<required]) (\<lambda>_.
           if variadic f then
              then_do (map_do (\<lambda>i. read_register (base + required + i)) [0..<num_args - required]) (\<lambda>items.
              then_do (alloc (ObjList items)) (\<lambda>rest. write_register (base + required) rest))
            else give ())))"
  have room: "makes_room (base + num_registers f) ?prep"
    by (intro makes_room_then makes_room_ensure steady; simp)
  have "setup_closure_call callee fv f base num_args dst s =
      then_do ?prep (\<lambda>_. push_frame (frame_for fv callee base dst)) s"
    by (simp only: setup_closure_call_def then_get then_assoc False if_False)
  then show ?thesis
    using push_after [where m = ?prep and base = base and dst = dst, OF _ assms(1,2)] room assms(1,4)
    by (simp add: makes_room_def)
qed

lemma moves_setup [moves]:
  assumes "dst < k"
  shows "moves n k (then_do (accessed as_func fv) (\<lambda>f. setup_closure_call callee fv f base num_args dst))"
  unfolding moves_def
proof (intro allI impI)
  fix s assume s: "vm_ok s" "frames s \<noteq> []" "k \<le> window (objs s) (last (frames s))"
  show "case then_do (accessed as_func fv) (\<lambda>f. setup_closure_call callee fv f base num_args dst) s of
           Done x t \<Rightarrow> vm_ok t \<and> advances s t \<and> prefix (butlast (frames s)) (frames t) \<and>
             length (frames s) \<le> length (frames t)
         | Raised e t \<Rightarrow> vm_ok t \<and> advances s t \<and> prefix (butlast (frames s)) (frames t)
         | Panic \<Rightarrow> True | Undefined \<Rightarrow> False | Unfinished \<Rightarrow> True"
  proof (cases "as_func (objs s) fv")
    case None
    then show ?thesis by (simp add: then_do_def get_def or_panic_def)
  next
    case (Some f)
    have "then_do (accessed as_func fv) (\<lambda>f. setup_closure_call callee fv f base num_args dst) s =
        setup_closure_call callee fv f base num_args dst s"
      using Some by (simp add: then_do_def get_def or_panic_def)
    then show ?thesis
      using setup_at [OF s(1) Some s(2), of dst callee base num_args] s(3) assms
      by (auto simp: butlast_prefix intro: prefix_order.trans [OF prefixeq_butlast] split: outcome.split)
  qed
qed

text \<open>The loop, as \<open>call_closure\<close> relies on it.\<close>

definition run_ok :: "(nat \<Rightarrow> const act) \<Rightarrow> bool" where
  "run_ok run \<longleftrightarrow>
     (\<forall>stop s. vm_ok s \<longrightarrow> stop < length (frames s) \<longrightarrow>
        (case run stop s of
           Done v t \<Rightarrow> vm_ok t \<and> advances s t \<and> frames t = take stop (frames s)
         | Raised e t \<Rightarrow> vm_ok t \<and> advances s t \<and> prefix (take stop (frames s)) (frames t)
         | Panic \<Rightarrow> True | Undefined \<Rightarrow> False | Unfinished \<Rightarrow> True))"

lemma functions_have_registers: "vm_ok s \<Longrightarrow> as_func (objs s) v = Some f \<Longrightarrow> 0 < num_registers f"
  by (auto simp: vm_ok_def functions_fit_def fits_registers_def as_func_Some)

lemma last_window: "vm_ok s \<Longrightarrow> frames s \<noteq> [] \<Longrightarrow> 0 < window (objs s) (last (frames s))"
  using vm_ok_frame_functions [of s "last (frames s)"] functions_have_registers [of s]
  by (auto simp: window_func)

lemma steady_call_closure:
  assumes "run_ok run" shows "steady n (call_closure run callee fv as)"
  unfolding steady_def
proof (intro allI impI)
  fix s assume s: "vm_ok s"
  show "case call_closure run callee fv as s of
           Done x t \<Rightarrow> vm_ok t \<and> advances s t \<and> frames t = frames s
         | Raised e t \<Rightarrow> vm_ok t \<and> advances s t \<and> prefix (frames s) (frames t)
         | Panic \<Rightarrow> True | Undefined \<Rightarrow> False | Unfinished \<Rightarrow> True"
  proof (cases "as_func (objs s) fv")
    case None
    then show ?thesis by (simp add: call_closure_def then_do_def get_def or_panic_def)
  next
    case (Some f)
    define base where "base = (if frames s = [] then 0
      else frame_base (last (frames s)) + window (objs s) (last (frames s)))"
    have b: "(if frames s = [] then give 0 else frame_top (last (frames s))) s = Done base s"
      using vm_ok_frame_functions [OF s, of "last (frames s)"]
      by (auto simp: base_def frame_top_def frame_function_def then_do_def get_def give_def or_undefined_def window_func)
    let ?push = "then_do (place_args f base as) (\<lambda>_. push_frame (frame_for fv callee base 0))"
    have c: "call_closure run callee fv as s = then_do ?push (\<lambda>_. run (length (frames s))) s"
      using Some b by (simp add: call_closure_def then_assoc) (simp add: then_do_def get_def or_panic_def)
    have p: "case ?push s of
        Done x t \<Rightarrow> vm_ok t \<and> advances s t \<and> frames t = frames s @ [frame_for fv callee base 0]
      | Raised e t \<Rightarrow> vm_ok t \<and> advances s t \<and> prefix (frames s) (frames t)
      | Panic \<Rightarrow> True | Undefined \<Rightarrow> False | Unfinished \<Rightarrow> True"
      using push_after [where m = "place_args f base as" and base = base and dst = 0, OF _ s Some]
        makes_room_place_args [of base f as]
        last_window [OF s] s
      by (simp add: makes_room_def)
    show ?thesis
    proof (cases "?push s")
      case (Done x t)
      then have t: "vm_ok t" "advances s t" "frames t = frames s @ [frame_for fv callee base 0]" using p by simp_all
      then have "case run (length (frames s)) t of
           Done v u \<Rightarrow> vm_ok u \<and> advances t u \<and> frames u = take (length (frames s)) (frames t)
         | Raised e u \<Rightarrow> vm_ok u \<and> advances t u \<and> prefix (take (length (frames s)) (frames t)) (frames u)
         | Panic \<Rightarrow> True | Undefined \<Rightarrow> False | Unfinished \<Rightarrow> True"
        using assms by (simp add: run_ok_def)
      then show ?thesis
        using t advances_trans [OF t(2)] unfolding c
        by (subst (1) then_do_def) (auto simp: Done split: outcome.splits)
    next
      case (Raised e t)
      then show ?thesis unfolding c using p by (subst (1) then_do_def) (simp add: Raised)
    next
      case Panic
      then show ?thesis unfolding c by (subst (1) then_do_def) simp
    next
      case Undefined
      then show ?thesis using p by simp
    next
      case Unfinished
      then show ?thesis unfolding c by (subst (1) then_do_def) simp
    qed
  qed
qed

lemma steady_call_value:
  assumes "host_ok H" "caller_ok call" "run_ok run"
  shows "steady n (call_value H call run callee as)"
  unfolding call_value_def by (intro steady steady_call [OF assms(2)] steady_call_closure assms)

end
