(* ===== verification/Machine_Safe.thy ===== *)
theory Machine_Safe
  imports Machine_Moves
begin

text \<open>
  The loop keeps the invariant: what each instruction does, what a handler and a return do, and
  runs of any length.
\<close>

section \<open>Calls of an instruction\<close>

lemma steady_call_args [steady]: "steady n (call_args base func num_args)"
  unfolding call_args_def by (intro steady)

lemma moves_dispatch_callee:
  assumes "host_ok H" "caller_ok call" "base + dst < n" "base + func < n" "dst < k" "moves n k again"
  shows "moves n k (dispatch_callee H call again base func num_args dst)"
  unfolding dispatch_callee_def
  by (intro moves_then [OF steady_get_reg [OF assms(4)]] moves_then [OF steady_get]
        moves_option moves_object moves_steady moves_setup [OF assms(5)] moves_then [OF steady_set_reg [OF assms(4)]]
        assms(6))
    (intro steady steady_call [OF assms(2)] assms)+

lemma moves_dispatch_call:
  assumes "host_ok H" "caller_ok call" "base + dst < n" "base + func < n" "dst < k"
  shows "moves n k (dispatch_call H call base func num_args dst)"
  unfolding dispatch_call_def
  by (intro moves_dispatch_callee assms moves_steady steady)

lemma moves_invoke_prebound:
  assumes "dst < k" shows "moves n k (invoke_prebound base recv callee num_args dst)"
  unfolding invoke_prebound_def
  by (intro moves_then [OF steady_get] moves_option moves_prod moves_setup assms moves_steady) (intro steady)+

lemma moves_call_member:
  assumes "host_ok H" "caller_ok call" "base + dst < n" "base + (recv + 1) < n" "dst < k"
  shows "moves n k (call_member H call base recv x num_args dst)"
  unfolding call_member_def
  by (intro moves_then [OF steady_set_reg [OF assms(4)]] moves_dispatch_call assms)

lemma steady_invoke_builtin [steady]:
  assumes "host_ok H" "caller_ok call" "base + dst < n" "steady n x"
  shows "steady n (invoke_builtin H call base recv v name num_args dst x)"
  unfolding invoke_builtin_def by (intro steady assms)

lemma moves_invoke_module:
  assumes "host_ok H" "caller_ok call" "base + dst < n" "base + (recv + 1) < n" "dst < k"
  shows "moves n k (invoke_module H call base recv v m name num_args dst)"
  unfolding invoke_module_def
  by (intro moves_then [OF steady_module_member] moves_option moves_call_member assms moves_steady)
    (intro steady assms)+

lemma moves_invoke:
  assumes "host_ok H" "caller_ok call" "base + dst < n" "base + (recv + 1) < n" "dst < k"
  shows "moves n k (invoke H call base recv name num_args dst)"
proof -
  have r: "base + recv < n" using assms(4) by simp
  show ?thesis
    unfolding invoke_def
    by (intro moves_then [OF steady_get_reg [OF r]] moves_then [OF steady_get] moves_option moves_object
          moves_then [OF steady_then [OF steady_get steady_or_panic]] moves_then [OF steady_or_panic]
          moves_then [OF steady_lookup_static] moves_then [OF steady_is_method_closure] moves_if
          moves_invoke_prebound moves_call_member moves_invoke_module assms)
      (intro moves_steady steady assms)+
qed

lemma moves_invoke_super:
  assumes "host_ok H" "caller_ok call" "base + dst < n" "base + (super + 1) < n" "dst < k"
  shows "moves n k (invoke_super H call f base super name num_args dst)"
proof -
  have r: "base + super < n" using assms(4) by simp
  show ?thesis
    unfolding invoke_super_def
    by (intro moves_then [OF steady_get_reg [OF r]] moves_then [OF steady_get_reg [OF assms(4)]]
          moves_then [OF steady_get] moves_option moves_prod moves_then [OF steady_const_as_str]
          moves_then [OF steady_then [OF steady_get steady_or_panic]] moves_then [OF steady_or_panic]
          moves_invoke_prebound moves_call_member assms)
      (intro moves_steady steady assms)+
qed

lemma moves_call_super_ctor:
  assumes "base + super < n" "dst < k"
  shows "moves n k (call_super_ctor base super num_args dst)"
  unfolding call_super_ctor_def
  by (intro moves_then [OF steady_get_reg [OF assms(1)]] moves_then [OF steady_get] moves_option
        moves_invoke_prebound assms)
    (intro moves_steady steady)+

section \<open>Closures\<close>

text \<open>What a prototype captures is known only where it is found, so this is about one state.\<close>

lemma make_closure_at:
  assumes "captures_fit (objs s) f (IClosure dst proto)" "frame_base fr + num_registers f \<le> n"
  obtains m where "make_closure f fr proto s = m s" "steady n m"
proof (cases "index (constants (fn_chunk f)) proto")
  case None
  then have "make_closure f fr proto s = or_panic None s"
    by (simp add: make_closure_def const_at_def then_do_def or_panic_def)
  then show thesis using that steady_or_panic by blast
next
  case (Some pv)
  show thesis
  proof (cases "as_func (objs s) pv")
    case None
    then have "make_closure f fr proto s = type_error (str ''Closure operand is not a function'') s"
      using Some by (simp add: make_closure_def const_at_def then_do_def or_panic_def get_def)
    then show thesis using that steady_raise by blast
  next
    case p: (Some p)
    let ?m = "then_do (map_do (\<lambda>u. case u of
                UpLocal r \<Rightarrow> capture_upvalue (frame_base fr + r)
              | UpUpvalue i \<Rightarrow> then_do (accessed as_closure (closure_val fr)) (\<lambda>(c, ups). or_panic (index ups i)))
             (fn_upvalues p)) (\<lambda>captured. alloc (ObjClosure pv captured))"
    have "make_closure f fr proto s = ?m s"
      using Some p by (simp add: make_closure_def const_at_def or_panic_def get_def then_do_def)
    moreover have "steady n (case u of
                UpLocal r \<Rightarrow> capture_upvalue (frame_base fr + r)
              | UpUpvalue i \<Rightarrow> then_do (accessed as_closure (closure_val fr)) (\<lambda>(c, ups). or_panic (index ups i)))"
      if u: "u \<in> set (fn_upvalues p)" for u
    proof (cases u)
      case (UpLocal r)
      then have "frame_base fr + r < n" using assms u Some p by (fastforce simp: captures_fit_def)
      then show ?thesis using UpLocal by (simp add: steady)
    next
      case (UpUpvalue i)
      then show ?thesis by simp (intro steady)
    qed
    then have "steady n ?m" by (intro steady_then steady_map steady_alloc) simp_all
    ultimately show thesis by (rule that)
  qed
qed

section \<open>Instructions\<close>

definition ends_run :: "instr \<Rightarrow> bool" where
  "ends_run i \<longleftrightarrow> (\<exists>src. i = IReturn src)"

text \<open>What one instruction comes to, where the run goes on above \<open>stop\<close> frames.\<close>

definition exec_ok :: "nat \<Rightarrow> vm \<Rightarrow> const option outcome \<Rightarrow> bool" where
  "exec_ok stop s out \<longleftrightarrow>
     (case out of
        Done x t \<Rightarrow> vm_ok t \<and> advances s t \<and>
          (case x of
             None \<Rightarrow> prefix (take stop (frames s)) (frames t) \<and> stop < length (frames t)
           | Some v \<Rightarrow> frames t = take stop (frames s))
      | Raised e t \<Rightarrow> vm_ok t \<and> advances s t \<and> prefix (take stop (frames s)) (frames t)
      | Panic \<Rightarrow> True
      | Undefined \<Rightarrow> False
      | Unfinished \<Rightarrow> True)"

lemma take_prefix_butlast:
  assumes "stop < length fs" shows "prefix (take stop fs) (butlast fs)"
proof -
  have "take stop fs = take stop (butlast fs)" using assms by (simp add: take_butlast)
  then show ?thesis by (simp add: take_is_prefix)
qed

lemma go_on_ok:
  assumes "moves n k m" "vm_ok s" "n \<le> length (registers s)" "k \<le> window (objs s) (last (frames s))"
    "stop < length (frames s)"
  shows "exec_ok stop s (go_on m s)"
proof -
  have ne: "frames s \<noteq> []" using assms(5) by auto
  note d = movesD [OF assms(1-3) ne assms(4)]
  have p: "prefix (butlast (frames s)) fs \<Longrightarrow> prefix (take stop (frames s)) fs" for fs
    using take_prefix_butlast [OF assms(5)] prefix_order.trans by blast
  show ?thesis
    using d(1) d(2) [of "()"] d(3) p assms(5)
    by (cases "m s") (auto simp: exec_ok_def go_on_def then_do_def give_def)
qed

lemma last_frame_fits:
  assumes "vm_ok s" "frames s \<noteq> []"
  shows "frame_base (last (frames s)) + window (objs s) (last (frames s)) \<le> length (registers s)"
proof -
  have "length (frames s) - 1 < length (frames s)" using assms(2) by simp
  then show ?thesis using assms unfolding vm_ok_def frames_fit_def last_conv_nth [OF assms(2)] by blast
qed

lemma moves_import:
  assumes "steady n m" "dst < k"
  shows "moves n k (then_do m (\<lambda>v. then_do top_frame (\<lambda>fr. set_reg (frame_base fr) dst v)))"
proof (rule moves_then [OF assms(1)])
  fix v
  show "moves n k (then_do top_frame (\<lambda>fr. set_reg (frame_base fr) dst v))"
    unfolding moves_def
  proof (intro allI impI)
    fix s assume s: "vm_ok s" "frames s \<noteq> []" "k \<le> window (objs s) (last (frames s))"
    have "frame_base (last (frames s)) + dst < length (registers s)"
      using last_frame_fits [OF s(1,2)] s(3) assms(2) by linarith
    then have "then_do top_frame (\<lambda>fr. set_reg (frame_base fr) dst v) s =
        Done () (s\<lparr>registers := (registers s)[frame_base (last (frames s)) + dst := v]\<rparr>)"
      using s(2) by (simp add: top_frame_def then_do_def get_def or_panic_def set_reg_def)
    then show "case then_do top_frame (\<lambda>fr. set_reg (frame_base fr) dst v) s of
           Done x t \<Rightarrow> vm_ok t \<and> advances s t \<and> prefix (butlast (frames s)) (frames t) \<and>
             length (frames s) \<le> length (frames t)
         | Raised e t \<Rightarrow> vm_ok t \<and> advances s t \<and> prefix (butlast (frames s)) (frames t)
         | Panic \<Rightarrow> True | Undefined \<Rightarrow> False | Unfinished \<Rightarrow> True"
      using s(1) by (simp add: vm_ok_registers advances_def prefixeq_butlast)
  qed
qed

lemma moves_using_jump: "moves n k (using_jump f table v)"
  unfolding using_jump_def
  by (intro moves_then [OF steady_get] moves_then [OF steady_or_panic] moves_option moves_set_ip
      moves_steady [OF steady_give])

lemma moves_exec:
  assumes "host_ok H" "caller_ok call" "frame_base fr + k \<le> n" "regs_below k i"
    "\<forall>src. i \<noteq> IReturn src" "\<forall>src. i \<noteq> IRaise src" "\<forall>dst proto. i \<noteq> IClosure dst proto"
  shows "moves n k (exec H call stop f fr i)"
proof -
  note go = moves_go_on [OF moves_steady]
  note reg = steady_get_reg [where base = "frame_base fr" and n = n]
  show ?thesis
  proof (cases i)
    case (IJmpIfFalse c off)
    then show ?thesis using assms(3,4)
      by simp (intro moves_go_on moves_then [OF reg] moves_then [OF steady_get] moves_if moves_set_ip
          moves_steady [OF steady_give]; simp)
  next
    case (IJmpIfTrue c off)
    then show ?thesis using assms(3,4)
      by simp (intro moves_go_on moves_then [OF reg] moves_then [OF steady_get] moves_if moves_set_ip
          moves_steady [OF steady_give]; simp)
  next
    case (ICall dst func num_args)
    then show ?thesis using assms(3,4) by simp (intro moves_go_on moves_dispatch_call assms(1,2); simp)
  next
    case (IInvoke dst obj name num_args)
    then show ?thesis using assms(3,4)
      by simp (intro moves_go_on moves_then [OF steady_const_as_str] moves_invoke assms(1,2); simp)
  next
    case (IInvokeSuper dst super name num_args)
    then show ?thesis using assms(3,4) by simp (intro moves_go_on moves_invoke_super assms(1,2); simp)
  next
    case (ICallSuperCtor dst super num_args)
    then show ?thesis using assms(3,4) by simp (intro moves_go_on moves_call_super_ctor; simp)
  next
    case (IImport dst path importer)
    then show ?thesis using assms(4) by simp (intro moves_go_on moves_import steady assms(1,2); simp)
  next
    case (IUsingJump subject table)
    then show ?thesis using assms(3,4)
      by simp (intro moves_go_on moves_then [OF reg] moves_using_jump; simp)
  next
    case (IMakeClass dst name super)
    then show ?thesis using assms(3,4) by simp (intro go steady; auto simp: pred_option_def)
  next
    case (IMakeList dst first c)
    then show ?thesis using assms(3,4) by simp (intro go steady; simp)
  next
    case (IMakeDict dst first c)
    then show ?thesis using assms(3,4) by simp (intro go steady; simp)
  qed (use assms in \<open>simp_all, (intro go steady moves_go_on moves_set_ip moves_push_catch moves_pop_catch assms(1,2); simp)+\<close>)
qed

end
