(* ===== verification/Machine_Loop.thy ===== *)
theory Machine_Loop
  imports Machine_Safe
begin

text \<open>
  Handlers and returns, which take frames away, and runs of any length: from a state as it should
  be, no run reads or writes a register out of range or follows a dangling pointer.
\<close>

section \<open>Fewer frames\<close>

lemma handlers_fit_prefix: "prefix hs' hs \<Longrightarrow> handlers_fit h fs hs \<Longrightarrow> handlers_fit h fs hs'"
  by (auto simp: handlers_fit_def prefix_def sorted_append)

lemma truncate_ok:
  assumes "vm_ok s" "prefix hs (catch_stack s)" "\<forall>k \<in> set hs. frame_depth k \<le> d"
  shows "vm_ok (s\<lparr>frames := take d (frames s), catch_stack := hs\<rparr>)"
proof -
  have "frames_fit (objs s) (length (registers s)) (take d (frames s))"
    using assms(1) by (simp add: vm_ok_def frames_fit_def)
  moreover have h: "handlers_fit (objs s) (frames s) hs"
    using handlers_fit_prefix [OF assms(2)] assms(1) by (simp add: vm_ok_def)
  have "handlers_fit (objs s) (take d (frames s)) hs"
    unfolding handlers_fit_def
  proof (intro conjI ballI allI impI)
    show "sorted (map frame_depth hs)" using h by (simp add: handlers_fit_def)
    fix k r assume k: "k \<in> set hs"
    then show p: "0 < frame_depth k" "frame_depth k \<le> length (take d (frames s))"
      using h assms(3) by (simp_all add: handlers_fit_def)
    have "frame_depth k - 1 < d" using p(1) assms(3) k by fastforce
    then show "r < window (objs s) (take d (frames s) ! (frame_depth k - 1))" if "var_reg k = Some r"
      using h k that by (simp add: handlers_fit_def)
  qed
  ultimately show ?thesis using assms(1) by (simp add: vm_ok_def)
qed

lemma drop_handlers_snoc:
  "drop_handlers n (hs @ [k]) = (if n < frame_depth k then drop_handlers n hs else hs @ [k])"
  by (simp add: drop_handlers_def)

lemma drop_handlers_prefix: "prefix (drop_handlers n hs) hs"
proof (induction hs rule: rev_induct)
  case Nil
  then show ?case by (simp add: drop_handlers_def)
next
  case (snoc k hs)
  then show ?case by (simp add: drop_handlers_snoc prefix_order.trans [OF _ prefixI])
qed

lemma drop_handlers_depth:
  "sorted (map frame_depth hs) \<Longrightarrow> k \<in> set (drop_handlers n hs) \<Longrightarrow> frame_depth k \<le> n"
proof (induction hs rule: rev_induct)
  case Nil
  then show ?case by (simp add: drop_handlers_def)
next
  case (snoc x hs)
  then show ?case by (fastforce simp: drop_handlers_snoc sorted_append split: if_splits)
qed

lemma pop_ok:
  assumes "vm_ok s" "frames s \<noteq> []"
  shows "vm_ok (s\<lparr>frames := butlast (frames s), catch_stack := drop_handlers (length (frames s) - 1) (catch_stack s)\<rparr>)"
  using truncate_ok [OF assms(1) drop_handlers_prefix, of "length (frames s) - 1" "length (frames s) - 1"]
    drop_handlers_depth assms(1)
  by (auto simp: vm_ok_def handlers_fit_def butlast_conv_take)

lemma close_keeps:
  assumes "close_upvalues_from lo s = Done () (s\<lparr>open_upvalues := ous, objs := map (closed_from lo rs) (objs s)\<rparr>)"
  shows "advances s (s\<lparr>open_upvalues := ous, objs := map (closed_from lo rs) (objs s)\<rparr>)"
  by (simp add: advances_def closed_keeps)

lemma then_Done: "m s = Done x t \<Longrightarrow> then_do m f s = f x t"
  by (simp add: then_do_def)

lemma then_change: "then_do (change g) f s = f () (g s)"
  by (simp add: then_do_def change_def)

section \<open>Return\<close>

lemma caller_register:
  assumes "vm_ok s" "frames s = fs @ [caller, fr]"
  shows "frame_base caller + dst_in_caller fr < length (registers s)"
proof -
  have i: "Suc (length fs) < length (frames s)" using assms(2) by simp
  have f: "frames_fit (objs s) (length (registers s)) (frames s)" using assms(1) by (simp add: vm_ok_def)
  have "frame_base (frames s ! length fs) + window (objs s) (frames s ! length fs) \<le> length (registers s)"
    "dst_in_caller (frames s ! Suc (length fs)) < window (objs s) (frames s ! length fs)"
    using f i Suc_lessD [OF i] unfolding frames_fit_def by blast+
  then show ?thesis using assms(2) by (simp add: nth_append)
qed

lemma run_return_ok:
  assumes "vm_ok s" "stop < length (frames s)" "fr = last (frames s)"
  shows "exec_ok stop s (return_from stop fr ret s)"
proof -
  let ?lo = "frame_base fr"
  obtain ous where c: "close_upvalues_from ?lo s =
      Done () (s\<lparr>open_upvalues := ous, objs := map (closed_from ?lo (registers s)) (objs s)\<rparr>)"
    "vm_ok (s\<lparr>open_upvalues := ous, objs := map (closed_from ?lo (registers s)) (objs s)\<rparr>)"
    by (rule close_upvalues_ok [OF assms(1)])
  define t where "t = s\<lparr>open_upvalues := ous, objs := map (closed_from ?lo (registers s)) (objs s)\<rparr>"
  define u where "u = t\<lparr>frames := butlast (frames t), catch_stack := drop_handlers (length (frames t) - 1) (catch_stack t)\<rparr>"
  have t: "vm_ok t" "advances s t" "frames t = frames s" "registers t = registers s"
    using c close_keeps [OF c(1)] by (simp_all add: t_def)
  have ne: "frames t \<noteq> []" using assms(2) t(3) by auto
  have u: "vm_ok u" "advances s u" "frames u = butlast (frames s)" "registers u = registers s"
    using pop_ok [OF t(1) ne] t(2-4) by (simp_all add: u_def advances_def)
  have r: "return_from stop fr ret s =
      (if length (frames s) - 1 = stop then Done (Some ret) u
       else then_do top_frame (\<lambda>caller. go_on (set_reg (frame_base caller) (dst_in_caller fr) ret)) u)"
  proof -
    have p: "pop_frame_inner t = Done (last (frames t)) u" using ne by (simp add: pop_frame_inner_def u_def)
    have c: "then_do (close_upvalues_from ?lo) f s = f () t" for f :: "unit \<Rightarrow> const option act"
      using c(1) by (simp add: then_do_def t_def)
    have p: "then_do pop_frame_inner f t = f (last (frames t)) u" for f :: "call_frame \<Rightarrow> const option act"
      using p by (simp add: then_do_def)
    show ?thesis
      unfolding return_from_def c p then_get
      using t(3) u(3) assms(3) by (simp add: give_def)
  qed
  show ?thesis
  proof (cases "length (frames s) - 1 = stop")
    case True
    then show ?thesis using r u assms(2) by (simp add: exec_ok_def butlast_conv_take)
  next
    case False
    then have l: "stop < length (frames u)" using assms(2) u(3) by simp
    then have "frames u \<noteq> []" by auto
    then obtain fs caller where fs: "frames s = fs @ [caller, fr]"
      using u(3) assms(2,3) by (metis append_Cons append_Nil append_assoc append_butlast_last_id list.size(3) not_less0)
    then have fu: "frames u = fs @ [caller]" using u(3) by (simp add: butlast_append)
    have b: "frame_base caller + dst_in_caller fr < length (registers s)" by (rule caller_register [OF assms(1) fs])
    have "return_from stop fr ret s = Done None (u\<lparr>registers := (registers u)[frame_base caller + dst_in_caller fr := ret]\<rparr>)"
      using r False b u(4) fu
      by (simp add: top_frame_def then_do_def get_def or_panic_def go_on_def set_reg_def give_def)
    moreover have "prefix (take stop (frames s)) (frames u)" using take_prefix_butlast [OF assms(2)] u(3) by simp
    ultimately show ?thesis using u l by (simp add: exec_ok_def vm_ok_registers advances_def)
  qed
qed

section \<open>Handlers\<close>

text \<open>The state in which a handler goes on.\<close>

definition resumed :: "catch_handler \<Rightarrow> const \<Rightarrow> vm \<Rightarrow> vm" where
  "resumed k exc s = s\<lparr>
     catch_stack := butlast (catch_stack s),
     frames := at_ip (resume_ip k) (take (frame_depth k) (frames s)),
     registers := (case var_reg k of
        None \<Rightarrow> registers s
      | Some r \<Rightarrow> (registers s)[frame_base (frames s ! (frame_depth k - 1)) + r := exc])\<rparr>"

text \<open>The heap and the open upvalues with those of the frames that an error leaves closed.\<close>

definition left :: "nat \<Rightarrow> vm \<Rightarrow> vm \<Rightarrow> bool" where
  "left d s t \<longleftrightarrow>
     (if d < length (frames s)
      then close_upvalues_from (frame_base (frames s ! d)) s = Done () t
      else t = s)"

lemma left_ok:
  assumes "vm_ok s"
  obtains t where "left d s t" "vm_ok t" "advances s t" "frames t = frames s" "registers t = registers s"
    "catch_stack t = catch_stack s"
proof (cases "d < length (frames s)")
  case True
  let ?lo = "frame_base (frames s ! d)"
  obtain ous where c: "close_upvalues_from ?lo s =
      Done () (s\<lparr>open_upvalues := ous, objs := map (closed_from ?lo (registers s)) (objs s)\<rparr>)"
    "vm_ok (s\<lparr>open_upvalues := ous, objs := map (closed_from ?lo (registers s)) (objs s)\<rparr>)"
    by (rule close_upvalues_ok [OF assms])
  show thesis by (rule that [OF _ c(2)]) (use True c close_keeps [OF c(1)] in \<open>simp_all add: left_def\<close>)
next
  case False
  then show thesis using that [of s] assms by (simp add: left_def)
qed

lemma close_reads_no_handlers:
  "close_upvalues_from lo (s\<lparr>catch_stack := hs\<rparr>) =
     (case close_upvalues_from lo s of Done x t \<Rightarrow> Done x (t\<lparr>catch_stack := hs\<rparr>) | r \<Rightarrow> r)"
  by (simp add: close_upvalues_from_def split: option.split)

lemma handle_error_none:
  "catch_stack s = [] \<or> \<not> stop < frame_depth (last (catch_stack s)) \<Longrightarrow> handle_error exc stop s = Raised exc s"
  by (simp add: handle_error_def then_do_def get_def fail_def)

lemma handlers_below:
  assumes "handlers_fit h fs hs" "hs \<noteq> []"
  shows "\<forall>k \<in> set (butlast hs). frame_depth k \<le> frame_depth (last hs)"
proof -
  have "map frame_depth (butlast hs @ [last hs]) = map frame_depth hs" using assms(2) by simp
  then have "sorted (map frame_depth (butlast hs @ [last hs]))" using assms(1) by (simp only: handlers_fit_def)
  then show ?thesis by (simp add: sorted_append)
qed

lemma handler_window:
  assumes "vm_ok s" "k \<in> set (catch_stack s)"
  shows "0 < frame_depth k" "frame_depth k \<le> length (frames s)"
    "var_reg k = Some r \<Longrightarrow> frame_base (frames s ! (frame_depth k - 1)) + r < length (registers s)"
proof -
  have h: "handlers_fit (objs s) (frames s) (catch_stack s)" using assms(1) by (simp add: vm_ok_def)
  show d: "0 < frame_depth k" "frame_depth k \<le> length (frames s)" using h assms(2) by (simp_all add: handlers_fit_def)
  have "frame_depth k - 1 < length (frames s)" using d by linarith
  then have "frame_base (frames s ! (frame_depth k - 1)) + window (objs s) (frames s ! (frame_depth k - 1)) \<le> length (registers s)"
    using assms(1) unfolding vm_ok_def frames_fit_def by blast
  moreover assume "var_reg k = Some r"
  then have "r < window (objs s) (frames s ! (frame_depth k - 1))" using h assms(2) unfolding handlers_fit_def by blast
  ultimately show "frame_base (frames s ! (frame_depth k - 1)) + r < length (registers s)" by linarith
qed

lemma resumed_ok:
  assumes "vm_ok s" "catch_stack s \<noteq> []" "k = last (catch_stack s)"
  shows "vm_ok (resumed k exc s)" "length (frames (resumed k exc s)) = frame_depth k"
proof -
  have k: "k \<in> set (catch_stack s)" using assms(2,3) by simp
  note w = handler_window [OF assms(1) k]
  have ne: "take (frame_depth k) (frames s) \<noteq> []" using w(1,2) by auto
  then show "length (frames (resumed k exc s)) = frame_depth k" using w(2) by (simp add: resumed_def map_at_ip)
  let ?u = "s\<lparr>frames := take (frame_depth k) (frames s), catch_stack := butlast (catch_stack s)\<rparr>"
  have "vm_ok ?u"
    by (rule truncate_ok [OF assms(1) prefixeq_butlast])
      (use handlers_below [OF _ assms(2), of "objs s" "frames s"] assms(1,3) in \<open>simp add: vm_ok_def\<close>)
  from set_ip_ok [OF this, of "resume_ip k"] ne
  have u: "vm_ok (?u\<lparr>frames := at_ip (resume_ip k) (take (frame_depth k) (frames s))\<rparr>)" by simp
  show "vm_ok (resumed k exc s)"
    using vm_ok_registers [OF u, of "registers (resumed k exc s)"]
    by (cases "var_reg k") (simp_all add: resumed_def)
qed

lemma handle_error_at:
  assumes "vm_ok s" "catch_stack s \<noteq> []" "k = last (catch_stack s)" "stop < frame_depth k" "left (frame_depth k) s t"
    "frames t = frames s" "registers t = registers s" "catch_stack t = catch_stack s"
  shows "handle_error exc stop s = Done () (resumed k exc t)"
proof -
  have k: "k \<in> set (catch_stack s)" using assms(2,3) by simp
  note w = handler_window [OF assms(1) k]
  have ne: "take (frame_depth k) (frames s) \<noteq> []" using w(1,2) by auto
  have l: "last (take (frame_depth k) (frames s)) = frames s ! (frame_depth k - 1)"
    using w(1,2) ne by (simp add: last_conv_nth)
  let ?hs = "butlast (catch_stack s)"
  have c: "(if frame_depth k < length (frames s) then close_upvalues_from (frame_base (frames s ! frame_depth k))
      else give ()) (s\<lparr>catch_stack := ?hs\<rparr>) = Done () (t\<lparr>catch_stack := ?hs\<rparr>)"
    using assms(5) by (auto simp: left_def give_def close_reads_no_handlers)
  define u where "u = t\<lparr>catch_stack := ?hs, frames := take (frame_depth k) (frames s)\<rparr>"
  have p: "then_do top_frame f u = f (frames s ! (frame_depth k - 1)) u" for f :: "call_frame \<Rightarrow> unit act"
    using ne l by (simp add: u_def top_frame_def then_do_def get_def or_panic_def)
  have c: "then_do (if frame_depth k < length (frames (s\<lparr>catch_stack := ?hs\<rparr>))
      then close_upvalues_from (frame_base (frames (s\<lparr>catch_stack := ?hs\<rparr>) ! frame_depth k)) else give ()) f (s\<lparr>catch_stack := ?hs\<rparr>) = f () (t\<lparr>catch_stack := ?hs\<rparr>)" for f :: "unit \<Rightarrow> unit act"
  proof -
    have "frames (s\<lparr>catch_stack := ?hs\<rparr>) = frames s" by simp
    then show ?thesis using c by (simp only: then_do_def outcome.case)
  qed
  have b: "(catch_stack s = [] \<or> \<not> stop < frame_depth k) = False" using assms(2-4) by simp
  have u: "(t\<lparr>catch_stack := ?hs\<rparr>)\<lparr>frames := take (frame_depth k) (frames (t\<lparr>catch_stack := ?hs\<rparr>))\<rparr> = u"
    using assms(6) by (simp add: u_def)
  have "handle_error exc stop s = then_do (set_ip (resume_ip k)) (\<lambda>_.
      case var_reg k of Some r \<Rightarrow> set_reg (frame_base (frames s ! (frame_depth k - 1))) r exc | None \<Rightarrow> give ()) u"
    by (simp only: handle_error_def then_get assms(3) [symmetric] b if_False Let_def pop_catch_def then_change c u p)
  then show ?thesis
    using w(3) assms(6-8) ne
    by (auto intro!: vm.equality simp: then_do_def set_ip_eq u_def resumed_def give_def set_reg_def split: option.split)
qed

text \<open>What an error comes to: the run goes on at a handler of its own, or ends with the error.\<close>

lemma handle_error_ok:
  assumes "vm_ok s" "prefix (take stop fs) (frames s)" "stop < length fs"
  shows "case handle_error exc stop s of
      Done x t \<Rightarrow> vm_ok t \<and> advances s t \<and> prefix (take stop fs) (frames t) \<and> stop < length (frames t)
    | Raised e t \<Rightarrow> t = s
    | Panic \<Rightarrow> True | Undefined \<Rightarrow> False | Unfinished \<Rightarrow> True"
proof (cases "catch_stack s = [] \<or> \<not> stop < frame_depth (last (catch_stack s))")
  case True
  then show ?thesis using handle_error_none by simp
next
  case False
  let ?k = "last (catch_stack s)"
  obtain t where t: "left (frame_depth ?k) s t" "vm_ok t" "advances s t" "frames t = frames s"
    "registers t = registers s" "catch_stack t = catch_stack s"
    by (rule left_ok [OF assms(1)])
  have h: "handle_error exc stop s = Done () (resumed ?k exc t)"
    by (rule handle_error_at [OF assms(1) _ refl _ t(1,4,5,6)]) (use False in simp_all)
  have r: "vm_ok (resumed ?k exc t)" "length (frames (resumed ?k exc t)) = frame_depth ?k"
    using resumed_ok [OF t(2), of ?k] t(6) False by simp_all
  have a: "advances s (resumed ?k exc t)"
    using t(3) by (auto simp: advances_def resumed_def split: option.split)
  have "prefix (take stop fs) (butlast (take (frame_depth ?k) (frames s)))"
  proof -
    have s: "take stop fs = take stop (frames s)"
      using assms(2,3) by (auto simp: prefix_def)
    have "min stop (frame_depth ?k - Suc 0) = stop" using False by auto
    then have "take stop (frames s) = take stop (butlast (take (frame_depth ?k) (frames s)))"
      using False handler_window(2) [OF assms(1), of ?k] by (simp add: butlast_take take_take)
    then show ?thesis using s by (simp add: take_is_prefix)
  qed
  then have "prefix (take stop fs) (frames (resumed ?k exc t))"
    using t(4) by (simp add: resumed_def at_ip_def prefix_order.trans [OF _ prefixI])
  then show ?thesis using h r a False by simp
qed

section \<open>One turn\<close>

lemma raise_never_done: "raise class msg s \<noteq> Done x t"
  by (simp add: raise_def then_do_def fail_def split: outcome.split)

lemma raise_value_never_done: "raise_value v s \<noteq> Done x t"
  by (auto simp: raise_value_def then_do_def fail_def raise_never_done split: outcome.splits)

lemma never_done_ok:
  assumes "steady n m" "vm_ok s" "n \<le> length (registers s)" "\<And>x t. m s \<noteq> Done x t"
  shows "exec_ok stop s (m s)"
proof (cases "m s")
  case (Raised e t)
  then show ?thesis
    using steadyD(3) [OF assms(1-3) Raised] by (auto simp: exec_ok_def intro: prefix_order.trans [OF take_is_prefix])
qed (use assms(4) steadyD(1) [OF assms(1-3)] in \<open>auto simp: exec_ok_def\<close>)

lemma get_reg_at: "base + r < length (registers s) \<Longrightarrow> then_do (get_reg base r) g s = g (registers s ! (base + r)) s"
  by (simp add: get_reg_def then_do_def get_def or_undefined_def)

lemma frame_registers:
  assumes "vm_ok s" "frames s \<noteq> []" "fr = last (frames s)" "as_func (objs s) (fn_val fr) = Some f"
  shows "window (objs s) fr = num_registers f" "frame_base fr + num_registers f \<le> length (registers s)"
  using last_frame_fits [OF assms(1,2)] assms(3,4) by (auto simp: window_func)

lemma moves_unwrap: "moves n k (go_on m) \<Longrightarrow> moves n k m"
  by (fastforce simp: moves_def go_on_def then_do_def give_def split: outcome.splits)

lemma exec_at:
  assumes "host_ok H" "caller_ok call" "vm_ok s" "stop < length (frames s)" "fr = last (frames s)"
    "as_func (objs s) (fn_val fr) = Some f" "i \<in> set (code (fn_chunk f))"
  shows "exec_ok stop s (exec H call stop f fr i s)"
proof -
  have ne: "frames s \<noteq> []" using assms(4) by auto
  note r = frame_registers [OF assms(3) ne assms(5,6)]
  have "fits_registers (objs s) f"
    using assms(3,6) by (auto simp: vm_ok_def functions_fit_def as_func_Some)
  then have fits: "regs_below (num_registers f) i" "captures_fit (objs s) f i"
    using assms(7) by (simp_all add: fits_registers_def)
  have go: "moves (frame_base fr + num_registers f) (num_registers f) m \<Longrightarrow> exec_ok stop s (go_on m s)" for m
    using go_on_ok [OF _ assms(3) r(2) _ assms(4), of "num_registers f" m] r(1) assms(5) by simp
  consider (ret) src where "i = IReturn src" | (raise) src where "i = IRaise src"
    | (clos) dst proto where "i = IClosure dst proto"
    | (other) "\<forall>src. i \<noteq> IReturn src" "\<forall>src. i \<noteq> IRaise src" "\<forall>dst proto. i \<noteq> IClosure dst proto"
    by blast
  then show ?thesis
  proof cases
    case ret
    then have "frame_base fr + src < length (registers s)" using fits(1) r(2) by simp
    then show ?thesis using ret run_return_ok [OF assms(3,4,5)] by (simp add: get_reg_at)
  next
    case raise
    then have "frame_base fr + src < length (registers s)" using fits(1) r(2) by simp
    then show ?thesis
      using raise never_done_ok [OF steady_raise_value [where n = 0] assms(3) _ raise_value_never_done]
      by (simp add: get_reg_at)
  next
    case clos
    obtain m where m: "make_closure f fr proto s = m s" "steady (frame_base fr + num_registers f) m"
      by (rule make_closure_at [OF fits(2) [unfolded clos] order_refl])
    have "exec H call stop f fr i s = go_on (then_do m (\<lambda>v. set_reg (frame_base fr) dst v)) s"
      using clos m(1) by (simp add: go_on_def then_do_def)
    moreover have "frame_base fr + dst < frame_base fr + num_registers f" using fits(1) clos by simp
    then have "moves (frame_base fr + num_registers f) (num_registers f)
        (then_do m (\<lambda>v. set_reg (frame_base fr) dst v))"
      by (intro moves_steady steady m(2))
    ultimately show ?thesis using go by simp
  next
    case other
    have x: "moves (frame_base fr + num_registers f) (num_registers f) (exec H call stop f fr i)"
      by (rule moves_exec [OF assms(1,2) order_refl fits(1) other])
    obtain m where m: "exec H call stop f fr i = go_on m" by (cases i) (use other in auto)
    show ?thesis using moves_unwrap x go by (simp add: m)
  qed
qed

lemma caught_ok:
  assumes "exec_ok stop s (m s)" "stop < length (frames s)"
  shows "exec_ok stop s (caught stop m s)"
proof (cases "m s")
  case (Raised e t)
  then have t: "vm_ok t" "advances s t" "prefix (take stop (frames s)) (frames t)"
    using assms(1) by (simp_all add: exec_ok_def)
  have c: "caught stop m s = go_on (handle_error e stop) t" using Raised by (simp add: caught_def)
  show ?thesis
    unfolding c using handle_error_ok [OF t(1,3) assms(2), of e] t advances_trans [OF t(2)]
    by (cases "handle_error e stop t") (auto simp: exec_ok_def go_on_def then_do_def give_def)
qed (use assms in \<open>simp_all add: caught_def\<close>)

lemma exec_ok_before:
  assumes "exec_ok stop t out" "advances s t" "take stop (frames t) = take stop (frames s)"
  shows "exec_ok stop s out"
  using assms advances_trans [OF assms(2)] by (auto simp: exec_ok_def split: outcome.splits option.splits)

lemma turn_ok:
  assumes "host_ok H" "caller_ok call" "vm_ok s" "stop < length (frames s)"
  shows "exec_ok stop s (turn H call stop s)"
proof -
  define fr where "fr = last (frames s)"
  have ne: "frames s \<noteq> []" using assms(4) by auto
  then obtain f where f: "as_func (objs s) (fn_val fr) = Some f"
    using vm_ok_frame_functions [OF assms(3)] by (fastforce simp: fr_def)
  have fr: "then_do top_frame g s = g fr s" for g :: "call_frame \<Rightarrow> const option act"
    using ne by (simp add: top_frame_def then_do_def get_def or_panic_def fr_def)
  have fn: "then_do (frame_function fr) g s = g f s" for g :: "obj_function \<Rightarrow> const option act"
    using f by (simp add: frame_function_def then_do_def get_def or_undefined_def)
  show ?thesis
  proof (cases "as_closure (objs s) (closure_val fr)")
    case None
    then have "turn H call stop s = Panic"
      unfolding turn_def fr by (simp add: then_do_def get_def or_panic_def)
    then show ?thesis by (simp add: exec_ok_def)
  next
    case (Some c)
    then have c: "then_do (accessed as_closure (closure_val fr)) g s = g c s" for g :: "_ \<Rightarrow> const option act"
      by (simp add: then_do_def get_def or_panic_def)
    show ?thesis
    proof (cases "length (code (fn_chunk f)) \<le> frame_ip fr")
      case True
      then show ?thesis
        unfolding turn_def fr c fn
        using never_done_ok [OF steady_raise [where n = 0] assms(3) _ raise_never_done] by simp
    next
      case False
      define t where "t = s\<lparr>frames := at_ip (frame_ip fr + 1) (frames s)\<rparr>"
      let ?fr = "last (frames t)"
      have t: "vm_ok t" "advances s t" "length (frames t) = length (frames s)" "objs t = objs s"
        using set_ip_ok [OF assms(3) ne] ne by (simp_all add: t_def advances_def map_at_ip)
      have lt: "stop < length (frames t)" using assms(4) t(3) by simp
      have nt: "frames t \<noteq> []" using lt by auto
      have v: "fn_val ?fr = fn_val fr" by (simp add: t_def at_ip_def fr_def)
      have tk: "take stop (frames t) = take stop (frames s)"
        using assms(4) take_butlast [OF assms(4)] by (simp add: t_def at_ip_def)
      have i: "code (fn_chunk f) ! frame_ip fr \<in> set (code (fn_chunk f))" using False by simp
      have e: "turn H call stop s = caught stop (exec H call stop f ?fr (code (fn_chunk f) ! frame_ip fr)) t"
        unfolding turn_def fr c fn using False nt
        by (simp add: then_do_def set_ip_eq top_frame_def get_def or_panic_def t_def)
      have "exec_ok stop t (exec H call stop f ?fr (code (fn_chunk f) ! frame_ip fr) t)"
        by (rule exec_at [OF assms(1,2) t(1) lt refl _ i]) (simp add: v t(4) f)
      then have "exec_ok stop t (turn H call stop s)" unfolding e by (rule caught_ok [OF _ lt])
      then show ?thesis by (rule exec_ok_before [OF _ t(2) tk])
    qed
  qed
qed

section \<open>Runs\<close>

lemma run_until_ok:
  assumes "host_ok H" "caller_ok call" shows "run_ok (run_until H call n)"
proof (induction n)
  case 0
  then show ?case by (simp add: run_ok_def unfinished_def)
next
  case (Suc n)
  show ?case
    unfolding run_ok_def
  proof (intro allI impI)
    fix stop s assume s: "vm_ok s" "stop < length (frames s)"
    have x: "exec_ok stop s (turn H call stop s)" by (rule turn_ok [OF assms s])
    show "case run_until H call (Suc n) stop s of
           Done v t \<Rightarrow> vm_ok t \<and> advances s t \<and> frames t = take stop (frames s)
         | Raised e t \<Rightarrow> vm_ok t \<and> advances s t \<and> prefix (take stop (frames s)) (frames t)
         | Panic \<Rightarrow> True | Undefined \<Rightarrow> False | Unfinished \<Rightarrow> True"
    proof (cases "\<exists>t. turn H call stop s = Done None t")
      case True
      then obtain t where t: "turn H call stop s = Done None t" by blast
      then have d: "vm_ok t" "advances s t" "prefix (take stop (frames s)) (frames t)" "stop < length (frames t)"
        using x by (simp_all add: exec_ok_def)
      have tk: "take stop (frames t) = take stop (frames s)" using d(3) s(2) by (auto simp: prefix_def)
      have "run_until H call (Suc n) stop s = run_until H call n stop t" using t by (simp add: then_do_def)
      then show ?thesis
        using Suc.IH [unfolded run_ok_def, rule_format, OF d(1,4)] advances_trans [OF d(2)]
        by (auto simp: tk split: outcome.splits)
    next
      case False
      then show ?thesis
        using x by (auto simp: then_do_def give_def exec_ok_def split: outcome.splits option.splits)
    qed
  qed
qed

lemma call_at_ok: "host_ok H \<Longrightarrow> caller_ok (call_at H n)"
proof (induction n)
  case 0
  then show ?case by (simp add: caller_ok_def steady)
next
  case (Suc n)
  then show ?case
    using steady_call_value [OF Suc.prems Suc.IH run_until_ok] by (simp add: caller_ok_def)
qed

end
