(* ===== verification/Machine_Dict.thy ===== *)
theory Machine_Dict
  imports Machine_Objects
begin

text \<open>
  Dictionaries: the hash index finds the entry that a scan would find, a write changes the entry
  of its key and no other, and neither ever indexes past the entries.
\<close>

section \<open>Stores with keys\<close>

text \<open>What a scan of the entries finds, for any comparison of keys, and how a write changes it.\<close>

definition found :: "('k \<Rightarrow> 'k \<Rightarrow> bool) \<Rightarrow> 'k \<Rightarrow> ('k \<times> 'v) list \<Rightarrow> 'v option" where
  "found same k es = map_option (\<lambda>i. snd (es ! i)) (position (\<lambda>e. same (fst e) k) es)"

definition put :: "('k \<Rightarrow> 'k \<Rightarrow> bool) \<Rightarrow> 'k \<Rightarrow> 'v \<Rightarrow> ('k \<times> 'v) list \<Rightarrow> ('k \<times> 'v) list" where
  "put same k v es =
     (case position (\<lambda>e. same (fst e) k) es of
        Some i \<Rightarrow> es[i := (fst (es ! i), v)]
      | None \<Rightarrow> es @ [(k, v)])"

fun apart :: "('k \<Rightarrow> 'k \<Rightarrow> bool) \<Rightarrow> 'k list \<Rightarrow> bool" where
  "apart same [] = True"
| "apart same (k # ks) = (list_all (\<lambda>k'. \<not> same k k') ks \<and> apart same ks)"

lemma apart_snoc: "apart same (ks @ [k]) \<longleftrightarrow> apart same ks \<and> list_all (\<lambda>k'. \<not> same k' k) ks"
  by (induction ks) auto

lemma apart_nth: "apart same ks \<Longrightarrow> i < j \<Longrightarrow> j < length ks \<Longrightarrow> \<not> same (ks ! i) (ks ! j)"
proof (induction ks arbitrary: i j)
  case (Cons k ks)
  then show ?case by (cases i; cases j) (auto simp: list_all_length)
qed simp

lemma fst_update [simp]: "fst (es[i := (fst (es ! i), v)] ! j) = fst (es ! j)"
  by (cases "i = j"; cases "i < length es") (auto simp: list_update_beyond)

lemma keys_update [simp]: "map fst (es[i := (fst (es ! i), v)]) = map fst es"
  by (rule nth_equalityI) simp_all

text \<open>A comparison that is an equivalence but for keys that are not the same as themselves.\<close>

locale keyed =
  fixes same :: "'k \<Rightarrow> 'k \<Rightarrow> bool"
  assumes same_sym: "same a b \<Longrightarrow> same b a"
    and same_trans: "same a b \<Longrightarrow> same b c \<Longrightarrow> same a c"
begin

lemma position_same:
  assumes "same k k'"
  shows "position (\<lambda>e. same (fst e) k) es = position (\<lambda>e. same (fst e) k') es"
  by (rule position_cong) (use assms same_sym same_trans in blast)+

lemma apart_put: "apart same (map fst es) \<Longrightarrow> apart same (map fst (put same k v es))"
  by (auto simp: put_def apart_snoc position_None list_all_iff
      simp del: map_update dest: position_Some split: option.split)

lemma keys_put:
  "map fst (put same k v es) = (if found same k es = None then map fst es @ [k] else map fst es)"
  by (auto simp: put_def found_def simp del: map_update dest: position_Some split: option.split)

lemma position_other:
  assumes "i < length es" "\<not> same (fst (es ! i)) k"
  shows "position (\<lambda>e. same (fst e) k) (es[i := (fst (es ! i), v)]) = position (\<lambda>e. same (fst e) k) es"
  by (rule position_cong) auto

lemma found_put:
  assumes "apart same (map fst es)"
  shows "found same k' (put same k v es) = (if same k k' then Some v else found same k' es)"
proof (cases "position (\<lambda>e. same (fst e) k) es")
  case None
  then have n: "\<not> same (fst e) k" if "e \<in> set es" for e using that by (simp add: position_None)
  show ?thesis
  proof (cases "same k k'")
    case True
    then have "position (\<lambda>e. same (fst e) k') es = None" using None position_same by metis
    then show ?thesis using None True by (simp add: put_def found_def position_append)
  next
    case False
    then show ?thesis using None position_Some [of "\<lambda>e. same (fst e) k'" es]
      by (auto simp: put_def found_def position_append nth_append split: option.split)
  qed
next
  case (Some i)
  then have i: "i < length es" "same (fst (es ! i)) k" using position_Some by fastforce+
  have p: "put same k v es = es[i := (fst (es ! i), v)]" using Some by (simp add: put_def)
  show ?thesis
  proof (cases "same k k'")
    case True
    have "position (\<lambda>e. same (fst e) k') (es[i := (fst (es ! i), v)]) = position (\<lambda>e. same (fst e) k') es"
      by (rule position_cong) auto
    then have "position (\<lambda>e. same (fst e) k') (es[i := (fst (es ! i), v)]) = Some i"
      using Some position_same [OF True, of es] by simp
    then show ?thesis using p i True by (simp add: found_def)
  next
    case False
    have "\<not> same (fst (es ! i)) k'" using i(2) False same_sym same_trans by blast
    from position_other [OF i(1) this, of v] show ?thesis
      using p False i \<open>\<not> same (fst (es ! i)) k'\<close> position_Some [of "\<lambda>e. same (fst e) k'" es]
      by (cases "position (\<lambda>e. same (fst e) k') es") (auto simp: found_def nth_list_update)
  qed
qed

end

section \<open>Keys\<close>

lemma f64_key_zero: "f64_key x = 0 \<longleftrightarrow> f64_abs_bits x = 0"
  by (auto simp: f64_key_def)

lemma f64_eq_cases: "f64_eq x y \<Longrightarrow> x = y \<or> f64_abs_bits x = 0 \<and> f64_abs_bits y = 0"
  by (auto simp: f64_eq_def f64_key_def intro!: f64_eqI split: if_splits)

lemma f64_zero_whole:
  assumes "f64_abs_bits x = 0"
  shows "f64_as_i64 x = 0" "f64_eq (f64_of_int 0) x"
proof -
  have b: "bits_whole 0 = 0" by (simp add: bits_whole_def bits_mant_def)
  show "f64_as_i64 x = 0"
    using assms b by (simp add: f64_as_i64_def f64_is_nan_def f64_is_finite_def f64_inf_bits_def f64_whole_def)
  have "f64_of_int 0 = 0" by (simp add: f64_of_int_def f64_of_scaled_def f64_round_def f64_make_def)
  moreover have "f64_abs_bits 0 = 0" by (simp add: f64_abs_bits_def)
  ultimately show "f64_eq (f64_of_int 0) x"
    using assms by (simp add: f64_eq_def f64_is_nan_def f64_key_def f64_inf_bits_def)
qed

lemma as_string_scalar [simp]:
  "as_string h KNil = None" "as_string h (KBool b) = None" "as_string h (KNumber x) = None"
  by (simp_all add: as_string_def object_at_def)

text \<open>Keys that are the same have the same hash, so a hash map finds what a scan finds.\<close>

lemma same_key_hash: "same_key h a b \<Longrightarrow> key_hash h a = key_hash h b"
proof (cases "\<exists>x y. a = KNumber x \<and> b = KNumber y")
  case True
  then obtain x y where n: "a = KNumber x" "b = KNumber y" by blast
  assume "same_key h a b"
  then have "x = y \<or> f64_abs_bits x = 0 \<and> f64_abs_bits y = 0" using f64_eq_cases n by (simp add: same_key_def)
  then show ?thesis using n f64_zero_whole [of x] f64_zero_whole [of y] by (auto simp: key_hash_def)
next
  case False
  assume "same_key h a b"
  then have s: "a = b \<or> as_string h a \<noteq> None \<and> as_string h a = as_string h b"
    using False by (cases a; cases b) (auto simp: same_key_def)
  have o: "\<exists>p. v = KObj p" if "as_string h v \<noteq> None" for v
    using that by (cases v) (simp_all add: as_string_def object_at_def)
  from s show ?thesis
  proof
    assume t: "as_string h a \<noteq> None \<and> as_string h a = as_string h b"
    then obtain p q where "a = KObj p" "b = KObj q" using o by metis
    then show ?thesis using t by (auto simp: key_hash_def split: option.split)
  qed simp
qed

interpretation keys: keyed "same_key h" for h
proof
  show "same_key h b a" if "same_key h a b" for a b
    using that by (cases a; cases b) (simp_all add: same_key_def f64_eq_def, metis+)
  show "same_key h a c" if "same_key h a b" "same_key h b c" for a b c
    using that by (cases a; cases b; cases c) (auto simp: same_key_def f64_eq_def)
qed

section \<open>The index\<close>

text \<open>The keys are all different, and the index, which a small dictionary has none of, has them all.\<close>

definition dict_ok :: "object list \<Rightarrow> dict_storage \<Rightarrow> bool" where
  "dict_ok h d \<longleftrightarrow>
     apart (same_key h) (map fst (entries d)) \<and>
     (case dict_index d of
        None \<Rightarrow> length (entries d) \<le> SCANNED
      | Some m \<Rightarrow> m = zip (map fst (entries d)) [0..<length (entries d)])"

lemma index_of_scan:
  assumes "dict_ok h d"
  shows "index_of h d k = position (\<lambda>e. same_key h (fst e) k) (entries d)"
proof (cases "dict_index d")
  case None
  then show ?thesis by (simp add: index_of_def)
next
  case (Some m)
  then have m: "m = zip (map fst (entries d)) [0..<length (entries d)]" using assms by (simp add: dict_ok_def)
  have "hash_meets h k e \<longleftrightarrow> same_key h (fst e) k" for e :: "const \<times> nat"
    using same_key_hash by (auto simp: hash_meets_def)
  then have p: "position (hash_meets h k) m = position (\<lambda>e. same_key h (fst e) k) (entries d)"
    using m by (intro position_cong) simp_all
  have "map_option (\<lambda>j. snd (m ! j)) (position (hash_meets h k) m) = position (hash_meets h k) m"
    using m position_Some [of "hash_meets h k" m] by (cases "position (hash_meets h k) m") auto
  then show ?thesis using Some p by (simp add: index_of_def hash_get_def)
qed

lemma hash_insert_new:
  "list_all (\<lambda>e. \<not> same_key h (fst e) k) m \<Longrightarrow> hash_insert h k i m = m @ [(k, i)]"
  by (auto simp: hash_insert_def hash_meets_def list_all_iff position_None dest!: position_Some split: option.split)

lemma keys_of_index: "m = zip (map fst es) [0..<length es] \<Longrightarrow> list_all (\<lambda>e. P (fst e)) m = list_all P (map fst es)"
  by (simp add: list_all_length)

lemma reindex_from_apart:
  "apart (same_key h) (map fst es) \<Longrightarrow> reindex_from h es = zip (map fst es) [0..<length es]"
proof (induction es rule: rev_induct)
  case Nil
  then show ?case by (simp add: reindex_from_def)
next
  case (snoc e es)
  then have e: "apart (same_key h) (map fst es)" "list_all (\<lambda>k. \<not> same_key h k (fst e)) (map fst es)"
    by (simp_all add: apart_snoc)
  have "reindex_from h (es @ [e]) = hash_insert h (fst e) (length es) (reindex_from h es)"
    by (simp add: reindex_from_def enumerate_append_eq)
  also have "\<dots> = zip (map fst es) [0..<length es] @ [(fst e, length es)]"
    using snoc.IH [OF e(1)] keys_of_index [OF refl, of "\<lambda>k. \<not> same_key h k (fst e)" es] e(2)
    by (simp add: hash_insert_new)
  finally show ?case by simp
qed

text \<open>A write is \<open>put\<close>, and keeps the index in step.\<close>

lemma dict_set_put:
  assumes "dict_ok h d"
  shows "\<exists>d'. dict_set h k v d = Some d' \<and> dict_ok h d' \<and> entries d' = put (same_key h) k v (entries d)"
proof (cases "position (\<lambda>e. same_key h (fst e) k) (entries d)")
  case (Some i)
  then have i: "i < length (entries d)" using position_Some by blast
  let ?d = "d\<lparr>entries := (entries d)[i := (fst (entries d ! i), v)]\<rparr>"
  have "dict_set h k v d = Some ?d"
    using Some i by (simp add: dict_set_def index_of_scan [OF assms] index_def)
  moreover have "dict_ok h ?d"
    using assms by (cases "dict_index d") (simp_all add: dict_ok_def del: map_update)
  ultimately show ?thesis using Some by (simp add: put_def)
next
  case None
  let ?es = "entries d @ [(k, v)]"
  have new: "list_all (\<lambda>k'. \<not> same_key h k' k) (map fst (entries d))"
    using None by (simp add: position_None list_all_iff)
  then have a: "apart (same_key h) (map fst ?es)" using assms by (simp add: dict_ok_def apart_snoc)
  have p: "put (same_key h) k v (entries d) = ?es" using None by (simp add: put_def)
  show ?thesis
  proof (cases "dict_index d")
    case x: None
    show ?thesis
      using a p None x reindex_from_apart [OF a]
      by (simp add: dict_set_def index_of_scan [OF assms] Let_def dict_ok_def reindex_def not_less)
  next
    case (Some m)
    then have m: "m = zip (map fst (entries d)) [0..<length (entries d)]" using assms by (simp add: dict_ok_def)
    then have "hash_insert h k (length (entries d)) m = m @ [(k, length (entries d))]"
      using keys_of_index [OF m, of "\<lambda>k'. \<not> same_key h k' k"] new by (simp add: hash_insert_new)
    then show ?thesis
      using a p None Some m by (simp add: dict_set_def index_of_scan [OF assms] Let_def dict_ok_def)
  qed
qed

lemma dict_get_found: "dict_ok h d \<Longrightarrow> dict_get h d k = Some (found (same_key h) k (entries d))"
  using position_Some [of "\<lambda>e. same_key h (fst e) k" "entries d"]
  by (auto simp: dict_get_def index_of_scan found_def index_def split: option.split)

lemma dict_ok_new: "dict_ok h dict_new"
  by (simp add: dict_ok_def dict_new_def)

lemma dict_set_all_ok: "dict_ok h d \<Longrightarrow> \<exists>d'. dict_set_all h es d = Some d' \<and> dict_ok h d'"
proof (induction es arbitrary: d)
  case (Cons e es)
  then show ?case using dict_set_put [OF Cons.prems, of "fst e" "snd e"] by auto
qed simp

lemma distinct_pairs_apart: "distinct_pairs h ps \<Longrightarrow> apart (same_key h) (map fst ps)"
proof (induction ps rule: rev_induct)
  case (snoc p ps)
  have "distinct_pairs h ps" using snoc.prems
    by (fastforce simp: distinct_pairs_def list_all_iff enumerate_append_eq in_set_enumerate_eq)
  moreover have "list_all (\<lambda>k. \<not> same_key h k (fst p)) (map fst ps)"
    using snoc.prems by (simp add: distinct_pairs_def list_all_iff enumerate_append_eq)
  ultimately show ?case using snoc.IH by (simp add: apart_snoc)
qed simp

lemma from_pairs_ok: "\<exists>d. from_pairs h ps = Some d \<and> dict_ok h d"
  using dict_set_all_ok [OF dict_ok_new] distinct_pairs_apart [of h ps]
  by (auto simp: from_pairs_def dict_ok_def)

end
