(* ===== verification/Machine_Boot.thy ===== *)
theory Machine_Boot
  imports Machine_Loop Machine_Dict Codegen_Props
begin

text \<open>
  From the code generator to the machine: a heap of compiled functions is one that the machine
  may start on, so that a run of a compiled program never leaves its registers.
\<close>

section \<open>The heap of the compiler in the machine\<close>

primrec vm_object :: "obj \<Rightarrow> object" where
  "vm_object (OString t) = ObjStr t"
| "vm_object (OBigInt i) = ObjBigInt i"
| "vm_object (OFunction f) = ObjFunc f"

text \<open>
  A machine that is about to run what the compiler has left in the heap. Its other objects, the
  classes and natives that are there from the start among them, are no functions.
\<close>

definition about_to_run :: "heap \<Rightarrow> vm \<Rightarrow> bool" where
  "about_to_run h s \<longleftrightarrow>
     (\<exists>rest. objs s = map vm_object (objects h) @ rest \<and> list_all inert rest) \<and>
     frames s = [] \<and> catch_stack s = [] \<and> open_upvalues s = []"

definition pool_fits :: "obj_function \<Rightarrow> bool" where
  "pool_fits f \<longleftrightarrow> length (constants (fn_chunk f)) \<le> 2 ^ 16"

lemma vm_object_func: "vm_object ob = ObjFunc f \<longleftrightarrow> ob = OFunction f"
  by (cases ob) simp_all

lemma vm_object_closed: "vm_object ob \<noteq> ObjUpvalue u"
  by (cases ob) simp_all

lemma chunk_fits:
  assumes "chunk_ok True obs (num_registers f) k len (fn_chunk f)" "pool_fits f"
    "code (fn_chunk f) \<noteq> []" "is_return (last (code (fn_chunk f)))"
  shows "fits_registers (map vm_object obs @ rest) f"
  unfolding fits_registers_def
proof (intro conjI ballI)
  have ok: "instr_ok True obs (num_registers f) k (fn_chunk f) i" if "i \<in> set (code (fn_chunk f))" for i
    using that assms(1) by (simp add: chunk_ok_def)
  obtain src where "last (code (fn_chunk f)) = IReturn src"
    using assms(4) by (cases "last (code (fn_chunk f))") (simp_all add: is_return_def)
  then have "IReturn src \<in> set (code (fn_chunk f))" using assms(3) by (metis last_in_set)
  from ok [OF this] show "0 < num_registers f" by (auto simp: instr_ok_def)
  fix i assume i: "i \<in> set (code (fn_chunk f))"
  show "regs_below (num_registers f) i" using ok [OF i] by (simp add: instr_ok_def)
  show "captures_fit (map vm_object obs @ rest) f i"
    unfolding captures_fit_def
  proof (intro allI impI)
    fix dst proto v p r
    assume a: "i = IClosure dst proto" "index (constants (fn_chunk f)) proto = Some v"
      "as_func (map vm_object obs @ rest) v = Some p" "UpLocal r \<in> set (fn_upvalues p)"
    have "pooled_in True obs (num_registers f) k (constants (fn_chunk f)) UProto proto"
      using ok [OF i] a(1) by (simp add: instr_ok_def)
    then obtain j g where g: "v = KObj j" "j < length obs" "obs ! j = OFunction g"
      "captures_ok True (num_registers f) k (fn_upvalues g)"
      using a(2) assms(2) by (auto simp: pooled_in_def const_fits_def pool_fits_def index_def split: if_splits)
    then have "as_func (map vm_object obs @ rest) v = Some g"
      by (simp add: as_func_def object_at_def nth_append)
    then have "p = g" using a(3) by simp
    then show "r < num_registers f" using g(4) a(4) by (fastforce simp: captures_ok_def)
  qed
qed

lemma about_to_run_ok:
  assumes "about_to_run h s" "heap_ok True h" "\<forall>fn. OFunction fn \<in> set (objects h) \<longrightarrow> pool_fits fn"
  shows "vm_ok s"
proof -
  obtain rest where r: "objs s = map vm_object (objects h) @ rest" "list_all inert rest"
    and e: "frames s = []" "catch_stack s = []" "open_upvalues s = []"
    using assms(1) by (auto simp: about_to_run_def)
  have old: "a < length (objects h) \<and> vm_object (objects h ! a) = objs s ! a" if "a < length (objs s)" "\<not> inert (objs s ! a)" for a
    using that r by (cases "a < length (objects h)") (auto simp: nth_append list_all_length)
  have "functions_fit (objs s)"
    unfolding functions_fit_def
  proof (intro allI impI)
    fix a f assume a: "a < length (objs s)" "objs s ! a = ObjFunc f"
    then have o: "a < length (objects h)" "objects h ! a = OFunction f"
      using old [OF a(1)] vm_object_func by (auto simp: inert_def)
    then have "OFunction f \<in> set (objects h)" by (metis nth_mem)
    then have f: "function_ok True (objects h) f" "pool_fits f" using assms(2,3) by (simp_all add: heap_ok_def)
    show "fits_registers (objs s) f"
      unfolding r(1) using f by (auto simp: function_ok_def intro!: chunk_fits)
  qed
  moreover have "upvalues_fit (objs s) (length (registers s)) []"
    using old vm_object_closed by (fastforce simp: upvalues_fit_def inert_def)
  ultimately show ?thesis using e by (simp add: vm_ok_def frames_fit_def handlers_fit_def)
qed

section \<open>Running\<close>

text \<open>A new function, where no code could have captured for it yet.\<close>

lemma add_function_ok:
  assumes "vm_ok s" "frames s = []" "catch_stack s = []" "open_upvalues s = []" "functions_fit (objs s @ [ObjFunc f])"
  shows "vm_ok (s\<lparr>objs := objs s @ [ObjFunc f]\<rparr>)"
  using assms by (auto simp: vm_ok_def frames_fit_def handlers_fit_def upvalues_fit_def nth_append less_Suc_eq)

lemma booted_functions_fit:
  assumes "heap_ok True h" "\<forall>fn. OFunction fn \<in> set (objects h) \<longrightarrow> pool_fits fn"
    "main_ok True (objects h) f" "pool_fits f" "list_all inert rest"
  shows "functions_fit (map vm_object (objects h) @ rest @ [ObjFunc f])"
  unfolding functions_fit_def
proof (intro allI impI)
  fix a g assume a: "a < length (map vm_object (objects h) @ rest @ [ObjFunc f])"
    "(map vm_object (objects h) @ rest @ [ObjFunc f]) ! a = ObjFunc g"
  show "fits_registers (map vm_object (objects h) @ rest @ [ObjFunc f]) g"
  proof (cases "a < length (objects h)")
    case True
    then have "objects h ! a = OFunction g" using a(2) by (simp add: nth_append vm_object_func)
    then have "OFunction g \<in> set (objects h)" using True by (metis nth_mem)
    then have g: "function_ok True (objects h) g" "pool_fits g" using assms(1,2) by (simp_all add: heap_ok_def)
    show ?thesis
      using g by (auto simp: function_ok_def intro!: chunk_fits)
  next
    case False
    have "g = f"
    proof (cases "a - length (objects h) < length rest")
      case True
      then have "rest ! (a - length (objects h)) = ObjFunc g" using False a(2) by (simp add: nth_append)
      then have "inert (ObjFunc g)" using assms(5) True by (metis list_all_length)
      then show ?thesis by (simp add: inert_def)
    next
      case x: False
      then have "a = length (objects h) + length rest" using False a(1) by simp
      then show ?thesis using a(2) by (simp add: nth_append)
    qed
    then show ?thesis
      using assms(3,4) by (auto simp: main_ok_def intro: chunk_fits)
  qed
qed

lemma inert_alloc_ok: "vm_ok s \<Longrightarrow> inert ob \<Longrightarrow> vm_ok (s\<lparr>objs := objs s @ [ob]\<rparr>)"
  by (simp add: vm_ok_inert inert_append)

text \<open>The state that the loop starts in.\<close>

lemma run_main_at:
  assumes "vm_ok s" "as_closure (objs s) main = Some (fv, ups)" "as_func (objs s) fv = Some f"
    "frames s = []" "open_upvalues s = []"
  obtains t where "run_main H n main s = run_until H (call_at H n) n 0 t" "vm_ok t" "length (frames t) = 1"
proof -
  let ?rs = "take (num_registers f) (registers s) @ replicate (num_registers f - length (registers s)) KNil"
  define u where "u = s\<lparr>registers := ?rs\<rparr>"
  have l: "length (registers u) = num_registers f" by (simp add: u_def min_def)
  have "vm_ok u" using assms(1,4,5) by (cases "catch_stack s") (simp_all add: vm_ok_def frames_fit_def handlers_fit_def upvalues_fit_def u_def)
  then have t: "vm_ok (u\<lparr>frames := frames u @ [frame_for fv main 0 0]\<rparr>)"
    using push_ok [of u fv f 0 0 main] assms(3,4) l by (simp add: u_def)
  have "run_main H n main s = run_until H (call_at H n) n 0 (u\<lparr>frames := frames u @ [frame_for fv main 0 0]\<rparr>)"
    using assms(2,3) by (simp add: run_main_def then_do_def get_def or_panic_def change_def push_frame_def u_def)
  then show thesis by (rule that [OF _ t]) (simp add: u_def assms(4))
qed

lemma run_program_ok:
  assumes "about_to_run h s" "heap_ok True h" "main_ok True (objects h) f"
    "\<forall>fn. OFunction fn \<in> set (objects h) \<longrightarrow> pool_fits fn" "pool_fits f" "host_ok H"
  shows "case run_program H n f s of
      Done v t \<Rightarrow> vm_ok t \<and> frames t = []
    | Raised e t \<Rightarrow> vm_ok t
    | Panic \<Rightarrow> True | Undefined \<Rightarrow> False | Unfinished \<Rightarrow> True"
proof -
  obtain rest where r: "objs s = map vm_object (objects h) @ rest" "list_all inert rest"
    and e: "frames s = []" "catch_stack s = []" "open_upvalues s = []"
    using assms(1) by (auto simp: about_to_run_def)
  let ?fv = "KObj (length (objs s))" and ?main = "KObj (length (objs s) + 1)"
  define u where "u = s\<lparr>objs := objs s @ [ObjFunc f]\<rparr>"
  define w where "w = u\<lparr>objs := objs u @ [ObjClosure ?fv []]\<rparr>"
  have "functions_fit (objs s @ [ObjFunc f])"
    using booted_functions_fit [OF assms(2,4,3,5) r(2)] by (simp add: r(1))
  then have "vm_ok u" unfolding u_def
    by (rule add_function_ok [OF about_to_run_ok [OF assms(1,2,4)] e])
  then have w: "vm_ok w" unfolding w_def by (rule inert_alloc_ok) simp
  have c: "as_closure (objs w) ?main = Some (?fv, [])"
    by (simp add: w_def u_def as_closure_def object_at_def nth_append)
  have f: "as_func (objs w) ?fv = Some f"
    by (simp add: w_def u_def as_func_def object_at_def nth_append)
  obtain t where t: "run_main H n ?main w = run_until H (call_at H n) n 0 t" "vm_ok t" "length (frames t) = 1"
    by (rule run_main_at [OF w c f]) (use e in \<open>simp_all add: w_def u_def\<close>)
  have "run_program H n f s = run_main H n ?main w"
    by (simp add: run_program_def alloc_plain_closure_def then_do_def alloc_def u_def w_def)
  moreover have "run_ok (run_until H (call_at H n) n)"
    by (rule run_until_ok [OF assms(6) call_at_ok [OF assms(6)]])
  from this [unfolded run_ok_def, rule_format, OF t(2), of 0] t(3)
  have "case run_until H (call_at H n) n 0 t of
           Done v u \<Rightarrow> vm_ok u \<and> advances t u \<and> frames u = take 0 (frames t)
         | Raised e u \<Rightarrow> vm_ok u \<and> advances t u \<and> prefix (take 0 (frames t)) (frames u)
         | Panic \<Rightarrow> True | Undefined \<Rightarrow> False | Unfinished \<Rightarrow> True" by simp
  ultimately show ?thesis
    using t(1) by (cases "run_until H (call_at H n) n 0 t") simp_all
qed

end
