(* ===== verification/Machine_Props.thy ===== *)
theory Machine_Props
  imports Machine_Boot
begin

text \<open>
  What the machine promises: a compiled program never leaves its registers, a captured variable
  keeps its value when its frame goes away, an error goes to the innermost handler of the run,
  and a dictionary is a map.
\<close>

section \<open>A small program to run\<close>

definition still_host :: host where
  "still_host = \<lparr>shown = (\<lambda>_. []), powf = (\<lambda>x y. x), big_quot = (div), big_mod = (mod), big_power = (^),
     big_bitwise = (\<lambda>_ _ _. None), stack_depth = 8, builtin_method = (\<lambda>_ _ _. None),
     run_native = (\<lambda>f call as. give (Inr KNil)), import_module = (\<lambda>call i p. fail KNil)\<rparr>"

lemma still_host_ok: "host_ok still_host"
  by (simp add: host_ok_def still_host_def steady_give steady_fail)

definition machine_new :: "object list \<Rightarrow> vm" where
  "machine_new obs = \<lparr>registers = [], open_upvalues = [], frames = [], global_slots = [], global_names = Map.empty,
     global_cache = Map.empty, catch_stack = [], builtin_errors = Map.empty, interned_ascii = [], objs = obs,
     printed = [], pending_error = None\<rparr>"

lemma machine_new_objs [simp]: "objs (machine_new obs) = obs"
  by (simp add: machine_new_def)

lemma machine_new_about_to_run: "about_to_run h (machine_new (map vm_object (objects h)))"
  by (simp add: about_to_run_def machine_new_def)

text \<open>What the code of a program asks for, and what it comes to.\<close>

definition asks_for :: "(parser_error list + obj_function \<times> heap) run \<Rightarrow> (nat \<times> nat list) option" where
  "asks_for r =
     (case r of
        Inr (Inr (f, h)) \<Rightarrow>
          Some (num_registers f, length (constants (fn_chunk f)) #
            List.map_filter (\<lambda>ob. case ob of OFunction fn \<Rightarrow> Some (length (constants (fn_chunk fn))) | _ \<Rightarrow> None) (objects h))
      | _ \<Rightarrow> None)"

lemma asks_for_fits:
  assumes "asks_for r = Some (n, ls)" "\<forall>l \<in> set ls. l \<le> 2 ^ 16"
  obtains f h where "r = Inr (Inr (f, h))" "num_registers f = n" "pool_fits f"
    "\<forall>fn. OFunction fn \<in> set (objects h) \<longrightarrow> pool_fits fn"
proof -
  obtain f h where r: "r = Inr (Inr (f, h))"
    using assms(1) by (auto simp: asks_for_def split: sum.splits)
  then have l: "n = num_registers f" "length (constants (fn_chunk f)) \<in> set ls"
    "OFunction fn \<in> set (objects h) \<Longrightarrow> length (constants (fn_chunk fn)) \<in> set ls" for fn
    using assms(1) by (force simp: asks_for_def List.map_filter_def)+
  show thesis by (rule that [OF r]) (use l assms(2) in \<open>auto simp: pool_fits_def\<close>)
qed

definition main_of :: "(parser_error list + obj_function \<times> heap) run \<Rightarrow> obj_function" where
  "main_of r = (case r of Inr (Inr (f, h)) \<Rightarrow> f | _ \<Rightarrow> undefined)"

definition ran :: "(parser_error list + obj_function \<times> heap) run \<Rightarrow> nat \<Rightarrow> (const \<times> nat) option" where
  "ran r n =
     (case r of
        Inr (Inr (f, h)) \<Rightarrow>
          (case run_program still_host n f (machine_new (map vm_object (objects h))) of
             Done v t \<Rightarrow> Some (v, length (global_slots t)) | _ \<Rightarrow> None)
      | _ \<Rightarrow> None)"

section \<open>Programs\<close>



section \<open>Captured variables\<close>

lemma read_upvalue_Done:
  "read_upvalue u s = Done x s \<longleftrightarrow>
     (\<exists>a < length (objs s). u = KObj a \<and>
        (objs s ! a = ObjUpvalue (Closed x) \<or>
         (\<exists>i < length (registers s). objs s ! a = ObjUpvalue (Open i) \<and> x = registers s ! i)))"
proof (cases "as_upvalue (objs s) u")
  case None
  then show ?thesis
    by (auto simp: read_upvalue_def then_do_def get_def or_panic_def as_upvalue_def object_at_def)
next
  case (Some st)
  then obtain a where a: "u = KObj a" "a < length (objs s)" "objs s ! a = ObjUpvalue st"
    by (auto simp: as_upvalue_def object_at_def split: const.splits object.splits if_splits)
  then show ?thesis
    using Some by (cases st) (auto simp: read_upvalue_def then_do_def get_def or_panic_def give_def
        read_register_def index_def)
qed

text \<open>
  C9. Closing the captured variables from a register on never panics. Afterwards every captured
  variable reads as it did, and one that lived in those registers keeps its value whatever the
  registers are used for next; those below stay shared with their frame.
\<close>

theorem closing_keeps_variables:
  assumes "vm_ok s"
  shows "\<exists>t. close_upvalues_from lo s = Done () t \<and> vm_ok t \<and> registers t = registers s \<and> frames t = frames s \<and>
    set (open_upvalues t) = {e \<in> set (open_upvalues s). fst e < lo} \<and>
    (\<forall>u x. read_upvalue u s = Done x s \<longrightarrow> read_upvalue u t = Done x t) \<and>
    (\<forall>u i rs. (i, u) \<in> set (open_upvalues s) \<and> lo \<le> i \<longrightarrow>
       read_upvalue u (t\<lparr>registers := rs\<rparr>) = Done (registers s ! i) (t\<lparr>registers := rs\<rparr>))"
proof -
  obtain ous where c:
    "close_upvalues_from lo s = Done () (s\<lparr>open_upvalues := ous, objs := map (closed_from lo (registers s)) (objs s)\<rparr>)"
    "set ous = {e \<in> set (open_upvalues s). fst e < lo}"
    "vm_ok (s\<lparr>open_upvalues := ous, objs := map (closed_from lo (registers s)) (objs s)\<rparr>)"
    by (rule close_upvalues_ok [OF assms])
  let ?t = "s\<lparr>open_upvalues := ous, objs := map (closed_from lo (registers s)) (objs s)\<rparr>"
  have "read_upvalue u ?t = Done x ?t" if "read_upvalue u s = Done x s" for u x
    using that unfolding read_upvalue_Done by auto
  moreover have "read_upvalue u (?t\<lparr>registers := rs\<rparr>) = Done (registers s ! i) (?t\<lparr>registers := rs\<rparr>)"
    if i: "(i, u) \<in> set (open_upvalues s)" "lo \<le> i" for u i rs
  proof -
    have "upvalues_fit (objs s) (length (registers s)) (open_upvalues s)" using assms by (simp add: vm_ok_def)
    from upvalues_fitD(2) [OF this i(1)] obtain a
      where a: "a < length (objs s)" "u = KObj a" "objs s ! a = ObjUpvalue (Open i)" by blast
    then show ?thesis using i(2) by (simp add: read_upvalue_Done)
  qed
  ultimately show ?thesis using c by (intro exI [of _ ?t]) simp
qed

definition one_captured :: vm where
  "one_captured = (machine_new [ObjUpvalue (Open 1)])\<lparr>registers := [KNil, KBool True], open_upvalues := [(1, KObj 0)]\<rparr>"

lemma one_captured_ok: "vm_ok one_captured"
  by (simp add: vm_ok_def one_captured_def machine_new_def functions_fit_def frames_fit_def handlers_fit_def upvalues_fit_def)

theorem closing_keeps_variables_witness:
  "\<exists>t. close_upvalues_from 1 one_captured = Done () t \<and>
     read_upvalue (KObj 0) (t\<lparr>registers := []\<rparr>) = Done (KBool True) (t\<lparr>registers := []\<rparr>)"
proof -
  have "(1, KObj 0) \<in> set (open_upvalues one_captured)" "registers one_captured ! 1 = KBool True"
    by (simp_all add: one_captured_def)
  then show ?thesis using closing_keeps_variables [OF one_captured_ok, of 1] by fastforce
qed

section \<open>Handlers\<close>

lemma left_open:
  assumes "vm_ok s" "left d s t"
  shows "set (open_upvalues t) =
    (if d < length (frames s) then {e \<in> set (open_upvalues s). fst e < frame_base (frames s ! d)}
     else set (open_upvalues s))"
proof (cases "d < length (frames s)")
  case True
  let ?lo = "frame_base (frames s ! d)"
  obtain ous where "close_upvalues_from ?lo s =
      Done () (s\<lparr>open_upvalues := ous, objs := map (closed_from ?lo (registers s)) (objs s)\<rparr>)"
    "set ous = {e \<in> set (open_upvalues s). fst e < ?lo}"
    by (rule close_upvalues_ok [OF assms(1)])
  moreover have "close_upvalues_from ?lo s = Done () t" using assms(2) True by (simp add: left_def)
  ultimately show ?thesis using True by auto
next
  case False
  then show ?thesis using assms(2) by (simp add: left_def)
qed

text \<open>
  C8. An error for which the run has a handler does not end the run: it goes on at the innermost
  one, in the frame that set it, with the frames above gone, the error in the handler's variable
  and no other register changed. The variables captured in the frames that are gone are closed;
  those of the frame that goes on stay open, also those of a block that the error has left.
\<close>

theorem error_reaches_handler:
  assumes "vm_ok s" "catch_stack s \<noteq> []" "k = last (catch_stack s)" "stop < frame_depth k"
  shows "\<exists>t. handle_error exc stop s = Done () t \<and> vm_ok t \<and>
    0 < frame_depth k \<and> frame_depth k \<le> length (frames s) \<and>
    frames t = at_ip (resume_ip k) (take (frame_depth k) (frames s)) \<and>
    catch_stack t = butlast (catch_stack s) \<and>
    (case var_reg k of
       None \<Rightarrow> registers t = registers s
     | Some r \<Rightarrow>
         (let i = frame_base (frames s ! (frame_depth k - 1)) + r
          in i < length (registers s) \<and> registers t = (registers s)[i := exc])) \<and>
    set (open_upvalues t) =
      (if frame_depth k < length (frames s)
       then {e \<in> set (open_upvalues s). fst e < frame_base (frames s ! frame_depth k)}
       else set (open_upvalues s))"
proof -
  obtain t where t: "left (frame_depth k) s t" "vm_ok t" "advances s t" "frames t = frames s"
    "registers t = registers s" "catch_stack t = catch_stack s"
    by (rule left_ok [OF assms(1)])
  have h: "handle_error exc stop s = Done () (resumed k exc t)"
    by (rule handle_error_at [OF assms(1-4) t(1,4,5,6)])
  have v: "vm_ok (resumed k exc t)" by (rule resumed_ok(1) [OF t(2)]) (use t(6) assms(2,3) in simp_all)
  have "k \<in> set (catch_stack s)" using assms(2,3) by simp
  note w = handler_window [OF assms(1) this]
  have r: "case var_reg k of None \<Rightarrow> registers (resumed k exc t) = registers s
     | Some r \<Rightarrow> (let i = frame_base (frames s ! (frame_depth k - 1)) + r
          in i < length (registers s) \<and> registers (resumed k exc t) = (registers s)[i := exc])"
    using w(3) t(4,5) by (cases "var_reg k") (simp_all add: resumed_def)
  have f: "frames (resumed k exc t) = at_ip (resume_ip k) (take (frame_depth k) (frames s))"
    "catch_stack (resumed k exc t) = butlast (catch_stack s)" "open_upvalues (resumed k exc t) = open_upvalues t"
    using t(4,6) by (simp_all add: resumed_def)
  show ?thesis
    by (intro exI [of _ "resumed k exc t"] conjI h v w(1,2) f(1,2) r) (simp only: f(3) left_open [OF assms(1) t(1)])
qed

text \<open>A frame whose handler is set, and another that it has called.\<close>

definition sample_body :: obj_function where
  "sample_body = \<lparr>fn_name = [], arity = 0, variadic = False, num_registers = 1, fn_chunk = chunk_new,
     fn_upvalues = [], fn_source_path = [], globals_module = None, fn_is_method = False, owning_class_name = None\<rparr>"

definition in_call :: vm where
  "in_call = (machine_new [ObjFunc sample_body, ObjUpvalue (Open 0), ObjUpvalue (Open 1)])\<lparr>
     registers := [KNil, KNil], open_upvalues := [(0, KObj 1), (1, KObj 2)],
     frames := [frame_for (KObj 0) KNil 0 0, frame_for (KObj 0) KNil 1 0],
     catch_stack := [\<lparr>frame_depth = 1, resume_ip = 5, var_reg = Some 0\<rparr>]\<rparr>"

lemma in_call_ok: "vm_ok in_call"
proof -
  have f: "as_func (objs in_call) (KObj 0) = Some sample_body"
    by (simp add: in_call_def machine_new_def as_func_def object_at_def)
  have "functions_fit (objs in_call)"
    by (auto simp: functions_fit_def in_call_def less_Suc_eq fits_registers_def sample_body_def chunk_new_def)
  moreover have "frames_fit (objs in_call) (length (registers in_call)) (frames in_call)"
    using f by (auto simp: frames_fit_def window_def in_call_def frame_for_def less_Suc_eq sample_body_def)
  moreover have "handlers_fit (objs in_call) (frames in_call) (catch_stack in_call)"
    using f by (simp add: handlers_fit_def window_def in_call_def frame_for_def sample_body_def)
  moreover have "upvalues_fit (objs in_call) (length (registers in_call)) (open_upvalues in_call)"
    by (auto simp: upvalues_fit_def in_call_def less_Suc_eq)
  ultimately show ?thesis by (simp add: vm_ok_def)
qed

theorem error_reaches_handler_witness:
  "\<exists>t. handle_error (KBool True) 0 in_call = Done () t \<and> registers t = [KBool True, KNil] \<and>
     map frame_ip (frames t) = [5] \<and> set (open_upvalues t) = {(0, KObj 1)}"
proof -
  have "catch_stack in_call \<noteq> []" "0 < frame_depth (last (catch_stack in_call))" by (simp_all add: in_call_def)
  from error_reaches_handler [OF in_call_ok this(1) refl this(2), of "KBool True"]
  obtain t where "handle_error (KBool True) 0 in_call = Done () t" "registers t = [KBool True, KNil]"
    "frames t = at_ip 5 (take 1 (frames in_call))" "set (open_upvalues t) = {e \<in> set (open_upvalues in_call). fst e < 1}"
    by (auto simp: in_call_def frame_for_def)
  moreover have "{e \<in> set (open_upvalues in_call). fst e < 1} = {(0, KObj 1)}" by (auto simp: in_call_def)
  ultimately show ?thesis by (simp add: at_ip_def in_call_def)
qed

section \<open>Dictionaries\<close>

text \<open>
  C10. A dictionary is a map with the order of its insertions: a write never fails, afterwards
  its key reads the new value and every other key what it read before, a new key comes last
  and one that was there keeps its place, whether keys are looked for by scanning or through
  the index. Keys are compared as the language compares numbers and strings, so that a NaN is
  never found again.
\<close>

theorem dict_write_read:
  assumes "dict_ok h d"
  shows "\<exists>d'. dict_set h k v d = Some d' \<and> dict_ok h d' \<and>
    (\<forall>k'. \<exists>x. dict_get h d k' = Some x \<and> dict_get h d' k' = Some (if same_key h k k' then Some v else x)) \<and>
    map fst (entries d') =
      (if dict_get h d k = Some None then map fst (entries d) @ [k] else map fst (entries d))"
proof -
  obtain d' where d: "dict_set h k v d = Some d'" "dict_ok h d'" "entries d' = put (same_key h) k v (entries d)"
    using dict_set_put [OF assms] by blast
  have "apart (same_key h) (map fst (entries d))" using assms by (simp add: dict_ok_def)
  then show ?thesis
    using d by (simp add: dict_get_found [OF assms] dict_get_found [OF d(2)] keys.found_put keys.keys_put)
qed

theorem dict_write_read_witness:
  "\<exists>d'. dict_set [] (KBool True) KNil dict_new = Some d' \<and> dict_get [] d' (KBool True) = Some (Some KNil) \<and>
     dict_get [] d' (KBool False) = Some None"
proof -
  have s: "same_key [] (KBool True) (KBool True)" "\<not> same_key [] (KBool True) (KBool False)"
    "dict_get [] dict_new (KBool False) = Some None"
    by (simp_all add: same_key_def dict_get_def index_of_def dict_new_def)
  obtain d' where d: "dict_set [] (KBool True) KNil dict_new = Some d'"
    "\<And>k'. \<exists>x. dict_get [] dict_new k' = Some x \<and>
       dict_get [] d' k' = Some (if same_key [] (KBool True) k' then Some KNil else x)"
    using dict_write_read [OF dict_ok_new, of "[]" "KBool True" KNil] by blast
  have "dict_get [] d' (KBool True) = Some (Some KNil)" "dict_get [] d' (KBool False) = Some None"
    using d(2) [of "KBool True"] d(2) [of "KBool False"] s by simp_all
  then show ?thesis using d(1) by blast
qed

end
