(* ===== verification/Spec2Isabelle.thy ===== *)
theory Spec2Isabelle
  imports Lexer_Props Parser_Props List_Facts Codegen_Props Machine_Props
begin

text \<open>
  The front end, the code generator and the virtual machine of the Zuri language implementation
  (\<open>src/src\<close>), as executable definitions with the theorems that make them correct.

  \<^bold>\<open>The program.\<close> A source goes through the lexer (\<open>compiler/lexer.rs\<close>), which the module
  \<open>modules/zuri_lex.rs\<close> drives to the end of the file, the parser, and the lowering pass
  (\<open>compiler/lower.rs\<close>), which takes the surface forms out of the tree (\<open>compiler/ast.rs\<close>) before
  the code generator (\<open>compiler/compiler.rs\<close>) turns it into functions of register code
  (\<open>vm/chunk.rs\<close>). The machine (\<open>vm/vm.rs\<close>) runs the function of the program over one array of
  registers, of which each frame has a window, and a heap of objects (\<open>vm/object.rs\<close>). At run
  time every value is 64 bits (\<open>vm/value.rs\<close>) and a list keeps its values in a hand made vector
  (\<open>vm/list.rs\<close>).

  \<^bold>\<open>The theories.\<close>
    \<^item> \<open>Prelude\<close>: characters as code points, panics as \<open>None\<close>, slices, casts, searches.
    \<^item> \<open>Scanning\<close>: an interface for a reader driven item by item until an end item, with what
      follows from its laws: it ends, more fuel changes nothing, its items are in order and
      cover the source.
    \<^item> \<open>F64\<close>, \<open>Numbers\<close>: doubles as their 64 bits, with the operations the code uses rounded
      once from the exact result, and the arithmetic helpers of \<open>vm/value.rs\<close>.
    \<^item> \<open>Tokens\<close>, \<open>Lexer\<close>: \<open>compiler/token.rs\<close> and \<open>compiler/lexer.rs\<close>, one definition for each
      function and for each arm of \<open>scan\<close>; \<open>Lexer_Facts\<close> has the invariant of the scanner's
      state and the interpretation of the interface above, \<open>Lexer_Props\<close> the properties.
    \<^item> \<open>Ast\<close>, \<open>Lower\<close>: the tree and the pass; \<open>Lower_Facts\<close> has predicates on all the nodes of a
      tree and the inductions, \<open>Lowering_Props\<close> the properties.
    \<^item> \<open>Parser_State\<close>, \<open>Parser_Expr\<close>, \<open>Parser\<close>: \<open>compiler/parser.rs\<close>, its state, its rules of
      expressions, and its rules of statements and declarations. \<open>Parser_Facts\<close> has the invariant
      of the state and a rule for each operation that the grammar is made of. \<open>Parser_Rules\<close> and
      \<open>Parser_Stmts\<close> run every rule of the grammar through them, in a locale whose assumptions
      are the rules further up; it is interpreted on each level of the knot. \<open>Parser_Props\<close> has
      the properties, and how the parser fits the rewriting.
    \<^item> \<open>Chunk\<close>, \<open>Codegen_State\<close>, \<open>Codegen_Tree\<close>, \<open>Codegen_Expr\<close>, \<open>Codegen\<close>: the instructions, and
      \<open>compiler/compiler.rs\<close>: its scopes and registers, what it asks of the tree, expressions and
      functions, statements, declarations and programs. \<open>Codegen_Facts\<close> states what every state
      and every step of it keeps, \<open>Codegen_Jumps\<close> and \<open>Codegen_Steps\<close> have a rule for each operation,
      \<open>Codegen_Input\<close> what each node of the tree has to be. \<open>Codegen_Rules\<close>, \<open>Codegen_Functions\<close>,
      \<open>Codegen_Stmts\<close>, \<open>Codegen_Loops\<close>, \<open>Codegen_Using\<close>, \<open>Codegen_Classes\<close> and \<open>Codegen_Decls\<close> run
      every rule of the generator through them, in a locale that assumes them of smaller trees;
      it is interpreted at every depth of the recursion. \<open>Codegen_Props\<close> has the properties.
    \<^item> \<open>Machine_Numbers\<close>, \<open>Machine_Objects\<close>: the arithmetic of the operators, and the objects,
      dictionaries and questions of \<open>vm/object.rs\<close> and \<open>vm/value.rs\<close>.
    \<^item> \<open>Machine_State\<close>, \<open>Machine_Calls\<close>, \<open>Machine\<close>, \<open>Machine_Run\<close>: \<open>vm/vm.rs\<close>: the record of the
      machine, frames, captured variables, handlers and globals; calls and operators; properties,
      classes and imports; and every instruction, the loop of \<open>run_until\<close> and \<open>VM::run\<close>.
      \<open>Machine_Facts\<close> states what each state of the machine keeps and how operations that leave the
      frames alone are put together, \<open>Machine_Upvalues\<close> what closing does, \<open>Machine_Rules\<close> and
      \<open>Machine_Steady\<close> have a rule for each operation. \<open>Machine_Moves\<close>, \<open>Machine_Safe\<close> and
      \<open>Machine_Loop\<close> do the same for what pushes, leaves and drops frames, up to runs of any
      length. \<open>Machine_Dict\<close> has the interface of a store with keys, interpreted on the keys of
      dictionaries, \<open>Machine_Boot\<close> goes from compiled functions to the heap the machine starts on,
      and \<open>Machine_Props\<close> has the properties.
    \<^item> \<open>Values\<close>: the NaN boxing of values.
    \<^item> \<open>List_Storage\<close>, \<open>List_Facts\<close>: the vector over its buffers, its invariant, its refinement
      of lists, and the interface of a sequence interpreted on it.

  \<^bold>\<open>Conventions.\<close> A panic, a failed slice and an undefined access to memory are \<open>None\<close>, so a
  theorem that gives \<open>Some\<close> says that none of them happens. Errors of the language are values:
  an error token, \<open>Inl\<close> with the message. An operation of the machine has an outcome instead:
  done, an error raised, a panic, an access the source does not check (\<open>Undefined\<close>), or
  unfinished. Machine integers are words where bits matter, and
  naturals with the cast written out where lengths do.

  \<^bold>\<open>Bounds.\<close> Loops of the lexer are bounded by what is left of the source, which each round
  shortens; \<open>tokenize_total\<close> shows that the bound of the driver is never what ends it. Loops of
  the parser, and the nesting of its rules, are bounded by the tokens that are left;
  \<open>parse_source_total\<close> shows that these bounds are never what ends it either. The recursion of
  the code generator is bounded by the size of the program, which \<open>compile_source_ends\<close> shows to
  be enough. A program of the language may run forever, so the loop of the machine has fuel for
  its turns and for the depth of the calls it makes to itself; running out of it is
  \<open>Unfinished\<close>, which is no behaviour of the program, and what is shown of the machine holds
  for every fuel.

  \<^bold>\<open>Parameters.\<close> Reading a decimal \<open>BigInt\<close> belongs to a library outside the repository, as
  does the display of doubles, and lower casing to the tables of Unicode: they are arguments,
  for the parser gathered in the record \<open>library\<close>. For the machine the record \<open>host\<close> has the
  text of a double, the power of doubles, the crate \<open>num-bigint\<close>, the depth of the native stack,
  the tables of builtin methods, the natives and the loading of modules; \<open>host_ok\<close> asks of the
  last two that they leave the machine as a call does.

  \<^bold>\<open>Not modelled.\<close> The collector, so that the heap only grows; the JIT compiler, so that the
  machine is the one that runs with it switched off; signals and calls from foreign threads at
  the safepoints of the loop, the inline caches of members, ropes, isolates, the REPL and the
  report of an uncaught error. The modules that wrap files, sockets and foreign libraries are
  input and output only.
\<close>

end
